(* ===== verification/Prelude_JS.thy ===== *)
theory Prelude_JS
  imports Main "HOL-Library.Sublist"
begin

text \<open>
  Prelude: what the modelled TypeScript takes from its language and standard library.

  Strings are lists of code units (\<open>char\<close>, code units 0 to 255). A JS \<open>Map\<close>,
  \<open>Set\<close> or plain object is an association list in insertion order, with the update
  laws of JS (\<open>set\<close> on an existing key keeps its position). A throwing function returns
  \<open>Inl message\<close> or \<open>Inr value\<close>; \<open>undefined\<close> and \<open>null\<close> are \<open>None\<close>.
\<close>

named_theorems js_simps \<open>rewrite rules for JS string, list and map primitives\<close>
named_theorems guard_simps \<open>characterisations of throwing guards\<close>

type_synonym 'a res = "string + 'a"
type_synonym ('k, 'v) jsmap = "('k \<times> 'v) list"

section \<open>Throwing code\<close>

definition ensure :: "bool \<Rightarrow> 'e \<Rightarrow> 'e + 'a \<Rightarrow> 'e + 'a" where
  "ensure ok msg k = (if ok then k else Inl msg)"

fun res_bind :: "'e + 'a \<Rightarrow> ('a \<Rightarrow> 'e + 'b) \<Rightarrow> 'e + 'b" where
  "res_bind (Inl e) f = Inl e"
| "res_bind (Inr x) f = f x"

fun is_ok :: "'e + 'a \<Rightarrow> bool" where
  "is_ok (Inl e) = False"
| "is_ok (Inr x) = True"

text \<open>\<open>xs.map(f)\<close> where \<open>f\<close> may throw: the first failure is the result.\<close>

fun map_res :: "('a \<Rightarrow> 'e + 'b) \<Rightarrow> 'a list \<Rightarrow> 'e + 'b list" where
  "map_res f [] = Inr []"
| "map_res f (x # xs) = res_bind (f x) (\<lambda>y. res_bind (map_res f xs) (\<lambda>ys. Inr (y # ys)))"

lemma ensure_Inr [guard_simps]: "ensure ok msg k = Inr x \<longleftrightarrow> ok \<and> k = Inr x"
  by (simp add: ensure_def)

lemma ensure_is_ok [guard_simps]: "is_ok (ensure ok msg k) \<longleftrightarrow> ok \<and> is_ok k"
  by (simp add: ensure_def)

lemma res_bind_Inr [guard_simps]: "res_bind r f = Inr y \<longleftrightarrow> (\<exists>x. r = Inr x \<and> f x = Inr y)"
  by (cases r) auto

lemma case_sum_Inr:
  "(case r of Inl e \<Rightarrow> Inl (g e) | Inr x \<Rightarrow> f x) = Inr y \<longleftrightarrow> (\<exists>x. r = Inr x \<and> f x = Inr y)"
  by (cases r) auto

lemma case_option_Inr:
  "(case x of None \<Rightarrow> Inl e | Some a \<Rightarrow> f a) = Inr y \<longleftrightarrow> (\<exists>a. x = Some a \<and> f a = Inr y)"
  by (cases x) auto

lemma is_ok_iff [guard_simps]: "is_ok r \<longleftrightarrow> (\<exists>x. r = Inr x)"
  by (cases r) auto

lemma map_res_Inr_iff:
  "map_res f xs = Inr ys \<longleftrightarrow> list_all2 (\<lambda>x y. f x = Inr y) xs ys"
  by (induction xs arbitrary: ys) (auto simp: guard_simps list_all2_Cons1)

lemma map_res_length: "map_res f xs = Inr ys \<Longrightarrow> length ys = length xs"
  by (auto simp: map_res_Inr_iff dest: list_all2_lengthD)

section \<open>Truthiness\<close>

definition truthy :: "string option \<Rightarrow> bool" where
  "truthy s \<longleftrightarrow> (case s of None \<Rightarrow> False | Some t \<Rightarrow> t \<noteq> [])"

lemma truthy_simps [simp, js_simps]:
  "truthy None = False" "truthy (Some t) \<longleftrightarrow> t \<noteq> []"
  by (simp_all add: truthy_def)

lemma truthy_iff: "truthy s \<longleftrightarrow> (\<exists>t. s = Some t \<and> t \<noteq> [])"
  by (cases s) auto

section \<open>Strings\<close>

definition dquote :: char where "dquote = CHR 0x22"

definition is_js_space :: "char \<Rightarrow> bool" where
  "is_js_space c \<longleftrightarrow> c \<in> set [CHR 0x20, CHR 0x09, CHR 0x0A, CHR 0x0B, CHR 0x0C, CHR 0x0D, CHR 0xA0]"

definition js_trim :: "string \<Rightarrow> string" where
  "js_trim s = rev (dropWhile is_js_space (rev (dropWhile is_js_space s)))"

text \<open>\<open>s.split(sep)\<close> for a one-character separator: never empty.\<close>

fun js_split :: "char \<Rightarrow> string \<Rightarrow> string list" where
  "js_split sep [] = [[]]"
| "js_split sep (c # cs) =
     (if c = sep then [] # js_split sep cs
      else (case js_split sep cs of [] \<Rightarrow> [[c]] | p # ps \<Rightarrow> (c # p) # ps))"

fun js_join :: "string \<Rightarrow> string list \<Rightarrow> string" where
  "js_join sep [] = []"
| "js_join sep [x] = x"
| "js_join sep (x # y # ys) = x @ sep @ js_join sep (y # ys)"

definition js_starts_with :: "string \<Rightarrow> string \<Rightarrow> bool" where
  "js_starts_with p s \<longleftrightarrow> prefix p s"

definition js_ends_with :: "string \<Rightarrow> string \<Rightarrow> bool" where
  "js_ends_with p s \<longleftrightarrow> suffix p s"

fun js_includes :: "string \<Rightarrow> string \<Rightarrow> bool" where
  "js_includes p [] = (p = [])"
| "js_includes p (c # cs) = (prefix p (c # cs) \<or> js_includes p cs)"

fun js_index_of :: "char \<Rightarrow> string \<Rightarrow> nat option" where
  "js_index_of c [] = None"
| "js_index_of c (d # ds) = (if c = d then Some 0 else map_option Suc (js_index_of c ds))"

text \<open>\<open>s.toLowerCase()\<close> on code units up to 255: A to Z, and the Latin-1 capitals.\<close>

definition lower_char :: "char \<Rightarrow> char" where
  "lower_char c = (let n = (of_char c :: nat) in
     if (65 \<le> n \<and> n \<le> 90) \<or> (192 \<le> n \<and> n \<le> 222 \<and> n \<noteq> 215) then char_of (n + 32) else c)"

definition js_lower :: "string \<Rightarrow> string" where
  "js_lower s = map lower_char s"

definition char_between :: "char \<Rightarrow> char \<Rightarrow> char \<Rightarrow> bool" where
  "char_between lo hi c \<longleftrightarrow> (of_char lo :: nat) \<le> of_char c \<and> (of_char c :: nat) \<le> of_char hi"

definition is_digit :: "char \<Rightarrow> bool" where
  "is_digit c \<longleftrightarrow> char_between (CHR ''0'') (CHR ''9'') c"

definition is_alpha :: "char \<Rightarrow> bool" where
  "is_alpha c \<longleftrightarrow> char_between (CHR ''a'') (CHR ''z'') c \<or> char_between (CHR ''A'') (CHR ''Z'') c"

definition is_alnum :: "char \<Rightarrow> bool" where
  "is_alnum c \<longleftrightarrow> is_alpha c \<or> is_digit c"

definition is_control :: "char \<Rightarrow> bool" where
  "is_control c \<longleftrightarrow> (of_char c :: nat) < 32 \<or> (of_char c :: nat) = 127"

text \<open>\<open>s.replace(/^"|"$/g, "")\<close>: one quote off each end.\<close>

definition strip_quotes :: "string \<Rightarrow> string" where
  "strip_quotes s =
     (let t = (case s of [] \<Rightarrow> [] | c # cs \<Rightarrow> if c = dquote then cs else s)
      in if t \<noteq> [] \<and> last t = dquote then butlast t else t)"

definition quoted :: "string \<Rightarrow> string" where
  "quoted s = [dquote] @ s @ [dquote]"

lemma js_split_nonempty [simp]: "js_split sep s \<noteq> []"
  by (induction s) (auto split: list.splits)

lemma js_split_no_sep: "p \<in> set (js_split sep s) \<Longrightarrow> sep \<notin> set p"
proof (induction s arbitrary: p)
  case Nil
  then show ?case by simp
next
  case (Cons c cs)
  obtain q qs where q: "js_split sep cs = q # qs"
    using js_split_nonempty [of sep cs] by (cases "js_split sep cs") auto
  with Cons show ?case by (auto split: if_splits)
qed

lemma js_split_subset: "p \<in> set (js_split sep s) \<Longrightarrow> set p \<subseteq> set s"
proof (induction s arbitrary: p)
  case (Cons d ds)
  obtain q qs where q: "js_split sep ds = q # qs"
    using js_split_nonempty [of sep ds] by (cases "js_split sep ds") auto
  with Cons.IH have "set q \<subseteq> set ds" "\<And>r. r \<in> set qs \<Longrightarrow> set r \<subseteq> set ds" by simp_all
  with Cons.prems q show ?case by (auto split: if_splits)
qed simp

lemma dropWhile_Nil_iff: "dropWhile P xs = [] \<longleftrightarrow> (\<forall>x\<in>set xs. P x)"
  by (induction xs) auto

lemma js_trim_Nil_iff: "js_trim s = [] \<longleftrightarrow> (\<forall>c\<in>set s. is_js_space c)"
proof -
  have "js_trim s = [] \<longleftrightarrow> (\<forall>c\<in>set (dropWhile is_js_space s). is_js_space c)"
    by (auto simp: js_trim_def dropWhile_Nil_iff)
  also have "\<dots> \<longleftrightarrow> (\<forall>c\<in>set s. is_js_space c)"
    by (metis (mono_tags, lifting) Un_iff set_append set_takeWhileD takeWhile_dropWhile_id)
  finally show ?thesis .
qed

lemma js_join_Cons: "ys \<noteq> [] \<Longrightarrow> js_join sep (x # ys) = x @ sep @ js_join sep ys"
  by (cases ys) auto

lemma js_join_split: "js_join [sep] (js_split sep s) = s"
proof (induction s)
  case Nil
  then show ?case by simp
next
  case (Cons c cs)
  obtain q qs where q: "js_split sep cs = q # qs"
    using js_split_nonempty [of sep cs] by (cases "js_split sep cs") auto
  then show ?case
    using Cons.IH by (cases qs) auto
qed

lemma js_split_single: "sep \<notin> set p \<Longrightarrow> js_split sep p = [p]"
  by (induction p) auto

lemma js_split_append: "sep \<notin> set p \<Longrightarrow> js_split sep (p @ sep # s) = p # js_split sep s"
  by (induction p) auto

lemma js_split_join:
  "ps \<noteq> [] \<Longrightarrow> (\<forall>p\<in>set ps. sep \<notin> set p) \<Longrightarrow> js_split sep (js_join [sep] ps) = ps"
proof (induction ps)
  case Nil
  then show ?case by simp
next
  case (Cons p ps)
  then show ?case
    by (cases ps) (auto simp: js_split_single js_split_append)
qed

lemma js_index_of_Some:
  "js_index_of c s = Some i \<Longrightarrow> i < length s \<and> s ! i = c \<and> c \<notin> set (take i s)"
  by (induction s arbitrary: i) (auto split: if_splits)

lemma js_index_of_None: "js_index_of c s = None \<longleftrightarrow> c \<notin> set s"
  by (induction s) auto

section \<open>Arrays\<close>

text \<open>\<open>[...new Set(xs)]\<close>: the first occurrence of each value, in order.\<close>

fun uniq_acc :: "'a list \<Rightarrow> 'a list \<Rightarrow> 'a list" where
  "uniq_acc seen [] = []"
| "uniq_acc seen (x # xs) = (if x \<in> set seen then uniq_acc seen xs else x # uniq_acc (x # seen) xs)"

definition uniq :: "'a list \<Rightarrow> 'a list" where
  "uniq xs = uniq_acc [] xs"

lemma set_uniq_acc: "set (uniq_acc seen xs) = set xs - set seen"
  by (induction seen xs rule: uniq_acc.induct) auto

lemma set_uniq [simp, js_simps]: "set (uniq xs) = set xs"
  by (simp add: uniq_def set_uniq_acc)

lemma distinct_uniq_acc: "distinct (uniq_acc seen xs)"
  by (induction seen xs rule: uniq_acc.induct) (auto simp: set_uniq_acc)

lemma distinct_uniq [simp, js_simps]: "distinct (uniq xs)"
  by (simp add: uniq_def distinct_uniq_acc)

text \<open>\<open>xs.find(P)\<close>: first match. The library's \<open>List.find\<close>, with its two readings.\<close>

lemma find_SomeD: "List.find P xs = Some x \<Longrightarrow> x \<in> set xs \<and> P x"
  by (auto simp: find_Some_iff)

lemma find_NoneD: "List.find P xs = None \<Longrightarrow> y \<in> set xs \<Longrightarrow> \<not> P y"
  by (auto simp: find_None_iff)

section \<open>Maps and objects\<close>

abbreviation js_get :: "('k, 'v) jsmap \<Rightarrow> 'k \<Rightarrow> 'v option" where
  "js_get \<equiv> map_of"

fun js_set :: "'k \<Rightarrow> 'v \<Rightarrow> ('k, 'v) jsmap \<Rightarrow> ('k, 'v) jsmap" where
  "js_set k v [] = [(k, v)]"
| "js_set k v ((k', v') # m) = (if k = k' then (k, v) # m else (k', v') # js_set k v m)"

definition js_del :: "'k \<Rightarrow> ('k, 'v) jsmap \<Rightarrow> ('k, 'v) jsmap" where
  "js_del k m = filter (\<lambda>(k', v'). k' \<noteq> k) m"

text \<open>\<open>{ ...m, ...n }\<close>\<close>

definition js_spread :: "('k, 'v) jsmap \<Rightarrow> ('k, 'v) jsmap \<Rightarrow> ('k, 'v) jsmap" where
  "js_spread m n = foldl (\<lambda>acc (k, v). js_set k v acc) m n"

definition js_keys :: "('k, 'v) jsmap \<Rightarrow> 'k list" where
  "js_keys m = map fst m"

definition js_values :: "('k, 'v) jsmap \<Rightarrow> 'v list" where
  "js_values m = map snd m"

definition map_values :: "('v \<Rightarrow> 'w) \<Rightarrow> ('k, 'v) jsmap \<Rightarrow> ('k, 'w) jsmap" where
  "map_values f m = map (\<lambda>(k, v). (k, f v)) m"

lemma js_get_set [simp, js_simps]: "js_get (js_set k v m) = (js_get m)(k \<mapsto> v)"
  by (induction m) (auto simp: fun_eq_iff)

lemma js_get_del [simp, js_simps]: "js_get (js_del k m) = (js_get m)(k := None)"
  by (induction m) (auto simp: js_del_def fun_eq_iff)

lemma keys_js_set: "fst ` set (js_set k v m) = insert k (fst ` set m)"
  by (induction k v m rule: js_set.induct) (simp_all add: insert_commute)

lemma distinct_js_set [simp]: "distinct (map fst m) \<Longrightarrow> distinct (map fst (js_set k v m))"
proof (induction m)
  case Nil
  then show ?case by simp
next
  case (Cons p m)
  then show ?case
    using keys_js_set [of k v m] by (cases p) auto
qed

lemma distinct_js_del [simp]: "distinct (map fst m) \<Longrightarrow> distinct (map fst (js_del k m))"
  by (induction m) (auto simp: js_del_def)

lemma js_spread_Nil [simp]: "js_spread m [] = m"
  by (simp add: js_spread_def)

lemma js_spread_snoc: "js_spread m (n @ [(k, v)]) = js_set k v (js_spread m n)"
  by (simp add: js_spread_def)

lemma js_get_spread_not:
  "k \<notin> fst ` set n \<Longrightarrow> js_get (js_spread m n) k = js_get m k"
  by (induction n rule: rev_induct) (auto simp: js_spread_snoc)

lemma js_get_spread_distinct:
  "distinct (map fst n) \<Longrightarrow>
   js_get (js_spread m n) k = (case js_get n k of None \<Rightarrow> js_get m k | Some v \<Rightarrow> Some v)"
proof (induction n rule: rev_induct)
  case Nil
  then show ?case by simp
next
  case (snoc p n)
  obtain k' v' where p: "p = (k', v')" by (cases p)
  from snoc.prems p have nd: "distinct (map fst n)" and k': "k' \<notin> fst ` set n"
    by auto
  have "map_of n k' = None" using k' by (simp add: map_of_eq_None_iff)
  with snoc.IH [OF nd] p show ?case
    by (auto simp: js_spread_snoc map_add_def split: option.splits)
qed

lemma js_get_map_values [simp, js_simps]: "js_get (map_values f m) k = map_option f (js_get m k)"
  by (induction m) (auto simp: map_values_def)

lemma js_keys_map_values [simp, js_simps]: "js_keys (map_values f m) = js_keys m"
  by (simp add: js_keys_def map_values_def case_prod_beta o_def)

lemma map_values_js_set: "map_values f (js_set k v m) = js_set k (f v) (map_values f m)"
  by (induction m) (auto simp: map_values_def)

section \<open>The keyed-store interface\<close>

text \<open>What every \<open>Map\<close>-backed component relies on.\<close>

locale keyed_store =
  fixes lookup :: "'m \<Rightarrow> 'k \<Rightarrow> 'v option"
    and put :: "'k \<Rightarrow> 'v \<Rightarrow> 'm \<Rightarrow> 'm"
    and drop :: "'k \<Rightarrow> 'm \<Rightarrow> 'm"
  assumes lookup_put: "lookup (put k v m) = (lookup m)(k \<mapsto> v)"
    and lookup_drop: "lookup (drop k m) = (lookup m)(k := None)"
begin

lemma lookup_put_same [simp]: "lookup (put k v m) k = Some v"
  by (simp add: lookup_put)

lemma lookup_put_other: "k' \<noteq> k \<Longrightarrow> lookup (put k v m) k' = lookup m k'"
  by (simp add: lookup_put)

lemma lookup_drop_other: "k' \<noteq> k \<Longrightarrow> lookup (drop k m) k' = lookup m k'"
  by (simp add: lookup_drop)

lemma put_put_same: "lookup (put k v (put k w m)) = lookup (put k v m)"
  by (simp add: lookup_put)

lemma put_commute: "k \<noteq> k' \<Longrightarrow> lookup (put k v (put k' v' m)) = lookup (put k' v' (put k v m))"
  by (simp add: lookup_put fun_upd_twist)

end

interpretation jsm: keyed_store js_get js_set js_del
  by unfold_locales simp_all

end
