(* ===== verification/Media.thy ===== *)
theory Media
  imports Prelude_JS Complex_Main
begin

text \<open>
  Content negotiation: \<open>runtime/media.ts\<close> (the Accept header and the representation it
  asks for) and the buffered negotiation of \<open>runtime/view.ts\<close>.

  A quality is the exact decimal value of its literal, before rounding to a double; an
  infinite or unparsable one is \<open>None\<close>. The response schema's parser and the HTML
  renderer come from the route and are parameters.
\<close>

section \<open>Data\<close>

datatype render_mode = Page | Fragment | Embed

definition parse_render_mode :: "string \<Rightarrow> render_mode res" where
  "parse_render_mode s =
     (if s = ''page'' then Inr Page else if s = ''fragment'' then Inr Fragment
      else if s = ''embed'' then Inr Embed else Inl ''ValidationError'')"

record accept_entry =
  media_type :: string
  parameters :: "(string, string) jsmap"
  quality :: rat

datatype representation = Json | Ndjson | Metadata | Html "render_mode option"

section \<open>Number(value) on a string\<close>

definition digit_of :: "char \<Rightarrow> nat option" where
  "digit_of c =
     (if is_digit c then Some (of_char c - 48)
      else if char_between (CHR ''a'') (CHR ''z'') c then Some (of_char c - 87)
      else if char_between (CHR ''A'') (CHR ''Z'') c then Some (of_char c - 55) else None)"

fun digits_value :: "nat \<Rightarrow> nat \<Rightarrow> string \<Rightarrow> nat option" where
  "digits_value r acc [] = Some acc"
| "digits_value r acc (c # cs) =
     (case digit_of c of None \<Rightarrow> None
      | Some d \<Rightarrow> if d < r then digits_value r (acc * r + d) cs else None)"

definition digits1 :: "nat \<Rightarrow> string \<Rightarrow> nat option" where
  "digits1 r s = (if s = [] then None else digits_value r 0 s)"

definition mantissa_value :: "string \<Rightarrow> rat option" where
  "mantissa_value s =
     (case js_index_of (CHR ''.'') s of
        None \<Rightarrow> map_option of_nat (digits1 10 s)
      | Some i \<Rightarrow>
          (let ip = take i s; fp = List.drop (Suc i) s in
           if ip = [] \<and> fp = [] then None
           else (case (digits_value 10 0 ip, digits_value 10 0 fp) of
                   (Some a, Some b) \<Rightarrow> Some (of_nat a + of_nat b / of_nat (10 ^ length fp))
                 | _ \<Rightarrow> None)))"

definition exponent_factor :: "string \<Rightarrow> rat option" where
  "exponent_factor s =
     (case s of
        CHR ''+'' # t \<Rightarrow> map_option (\<lambda>n. of_nat (10 ^ n)) (digits1 10 t)
      | CHR ''-'' # t \<Rightarrow> map_option (\<lambda>n. 1 / of_nat (10 ^ n)) (digits1 10 t)
      | _ \<Rightarrow> map_option (\<lambda>n. of_nat (10 ^ n)) (digits1 10 s))"

definition unsigned_decimal :: "string \<Rightarrow> rat option" where
  "unsigned_decimal s =
     (case js_index_of (CHR ''e'') (map (\<lambda>c. if c = CHR ''E'' then CHR ''e'' else c) s) of
        None \<Rightarrow> mantissa_value s
      | Some i \<Rightarrow> (case (mantissa_value (take i s), exponent_factor (List.drop (Suc i) s)) of
                      (Some m, Some f) \<Rightarrow> Some (m * f) | _ \<Rightarrow> None))"

definition js_number :: "string \<Rightarrow> rat option" where
  "js_number raw = (let s = js_trim raw in
     case s of
       [] \<Rightarrow> Some 0
     | CHR ''+'' # t \<Rightarrow> unsigned_decimal t
     | CHR ''-'' # t \<Rightarrow> map_option uminus (unsigned_decimal t)
     | CHR ''0'' # x # t \<Rightarrow>
         if x \<in> set [CHR ''x'', CHR ''X''] then map_option of_nat (digits1 16 t)
         else if x \<in> set [CHR ''o'', CHR ''O''] then map_option of_nat (digits1 8 t)
         else if x \<in> set [CHR ''b'', CHR ''B''] then map_option of_nat (digits1 2 t)
         else unsigned_decimal s
     | _ \<Rightarrow> unsigned_decimal s)"

section \<open>Parsing the Accept header\<close>

definition parse_parameter :: "string \<Rightarrow> (string \<times> string) option" where
  "parse_parameter raw =
     (case js_index_of (CHR ''='') raw of
        None \<Rightarrow> None
      | Some i \<Rightarrow>
          if i = 0 then None
          else (let key = js_lower (js_trim (take i raw));
                    val = strip_quotes (js_trim (List.drop (Suc i) raw))
                in if key = [] \<or> val = [] then None else Some (key, val)))"

definition apply_parameter ::
    "(string, string) jsmap \<times> rat \<Rightarrow> string \<Rightarrow> (string, string) jsmap \<times> rat" where
  "apply_parameter acc raw =
     (case parse_parameter raw of
        None \<Rightarrow> acc
      | Some (key, val) \<Rightarrow>
          if key = ''q'' then
            (case js_number val of
               Some q \<Rightarrow> if 0 \<le> q \<and> q \<le> 1 then (fst acc, q) else acc
             | None \<Rightarrow> acc)
          else (js_set key val (fst acc), snd acc))"

definition nonempty_parts :: "char \<Rightarrow> string \<Rightarrow> string list" where
  "nonempty_parts sep s = filter (\<lambda>p. p \<noteq> []) (map js_trim (js_split sep s))"

text \<open>
  An entry of separators only has no first part: \<open>parts[0].toLowerCase()\<close> then throws a
  TypeError.
\<close>

definition parse_entry :: "string \<Rightarrow> accept_entry res" where
  "parse_entry raw =
     (case nonempty_parts (CHR '';'') raw of
        [] \<Rightarrow> Inl ''TypeError''
      | p # ps \<Rightarrow>
          (let (params, q) = foldl apply_parameter ([], 1) ps
           in Inr \<lparr>media_type = js_lower p, parameters = params, quality = q\<rparr>))"

definition default_entry :: accept_entry where
  "default_entry = \<lparr>media_type = ''application/json'', parameters = [], quality = 1\<rparr>"

definition parse_accept_header :: "string option \<Rightarrow> accept_entry list res" where
  "parse_accept_header h =
     (case h of
        None \<Rightarrow> Inr [default_entry]
      | Some v \<Rightarrow>
          if js_trim v = [] then Inr [default_entry]
          else res_bind (map_res parse_entry (nonempty_parts (CHR '','') v))
                 (\<lambda>es. Inr (sort_key (\<lambda>e. - quality e) es)))"

section \<open>The requested representation\<close>

definition entry_representation :: "accept_entry \<Rightarrow> representation res option" where
  "entry_representation e =
     (if media_type e = ''application/vnd.betterportal.metadata+json'' then Some (Inr Metadata)
      else if media_type e = ''application/x-ndjson'' then Some (Inr Ndjson)
      else if media_type e = ''application/json'' \<or> media_type e = ''*/*'' then Some (Inr Json)
      else if media_type e = ''text/html'' then
        Some (case js_get (parameters e) ''mode'' of
                None \<Rightarrow> Inr (Html None)
              | Some m \<Rightarrow> if m = [] then Inr (Html None)
                          else res_bind (parse_render_mode m) (\<lambda>r. Inr (Html (Some r))))
      else None)"

fun first_representation :: "accept_entry list \<Rightarrow> representation res" where
  "first_representation [] = Inr Json"
| "first_representation (e # es) =
     (case entry_representation e of Some r \<Rightarrow> r | None \<Rightarrow> first_representation es)"

definition resolve_requested_representation :: "string option \<Rightarrow> representation res" where
  "resolve_requested_representation h = res_bind (parse_accept_header h) first_representation"

section \<open>Buffered view negotiation\<close>

record view_renderer =
  vr_modes :: "render_mode list"

datatype ('j, 'm, 'h) view_body = MetadataBody 'm | JsonBody 'j | ErrorBody string | HtmlBody 'h

datatype content_type = CtMetadata | CtJson | CtHtml render_mode

record ('j, 'm, 'h) negotiated =
  n_status :: nat
  n_content_type :: content_type
  n_body :: "('j, 'm, 'h) view_body"

definition resolve_mode ::
    "(string, view_renderer) jsmap \<Rightarrow> string \<Rightarrow> render_mode option \<Rightarrow> render_mode option" where
  "resolve_mode html key requested =
     (case js_get html key of
        None \<Rightarrow> None
      | Some r \<Rightarrow>
          (case requested of
             None \<Rightarrow> (case vr_modes r of [] \<Rightarrow> None | m # _ \<Rightarrow> Some m)
           | Some m \<Rightarrow> if m \<in> set (vr_modes r) then Some m else None))"

definition negotiate_view_response ::
    "('b \<Rightarrow> 'j res) \<Rightarrow> 'm \<Rightarrow> (string, view_renderer) jsmap \<Rightarrow> string option \<Rightarrow> 'b \<Rightarrow> string option \<Rightarrow>
     (string \<Rightarrow> render_mode \<Rightarrow> 'b \<Rightarrow> 'h) option \<Rightarrow> ('j, 'm, 'h) negotiated res" where
  "negotiate_view_response parse metadata html accept body key render =
     res_bind (resolve_requested_representation accept) (\<lambda>requested.
     res_bind (parse body) (\<lambda>validated.
     (case requested of
        Metadata \<Rightarrow> Inr \<lparr>n_status = 200, n_content_type = CtMetadata, n_body = MetadataBody metadata\<rparr>
      | Json \<Rightarrow> Inr \<lparr>n_status = 200, n_content_type = CtJson, n_body = JsonBody validated\<rparr>
      | Ndjson \<Rightarrow> Inr \<lparr>n_status = 406, n_content_type = CtJson,
                     n_body = ErrorBody ''NDJSON streaming is not supported by this view''\<rparr>
      | Html mode_wanted \<Rightarrow>
          (case render of
             None \<Rightarrow> Inr \<lparr>n_status = 406, n_content_type = CtJson,
                         n_body = ErrorBody ''HTML rendering is not available for this view''\<rparr>
           | Some f \<Rightarrow>
               (case key of
                  Some k \<Rightarrow>
                    if k = [] \<or> js_get html k = None
                    then Inr \<lparr>n_status = 406, n_content_type = CtJson,
                              n_body = ErrorBody ''Requested HTML representation is not supported''\<rparr>
                    else (case resolve_mode html k mode_wanted of
                            None \<Rightarrow> Inr \<lparr>n_status = 406, n_content_type = CtJson,
                              n_body = ErrorBody ''Requested HTML representation is not supported''\<rparr>
                          | Some m \<Rightarrow> Inr \<lparr>n_status = 200, n_content_type = CtHtml m, n_body = HtmlBody (f k m body)\<rparr>)
                | None \<Rightarrow> Inr \<lparr>n_status = 406, n_content_type = CtJson,
                              n_body = ErrorBody ''Requested HTML representation is not supported''\<rparr>)))))"

section \<open>Lemmas\<close>

lemma apply_parameter_quality:
  "0 \<le> snd acc \<and> snd acc \<le> 1 \<Longrightarrow>
   0 \<le> snd (apply_parameter acc raw) \<and> snd (apply_parameter acc raw) \<le> 1"
  by (auto simp: apply_parameter_def split: option.splits)

lemma fold_parameter_quality:
  "0 \<le> snd acc \<and> snd acc \<le> 1 \<Longrightarrow>
   0 \<le> snd (foldl apply_parameter acc ps) \<and> snd (foldl apply_parameter acc ps) \<le> 1"
proof (induction ps arbitrary: acc)
  case (Cons p ps)
  then show ?case using apply_parameter_quality [of acc p] by simp
qed simp

lemma parse_entry_quality:
  assumes "parse_entry raw = Inr e"
  shows "0 \<le> quality e \<and> quality e \<le> 1"
proof -
  obtain p ps where "nonempty_parts (CHR '';'') raw = p # ps"
    and "e = \<lparr>media_type = js_lower p, parameters = fst (foldl apply_parameter ([], 1) ps),
              quality = snd (foldl apply_parameter ([], 1) ps)\<rparr>"
    using assms by (auto simp: parse_entry_def split: list.splits prod.splits)
  then show ?thesis using fold_parameter_quality [of "([], 1)" ps] by simp
qed

lemma parse_accept_cases:
  assumes "parse_accept_header h = Inr es"
  obtains "es = [default_entry]"
  | v raw where "h = Some v" and "map_res parse_entry (nonempty_parts (CHR '','') v) = Inr raw"
      and "es = sort_key (\<lambda>e. - quality e) raw"
  using assms by (auto simp: parse_accept_header_def guard_simps split: option.splits if_splits)

lemma parse_accept_sorted:
  assumes "parse_accept_header h = Inr es"
  shows "sorted_wrt (\<lambda>a b. quality b \<le> quality a) es"
  using assms
proof (cases rule: parse_accept_cases)
  case (2 v raw)
  have "sorted (map (\<lambda>e. - quality e) es)" using 2 by simp
  then show ?thesis by (simp add: sorted_map)
qed simp

lemma parse_accept_quality:
  assumes "parse_accept_header h = Inr es" and "e \<in> set es"
  shows "0 \<le> quality e \<and> quality e \<le> 1"
  using assms(1)
proof (cases rule: parse_accept_cases)
  case 1
  then show ?thesis using assms(2) by (simp add: default_entry_def)
next
  case (2 v raw)
  then have "e \<in> set raw" using assms(2) by simp
  then obtain r where "parse_entry r = Inr e"
    using 2 by (auto simp: map_res_Inr_iff list_all2_conv_all_nth in_set_conv_nth)
  then show ?thesis by (rule parse_entry_quality)
qed

lemma first_representation_cases:
  assumes "first_representation es = Inr r"
  shows "(\<exists>pre e post. es = pre @ e # post \<and> entry_representation e = Some (Inr r) \<and>
            (\<forall>x\<in>set pre. entry_representation x = None))
       \<or> (r = Json \<and> (\<forall>x\<in>set es. entry_representation x = None))"
  using assms
proof (induction es)
  case Nil
  then show ?case by simp
next
  case (Cons e es)
  show ?case
  proof (cases "entry_representation e")
    case None
    with Cons consider pre x post where "es = pre @ x # post"
        and "entry_representation x = Some (Inr r)" and "\<forall>x\<in>set pre. entry_representation x = None"
      | "r = Json" and "\<forall>x\<in>set es. entry_representation x = None" by auto
    then show ?thesis
    proof cases
      case (1 pre x post)
      then have "e # es = (e # pre) @ x # post" by simp
      then show ?thesis using 1 None by (metis set_ConsD)
    qed (use None in auto)
  next
    case (Some r')
    with Cons.prems have "e # es = [] @ e # es" and "entry_representation e = Some (Inr r)" by auto
    then show ?thesis by fastforce
  qed
qed

lemma resolve_mode_supported:
  "resolve_mode html k w = Some m \<Longrightarrow>
   \<exists>r. js_get html k = Some r \<and> m \<in> set (vr_modes r) \<and> (w = None \<or> w = Some m)"
  by (auto simp: resolve_mode_def split: option.splits list.splits if_splits)

section \<open>Properties\<close>

text \<open>
  The representation a client gets is the one it likes best: among the entries of its
  Accept header that name a representation the server knows, the chosen one has the greatest
  quality, and JSON is the answer when there is none.
\<close>
theorem requested_representation_best:
  assumes "parse_accept_header h = Inr es" and "resolve_requested_representation h = Inr r"
  shows "(\<exists>e\<in>set es. entry_representation e = Some (Inr r) \<and> 0 \<le> quality e \<and>
            (\<forall>x\<in>set es. entry_representation x \<noteq> None \<longrightarrow> quality x \<le> quality e)) \<or>
         (r = Json \<and> (\<forall>x\<in>set es. entry_representation x = None))"
proof -
  have "first_representation es = Inr r" using assms by (simp add: resolve_requested_representation_def)
  from first_representation_cases [OF this] show ?thesis
  proof
    assume "\<exists>pre e post. es = pre @ e # post \<and> entry_representation e = Some (Inr r) \<and>
              (\<forall>x\<in>set pre. entry_representation x = None)"
    then obtain pre e post where e: "es = pre @ e # post" "entry_representation e = Some (Inr r)"
        "\<forall>x\<in>set pre. entry_representation x = None" by blast
    have "\<forall>x\<in>set post. quality x \<le> quality e"
      using parse_accept_sorted [OF assms(1)] e(1) by (simp add: sorted_wrt_append)
    moreover have "0 \<le> quality e" using parse_accept_quality [OF assms(1)] e(1) by simp
    ultimately have "\<forall>x\<in>set es. entry_representation x \<noteq> None \<longrightarrow> quality x \<le> quality e"
      using e by auto
    with e \<open>0 \<le> quality e\<close> show ?thesis by auto
  qed simp
qed

text \<open>
  An HTML answer is always one the view declares: it is rendered by the renderer of the
  requested key, in a mode that renderer lists and that the client asked for when it named one,
  and its body passed the response schema. Every other answer is metadata or JSON with
  status 200, or an error with status 406.
\<close>
theorem negotiated_response_declared:
  assumes "negotiate_view_response parse metadata html accept body key render = Inr n"
  shows "(\<exists>v. parse body = Inr v) \<and>
    (case n_content_type n of
       CtHtml m \<Rightarrow> n_status n = 200 \<and>
         (\<exists>f k r w. render = Some f \<and> key = Some k \<and> js_get html k = Some r \<and> m \<in> set (vr_modes r) \<and>
            resolve_requested_representation accept = Inr (Html w) \<and> (w = None \<or> w = Some m) \<and>
            n_body n = HtmlBody (f k m body))
     | CtMetadata \<Rightarrow> n_status n = 200 \<and> n_body n = MetadataBody metadata
     | CtJson \<Rightarrow> (n_status n = 200 \<and> (\<exists>v. parse body = Inr v \<and> n_body n = JsonBody v)) \<or>
                (n_status n = 406 \<and> (\<exists>msg. n_body n = ErrorBody msg)))"
proof -
  from assms obtain r v where r: "resolve_requested_representation accept = Inr r" and v: "parse body = Inr v"
    by (auto simp: negotiate_view_response_def guard_simps)
  show ?thesis
    using assms r v
    by (cases r) (auto simp: negotiate_view_response_def split: option.splits if_splits dest!: resolve_mode_supported)
qed

text \<open>
  Parsing an Accept header never fails except on an entry made of separators only, where
  the code raises a TypeError.
\<close>
theorem accept_header_fails_iff:
  "(\<exists>e. parse_accept_header (Some v) = Inl e) \<longleftrightarrow>
     (\<exists>raw\<in>set (nonempty_parts (CHR '','') v). nonempty_parts (CHR '';'') raw = [])"
proof -
  have entry: "(\<exists>e. parse_entry raw = Inl e) \<longleftrightarrow> nonempty_parts (CHR '';'') raw = []" for raw
    by (auto simp: parse_entry_def split: list.splits prod.splits)
  have "(\<exists>e. map_res parse_entry rs = Inl e) \<longleftrightarrow> (\<exists>r\<in>set rs. \<exists>e. parse_entry r = Inl e)" for rs
  proof (induction rs)
    case (Cons r rs)
    then show ?case by (cases "parse_entry r"; cases "map_res parse_entry rs") auto
  qed simp
  then have "(\<exists>e. map_res parse_entry (nonempty_parts (CHR '','') v) = Inl e) \<longleftrightarrow>
      (\<exists>raw\<in>set (nonempty_parts (CHR '','') v). nonempty_parts (CHR '';'') raw = [])"
    by (simp add: entry)
  moreover have "js_trim v = [] \<Longrightarrow> nonempty_parts (CHR '','') v = []"
    by (auto simp: nonempty_parts_def filter_empty_conv js_trim_Nil_iff dest!: js_split_subset)
  ultimately show ?thesis
    by (cases "map_res parse_entry (nonempty_parts (CHR '','') v)") (auto simp: parse_accept_header_def)
qed

end
