(* ===== verification/Hosts.thy ===== *)
theory Hosts
  imports Prelude_JS
begin

text \<open>
  Host resolution from request headers: \<open>runtime/http.ts\<close>.

  The WHATWG URL parser belongs to the platform and is the parameter \<open>parse_url\<close>
  (\<open>None\<close> where \<open>new URL\<close> throws). A \<open>HeaderMap\<close> is either a \<open>Headers\<close>
  object (names stored in lower case) or a plain record.
\<close>

section \<open>Data\<close>

record url =
  u_protocol :: string
  u_username :: string
  u_password :: string
  u_hostname :: string
  u_port :: string
  u_origin :: string
  u_pathname :: string
  u_search :: string
  u_hash :: string

datatype header_value = One string | Many "string list"

datatype headers =
    Headers_object "(string, string) jsmap"
  | Header_record "(string, header_value) jsmap"

record header_trust =
  trusted_proxy_headers :: bool
  cf_proxy :: bool

datatype host_source =
    Host | Authority | Forwarded | XForwardedHost | XOriginalHost | OriginalHost
  | CfConnectingHost | CfOriginalHost | Origin | Referer | AltUsed

datatype host_mode = Theme_mode | Service_mode

record host_candidate =
  hc_source :: host_source
  hc_value :: string
  hc_host :: string

fun source_name :: "host_source \<Rightarrow> string" where
  "source_name Host = ''host''"
| "source_name Authority = ''authority''"
| "source_name Forwarded = ''forwarded''"
| "source_name XForwardedHost = ''x-forwarded-host''"
| "source_name XOriginalHost = ''x-original-host''"
| "source_name OriginalHost = ''original-host''"
| "source_name CfConnectingHost = ''cf-connecting-host''"
| "source_name CfOriginalHost = ''cf-original-host''"
| "source_name Origin = ''origin''"
| "source_name Referer = ''referer''"
| "source_name AltUsed = ''alt-used''"

section \<open>Header lookup\<close>

text \<open>Header names are ASCII, so \<open>toUpperCase\<close> moves a to z only.\<close>

definition upper_char :: "char \<Rightarrow> char" where
  "upper_char c = (if char_between (CHR ''a'') (CHR ''z'') c then char_of ((of_char c :: nat) - 32) else c)"

definition js_upper :: "string \<Rightarrow> string" where
  "js_upper s = map upper_char s"

fun or_else :: "'a option \<Rightarrow> 'a option \<Rightarrow> 'a option" where
  "or_else (Some x) _ = Some x"
| "or_else None y = y"

definition header_lookup :: "headers \<Rightarrow> string \<Rightarrow> string option" where
  "header_lookup hs key =
     (case hs of
        Headers_object h \<Rightarrow>
          if js_starts_with '':'' key then None else js_get h (js_lower key)
      | Header_record r \<Rightarrow>
          (case or_else (js_get r key) (or_else (js_get r (js_lower key)) (js_get r (js_upper key))) of
             None \<Rightarrow> None
           | Some (Many vs) \<Rightarrow> List.find (\<lambda>v. js_trim v \<noteq> []) vs
           | Some (One v) \<Rightarrow> Some v))"

fun first_header_value :: "headers \<Rightarrow> string list \<Rightarrow> string option" where
  "first_header_value hs [] = None"
| "first_header_value hs (k # ks) =
     (case header_lookup hs k of
        Some v \<Rightarrow> if js_trim v \<noteq> [] then Some v else first_header_value hs ks
      | None \<Rightarrow> first_header_value hs ks)"

section \<open>Host from a header value\<close>

fun forwarded_host_parts :: "string list \<Rightarrow> string option" where
  "forwarded_host_parts [] = None"
| "forwarded_host_parts (part # rest) =
     (case js_split (CHR ''='') part of
        [] \<Rightarrow> forwarded_host_parts rest
      | raw_key # raw_values \<Rightarrow>
          if js_lower (js_trim raw_key) \<noteq> ''host'' then forwarded_host_parts rest
          else (let raw = js_trim (js_join ''='' raw_values)
                in if raw = [] then None else Some (strip_quotes raw)))"

definition forwarded_host_from_header_value :: "string \<Rightarrow> string option" where
  "forwarded_host_from_header_value v =
     (if v = [] then None
      else (let first = js_trim (hd (js_split (CHR '','') v))
            in if first = [] then None else forwarded_host_parts (js_split (CHR '';'') first)))"

definition normalized_host_from_url :: "url \<Rightarrow> string" where
  "normalized_host_from_url u =
     (let h = js_lower (u_hostname u)
      in if u_port u = [] \<or> u_port u = ''80'' \<or> u_port u = ''443'' then h else h @ '':'' @ u_port u)"

definition plain_host :: "(string \<Rightarrow> url option) \<Rightarrow> string \<Rightarrow> string option" where
  "plain_host parse_url v =
     (let candidate = js_trim (hd (js_split (CHR '','') v))
      in if candidate = [] then None
         else (let schemeless = map_option normalized_host_from_url (parse_url (''https://'' @ candidate))
               in case parse_url candidate of
                    Some u \<Rightarrow> if u_hostname u \<noteq> [] then Some (normalized_host_from_url u) else schemeless
                  | None \<Rightarrow> schemeless))"

text \<open>
  \<open>hostFromHeaderValue\<close> calls itself on the forwarded host it extracts, which is
  shorter than the value it was extracted from.
\<close>

lemma length_js_trim: "length (js_trim s) \<le> length s"
  using length_dropWhile_le [of is_js_space "rev (dropWhile is_js_space s)"]
    length_dropWhile_le [of is_js_space s]
  by (simp add: js_trim_def)

lemma length_strip_quotes: "length (strip_quotes s) \<le> length s"
  by (auto simp: strip_quotes_def Let_def split: list.splits)

lemma length_js_lower [simp]: "length (js_lower s) = length s"
  by (simp add: js_lower_def)

lemma length_js_split_member: "p \<in> set (js_split sep s) \<Longrightarrow> length p \<le> length s"
proof (induction s arbitrary: p)
  case (Cons c cs)
  obtain q qs where "js_split sep cs = q # qs"
    using js_split_nonempty [of sep cs] by (cases "js_split sep cs") auto
  with Cons show ?case by (fastforce split: if_splits)
qed simp

lemma split_tail_shorter:
  assumes "js_split sep s = k # vs"
  shows "length (js_join [sep] vs) + length k \<le> length s"
proof (cases vs)
  case Nil
  then show ?thesis using assms js_join_split [of sep s] by simp
next
  case (Cons v vs')
  then have "s = k @ [sep] @ js_join [sep] vs"
    using assms js_join_split [of sep s] by simp
  from arg_cong [OF this, of length]
  have "length s = length k + 1 + length (js_join [sep] vs)" by simp
  then show ?thesis by simp
qed

lemma forwarded_host_parts_shorter:
  assumes "forwarded_host_parts ps = Some h" and "\<forall>p\<in>set ps. length p \<le> n"
  shows "length h + 4 \<le> n"
  using assms
proof (induction ps)
  case (Cons p ps)
  obtain k vs where s: "js_split (CHR ''='') p = k # vs"
    using js_split_nonempty [of "CHR ''=''" p] by (cases "js_split (CHR ''='') p") auto
  show ?case
  proof (cases "js_lower (js_trim k) = ''host''")
    case True
    then have "length (js_lower (js_trim k)) = length ''host''" by (rule arg_cong)
    then have "length (js_trim k) = 4" by simp
    then have "4 \<le> length k" using length_js_trim [of k] by simp
    moreover have "length h \<le> length (js_join ''='' vs)"
      using Cons.prems(1) True s length_strip_quotes [of "js_trim (js_join ''='' vs)"]
        length_js_trim [of "js_join ''='' vs"]
      by (auto simp: Let_def split: if_splits)
    ultimately show ?thesis
      using split_tail_shorter [OF s] Cons.prems(2) by simp
  next
    case False
    then show ?thesis using Cons s by (simp add: Let_def)
  qed
qed simp

lemma forwarded_host_shorter:
  assumes "forwarded_host_from_header_value v = Some h"
  shows "length h < length v"
proof -
  let ?first = "js_trim (hd (js_split (CHR '','') v))"
  have "length ?first \<le> length v"
    using length_js_trim [of "hd (js_split (CHR '','') v)"]
      length_js_split_member [of "hd (js_split (CHR '','') v)" "CHR '',''" v] by simp
  moreover have "forwarded_host_parts (js_split (CHR '';'') ?first) = Some h"
    using assms by (auto simp: forwarded_host_from_header_value_def Let_def split: if_splits)
  then have "length h + 4 \<le> length ?first"
    by (rule forwarded_host_parts_shorter) (auto dest: length_js_split_member)
  ultimately show ?thesis by simp
qed

function host_from_header_value :: "(string \<Rightarrow> url option) \<Rightarrow> string option \<Rightarrow> string option" where
  "host_from_header_value parse_url None = None"
| "host_from_header_value parse_url (Some v) =
     (if v = [] \<or> js_trim v = [] then None
      else (case forwarded_host_from_header_value v of
              Some h \<Rightarrow> if h \<noteq> [] then host_from_header_value parse_url (Some h)
                        else plain_host parse_url v
            | None \<Rightarrow> plain_host parse_url v))"
  by pat_completeness auto
termination
  by (relation "measure (\<lambda>(p, v). case v of None \<Rightarrow> 0 | Some s \<Rightarrow> length s)")
    (auto dest: forwarded_host_shorter)

declare host_from_header_value.simps(2) [simp del]

section \<open>Candidates\<close>

definition trusted_proxy_header_candidates :: "header_trust \<Rightarrow> string list" where
  "trusted_proxy_header_candidates t =
     (if trusted_proxy_headers t
      then [''forwarded'', ''x-forwarded-host'', ''x-original-host'', ''original-host''] else []) @
     (if cf_proxy t then [''cf-connecting-host'', ''cf-original-host''] else [])"

definition proxy_host_sources :: "host_source list" where
  "proxy_host_sources = [Forwarded, XForwardedHost, XOriginalHost, OriginalHost]"

definition cf_host_sources :: "host_source list" where
  "cf_host_sources = [CfConnectingHost, CfOriginalHost]"

definition trusted_proxy_candidate_sources :: "header_trust \<Rightarrow> host_source list" where
  "trusted_proxy_candidate_sources t =
     (if trusted_proxy_headers t then proxy_host_sources else []) @
     (if cf_proxy t then cf_host_sources else [])"

definition host_raw :: "headers \<Rightarrow> host_source \<Rightarrow> string option" where
  "host_raw hs src =
     (if src = Authority then or_else (header_lookup hs '':authority'') (header_lookup hs ''authority'')
      else header_lookup hs (source_name src))"

definition host_candidate :: "(string \<Rightarrow> url option) \<Rightarrow> headers \<Rightarrow> host_source \<Rightarrow> host_candidate option" where
  "host_candidate parse_url hs src =
     (case (host_raw hs src, host_from_header_value parse_url (host_raw hs src)) of
        (Some raw, Some host) \<Rightarrow>
          if raw \<noteq> [] \<and> host \<noteq> [] then Some \<lparr>hc_source = src, hc_value = raw, hc_host = host\<rparr> else None
      | _ \<Rightarrow> None)"

fun dedupe_host_candidates :: "string list \<Rightarrow> host_candidate option list \<Rightarrow> host_candidate list" where
  "dedupe_host_candidates seen [] = []"
| "dedupe_host_candidates seen (None # cs) = dedupe_host_candidates seen cs"
| "dedupe_host_candidates seen (Some c # cs) =
     (if hc_host c \<in> set seen then dedupe_host_candidates seen cs
      else c # dedupe_host_candidates (hc_host c # seen) cs)"

definition ordered_sources :: "host_mode \<Rightarrow> header_trust \<Rightarrow> host_source list" where
  "ordered_sources mode t =
     (case mode of
        Theme_mode \<Rightarrow> [Host, Authority] @ trusted_proxy_candidate_sources t @ [Origin, Referer, AltUsed]
      | Service_mode \<Rightarrow> [Origin, Referer, Host, Authority] @ trusted_proxy_candidate_sources t @ [AltUsed])"

definition build_host_candidates ::
    "(string \<Rightarrow> url option) \<Rightarrow> headers \<Rightarrow> host_mode \<Rightarrow> header_trust \<Rightarrow> host_candidate list" where
  "build_host_candidates parse_url hs mode t =
     dedupe_host_candidates [] (map (host_candidate parse_url hs) (ordered_sources mode t))"

definition resolve_embedded_source_header :: "headers \<Rightarrow> header_trust \<Rightarrow> string option" where
  "resolve_embedded_source_header hs t =
     first_header_value hs (['':referer'', ''referer'', '':origin'', ''origin''] @ trusted_proxy_header_candidates t)"

definition resolve_theme_source_header :: "headers \<Rightarrow> header_trust \<Rightarrow> string option" where
  "resolve_theme_source_header hs t =
     first_header_value hs (['':origin'', ''origin'', '':referer'', ''referer'', '':authority'', ''authority'']
       @ trusted_proxy_header_candidates t)"

definition first_host :: "host_candidate list \<Rightarrow> string option" where
  "first_host cs = (case cs of [] \<Rightarrow> None | c # _ \<Rightarrow> Some (hc_host c))"

definition resolve_embedded_hostname :: "(string \<Rightarrow> url option) \<Rightarrow> headers \<Rightarrow> header_trust \<Rightarrow> string option" where
  "resolve_embedded_hostname parse_url hs t = first_host (build_host_candidates parse_url hs Service_mode t)"

definition resolve_theme_hostname :: "(string \<Rightarrow> url option) \<Rightarrow> headers \<Rightarrow> header_trust \<Rightarrow> string option" where
  "resolve_theme_hostname parse_url hs t = first_host (build_host_candidates parse_url hs Theme_mode t)"

section \<open>Lemmas\<close>

lemma dedupe_hosts:
  "set (map hc_host (dedupe_host_candidates seen cs)) \<inter> set seen = {} \<and>
   distinct (map hc_host (dedupe_host_candidates seen cs))"
  by (induction seen cs rule: dedupe_host_candidates.induct) auto

lemma dedupe_subset: "c \<in> set (dedupe_host_candidates seen cs) \<Longrightarrow> Some c \<in> set cs"
  by (induction seen cs rule: dedupe_host_candidates.induct) (auto split: if_splits)

lemma build_candidates_member:
  "c \<in> set (build_host_candidates p hs m t) \<Longrightarrow>
   hc_source c \<in> set (ordered_sources m t) \<and> host_candidate p hs (hc_source c) = Some c"
  by (auto simp: build_host_candidates_def host_candidate_def dest!: dedupe_subset
      split: option.splits if_splits)

lemma build_candidates_cong:
  "(\<And>src. src \<in> set (ordered_sources m t) \<Longrightarrow> host_raw hs src = host_raw hs' src) \<Longrightarrow>
   build_host_candidates p hs m t = build_host_candidates p hs' m t"
  by (simp add: build_host_candidates_def host_candidate_def cong: map_cong)

lemma ordered_sources_untrusted:
  "src \<in> set (ordered_sources m t) \<Longrightarrow> \<not> trusted_proxy_headers t \<Longrightarrow> \<not> cf_proxy t \<Longrightarrow>
   src \<in> {Host, Authority, Origin, Referer, AltUsed}"
  by (auto simp: ordered_sources_def trusted_proxy_candidate_sources_def split: host_mode.splits)

section \<open>Properties\<close>

lemma plain_header_names:
  "list_all (\<lambda>key. js_starts_with '':'' key \<or> js_lower key \<notin> set (map source_name (proxy_host_sources @ cf_host_sources)))
     ['':authority'', ''authority'', ''host'', ''origin'', ''referer'', ''alt-used'']"
  by code_simp

lemma plain_header_lookup:
  assumes "name \<in> set (map source_name (proxy_host_sources @ cf_host_sources))"
    and "key \<in> set ['':authority'', ''authority'', ''host'', ''origin'', ''referer'', ''alt-used'']"
  shows "header_lookup (Headers_object (js_set name v hs)) key = header_lookup (Headers_object hs) key"
proof -
  have "js_starts_with '':'' key \<or> js_lower key \<noteq> name"
    using plain_header_names assms unfolding list_all_iff by blast
  then show ?thesis by (auto simp: header_lookup_def)
qed

lemma proxy_header_not_trusted:
  assumes "name \<in> set (map source_name (proxy_host_sources @ cf_host_sources))"
    and "src \<in> {Host, Authority, Origin, Referer, AltUsed}"
  shows "host_raw (Headers_object (js_set name v hs)) src = host_raw (Headers_object hs) src"
  using assms(2) by (auto simp: host_raw_def plain_header_lookup [OF assms(1)])

text \<open>
  A client cannot pick its tenant through a proxy header the deployment does not trust:
  with no trusted proxy configured, setting any forwarded-host header to any value changes
  neither the host candidates of the request nor the theme and service host they resolve to,
  and no candidate comes from such a header.
\<close>
theorem untrusted_proxy_header_ignored:
  assumes "\<not> trusted_proxy_headers t" and "\<not> cf_proxy t"
    and "name \<in> set (map source_name (proxy_host_sources @ cf_host_sources))"
  shows "build_host_candidates p (Headers_object (js_set name v hs)) m t = build_host_candidates p (Headers_object hs) m t \<and>
    resolve_theme_hostname p (Headers_object (js_set name v hs)) t = resolve_theme_hostname p (Headers_object hs) t \<and>
    resolve_embedded_hostname p (Headers_object (js_set name v hs)) t = resolve_embedded_hostname p (Headers_object hs) t \<and>
    (\<forall>c\<in>set (build_host_candidates p (Headers_object hs) m t).
       hc_source c \<notin> set (proxy_host_sources @ cf_host_sources))"
proof -
  have same: "build_host_candidates p (Headers_object (js_set name v hs)) m t = build_host_candidates p (Headers_object hs) m t" for m
    using assms by (intro build_candidates_cong proxy_header_not_trusted ordered_sources_untrusted [of _ m t])
  have "hc_source c \<notin> set (proxy_host_sources @ cf_host_sources)"
    if "c \<in> set (build_host_candidates p (Headers_object hs) m t)" for c
    using build_candidates_member [OF that] ordered_sources_untrusted [of "hc_source c" m t] assms(1,2)
    by (auto simp: proxy_host_sources_def cf_host_sources_def)
  with same show ?thesis by (simp add: resolve_theme_hostname_def resolve_embedded_hostname_def)
qed

text \<open>
  The candidate list is the order of trust without repetitions: the hosts are distinct and
  not empty, each comes from a source of the mode, every source that yields a host has that
  host listed, and the first candidate is the first source that yields one.
\<close>
theorem host_candidates_ordered:
  "distinct (map hc_host (build_host_candidates p hs m t)) \<and>
   [] \<notin> hc_host ` set (build_host_candidates p hs m t) \<and>
   hc_host ` set (build_host_candidates p hs m t) = {hc_host c | c src. src \<in> set (ordered_sources m t) \<and> host_candidate p hs src = Some c} \<and>
   first_host (build_host_candidates p hs m t) =
     map_option hc_host (case List.map_filter (host_candidate p hs) (ordered_sources m t) of [] \<Rightarrow> None | c # _ \<Rightarrow> Some c)"
proof -
  have host: "h \<in> hc_host ` set (dedupe_host_candidates seen cs) \<longleftrightarrow> (\<exists>c. Some c \<in> set cs \<and> hc_host c = h) \<and> h \<notin> set seen" for h seen cs
    by (induction seen cs rule: dedupe_host_candidates.induct) (simp_all, blast+)
  have hosts: "hc_host ` set (dedupe_host_candidates seen cs) = hc_host ` {c. Some c \<in> set cs} - set seen" for seen cs
    by (rule set_eqI) (auto simp: host)
  have hd: "dedupe_host_candidates [] (map f xs) =
      (case List.map_filter f xs of [] \<Rightarrow> [] | c # _ \<Rightarrow> c # tl (dedupe_host_candidates [] (map f xs)))" for f and xs :: "host_source list"
  proof (induction xs)
    case (Cons x xs)
    then show ?case by (cases "f x") (auto simp: List.map_filter_def split: list.splits)
  qed (simp add: List.map_filter_def)
  have "hc_host c \<noteq> []" if "host_candidate p hs src = Some c" for src c
    using that by (auto simp: host_candidate_def split: option.splits if_splits)
  then have "[] \<notin> hc_host ` set (build_host_candidates p hs m t)"
    by (metis build_candidates_member imageE)
  moreover have "first_host (build_host_candidates p hs m t) =
     map_option hc_host (case List.map_filter (host_candidate p hs) (ordered_sources m t) of [] \<Rightarrow> None | c # _ \<Rightarrow> Some c)"
    using hd [of "host_candidate p hs" "ordered_sources m t"]
    by (auto simp: first_host_def build_host_candidates_def split: list.splits)
  moreover have "hc_host ` set (build_host_candidates p hs m t) =
      {hc_host c | c src. src \<in> set (ordered_sources m t) \<and> host_candidate p hs src = Some c}"
    unfolding build_host_candidates_def hosts by (auto simp: image_iff) (metis image_eqI)+
  moreover have "distinct (map hc_host (build_host_candidates p hs m t))"
    using dedupe_hosts by (simp add: build_host_candidates_def)
  ultimately show ?thesis by blast
qed

end
