(* ===== verification/Uuid.thy ===== *)
theory Uuid
  imports Prelude_JS "HOL-Library.Word" "HOL-Library.Char_ord" "HOL-Library.List_Lexorder"
begin

unbundle bit_operations_syntax

text \<open>
  UUIDv7: the generator of \<open>runtime/uuid.ts\<close> and the patterns of
  \<open>contracts/common.ts\<close> (lower case) and \<open>runtime/traceContext.ts\<close> (either case).
  The clock and the 16 random bytes are arguments.
\<close>

section \<open>The pattern\<close>

definition lower_hex :: "char \<Rightarrow> bool" where
  "lower_hex c \<longleftrightarrow> is_digit c \<or> char_between (CHR ''a'') (CHR ''f'') c"

definition any_hex :: "char \<Rightarrow> bool" where
  "any_hex c \<longleftrightarrow> lower_hex c \<or> char_between (CHR ''A'') (CHR ''F'') c"

definition uuid_v7_template :: string where
  "uuid_v7_template = ''xxxxxxxx-xxxx-7xxx-yxxx-xxxxxxxxxxxx''"

definition template_char :: "(char \<Rightarrow> bool) \<Rightarrow> char \<Rightarrow> char \<Rightarrow> bool" where
  "template_char hex t c \<longleftrightarrow>
     (if t = CHR ''x'' then hex c
      else if t = CHR ''y'' then hex c \<and> c \<in> set ''89abAB''
      else c = t)"

definition uuid_v7_schema :: "string \<Rightarrow> bool" where
  "uuid_v7_schema s \<longleftrightarrow> list_all2 (template_char lower_hex) uuid_v7_template s"

definition is_uuid_v7 :: "string \<Rightarrow> bool" where
  "is_uuid_v7 s \<longleftrightarrow> list_all2 (template_char any_hex) uuid_v7_template s"

section \<open>The generator\<close>

definition hex_digit :: "nat \<Rightarrow> char" where
  "hex_digit n = ''0123456789abcdef'' ! n"

text \<open>\<open>b.toString(16).padStart(2, "0")\<close> on a byte.\<close>

definition hex_byte :: "8 word \<Rightarrow> string" where
  "hex_byte b = [hex_digit (unat b div 16), hex_digit (unat b mod 16)]"

definition uuid_bytes :: "nat \<Rightarrow> 8 word list \<Rightarrow> 8 word list" where
  "uuid_bytes now rand =
     (let ts_high = (of_nat (now div 65536) :: 32 word);
          ts_low = (of_nat (now mod 65536) :: 32 word);
          r0 = rand[0 := ucast (drop_bit 24 ts_high AND 255),
                    1 := ucast (drop_bit 16 ts_high AND 255),
                    2 := ucast (drop_bit 8 ts_high AND 255),
                    3 := ucast (ts_high AND 255)];
          r1 = r0[4 := ucast (drop_bit 8 ts_low AND 255), 5 := ucast (ts_low AND 255)];
          r2 = r1[6 := (r1 ! 6 AND 15) OR 112]
      in r2[8 := (r2 ! 8 AND 63) OR 128])"

definition uuid_text :: "string \<Rightarrow> string" where
  "uuid_text hex =
     take 8 hex @ ''-'' @ take 4 (List.drop 8 hex) @ ''-'' @ take 4 (List.drop 12 hex) @ ''-''
       @ take 4 (List.drop 16 hex) @ ''-'' @ List.drop 20 hex"

definition uuidv7 :: "nat \<Rightarrow> 8 word list \<Rightarrow> string" where
  "uuidv7 now rand = uuid_text (concat (map hex_byte (uuid_bytes now rand)))"

section \<open>Lemmas\<close>

lemma less_16_cases: "n < 16 \<Longrightarrow> n \<in> {0, 1, 2, 3, 4, 5, 6, 7, 8, 9, 10, 11, 12, 13, 14, 15 :: nat}"
  by (auto simp: less_Suc_eq numeral_eq_Suc)

lemma lower_hex_digit: "n < 16 \<Longrightarrow> lower_hex (hex_digit n)"
  by (drule less_16_cases) (auto simp: hex_digit_def lower_hex_def is_digit_def char_between_def)

lemma hex_digit_code: "n < 16 \<Longrightarrow> (of_char (hex_digit n) :: nat) = (if n < 10 then 48 + n else 87 + n)"
  by (drule less_16_cases) (auto simp: hex_digit_def)

lemma hex_digit_less: "m < n \<Longrightarrow> n < 16 \<Longrightarrow> hex_digit m < hex_digit n"
  by (simp add: less_char_def hex_digit_code)

lemma unat_byte_less: "unat (b :: 8 word) < 256"
  using unsigned_less [of b, where ?'a = nat] by simp

lemma unat_byte_nibbles: "unat (b :: 8 word) div 16 < 16" "unat (b :: 8 word) mod 16 < 16"
  using unat_byte_less [of b] by auto

lemma ucast_byte: "unat (ucast (x AND 255 :: 32 word) :: 8 word) = unat x mod 256"
proof -
  have e: "x AND 255 = take_bit 8 x" by (simp add: take_bit_eq_mask mask_eq_exp_minus_1)
  have "unat (x AND 255) = take_bit 8 (unat x)" by (simp only: e unsigned_take_bit_eq)
  moreover have "unat (ucast (x AND 255) :: 8 word) = take_bit 8 (unat (x AND 255))"
    by (simp only: unsigned_ucast_eq) simp
  ultimately show ?thesis by (simp add: take_bit_eq_mod)
qed

lemma ucast_shifted_byte:
  "unat (ucast (drop_bit k x AND 255 :: 32 word) :: 8 word) = unat x div 2 ^ k mod 256"
  unfolding ucast_byte unat_drop_bit_eq by (simp add: drop_bit_eq_div)

lemma byte_bit_value: "unat (b :: 8 word) div 2 ^ k = unat (drop_bit k b)"
  by (metis unat_drop_bit_eq drop_bit_eq_div)

lemma version_nibble: "unat ((x AND 15) OR 112 :: 8 word) div 16 = 7"
proof -
  have "drop_bit 4 ((x AND 15) OR 112 :: 8 word) = 7"
    by (rule bit_word_eqI) (auto simp: bit_simps numeral_eq_Suc less_Suc_eq)
  then show ?thesis using byte_bit_value [of "(x AND 15) OR 112" 4] by simp
qed

lemma variant_nibble: "unat ((x AND 63) OR 128 :: 8 word) div 16 \<in> {8, 9, 10, 11}"
proof -
  have "drop_bit 6 ((x AND 63) OR 128 :: 8 word) = 2"
    by (rule bit_word_eqI) (auto simp: bit_simps numeral_eq_Suc less_Suc_eq)
  then have "unat ((x AND 63) OR 128 :: 8 word) div 64 = 2"
    using byte_bit_value [of "(x AND 63) OR 128" 6] by simp
  then have "unat ((x AND 63) OR 128 :: 8 word) div 16 div 4 = 2"
    by (simp add: div_mult2_eq [symmetric])
  moreover have "y div 4 = 2 \<Longrightarrow> y \<in> {8, 9, 10, 11}" for y :: nat by auto
  ultimately show ?thesis by blast
qed

fun hex_fixed :: "nat \<Rightarrow> nat \<Rightarrow> string" where
  "hex_fixed 0 k = []"
| "hex_fixed (Suc n) k = hex_fixed n (k div 16) @ [hex_digit (k mod 16)]"

lemma length_hex_fixed [simp]: "length (hex_fixed n k) = n"
  by (induction n arbitrary: k) auto

lemma lower_hex_fixed: "list_all lower_hex (hex_fixed n k)"
  by (induction n arbitrary: k) (auto simp: lower_hex_digit)

lemma hex_byte_fixed: "unat b = n mod 256 \<Longrightarrow> hex_byte b = hex_fixed 2 (n mod 256)"
  by (simp add: hex_byte_def numeral_2_eq_2)

lemma byte_split: "(n :: nat) mod 256 = 16 * (n div 16 mod 16) + n mod 16"
  using mod_mult2_eq [of n 16 16] by simp

lemma byte_high_nibble: "(n :: nat) mod 256 div 16 = n div 16 mod 16"
  by (simp add: byte_split)

lemma byte_low_nibble: "(n :: nat) mod 256 mod 16 = n mod 16"
  by (simp add: byte_split)

lemma hex_fixed_less: "a < b \<Longrightarrow> b < 16 ^ n \<Longrightarrow> hex_fixed n a < hex_fixed n b"
proof (induction n arbitrary: a b)
  case (Suc n)
  show ?case
  proof (cases "a div 16 < b div 16")
    case True
    moreover have "b div 16 < 16 ^ n" using Suc.prems by (simp add: less_mult_imp_div_less)
    ultimately have "hex_fixed n (a div 16) < hex_fixed n (b div 16)" by (rule Suc.IH)
    then show ?thesis by (simp add: list_less_def lexord_sufI)
  next
    case False
    with Suc.prems have e: "a div 16 = b div 16" by (simp add: div_le_mono le_antisym)
    have "a = 16 * (a div 16) + a mod 16" "b = 16 * (b div 16) + b mod 16" by simp_all
    with e Suc.prems(1) have "a mod 16 < b mod 16" by linarith
    then have "hex_digit (a mod 16) < hex_digit (b mod 16)" by (simp add: hex_digit_less)
    then show ?thesis by (simp add: e list_less_def lexord_append_leftI)
  qed
qed simp

lemma hex_fixed_byte:
  "hex_fixed (Suc (Suc n)) k =
   hex_fixed n (k div 256) @ [hex_digit (k mod 256 div 16), hex_digit (k mod 256 mod 16)]"
  by (simp only: hex_fixed.simps byte_high_nibble byte_low_nibble) (simp add: div_mult2_eq [symmetric])

lemma hex_fixed_4: "hex_fixed 4 k = hex_fixed (Suc (Suc (Suc (Suc 0)))) k"
  by (rule arg_cong [where f = "\<lambda>n. hex_fixed n k"]) simp

lemma hex_fixed_8: "hex_fixed 8 k = hex_fixed (Suc (Suc (Suc (Suc (Suc (Suc (Suc (Suc 0)))))))) k"
  by (rule arg_cong [where f = "\<lambda>n. hex_fixed n k"]) simp

lemma uuid_high_digits:
  assumes "t < 2 ^ 32"
  shows "hex_byte (ucast (drop_bit 24 (of_nat t :: 32 word) AND 255)) @
   hex_byte (ucast (drop_bit 16 (of_nat t :: 32 word) AND 255)) @
   hex_byte (ucast (drop_bit 8 (of_nat t :: 32 word) AND 255)) @
   hex_byte (ucast ((of_nat t :: 32 word) AND 255)) = hex_fixed 8 t"
proof -
  from assms have t: "unat (of_nat t :: 32 word) = t" by (simp add: unat_of_nat take_bit_nat_eq_self_iff)
  show ?thesis
    unfolding hex_fixed_8 hex_fixed_byte hex_byte_def ucast_shifted_byte
    unfolding ucast_byte t
    by (simp add: div_mult2_eq [symmetric])
qed

lemma uuid_low_digits:
  assumes "t < 2 ^ 16"
  shows "hex_byte (ucast (drop_bit 8 (of_nat t :: 32 word) AND 255)) @
   hex_byte (ucast ((of_nat t :: 32 word) AND 255)) = hex_fixed 4 t"
proof -
  from assms have t: "unat (of_nat t :: 32 word) = t" by (simp add: unat_of_nat take_bit_nat_eq_self_iff)
  show ?thesis
    unfolding hex_fixed_4 hex_fixed_byte hex_byte_def ucast_shifted_byte
    unfolding ucast_byte t
    by simp
qed

lemma list_16:
  assumes "length rand = 16"
  obtains a b c d e f g h i j k l m n p q where "rand = [a, b, c, d, e, f, g, h, i, j, k, l, m, n, p, q]"
proof -
  have "length rand = Suc (Suc (Suc (Suc (Suc (Suc (Suc (Suc (Suc (Suc (Suc (Suc (Suc (Suc (Suc (Suc 0)))))))))))))))"
    using assms by simp
  then show ?thesis by (auto simp: length_Suc_conv intro: that)
qed

lemma take_hex_bytes [simp]:
  "concat (map hex_byte []) = []"
  "concat (map hex_byte (b # bs)) = hex_byte b @ concat (map hex_byte bs)"
  by simp_all

text \<open>What the generator writes: the clock in 12 digits, the version, the variant, random digits.\<close>

lemma uuidv7_layout:
  assumes "length rand = 16" and "now < 2 ^ 48"
  shows "\<exists>va rest1 rest2 rest3.
    uuidv7 now rand = hex_fixed 8 (now div 65536) @ ''-'' @ hex_fixed 4 (now mod 65536) @ ''-7'' @ rest1
       @ ''-'' @ va # rest2 @ ''-'' @ rest3
    \<and> list_all lower_hex (rest1 @ rest2 @ rest3) \<and> lower_hex va \<and> va \<in> set ''89ab''
    \<and> length rest1 = 3 \<and> length rest2 = 3 \<and> length rest3 = 12"
proof -
  obtain a b c d e f g h i j k l m n p q
    where r: "rand = [a, b, c, d, e, f, g, h, i, j, k, l, m, n, p, q]"
    using list_16 [OF assms(1)] .
  let ?hi = "of_nat (now div 65536) :: 32 word" and ?lo = "of_nat (now mod 65536) :: 32 word"
  let ?g = "(g AND 15) OR 112" and ?i = "(i AND 63) OR 128"
  have hi: "hex_byte (ucast (drop_bit 24 ?hi AND 255)) @ hex_byte (ucast (drop_bit 16 ?hi AND 255)) @
     hex_byte (ucast (drop_bit 8 ?hi AND 255)) @ hex_byte (ucast (?hi AND 255)) = hex_fixed 8 (now div 65536)"
    by (rule uuid_high_digits) (use assms(2) in simp)
  have lo: "hex_byte (ucast (drop_bit 8 ?lo AND 255)) @ hex_byte (ucast (?lo AND 255)) = hex_fixed 4 (now mod 65536)"
    by (rule uuid_low_digits) simp
  have bytes: "uuid_bytes now rand =
      [ucast (drop_bit 24 ?hi AND 255), ucast (drop_bit 16 ?hi AND 255), ucast (drop_bit 8 ?hi AND 255),
       ucast (?hi AND 255), ucast (drop_bit 8 ?lo AND 255), ucast (?lo AND 255), ?g, h, ?i, j, k, l, m, n, p, q]"
    by (simp add: uuid_bytes_def r Let_def)
  have "concat (map hex_byte (uuid_bytes now rand)) =
      hex_fixed 8 (now div 65536) @ hex_fixed 4 (now mod 65536) @
      hex_byte ?g @ hex_byte h @ hex_byte ?i @ hex_byte j @ concat (map hex_byte [k, l, m, n, p, q])"
    unfolding bytes by (simp only: take_hex_bytes hi [symmetric] lo [symmetric] append_assoc)
  then have whole: "uuidv7 now rand = hex_fixed 8 (now div 65536) @ ''-'' @ hex_fixed 4 (now mod 65536) @ ''-''
      @ hex_byte ?g @ hex_byte h @ ''-'' @ hex_byte ?i @ hex_byte j @ ''-'' @ concat (map hex_byte [k, l, m, n, p, q])"
    by (simp add: uuidv7_def uuid_text_def hex_byte_def)
  have g: "hex_byte ?g = CHR ''7'' # [hex_digit (unat ?g mod 16)]"
    by (simp only: hex_byte_def version_nibble) (simp add: hex_digit_def)
  have "hex_digit (unat ?i div 16) \<in> set ''89ab''"
    using variant_nibble [of i] by (elim insertE) (simp_all only: hex_digit_def, simp_all)
  moreover have "lower_hex (hex_digit (unat b div 16)) \<and> lower_hex (hex_digit (unat b mod 16))" for b :: "8 word"
    by (simp add: lower_hex_digit unat_byte_nibbles)
  ultimately show ?thesis
    by (intro exI [of _ "hex_digit (unat ?i div 16)"] exI [of _ "hex_digit (unat ?g mod 16) # hex_byte h"]
        exI [of _ "hex_digit (unat ?i mod 16) # hex_byte j"] exI [of _ "concat (map hex_byte [k, l, m, n, p, q])"])
      (simp add: whole g, simp add: hex_byte_def)
qed

section \<open>Well-formed and sortable identifiers\<close>

lemma list_all2_template_hex:
  "list_all hex s \<Longrightarrow> length s = n \<Longrightarrow> list_all2 (template_char hex) (replicate n (CHR ''x'')) s"
  by (auto simp: list_all2_conv_all_nth list_all_length template_char_def)

lemma uuid_v7_template_parts:
  "uuid_v7_template = replicate 8 (CHR ''x'') @ ''-'' @ replicate 4 (CHR ''x'') @ ''-7'' @
     replicate 3 (CHR ''x'') @ ''-'' @ CHR ''y'' # replicate 3 (CHR ''x'') @ ''-'' @ replicate 12 (CHR ''x'')"
  by (simp add: uuid_v7_template_def numeral_eq_Suc)

lemma list_all2_app: "list_all2 P a b \<Longrightarrow> list_all2 P c d \<Longrightarrow> list_all2 P (a @ c) (b @ d)"
  by (rule list_all2_appendI)

lemma template_fixed [simp]:
  "template_char hex (CHR ''-'') (CHR ''-'')" "template_char hex (CHR ''7'') (CHR ''7'')"
  by (simp_all add: template_char_def)

lemma uuidv7_well_formed:
  assumes "length rand = 16" and "now < 2 ^ 48"
  shows "uuid_v7_schema (uuidv7 now rand)"
proof -
  obtain va r1 r2 r3 where u: "uuidv7 now rand = hex_fixed 8 (now div 65536) @ ''-'' @
      hex_fixed 4 (now mod 65536) @ ''-7'' @ r1 @ ''-'' @ va # r2 @ ''-'' @ r3"
    and h: "list_all lower_hex r1" "list_all lower_hex r2" "list_all lower_hex r3"
    and va: "lower_hex va" "va \<in> set ''89ab''"
    and l: "length r1 = 3" "length r2 = 3" "length r3 = 12"
    using uuidv7_layout [OF assms] by (auto simp only: list_all_append)
  have "template_char lower_hex (CHR ''y'') va" using va by (auto simp: template_char_def)
  then show ?thesis
    unfolding uuid_v7_schema_def u uuid_v7_template_parts
    by (intro list_all2_app list_all2_template_hex h l lower_hex_fixed length_hex_fixed list.rel_intros(2)) simp_all
qed

lemma lexord_common_prefix: "xs < ys \<Longrightarrow> length xs = length ys \<Longrightarrow> xs @ us < ys @ (vs :: string)"
  by (simp add: list_less_def lexord_sufI)

lemma uuidv7_sortable:
  assumes "length r1 = 16" and "length r2 = 16" and "t1 < t2" and "t2 < 2 ^ 48"
  shows "uuidv7 t1 r1 < uuidv7 t2 r2"
proof -
  obtain rest1 where 1: "uuidv7 t1 r1 = hex_fixed 8 (t1 div 65536) @ ''-'' @ hex_fixed 4 (t1 mod 65536) @ rest1"
    using uuidv7_layout [OF assms(1), of t1] assms(3,4) by (auto intro: less_trans)
  obtain rest2 where 2: "uuidv7 t2 r2 = hex_fixed 8 (t2 div 65536) @ ''-'' @ hex_fixed 4 (t2 mod 65536) @ rest2"
    using uuidv7_layout [OF assms(2,4)] by auto
  show ?thesis
  proof (cases "t1 div 65536 = t2 div 65536")
    case True
    have "t1 = 65536 * (t1 div 65536) + t1 mod 65536" "t2 = 65536 * (t2 div 65536) + t2 mod 65536" by simp_all
    with True assms(3) have "t1 mod 65536 < t2 mod 65536" by linarith
    then have "hex_fixed 4 (t1 mod 65536) < hex_fixed 4 (t2 mod 65536)" by (rule hex_fixed_less) simp
    then have "hex_fixed 4 (t1 mod 65536) @ rest1 < hex_fixed 4 (t2 mod 65536) @ rest2"
      by (rule lexord_common_prefix) simp
    then show ?thesis unfolding 1 2 True by (simp only: list_less_def lexord_append_leftI)
  next
    case False
    moreover have "t1 div 65536 \<le> t2 div 65536" using assms(3) by (simp add: div_le_mono)
    ultimately have "t1 div 65536 < t2 div 65536" by simp
    moreover have "t2 div 65536 < 16 ^ 8" using assms(4) by simp
    ultimately have "hex_fixed 8 (t1 div 65536) < hex_fixed 8 (t2 div 65536)" by (rule hex_fixed_less)
    then show ?thesis unfolding 1 2 by (rule lexord_common_prefix) simp
  qed
qed

section \<open>Properties\<close>

text \<open>
  Every identifier \<open>uuidv7\<close> makes passes the schema and the recogniser, whatever the
  random bytes, for every clock below 2 to the 48 milliseconds.
\<close>
theorem uuidv7_valid:
  assumes "length rand = 16" and "now < 2 ^ 48"
  shows "uuid_v7_schema (uuidv7 now rand) \<and> is_uuid_v7 (uuidv7 now rand) \<and> length (uuidv7 now rand) = 36"
proof -
  have schema: "uuid_v7_schema (uuidv7 now rand)" using assms by (rule uuidv7_well_formed)
  then have "length (uuidv7 now rand) = 36"
    by (simp add: uuid_v7_schema_def uuid_v7_template_def list_all2_lengthD [symmetric])
  moreover have "is_uuid_v7 (uuidv7 now rand)"
    using schema unfolding uuid_v7_schema_def is_uuid_v7_def
    by (rule list_all2_mono) (auto simp: template_char_def lower_hex_def any_hex_def)
  ultimately show ?thesis using schema by blast
qed

text \<open>
  Identifiers sort by creation time: of two identifiers made at different milliseconds the
  older one is the smaller string, whatever the random bytes.
\<close>
theorem uuidv7_ordered:
  assumes "length r1 = 16" and "length r2 = 16" and "t1 < t2" and "t2 < 2 ^ 48"
  shows "uuidv7 t1 r1 < uuidv7 t2 r2 \<and> uuidv7 t1 r1 \<noteq> uuidv7 t2 r2"
  using uuidv7_sortable [OF assms] by auto

end
