(* ===== verification/PlatformConfig.thy ===== *)
theory PlatformConfig
  imports Uuid
begin

text \<open>
  The platform configuration: \<open>contracts/platformConfig.ts\<close>, \<open>contracts/auth.ts\<close>
  and \<open>contracts/config.ts\<close>, with the fields the modelled code reads or writes. An
  optional field is an \<open>option\<close>, a \<open>record(...)\<close> an association list. Dates, UUIDs
  and URLs stay strings.
\<close>

section \<open>Services\<close>

datatype deployment_mode = Bp_hosted | Customer_hosted | Third_party_saas | Self_hosted | Saas_managed

datatype http_method = GET | POST | PUT | PATCH | DELETE | OPTIONS

record public_jwk =
  jwk_kid :: string
  jwk_n :: string
  jwk_e :: string

record auth_provider_metadata =
  apm_issuer :: string
  apm_audience :: string
  apm_jwks_uri :: string
  apm_public_keys :: "public_jwk list option"

record tenant_service =
  ts_id :: string
  ts_hostname :: string
  ts_api_key_hash :: string
  ts_public_key_pem :: "string option"
  ts_key_id :: "string option"
  ts_service_id :: "string option"
  ts_auth_provider :: "auth_provider_metadata option"
  ts_capabilities :: "string list"
  ts_title :: "string option"
  ts_description :: "string option"
  ts_deployment_mode :: deployment_mode
  ts_created_at :: string
  ts_last_seen_at :: "string option"
  ts_last_sync_at :: "string option"
  ts_enabled :: bool

record platform_service =
  ps_id :: string
  ps_hostname :: string
  ps_api_key_hash :: string
  ps_public_key_pem :: "string option"
  ps_key_id :: "string option"
  ps_service_id :: "string option"
  ps_auth_provider :: "auth_provider_metadata option"
  ps_capabilities :: "string list"
  ps_title :: string
  ps_description :: "string option"
  ps_category :: "string option"
  ps_created_at :: string
  ps_enabled :: bool

record shared_service =
  ss_id :: string
  ss_service_id :: "string option"
  ss_title :: string
  ss_description :: "string option"
  ss_base_url :: string
  ss_api_key_hash :: string
  ss_public_key_pem :: "string option"
  ss_key_id :: "string option"
  ss_auth_provider :: "auth_provider_metadata option"
  ss_tags :: "string list"
  ss_enabled :: bool

record shared_activation =
  sa_id :: string
  sa_tenant_id :: string
  sa_app_id :: "string option"
  sa_shared_service_id :: string
  sa_activated_at :: string
  sa_enabled :: bool

section \<open>Tenants\<close>

record tenant =
  tn_id :: string
  tn_slug :: string
  tn_title :: string
  tn_active :: bool
  tn_services :: "tenant_service list"
  tn_activated_platform_services :: "string list"

section \<open>Routes, menus, fragments\<close>

datatype mount_kind = Page_mount | Api_mount

datatype enablement = Auto_enablement | Enabled | Disabled

record menu_permission =
  mp_service_id :: string
  mp_view_id :: string
  mp_permissions :: "string list"

record route_mount =
  rm_id :: string
  rm_kind :: mount_kind
  rm_path :: string
  rm_service_id :: string
  rm_view_id :: string
  rm_service_path_variant :: "string option"
  rm_fixed_params :: "(string, string) jsmap"
  rm_auth_required :: "bool option"
  rm_menu_permissions :: "menu_permission list option"
  rm_target_path :: "string option"
  rm_resolved_service_path :: "string option"
  rm_resolved_methods :: "http_method list option"
  rm_query :: "string option"
  rm_title :: "string option"
  rm_icon :: "string option"
  rm_enabled :: bool
  rm_enablement :: "enablement option"
  rm_operations :: "string list"
  rm_menu :: "bool option"

datatype menu_type = Link | Group | Section | Divider | External

datatype auth_status = Auto | Show | Hide_unauthenticated | Hide_unauthorized | Show_unauthenticated

datatype menu_item =
  Menu_item (mi_id: string) (mi_type: menu_type) (mi_title: "string option") (mi_icon: "string option")
    (mi_route_id: "string option") (mi_href: "string option") (mi_enabled: bool)
    (mi_service_shown: bool) (mi_auth_status: auth_status) (mi_roles_any_of: "string list option")
    (mi_default_expanded: "bool option") (mi_children: "menu_item list")

definition menu_max_depth :: nat where
  "menu_max_depth = 32"

fun all_opt :: "('a \<Rightarrow> bool) \<Rightarrow> 'a option \<Rightarrow> bool" where
  "all_opt P None = True"
| "all_opt P (Some x) = P x"

definition menu_fields_ok ::
    "string \<Rightarrow> string option \<Rightarrow> string option \<Rightarrow> string option \<Rightarrow> string list option \<Rightarrow> bool" where
  "menu_fields_ok i title icon route_id roles \<longleftrightarrow>
     uuid_v7_schema i \<and> all_opt (\<lambda>s. s \<noteq> []) title \<and> all_opt (\<lambda>s. s \<noteq> []) icon \<and>
     all_opt uuid_v7_schema route_id \<and> all_opt (list_all (\<lambda>s. s \<noteq> [])) roles"

text \<open>
  \<open>menuItemSchema(depth)\<close> accepts children with \<open>menuItemSchema(depth + 1)\<close> while
  \<open>depth < 32\<close>, and with a schema that rejects every item from there on.
\<close>

fun menu_item_schema :: "nat \<Rightarrow> menu_item \<Rightarrow> bool" where
  "menu_item_schema depth (Menu_item i t ti ic r h e sv a ro d children) =
     (menu_fields_ok i ti ic r ro \<and>
      (if depth < menu_max_depth
       then list_all (menu_item_schema (depth + 1)) children else children = []))"

record slot_assignment =
  sl_slot_id :: string
  sl_service_id :: string
  sl_view_id :: string
  sl_enabled :: bool

record fragment_assignment =
  fa_service_id :: string
  fa_fragment_id :: string
  fa_target_path :: string
  fa_enabled :: bool

datatype shell_item = Shell_item string | Service_item (si_service: string) (si_fragment: string) (si_target: string)

datatype shell_setting = No_items | Override_item shell_item | Item_list "shell_item list"

section \<open>Apps\<close>

datatype permission_action = Read | Create | Update | Delete

datatype minimum = Minimum_confirm | Minimum_mfa

record elevation_requirement =
  eq_minimum :: minimum
  eq_max_age :: "int option"

record permission_grant =
  pg_service_id :: string
  pg_view_id :: string
  pg_permissions :: "string list"

record app_role =
  role_id :: string
  role_title :: string
  role_grants :: "permission_grant list"

record view_reference =
  vref_service_id :: string
  vref_view_id :: string

record app_auth =
  aa_service_id :: string
  aa_expected_issuer :: string
  aa_expected_audience :: string
  aa_jwks_uri :: string
  aa_public_keys :: "public_jwk list option"
  aa_roles :: "app_role list"
  aa_after_login :: "view_reference option"
  aa_after_logout :: "view_reference option"

record app =
  app_id :: string
  app_tenant_id :: string
  app_slug :: string
  app_title :: string
  app_hostnames :: "string list"
  app_origin_overrides :: "string list"
  app_referer_overrides :: "string list"
  app_shell :: "string option"
  app_default_route :: string
  app_routes :: "route_mount list"
  app_menu :: "menu_item list"
  app_slots :: "slot_assignment list"
  app_fragments :: "(string, fragment_assignment list) jsmap"
  app_shell_fragments :: "(string, (string, shell_setting) jsmap) jsmap"
  app_auth_config :: "app_auth option"

record resolved_shell =
  rs_service_id :: string
  rs_service :: string
  rs_renderer :: string

record resolved_app =
  ra_app :: app
  ra_shell :: "resolved_shell option"
  ra_management_origins :: "(string, string) jsmap option"

section \<open>Operations in manifests and calls between services\<close>

datatype caller_mode = User_caller | Service_caller | Delegated_caller

datatype m2m_mode = Service_to_service | On_behalf_of_user

record operation_dependency =
  dp_service_id :: "string option"
  dp_operation_id :: string
  dp_method :: http_method

record api_contract =
  ac_id :: string
  ac_title :: string
  ac_version :: string
  ac_capabilities :: "string list"
  ac_permissions :: "string list"
  ac_modes :: "caller_mode list option"

record published_contract = api_contract +
  ac_view_id :: string
  ac_methods :: "http_method list"

record m2m_request =
  mq_id :: string
  mq_title :: string
  mq_contract_id :: string
  mq_version :: "string option"
  mq_required_capabilities :: "string list"
  mq_methods :: "http_method list"
  mq_permissions :: "string list"
  mq_mode :: m2m_mode
  mq_optional :: bool

record m2m_binding =
  mbd_id :: string
  mbd_tenant_id :: string
  mbd_app_id :: "string option"
  mbd_source_service_id :: string
  mbd_request_id :: string
  mbd_contract_id :: string
  mbd_target_service_id :: string
  mbd_target_view_id :: string
  mbd_mode :: m2m_mode
  mbd_enabled :: bool
  mbd_created_at :: string

record m2m_grant =
  mg_id :: string
  mg_tenant_id :: string
  mg_app_id :: "string option"
  mg_binding_id :: string
  mg_methods :: "http_method list"
  mg_permissions :: "string list"
  mg_enabled :: bool
  mg_created_at :: string

record manifest_operation =
  mo_operation_id :: string
  mo_method :: http_method
  mo_title :: string
  mo_render_modes :: "string list"
  mo_raw :: "bool option"
  mo_auth_required :: bool
  mo_role :: "string option"
  mo_menu :: "bool option"
  mo_dependencies :: "operation_dependency list"
  mo_permissions :: "permission_grant list"

section \<open>The configuration\<close>

record manifest_view =
  mv_view_id :: string
  mv_title :: string
  mv_path :: string
  mv_path_variants :: "string list"
  mv_operations :: "manifest_operation list"

record manifest_shell =
  ms_service :: "string option"
  ms_renderer :: "string option"

record manifest_entry =
  me_service_id :: string
  me_manifest_version :: string
  me_fetched_at :: int
  me_title :: "string option"
  me_auth_provider :: "auth_provider_metadata option"
  me_capabilities :: "string list"
  me_m2m_requests :: "m2m_request list"
  me_api_contracts :: "published_contract list"
  me_shell :: "manifest_shell option"
  me_view_index :: "(string, manifest_view) jsmap"

record config_management =
  cm_admin_tenant_id :: "string option"
  cm_management_app_id :: "string option"

record platform_config =
  pc_management :: config_management
  pc_platform_services :: "platform_service list"
  pc_tenants :: "tenant list"
  pc_apps :: "app list"
  pc_shared_catalog :: "shared_service list"
  pc_shared_activations :: "shared_activation list"
  pc_manifest_cache :: "manifest_entry list"

record request_context =
  rc_tenant :: tenant
  rc_app :: resolved_app

record service_binding =
  sb_tenant :: tenant
  sb_app :: resolved_app
  sb_service :: tenant_service

section \<open>Config schemas of services\<close>

datatype config_scope = Tenant_scope | App_scope

datatype visibility = Public | Protected | Secret

record config_field =
  cf_key :: string
  cf_title :: string
  cf_description :: string
  cf_scope :: config_scope
  cf_visibility :: visibility
  cf_required :: bool

record config_schema =
  cs_id :: string
  cs_title :: string
  cs_scope :: config_scope
  cs_fields :: "config_field list"

section \<open>Menu depth\<close>

fun menu_height :: "menu_item \<Rightarrow> nat" where
  "menu_height (Menu_item i t ti ic r h e sv a ro d children) = Suc (foldr max (map menu_height children) 0)"

fun menu_fields_valid :: "menu_item \<Rightarrow> bool" where
  "menu_fields_valid (Menu_item i t ti ic r h e sv a ro d children) \<longleftrightarrow>
     menu_fields_ok i ti ic r ro \<and> list_all menu_fields_valid children"

lemma foldr_max_le: "foldr max (ns :: nat list) 0 \<le> k \<longleftrightarrow> (\<forall>n\<in>set ns. n \<le> k)"
  by (induction ns) auto

lemma menu_item_schema_height:
  "d \<le> menu_max_depth \<Longrightarrow>
   menu_item_schema d m \<longleftrightarrow> menu_fields_valid m \<and> menu_height m + d \<le> menu_max_depth + 1"
proof (induction d m rule: menu_item_schema.induct)
  case (1 d i t ti ic r h e sv a ro x children)
  show ?case
  proof (cases "d < menu_max_depth")
    case True
    have "list_all (menu_item_schema (d + 1)) children \<longleftrightarrow>
        list_all menu_fields_valid children \<and> (\<forall>c\<in>set children. menu_height c \<le> menu_max_depth - d)"
      using 1 True by (auto simp: list_all_iff)
    also have "(\<forall>c\<in>set children. menu_height c \<le> menu_max_depth - d) \<longleftrightarrow>
        foldr max (map menu_height children) 0 \<le> menu_max_depth - d"
      by (simp add: foldr_max_le)
    finally show ?thesis using True by auto
  next
    case False
    have pos: "0 < menu_height c" for c by (cases c) simp
    have "foldr max (map menu_height children) 0 \<le> 0 \<longleftrightarrow> children = []"
      using pos by (cases children) auto
    with False 1 show ?thesis by auto
  qed
qed

section \<open>A sample configuration\<close>

definition sample_service :: tenant_service where
  "sample_service = \<lparr>ts_id = ''s1'', ts_hostname = ''https://svc.test/'', ts_api_key_hash = '''', ts_public_key_pem = None,
     ts_key_id = None, ts_service_id = None, ts_auth_provider = None, ts_capabilities = [], ts_title = None,
     ts_description = None, ts_deployment_mode = Bp_hosted, ts_created_at = '''', ts_last_seen_at = None,
     ts_last_sync_at = None, ts_enabled = True\<rparr>"

definition sample_mount :: route_mount where
  "sample_mount = \<lparr>rm_id = ''r1'', rm_kind = Page_mount, rm_path = ''/items/:id'', rm_service_id = ''s1'', rm_view_id = ''items.view'',
     rm_service_path_variant = None, rm_fixed_params = [], rm_auth_required = None, rm_menu_permissions = None,
     rm_target_path = Some ''/list/:id'', rm_resolved_service_path = None, rm_resolved_methods = None, rm_query = None,
     rm_title = Some ''Items'', rm_icon = None, rm_enabled = True, rm_enablement = None, rm_operations = [], rm_menu = None\<rparr>"

definition sample_tenant :: tenant where
  "sample_tenant = \<lparr>tn_id = ''t1'', tn_slug = ''t'', tn_title = ''T'', tn_active = True, tn_services = [sample_service],
     tn_activated_platform_services = []\<rparr>"

definition sample_app_auth :: app_auth where
  "sample_app_auth = \<lparr>aa_service_id = ''s1'', aa_expected_issuer = ''iss'', aa_expected_audience = ''aud'', aa_jwks_uri = ''https://svc.test/jwks'', aa_public_keys = None,
     aa_roles = [\<lparr>role_id = ''editor'', role_title = ''Editor'',
       role_grants = [\<lparr>pg_service_id = ''s1'', pg_view_id = ''items.view'', pg_permissions = [''read'']\<rparr>]\<rparr>],
     aa_after_login = None, aa_after_logout = None\<rparr>"

definition sample_app :: app where
  "sample_app = \<lparr>app_id = ''a1'', app_tenant_id = ''t1'', app_slug = ''a'', app_title = ''A'', app_hostnames = [''a.test''],
     app_origin_overrides = [], app_referer_overrides = [], app_shell = None, app_default_route = ''/'',
     app_routes = [sample_mount], app_menu = [], app_slots = [], app_fragments = [], app_shell_fragments = [],
     app_auth_config = Some sample_app_auth\<rparr>"

definition sample_config :: platform_config where
  "sample_config = \<lparr>pc_management = \<lparr>cm_admin_tenant_id = None, cm_management_app_id = None\<rparr>, pc_platform_services = [],
     pc_tenants = [sample_tenant], pc_apps = [sample_app], pc_shared_catalog = [], pc_shared_activations = [],
     pc_manifest_cache = []\<rparr>"

definition sample_context :: request_context where
  "sample_context = \<lparr>rc_tenant = sample_tenant,
     rc_app = \<lparr>ra_app = sample_app, ra_shell = None, ra_management_origins = None\<rparr>\<rparr>"

section \<open>Properties\<close>

text \<open>
  A stored menu is accepted exactly when each of its items has valid fields and it is at
  most 32 levels deep below a top-level item; so no accepted menu can exhaust the stack of the
  recursive functions that walk it.
\<close>
theorem menu_depth_bounded:
  "menu_item_schema 0 m \<longleftrightarrow> menu_fields_valid m \<and> menu_height m \<le> 33"
  using menu_item_schema_height [of 0 m] by (simp add: menu_max_depth_def)

end
