(* ===== verification/UriComponent.thy ===== *)
theory UriComponent
  imports Prelude_JS
begin

text \<open>
  \<open>encodeURIComponent\<close> and \<open>decodeURIComponent\<close> of the language, on code units up to
  255: UTF-8 bytes as upper-case percent triplets, and back. A triplet sequence for a code
  point above 255 is outside the model and reads as malformed.
\<close>

definition uri_unreserved :: "char \<Rightarrow> bool" where
  "uri_unreserved c \<longleftrightarrow> is_alnum c \<or> c \<in> set ''-_.!~*()'' \<or> c = CHR 0x27"

definition upper_hex_digit :: "nat \<Rightarrow> char" where
  "upper_hex_digit n = (if n < 10 then char_of (48 + n) else char_of (55 + n))"

definition hex_value :: "char \<Rightarrow> nat option" where
  "hex_value c = (let n = (of_char c :: nat) in
     if 48 \<le> n \<and> n \<le> 57 then Some (n - 48)
     else if 65 \<le> n \<and> n \<le> 70 then Some (n - 55)
     else if 97 \<le> n \<and> n \<le> 102 then Some (n - 87) else None)"

definition percent :: "nat \<Rightarrow> string" where
  "percent b = [CHR ''%'', upper_hex_digit (b div 16), upper_hex_digit (b mod 16)]"

definition encode_char :: "char \<Rightarrow> string" where
  "encode_char c = (let n = (of_char c :: nat) in
     if uri_unreserved c then [c]
     else if n < 128 then percent n
     else percent (192 + n div 64) @ percent (128 + n mod 64))"

definition encode_uri_component :: "string \<Rightarrow> string" where
  "encode_uri_component s = concat (map encode_char s)"

fun byte_at :: "char \<Rightarrow> char \<Rightarrow> nat option" where
  "byte_at h l = (case (hex_value h, hex_value l) of (Some a, Some b) \<Rightarrow> Some (16 * a + b) | _ \<Rightarrow> None)"

fun continuation :: "nat \<Rightarrow> string \<Rightarrow> (char \<times> string) option" where
  "continuation lead (p # h # l # rest) =
     (if p = CHR ''%'' then
        (case byte_at h l of
           Some b \<Rightarrow> if 128 \<le> b \<and> b < 192 then Some (char_of (lead * 64 + (b - 128)), rest) else None
         | None \<Rightarrow> None)
      else None)"
| "continuation lead _ = None"

lemma continuation_shorter: "continuation lead s = Some (c, rest) \<Longrightarrow> length rest < length s"
  by (cases "(lead, s)" rule: continuation.cases) (auto split: if_splits option.splits)

function decode_uri_component :: "string \<Rightarrow> string option" where
  "decode_uri_component [] = Some []"
| "decode_uri_component (c # cs) =
     (if c \<noteq> CHR ''%'' then map_option (Cons c) (decode_uri_component cs)
      else (case cs of
              h # l # rest \<Rightarrow>
                (case byte_at h l of
                   None \<Rightarrow> None
                 | Some b \<Rightarrow>
                     if b < 128 then map_option (Cons (char_of b)) (decode_uri_component rest)
                     else if b = 194 \<or> b = 195 then
                       (case continuation (b - 192) rest of
                          None \<Rightarrow> None
                        | Some (d, rest') \<Rightarrow> map_option (Cons d) (decode_uri_component rest'))
                     else None)
            | _ \<Rightarrow> None))"
  by pat_completeness auto
termination
  by (relation "measure length") (auto dest: continuation_shorter)

lemma of_char_upper_hex: "n < 16 \<Longrightarrow> (of_char (upper_hex_digit n) :: nat) = (if n < 10 then 48 + n else 55 + n)"
  by (simp add: upper_hex_digit_def)

lemma hex_value_upper: "n < 16 \<Longrightarrow> hex_value (upper_hex_digit n) = Some n"
  by (simp add: hex_value_def of_char_upper_hex Let_def)

lemma byte_at_percent: "b < 256 \<Longrightarrow> byte_at (upper_hex_digit (b div 16)) (upper_hex_digit (b mod 16)) = Some b"
  by (simp add: hex_value_upper)

lemma unreserved_not_percent: "uri_unreserved c \<Longrightarrow> c \<noteq> CHR ''%''"
  by (auto simp: uri_unreserved_def is_alnum_def is_alpha_def is_digit_def char_between_def)

lemma of_char_less: "(of_char (c :: char) :: nat) < 256"
  by (metis nat_of_char_less_256)

lemma div_range: "(n :: nat) < 256 \<Longrightarrow> n div 64 < 4" "(n :: nat) < 256 \<Longrightarrow> n div 16 < 16"
  by (simp_all add: less_mult_imp_div_less)

lemma lead_range: "(n :: nat) < 256 \<Longrightarrow> \<not> n < 128 \<Longrightarrow> n div 64 = 2 \<or> n div 64 = 3"
  using div_range(1) [of n] div_le_mono [of 128 n 64] by auto

lemma byte_range: "(n :: nat) < 256 \<Longrightarrow> 192 + n div 64 < 256" "128 + (n :: nat) mod 64 < 256"
  using div_range(1) [of n] mod_less_divisor [of 64 n] by auto

lemma decode_encode_char:
  "decode_uri_component (encode_char c @ s) = map_option (Cons c) (decode_uri_component s)"
proof -
  let ?n = "of_char c :: nat"
  have n: "?n < 256" by (rule of_char_less)
  consider (plain) "uri_unreserved c" | (ascii) "\<not> uri_unreserved c" "?n < 128"
    | (two) "\<not> uri_unreserved c" "\<not> ?n < 128" by blast
  then show ?thesis
  proof cases
    case plain
    then show ?thesis by (simp add: encode_char_def unreserved_not_percent)
  next
    case ascii
    then show ?thesis
      by (simp add: encode_char_def percent_def Let_def byte_at_percent del: byte_at.simps)
  next
    case two
    have q: "?n div 64 = 2 \<or> ?n div 64 = 3" using n two(2) by (rule lead_range)
    have lead: "192 + ?n div 64 < 256" "128 + ?n mod 64 < 256"
      by (rule byte_range(1) [OF n], rule byte_range(2))
    have "continuation (?n div 64) (percent (128 + ?n mod 64) @ s) = Some (char_of (?n div 64 * 64 + ?n mod 64), s)"
      using lead by (simp add: percent_def byte_at_percent del: byte_at.simps)
    then have cont: "continuation (?n div 64) (percent (128 + ?n mod 64) @ s) = Some (c, s)" by simp
    have lead_val: "192 + ?n div 64 = 194 \<or> 192 + ?n div 64 = 195" using q by auto
    have "encode_char c @ s = CHR ''%'' # upper_hex_digit ((192 + ?n div 64) div 16)
        # upper_hex_digit ((192 + ?n div 64) mod 16) # (percent (128 + ?n mod 64) @ s)"
      using two by (simp add: encode_char_def percent_def Let_def)
    then show ?thesis
      using cont lead_val
      by (simp add: byte_at_percent [OF lead(1)] del: byte_at.simps continuation.simps)
  qed
qed

lemma decode_encode: "decode_uri_component (encode_uri_component s) = Some s"
  by (induction s) (simp_all add: encode_uri_component_def decode_encode_char)

lemma upper_hex_alnum: "n < 16 \<Longrightarrow> is_alnum (upper_hex_digit n)"
  by (auto simp: is_alnum_def is_alpha_def is_digit_def char_between_def of_char_upper_hex)

lemma percent_chars: "b < 256 \<Longrightarrow> x \<in> set (percent b) \<Longrightarrow> uri_unreserved x \<or> x = CHR ''%''"
  using upper_hex_alnum [of "b div 16"] upper_hex_alnum [of "b mod 16"]
  by (auto simp: percent_def uri_unreserved_def div_range)

lemma encode_char_chars: "x \<in> set (encode_char c) \<Longrightarrow> uri_unreserved x \<or> x = CHR ''%''"
proof -
  have "192 + (of_char c :: nat) div 64 < 256" "128 + (of_char c :: nat) mod 64 < 256"
    by (rule byte_range(1) [OF of_char_less], rule byte_range(2))
  then show "x \<in> set (encode_char c) \<Longrightarrow> ?thesis"
    using percent_chars [of "192 + of_char c div 64" x] percent_chars [of "128 + of_char c mod 64" x]
      percent_chars [of "of_char c" x] of_char_less [of c]
    by (auto simp: encode_char_def Let_def split: if_splits)
qed

lemma encode_chars: "x \<in> set (encode_uri_component s) \<Longrightarrow> uri_unreserved x \<or> x = CHR ''%''"
  by (auto simp: encode_uri_component_def dest: encode_char_chars)

lemma encode_reserved: "CHR ''/'' \<notin> set (encode_uri_component s)" "CHR ''?'' \<notin> set (encode_uri_component s)"
  by (auto dest!: encode_chars simp: uri_unreserved_def is_alnum_def is_alpha_def is_digit_def char_between_def)

lemma encode_Nil [simp]: "encode_uri_component s = [] \<longleftrightarrow> s = []"
  by (cases s) (auto simp: encode_uri_component_def encode_char_def percent_def Let_def)

end
