(* ===== verification/ConfigProvider.thy ===== *)
theory ConfigProvider
  imports PlatformConfig Hosts UriComponent
begin

text \<open>
  \<open>runtime/configProvider.ts\<close>: which app and tenant a request belongs to, which services
  an app may use, and which service URL a mounted page resolves to.

  The URL parser is the parameter \<open>parse_url\<close> (as in \<open>Hosts\<close>); the schema check of
  the origin policy is the parameter \<open>valid_url\<close>.
\<close>

section \<open>Service base URLs\<close>

definition service_base_url :: "string \<Rightarrow> string" where
  "service_base_url u = rev (dropWhile (\<lambda>c. c = CHR ''/'') (rev u))"

definition http_protocol :: "url \<Rightarrow> bool" where
  "http_protocol u \<longleftrightarrow> u_protocol u = ''https:'' \<or> u_protocol u = ''http:''"

definition credential_free :: "url \<Rightarrow> bool" where
  "credential_free u \<longleftrightarrow> http_protocol u \<and> u_username u = [] \<and> u_password u = []"

definition safe_service_base_url :: "(string \<Rightarrow> url option) \<Rightarrow> string \<Rightarrow> string option" where
  "safe_service_base_url parse_url hostname =
     (case parse_url (service_base_url hostname) of
        None \<Rightarrow> None
      | Some u \<Rightarrow>
          if \<not> http_protocol u \<or> u_username u \<noteq> [] \<or> u_password u \<noteq> [] \<or> u_search u \<noteq> [] \<or> u_hash u \<noteq> []
          then None
          else Some (u_origin u @ (if u_pathname u = ''/'' then [] else u_pathname u)))"

section \<open>Request context\<close>

definition host_matches :: "(string \<Rightarrow> url option) \<Rightarrow> string \<Rightarrow> string \<Rightarrow> bool" where
  "host_matches parse_url request_host app_hostname =
     (case host_from_header_value parse_url (Some app_hostname) of
        None \<Rightarrow> False
      | Some h \<Rightarrow> if h = [] then False
                  else h = request_host \<or> hd (js_split (CHR '':'') h) = hd (js_split (CHR '':'') request_host))"

definition find_app_by_host :: "(string \<Rightarrow> url option) \<Rightarrow> platform_config \<Rightarrow> string option \<Rightarrow> app option" where
  "find_app_by_host parse_url cfg request_host =
     (case request_host of
        None \<Rightarrow> None
      | Some h \<Rightarrow> if h = [] then None
                  else List.find (\<lambda>a. list_ex (host_matches parse_url h) (app_hostnames a)) (pc_apps cfg))"

definition describe_embedded_context_resolution ::
    "(string \<Rightarrow> url option) \<Rightarrow> platform_config \<Rightarrow> headers \<Rightarrow> header_trust \<Rightarrow>
     string list \<times> (string \<times> string list) list" where
  "describe_embedded_context_resolution parse_url cfg hs trust =
     (map hc_host (build_host_candidates parse_url hs Service_mode trust),
      map (\<lambda>a. (app_id a, filter (\<lambda>h. h \<noteq> [])
             (List.map_filter (\<lambda>n. host_from_header_value parse_url (Some n)) (app_hostnames a))))
        (pc_apps cfg))"

definition shell_keys :: "platform_config \<Rightarrow> string \<Rightarrow> string list" where
  "shell_keys cfg sid =
     (let direct = (case List.find (\<lambda>s. ts_id s = sid) (concat (map tn_services (pc_tenants cfg))) of
                      Some s \<Rightarrow> ts_service_id s
                    | None \<Rightarrow> (case List.find (\<lambda>s. ps_id s = sid) (pc_platform_services cfg) of
                                 Some s \<Rightarrow> ps_service_id s | None \<Rightarrow> None));
          activation = List.find (\<lambda>a. sa_enabled a \<and> sa_id a = sid) (pc_shared_activations cfg);
          shared = (case activation of
                      None \<Rightarrow> None
                    | Some a \<Rightarrow> List.find (\<lambda>s. ss_enabled s \<and> ss_id s = sa_shared_service_id a) (pc_shared_catalog cfg))
      in [sid] @ (if truthy direct then [the direct] else []) @
         (case shared of None \<Rightarrow> []
          | Some s \<Rightarrow> ss_id s # (if truthy (ss_service_id s) then [the (ss_service_id s)] else [])))"

definition resolve_app_shell :: "platform_config \<Rightarrow> app \<Rightarrow> resolved_shell option" where
  "resolve_app_shell cfg a =
     (case app_shell a of
        None \<Rightarrow> None
      | Some sid \<Rightarrow>
          if sid = [] then None
          else (case Option.bind (List.find (\<lambda>e. me_service_id e \<in> set (shell_keys cfg sid)) (pc_manifest_cache cfg)) me_shell of
                  None \<Rightarrow> None
                | Some sh \<Rightarrow>
                    (case (ms_service sh, ms_renderer sh) of
                       (Some svc, Some rend) \<Rightarrow> Some \<lparr>rs_service_id = sid, rs_service = svc, rs_renderer = rend\<rparr>
                     | _ \<Rightarrow> None)))"

definition build_resolved_context :: "platform_config \<Rightarrow> string option \<Rightarrow> request_context option" where
  "build_resolved_context cfg aid =
     (case aid of
        None \<Rightarrow> None
      | Some i \<Rightarrow>
          if i = [] then None
          else (case List.find (\<lambda>a. app_id a = i) (pc_apps cfg) of
                  None \<Rightarrow> None
                | Some a \<Rightarrow>
                    (case List.find (\<lambda>t. tn_id t = app_tenant_id a) (pc_tenants cfg) of
                       None \<Rightarrow> None
                     | Some t \<Rightarrow>
                         if \<not> tn_active t then None
                         else Some \<lparr>rc_tenant = t,
                                    rc_app = \<lparr>ra_app = a, ra_shell = resolve_app_shell cfg a,
                                              ra_management_origins = None\<rparr>\<rparr>)))"

record resolution_attempt =
  at_source :: host_source
  at_host :: string
  at_app_id :: "string option"

record resolution_result =
  rr_context :: "request_context option"
  rr_candidates :: "resolution_attempt list"
  rr_matched_by :: "host_source option"
  rr_matched_host :: "string option"

fun try_candidates ::
    "(string \<Rightarrow> url option) \<Rightarrow> platform_config \<Rightarrow> resolution_attempt list \<Rightarrow> host_candidate list \<Rightarrow> resolution_result" where
  "try_candidates parse_url cfg attempts [] =
     \<lparr>rr_context = None, rr_candidates = attempts, rr_matched_by = None, rr_matched_host = None\<rparr>"
| "try_candidates parse_url cfg attempts (c # cs) =
     (let aid = map_option app_id (find_app_by_host parse_url cfg (Some (hc_host c)));
          attempts' = attempts @ [\<lparr>at_source = hc_source c, at_host = hc_host c, at_app_id = aid\<rparr>]
      in case build_resolved_context cfg aid of
           Some ctx \<Rightarrow> \<lparr>rr_context = Some ctx, rr_candidates = attempts',
                        rr_matched_by = Some (hc_source c), rr_matched_host = Some (hc_host c)\<rparr>
         | None \<Rightarrow> try_candidates parse_url cfg attempts' cs)"

definition resolve_request_context_detailed ::
    "(string \<Rightarrow> url option) \<Rightarrow> platform_config \<Rightarrow> headers \<Rightarrow> host_mode \<Rightarrow> header_trust \<Rightarrow> resolution_result" where
  "resolve_request_context_detailed parse_url cfg hs mode trust =
     try_candidates parse_url cfg [] (build_host_candidates parse_url hs mode trust)"

definition with_host_header :: "headers \<Rightarrow> string option \<Rightarrow> headers" where
  "with_host_header hs request_host =
     (case request_host of
        None \<Rightarrow> hs
      | Some h \<Rightarrow>
          if h = [] then hs
          else (case hs of
                  Headers_object m \<Rightarrow> Headers_object (js_set ''host'' h m)
                | Header_record m \<Rightarrow> Header_record (js_set ''host'' (One h) m)))"

definition resolve_theme_request_context ::
    "(string \<Rightarrow> url option) \<Rightarrow> platform_config \<Rightarrow> headers \<Rightarrow> string option \<Rightarrow> header_trust \<Rightarrow> request_context option" where
  "resolve_theme_request_context parse_url cfg hs request_host trust =
     rr_context (resolve_request_context_detailed parse_url cfg (with_host_header hs request_host) Theme_mode trust)"

definition resolve_embedded_request_context ::
    "(string \<Rightarrow> url option) \<Rightarrow> platform_config \<Rightarrow> headers \<Rightarrow> header_trust \<Rightarrow> request_context option" where
  "resolve_embedded_request_context parse_url cfg hs trust =
     rr_context (resolve_request_context_detailed parse_url cfg hs Service_mode trust)"

section \<open>Services an app may use\<close>

definition shared_as_tenant_service :: "shared_activation \<Rightarrow> shared_service \<Rightarrow> tenant_service" where
  "shared_as_tenant_service a s =
     \<lparr>ts_id = sa_id a, ts_hostname = ss_base_url s, ts_api_key_hash = ss_api_key_hash s,
      ts_public_key_pem = None, ts_key_id = None, ts_service_id = ss_service_id s,
      ts_auth_provider = ss_auth_provider s, ts_capabilities = ss_tags s, ts_title = Some (ss_title s),
      ts_description = ss_description s, ts_deployment_mode = Bp_hosted, ts_created_at = sa_activated_at a,
      ts_last_seen_at = None, ts_last_sync_at = None, ts_enabled = True\<rparr>"

definition platform_as_tenant_service :: "platform_service \<Rightarrow> tenant_service" where
  "platform_as_tenant_service s =
     \<lparr>ts_id = ps_id s, ts_hostname = ps_hostname s, ts_api_key_hash = ps_api_key_hash s,
      ts_public_key_pem = None, ts_key_id = None, ts_service_id = ps_service_id s,
      ts_auth_provider = None, ts_capabilities = ps_capabilities s, ts_title = Some (ps_title s),
      ts_description = ps_description s, ts_deployment_mode = Bp_hosted, ts_created_at = ps_created_at s,
      ts_last_seen_at = None, ts_last_sync_at = None, ts_enabled = True\<rparr>"

definition bind_service :: "request_context \<Rightarrow> tenant_service \<Rightarrow> service_binding" where
  "bind_service ctx s = \<lparr>sb_tenant = rc_tenant ctx, sb_app = rc_app ctx, sb_service = s\<rparr>"

definition resolve_service_for_tenant :: "platform_config \<Rightarrow> string \<Rightarrow> request_context \<Rightarrow> service_binding option" where
  "resolve_service_for_tenant cfg sid ctx =
     (case List.find (\<lambda>a. sa_id a = sid) (pc_shared_activations cfg) of
        Some a \<Rightarrow>
          if \<not> sa_enabled a \<or> sa_tenant_id a \<noteq> tn_id (rc_tenant ctx)
             \<or> (truthy (sa_app_id a) \<and> sa_app_id a \<noteq> Some (app_id (ra_app (rc_app ctx)))) then None
          else (case List.find (\<lambda>s. ss_enabled s \<and> ss_id s = sa_shared_service_id a) (pc_shared_catalog cfg) of
                  None \<Rightarrow> None
                | Some s \<Rightarrow> Some (bind_service ctx (shared_as_tenant_service a s)))
      | None \<Rightarrow>
          (case List.find (\<lambda>s. ts_enabled s \<and> (ts_id s = sid \<or> ts_service_id s = Some sid)) (tn_services (rc_tenant ctx)) of
             Some s \<Rightarrow> Some (bind_service ctx s)
           | None \<Rightarrow>
               if sid \<in> set (tn_activated_platform_services (rc_tenant ctx)) then
                 (case List.find (\<lambda>s. ps_enabled s \<and> (ps_id s = sid \<or> ps_service_id s = Some sid)) (pc_platform_services cfg) of
                    Some s \<Rightarrow> Some (bind_service ctx (platform_as_tenant_service s))
                  | None \<Rightarrow> None)
               else None))"

fun first_view_title :: "platform_config \<Rightarrow> string \<Rightarrow> string option list \<Rightarrow> string option" where
  "first_view_title cfg vid [] = None"
| "first_view_title cfg vid (k # ks) =
     (if \<not> truthy k then first_view_title cfg vid ks
      else (case Option.bind (List.find (\<lambda>e. Some (me_service_id e) = k) (pc_manifest_cache cfg))
                   (\<lambda>e. js_get (me_view_index e) vid) of
              Some v \<Rightarrow> if mv_title v \<noteq> [] then Some (mv_title v) else first_view_title cfg vid ks
            | None \<Rightarrow> first_view_title cfg vid ks))"

definition resolve_service_view_title ::
    "platform_config \<Rightarrow> string \<Rightarrow> string \<Rightarrow> request_context \<Rightarrow> string option" where
  "resolve_service_view_title cfg sid vid ctx =
     (case resolve_service_for_tenant cfg sid ctx of
        None \<Rightarrow> None
      | Some b \<Rightarrow>
          (let activation = List.find (\<lambda>a. sa_id a = ts_id (sb_service b)) (pc_shared_activations cfg)
           in first_view_title cfg vid
                [map_option sa_shared_service_id activation, Some (ts_id (sb_service b)), ts_service_id (sb_service b)]))"

section \<open>Credential destinations\<close>

definition shell_item_services :: "shell_setting \<Rightarrow> string list" where
  "shell_item_services st =
     (let items = (case st of Item_list xs \<Rightarrow> xs | Override_item x \<Rightarrow> [x] | No_items \<Rightarrow> [])
      in List.map_filter (\<lambda>i. case i of Service_item s f t \<Rightarrow> Some s | Shell_item f \<Rightarrow> None) items)"

definition app_service_ids :: "resolved_app \<Rightarrow> string list" where
  "app_service_ids ra =
     (let a = ra_app ra;
          shell_id = (case ra_shell ra of Some sh \<Rightarrow> rs_service_id sh | None \<Rightarrow> []);
          settings = (case js_get (app_shell_fragments a) shell_id of None \<Rightarrow> [] | Some m \<Rightarrow> js_values m)
      in uniq (map rm_service_id (filter rm_enabled (app_routes a)) @
               map sl_service_id (filter sl_enabled (app_slots a)) @
               map fa_service_id (filter fa_enabled (concat (js_values (app_fragments a)))) @
               (case app_auth_config a of Some au \<Rightarrow> if aa_service_id au \<noteq> [] then [aa_service_id au] else [] | None \<Rightarrow> []) @
               (if shell_id \<noteq> [] then [shell_id] else []) @
               concat (map shell_item_services settings)))"

definition add_origin ::
    "(string \<Rightarrow> url option) \<Rightarrow> string \<Rightarrow> string \<Rightarrow> (string, string) jsmap \<Rightarrow> (string, string) jsmap" where
  "add_origin parse_url sid base origins =
     (case parse_url base of
        Some u \<Rightarrow> if credential_free u then js_set sid (u_origin u) origins else origins
      | None \<Rightarrow> origins)"

definition is_management_context :: "platform_config \<Rightarrow> request_context \<Rightarrow> bool" where
  "is_management_context cfg ctx \<longleftrightarrow>
     app_id (ra_app (rc_app ctx)) \<noteq> [] \<and>
     Some (app_id (ra_app (rc_app ctx))) = cm_management_app_id (pc_management cfg) \<and>
     Some (tn_id (rc_tenant ctx)) = cm_admin_tenant_id (pc_management cfg)"

definition management_origins ::
    "(string \<Rightarrow> url option) \<Rightarrow> platform_config \<Rightarrow> request_context \<Rightarrow> (string, string) jsmap" where
  "management_origins parse_url cfg ctx =
     (if is_management_context cfg ctx then
        foldl (\<lambda>acc (sid, origin). add_origin parse_url sid origin acc) []
          (case ra_management_origins (rc_app ctx) of None \<Rightarrow> [] | Some m \<Rightarrow> m)
      else [])"

definition resolve_app_service_origins ::
    "(string \<Rightarrow> url option) \<Rightarrow> platform_config \<Rightarrow> request_context \<Rightarrow> (string, string) jsmap" where
  "resolve_app_service_origins parse_url cfg ctx =
     foldl (\<lambda>acc sid. case resolve_service_for_tenant cfg sid ctx of
                         None \<Rightarrow> acc
                       | Some b \<Rightarrow> add_origin parse_url sid (service_base_url (ts_hostname (sb_service b))) acc)
       (management_origins parse_url cfg ctx) (app_service_ids (rc_app ctx))"

section \<open>Origin policy\<close>

definition hostname_origins :: "string \<Rightarrow> string list" where
  "hostname_origins h =
     (if js_starts_with ''http://'' h \<or> js_starts_with ''https://'' h then [h]
      else [''https://'' @ h, ''http://'' @ h])"

definition ensure_allowed_origins :: "app \<Rightarrow> string list" where
  "ensure_allowed_origins a = uniq (concat (map hostname_origins (app_hostnames a)) @ app_origin_overrides a)"

record origin_policy =
  op_origins :: "string list"
  op_referers :: "string list"

definition build_origin_policy :: "(string \<Rightarrow> bool) \<Rightarrow> request_context \<Rightarrow> origin_policy res" where
  "build_origin_policy valid_url ctx =
     (let a = ra_app (rc_app ctx);
          origins = ensure_allowed_origins a;
          referers = uniq (ensure_allowed_origins a @ app_referer_overrides a)
      in ensure (list_all valid_url origins \<and> list_all valid_url referers) ''ValidationError''
           (Inr \<lparr>op_origins = origins, op_referers = referers\<rparr>))"

definition is_allowed_origin_for_context :: "(string \<Rightarrow> bool) \<Rightarrow> request_context \<Rightarrow> string option \<Rightarrow> bool res" where
  "is_allowed_origin_for_context valid_url ctx origin =
     (if \<not> truthy origin then Inr False
      else res_bind (build_origin_policy valid_url ctx) (\<lambda>p. Inr (the origin \<in> set (op_origins p))))"

definition is_allowed_referer_for_context :: "(string \<Rightarrow> bool) \<Rightarrow> request_context \<Rightarrow> string option \<Rightarrow> bool res" where
  "is_allowed_referer_for_context valid_url ctx referer =
     (if \<not> truthy referer then Inr False
      else res_bind (build_origin_policy valid_url ctx) (\<lambda>p. Inr (the referer \<in> set (op_referers p))))"

section \<open>Lemmas\<close>

lemma service_base_url_no_slash: "service_base_url u = [] \<or> last (service_base_url u) \<noteq> CHR ''/''"
proof (cases "dropWhile (\<lambda>c. c = CHR ''/'') (rev u)")
  case (Cons c cs)
  then have "c \<noteq> CHR ''/''" using hd_dropWhile [of "\<lambda>c. c = CHR ''/''" "rev u"] by force
  then show ?thesis by (simp add: service_base_url_def Cons)
qed (simp add: service_base_url_def)

lemma service_base_url_prefix: "\<exists>n. u = service_base_url u @ replicate n (CHR ''/'')"
proof -
  let ?t = "takeWhile (\<lambda>c. c = CHR ''/'') (rev u)"
  have "rev u = ?t @ dropWhile (\<lambda>c. c = CHR ''/'') (rev u)" by simp
  then have "u = service_base_url u @ rev ?t"
    unfolding service_base_url_def by (metis rev_append rev_rev_ident)
  moreover have "rev ?t = replicate (length ?t) (CHR ''/'')"
    by (rule replicate_eqI [symmetric, THEN sym]) (auto dest: set_takeWhileD)
  ultimately show ?thesis by metis
qed

lemma build_resolved_contextD:
  "build_resolved_context cfg aid = Some ctx \<Longrightarrow>
   ra_app (rc_app ctx) \<in> set (pc_apps cfg) \<and> rc_tenant ctx \<in> set (pc_tenants cfg) \<and>
   aid = Some (app_id (ra_app (rc_app ctx))) \<and>
   tn_id (rc_tenant ctx) = app_tenant_id (ra_app (rc_app ctx)) \<and> tn_active (rc_tenant ctx) \<and>
   ra_management_origins (rc_app ctx) = None"
  by (auto simp: build_resolved_context_def split: option.splits if_splits dest: find_SomeD)

lemma try_candidates_context:
  assumes "rr_context (try_candidates p cfg as cs) = Some ctx"
  shows "\<exists>pre c post. cs = pre @ c # post \<and>
    build_resolved_context cfg (map_option app_id (find_app_by_host p cfg (Some (hc_host c)))) = Some ctx \<and>
    (\<forall>x\<in>set pre. build_resolved_context cfg (map_option app_id (find_app_by_host p cfg (Some (hc_host x)))) = None) \<and>
    rr_matched_by (try_candidates p cfg as cs) = Some (hc_source c) \<and>
    rr_matched_host (try_candidates p cfg as cs) = Some (hc_host c)"
  using assms
proof (induction p cfg as cs rule: try_candidates.induct)
  case (2 p cfg as c cs)
  let ?b = "build_resolved_context cfg (map_option app_id (find_app_by_host p cfg (Some (hc_host c))))"
  show ?case
  proof (cases ?b)
    case None
    with 2 obtain pre d post where "cs = pre @ d # post"
      and "build_resolved_context cfg (map_option app_id (find_app_by_host p cfg (Some (hc_host d)))) = Some ctx"
      and "\<forall>x\<in>set pre. build_resolved_context cfg (map_option app_id (find_app_by_host p cfg (Some (hc_host x)))) = None"
      and "rr_matched_by (try_candidates p cfg as (c # cs)) = Some (hc_source d)"
      and "rr_matched_host (try_candidates p cfg as (c # cs)) = Some (hc_host d)"
      by (fastforce simp: Let_def)
    with None show ?thesis by (intro exI [of _ "c # pre"] exI [of _ d] exI [of _ post]) simp
  next
    case (Some x)
    with "2.prems" show ?thesis by (intro exI [of _ "[]"] exI [of _ c] exI [of _ cs]) (simp add: Let_def)
  qed
qed simp

lemma resolve_service_cases:
  assumes "resolve_service_for_tenant cfg sid ctx = Some b"
  obtains (shared) a s where "a \<in> set (pc_shared_activations cfg)" "sa_id a = sid" "sa_enabled a"
      "sa_tenant_id a = tn_id (rc_tenant ctx)"
      "\<not> truthy (sa_app_id a) \<or> sa_app_id a = Some (app_id (ra_app (rc_app ctx)))"
      "s \<in> set (pc_shared_catalog cfg)" "ss_enabled s" "ss_id s = sa_shared_service_id a"
      "b = bind_service ctx (shared_as_tenant_service a s)"
  | (own) s where "s \<in> set (tn_services (rc_tenant ctx))" "ts_enabled s" "ts_id s = sid \<or> ts_service_id s = Some sid"
      "b = bind_service ctx s"
  | (platform) s where "sid \<in> set (tn_activated_platform_services (rc_tenant ctx))"
      "s \<in> set (pc_platform_services cfg)" "ps_enabled s" "ps_id s = sid \<or> ps_service_id s = Some sid"
      "b = bind_service ctx (platform_as_tenant_service s)"
  using assms unfolding resolve_service_for_tenant_def
  by (auto split: option.splits if_splits dest!: find_SomeD)

lemma add_origin_get:
  "js_get (add_origin p sid base m) k =
     (if k = sid then (case parse_url_ok of None \<Rightarrow> js_get m k | Some u \<Rightarrow> Some (u_origin u)) else js_get m k)"
  if "parse_url_ok = (case p base of Some u \<Rightarrow> if credential_free u then Some u else None | None \<Rightarrow> None)"
  using that by (auto simp: add_origin_def split: option.splits if_splits)

definition good_origin :: "(string \<Rightarrow> url option) \<Rightarrow> string \<Rightarrow> string \<Rightarrow> bool" where
  "good_origin p base o' \<longleftrightarrow> (\<exists>u. p base = Some u \<and> credential_free u \<and> o' = u_origin u)"

lemma add_origin_cases:
  "js_get (add_origin p sid base m) k = Some v \<Longrightarrow> js_get m k = Some v \<or> (k = sid \<and> good_origin p base v)"
  by (auto simp: add_origin_def good_origin_def split: option.splits if_splits)

lemma management_origins_get:
  assumes "js_get (management_origins p cfg ctx) k = Some v"
  shows "is_management_context cfg ctx \<and> (\<exists>base. good_origin p base v)"
proof -
  have fold: "js_get (foldl (\<lambda>acc (sid, origin). add_origin p sid origin acc) acc ms) k = Some v \<Longrightarrow>
      js_get acc k = Some v \<or> (\<exists>base. good_origin p base v)" for acc and ms :: "(string \<times> string) list"
  proof (induction ms arbitrary: acc)
    case (Cons m ms)
    then show ?case by (cases m) (fastforce dest!: Cons.IH add_origin_cases)
  qed simp
  show ?thesis
    using assms fold by (fastforce simp: management_origins_def split: if_splits option.splits)
qed

lemma service_origins_get:
  assumes "js_get (resolve_app_service_origins p cfg ctx) k = Some v"
  shows "js_get (management_origins p cfg ctx) k = Some v \<or>
    (k \<in> set (app_service_ids (rc_app ctx)) \<and>
     (\<exists>b. resolve_service_for_tenant cfg k ctx = Some b \<and>
          good_origin p (service_base_url (ts_hostname (sb_service b))) v))"
proof -
  let ?step = "\<lambda>acc sid. case resolve_service_for_tenant cfg sid ctx of None \<Rightarrow> acc
      | Some b \<Rightarrow> add_origin p sid (service_base_url (ts_hostname (sb_service b))) acc"
  have "js_get (foldl ?step acc ids) k = Some v \<Longrightarrow> js_get acc k = Some v \<or>
      (k \<in> set ids \<and> (\<exists>b. resolve_service_for_tenant cfg k ctx = Some b \<and>
          good_origin p (service_base_url (ts_hostname (sb_service b))) v))" for acc ids
  proof (induction ids arbitrary: acc)
    case (Cons i ids)
    from Cons.IH [of "?step acc i"] Cons.prems show ?case
      by (auto split: option.splits dest: add_origin_cases)
  qed simp
  then show ?thesis using assms by (simp add: resolve_app_service_origins_def)
qed

lemma hostname_origins_scheme:
  "o' \<in> set (hostname_origins h) \<Longrightarrow> js_starts_with ''http://'' o' \<or> js_starts_with ''https://'' o'"
  by (auto simp: hostname_origins_def js_starts_with_def split: if_splits)

definition sample_parse_url :: "string \<Rightarrow> url option" where
  "sample_parse_url s =
     (if js_starts_with ''https://'' s
      then Some \<lparr>u_protocol = ''https:'', u_username = [], u_password = [], u_hostname = List.drop 8 s, u_port = [],
                 u_origin = s, u_pathname = ''/'', u_search = [], u_hash = []\<rparr>
      else None)"

lemma sample_request_context:
  "rr_context (resolve_request_context_detailed sample_parse_url sample_config (Headers_object [(''host'', ''a.test'')])
     Theme_mode \<lparr>trusted_proxy_headers = False, cf_proxy = False\<rparr>) = Some sample_context"
  by code_simp

lemma sample_service_resolution:
  "resolve_service_for_tenant sample_config ''s1'' sample_context = Some (bind_service sample_context sample_service)"
  by code_simp

section \<open>Which candidate a request resolves to\<close>

text \<open>A host selects an app and a tenant: the first app with a matching host name, as it is registered
  under its id, and its tenant, which is active.\<close>

definition host_selects :: "(string \<Rightarrow> url option) \<Rightarrow> platform_config \<Rightarrow> string \<Rightarrow> app \<Rightarrow> tenant \<Rightarrow> bool" where
  "host_selects p cfg h a t \<longleftrightarrow> h \<noteq> [] \<and>
     (\<exists>first. List.find (\<lambda>x. list_ex (host_matches p h) (app_hostnames x)) (pc_apps cfg) = Some first \<and> app_id first \<noteq> [] \<and>
        List.find (\<lambda>x. app_id x = app_id first) (pc_apps cfg) = Some a \<and>
        List.find (\<lambda>x. tn_id x = app_tenant_id a) (pc_tenants cfg) = Some t \<and> tn_active t)"

definition context_for :: "platform_config \<Rightarrow> app \<Rightarrow> tenant \<Rightarrow> request_context" where
  "context_for cfg a t =
     \<lparr>rc_tenant = t, rc_app = \<lparr>ra_app = a, ra_shell = resolve_app_shell cfg a, ra_management_origins = None\<rparr>\<rparr>"

lemma build_resolved_iff:
  "build_resolved_context cfg (map_option app_id (find_app_by_host p cfg (Some h))) = Some ctx \<longleftrightarrow>
     (\<exists>a t. host_selects p cfg h a t \<and> ctx = context_for cfg a t)"
proof (cases "find_app_by_host p cfg (Some h)")
  case None
  then show ?thesis by (auto simp: build_resolved_context_def host_selects_def find_app_by_host_def split: if_splits)
next
  case (Some first)
  then have h: "h \<noteq> []" "List.find (\<lambda>x. list_ex (host_matches p h) (app_hostnames x)) (pc_apps cfg) = Some first"
    by (auto simp: find_app_by_host_def split: if_splits)
  show ?thesis
    by (auto simp: Some build_resolved_context_def host_selects_def context_for_def h split: option.splits)
qed

lemma build_resolved_None:
  "build_resolved_context cfg (map_option app_id (find_app_by_host p cfg (Some h))) = None \<longleftrightarrow> (\<nexists>a t. host_selects p cfg h a t)"
  using build_resolved_iff [of cfg p h] by (metis not_None_eq)

lemma try_candidates_None:
  "rr_context (try_candidates p cfg as cs) = None \<longleftrightarrow>
     (\<forall>c\<in>set cs. build_resolved_context cfg (map_option app_id (find_app_by_host p cfg (Some (hc_host c)))) = None)"
  by (induction p cfg as cs rule: try_candidates.induct) (auto simp: Let_def split: option.splits)

section \<open>Properties\<close>

text \<open>
  C6: the request context is the first host candidate that names an app of an active tenant: when
  a context is found, some candidate's host selects its app and tenant, no earlier candidate
  selects any, and this candidate is reported as the match; and none is found exactly when no
  candidate selects an app of an active tenant.
\<close>
theorem request_context_resolution:
  "(rr_context (resolve_request_context_detailed p cfg hs mode trust) = Some ctx \<longrightarrow>
      (\<exists>pre c post a t. build_host_candidates p hs mode trust = pre @ c # post \<and>
         host_selects p cfg (hc_host c) a t \<and> ctx = context_for cfg a t \<and>
         a \<in> set (pc_apps cfg) \<and> t \<in> set (pc_tenants cfg) \<and> tn_active t \<and> tn_id t = app_tenant_id a \<and>
         (\<forall>x\<in>set pre. \<nexists>a t. host_selects p cfg (hc_host x) a t) \<and>
         rr_matched_by (resolve_request_context_detailed p cfg hs mode trust) = Some (hc_source c) \<and>
         rr_matched_host (resolve_request_context_detailed p cfg hs mode trust) = Some (hc_host c))) \<and>
   (rr_context (resolve_request_context_detailed p cfg hs mode trust) = None \<longleftrightarrow>
      (\<forall>c\<in>set (build_host_candidates p hs mode trust). \<nexists>a t. host_selects p cfg (hc_host c) a t))"
proof (intro conjI impI)
  assume r: "rr_context (resolve_request_context_detailed p cfg hs mode trust) = Some ctx"
  obtain pre c post where c: "build_host_candidates p hs mode trust = pre @ c # post"
    and b: "build_resolved_context cfg (map_option app_id (find_app_by_host p cfg (Some (hc_host c)))) = Some ctx"
    and pre: "\<forall>x\<in>set pre. \<nexists>a t. host_selects p cfg (hc_host x) a t"
    and mb: "rr_matched_by (resolve_request_context_detailed p cfg hs mode trust) = Some (hc_source c)"
      "rr_matched_host (resolve_request_context_detailed p cfg hs mode trust) = Some (hc_host c)"
    using try_candidates_context [OF r [unfolded resolve_request_context_detailed_def]]
    by (auto simp: resolve_request_context_detailed_def build_resolved_None)
  from b obtain a t where s: "host_selects p cfg (hc_host c) a t" "ctx = context_for cfg a t"
    by (auto simp: build_resolved_iff)
  then have "a \<in> set (pc_apps cfg) \<and> t \<in> set (pc_tenants cfg) \<and> tn_active t \<and> tn_id t = app_tenant_id a"
    unfolding host_selects_def by (blast dest: find_SomeD)
  with c s pre mb show "\<exists>pre c post a t. build_host_candidates p hs mode trust = pre @ c # post \<and>
         host_selects p cfg (hc_host c) a t \<and> ctx = context_for cfg a t \<and>
         a \<in> set (pc_apps cfg) \<and> t \<in> set (pc_tenants cfg) \<and> tn_active t \<and> tn_id t = app_tenant_id a \<and>
         (\<forall>x\<in>set pre. \<nexists>a t. host_selects p cfg (hc_host x) a t) \<and>
         rr_matched_by (resolve_request_context_detailed p cfg hs mode trust) = Some (hc_source c) \<and>
         rr_matched_host (resolve_request_context_detailed p cfg hs mode trust) = Some (hc_host c)" by blast
next
  show "rr_context (resolve_request_context_detailed p cfg hs mode trust) = None \<longleftrightarrow>
      (\<forall>c\<in>set (build_host_candidates p hs mode trust). \<nexists>a t. host_selects p cfg (hc_host c) a t)"
    by (simp add: resolve_request_context_detailed_def try_candidates_None build_resolved_None)
qed

theorem request_context_resolution_witness:
  "\<exists>a t. sample_context = context_for sample_config a t \<and> a \<in> set (pc_apps sample_config) \<and> tn_active t"
  using request_context_resolution [of sample_parse_url sample_config "Headers_object [(''host'', ''a.test'')]" Theme_mode
      "\<lparr>trusted_proxy_headers = False, cf_proxy = False\<rparr>" sample_context] sample_request_context by blast

text \<open>
  C5: a tenant reaches only services it may use, and the one it asked for: the service resolved
  for an id is one of the tenant's own enabled services with that id, or an enabled shared
  service through the enabled activation of that id, which is this tenant's (and this app's when it
  names one), or an enabled platform service with that id, which the tenant has activated; the
  binding carries the tenant and app of the request.
\<close>
theorem service_resolution_isolated:
  assumes "resolve_service_for_tenant cfg sid ctx = Some b"
  shows "sb_tenant b = rc_tenant ctx \<and> sb_app b = rc_app ctx \<and> ts_enabled (sb_service b) \<and>
    (sb_service b \<in> set (tn_services (rc_tenant ctx)) \<and> (ts_id (sb_service b) = sid \<or> ts_service_id (sb_service b) = Some sid) \<or>
     (\<exists>a\<in>set (pc_shared_activations cfg). \<exists>s\<in>set (pc_shared_catalog cfg).
        sa_enabled a \<and> ss_enabled s \<and> sa_id a = sid \<and> sa_tenant_id a = tn_id (rc_tenant ctx) \<and>
        (truthy (sa_app_id a) \<longrightarrow> sa_app_id a = Some (app_id (ra_app (rc_app ctx)))) \<and>
        ss_id s = sa_shared_service_id a \<and> sb_service b = shared_as_tenant_service a s) \<or>
     (sid \<in> set (tn_activated_platform_services (rc_tenant ctx)) \<and>
      (\<exists>s\<in>set (pc_platform_services cfg). ps_enabled s \<and> (ps_id s = sid \<or> ps_service_id s = Some sid) \<and>
         sb_service b = platform_as_tenant_service s)))"
  using assms
proof (cases rule: resolve_service_cases)
  case (shared a s)
  then show ?thesis by (auto simp: bind_service_def shared_as_tenant_service_def)
next
  case (own s)
  then show ?thesis by (auto simp: bind_service_def)
next
  case (platform s)
  then show ?thesis by (auto simp: bind_service_def platform_as_tenant_service_def)
qed

theorem service_resolution_isolated_witness:
  "sb_tenant (bind_service sample_context sample_service) = sample_tenant"
  using service_resolution_isolated [OF sample_service_resolution] by (simp add: sample_context_def)

text \<open>
  Credentials leave only for origins the tenant's services own: every origin in the map
  handed to the theme is that of an HTTP URL without user name and password,
  and belongs either to a service the app references and the tenant may use, or, only in the
  management app of the admin tenant, to a management origin.
\<close>
theorem service_origins_safe:
  assumes "js_get (resolve_app_service_origins p cfg ctx) k = Some v"
  shows "(\<exists>base u. p base = Some u \<and> credential_free u \<and> v = u_origin u) \<and>
    (is_management_context cfg ctx \<or>
     (k \<in> set (app_service_ids (rc_app ctx)) \<and>
      (\<exists>b u. resolve_service_for_tenant cfg k ctx = Some b \<and>
         p (service_base_url (ts_hostname (sb_service b))) = Some u \<and> v = u_origin u)))"
  using service_origins_get [OF assms] management_origins_get [of p cfg ctx k v]
  by (auto simp: good_origin_def)

end
