(* ===== verification/MountedRoutes.thy ===== *)
theory MountedRoutes
  imports ConfigProvider
begin

text \<open>
  The second half of \<open>runtime/configProvider.ts\<close>: matching a public page path against
  the app's mounted routes, reading its parameters and building the owning service's URL.

  A \<open>Record<string, string>\<close> of parameters is an association list; parameters named like
  a member of \<open>Object.prototype\<close> are outside the model.
\<close>

section \<open>Patterns\<close>

definition strip_slashes :: "string \<Rightarrow> string" where
  "strip_slashes s = rev (dropWhile (\<lambda>c. c = CHR ''/'') (rev (dropWhile (\<lambda>c. c = CHR ''/'') s)))"

definition split_route_path :: "string \<Rightarrow> string list" where
  "split_route_path pathname = filter (\<lambda>s. length s > 0) (js_split (CHR ''/'') (strip_slashes pathname))"

fun route_param_name :: "string \<Rightarrow> string option" where
  "route_param_name (c # cs) = (if c = CHR '':'' \<and> cs \<noteq> [] then Some cs else None)"
| "route_param_name [] = None"

definition route_pattern_matches :: "string \<Rightarrow> string \<Rightarrow> bool" where
  "route_pattern_matches route_path pathname =
     (if route_path = pathname then True
      else let rs = split_route_path route_path; ps = split_route_path pathname
           in if length rs \<noteq> length ps then False
              else list_all (\<lambda>(s, p). route_param_name s \<noteq> None \<or> s = p) (zip rs ps))"

definition dynamic_segments :: "string \<Rightarrow> nat" where
  "dynamic_segments path = length (filter (\<lambda>s. route_param_name s \<noteq> None) (split_route_path path))"

definition resolve_app_route :: "app \<Rightarrow> string \<Rightarrow> route_mount option" where
  "resolve_app_route a pathname =
     (let normalized = (if length (js_trim pathname) > 0 then pathname else ''/'');
          matches = filter (\<lambda>r. rm_enabled r \<and> route_pattern_matches (rm_path r) normalized) (app_routes a)
      in case sort_key (\<lambda>r. dynamic_segments (rm_path r)) matches of [] \<Rightarrow> None | r # _ \<Rightarrow> Some r)"

definition strip_index :: "string \<Rightarrow> string" where
  "strip_index v = (if js_ends_with ''.index'' v then List.take (length v - 6) v else v)"

definition infer_service_path_from_view_id :: "string \<Rightarrow> string" where
  "infer_service_path_from_view_id view_id =
     (let normalized = map (\<lambda>c. if c = CHR ''.'' then CHR ''/'' else c) (strip_index view_id)
      in if js_starts_with ''/'' normalized then normalized else CHR ''/'' # normalized)"

section \<open>Parameters\<close>

fun extract_segments :: "string list \<Rightarrow> string list \<Rightarrow> (string, string) jsmap \<Rightarrow> (string, string) jsmap option" where
  "extract_segments (r # rs) (c # cs) params =
     (case route_param_name r of
        Some name \<Rightarrow>
          (case decode_uri_component c of
             None \<Rightarrow> None
           | Some v \<Rightarrow> extract_segments rs cs (js_set name v params))
      | None \<Rightarrow> if r \<noteq> c then None else extract_segments rs cs params)"
| "extract_segments _ _ params = Some params"

definition extract_route_params :: "string \<Rightarrow> string \<Rightarrow> (string, string) jsmap option" where
  "extract_route_params route_path current_path =
     (let rs = split_route_path route_path; cs = split_route_path current_path
      in if length rs \<noteq> length cs then None else extract_segments rs cs [])"

fun resolve_segment :: "(string, string) jsmap \<Rightarrow> string \<Rightarrow> string option" where
  "resolve_segment params s =
     (case route_param_name s of
        None \<Rightarrow> Some s
      | Some name \<Rightarrow> map_option encode_uri_component (js_get params name))"

fun resolve_segments :: "(string, string) jsmap \<Rightarrow> string list \<Rightarrow> string list option" where
  "resolve_segments params [] = Some []"
| "resolve_segments params (s # ss) =
     (case resolve_segment params s of
        None \<Rightarrow> None
      | Some t \<Rightarrow> map_option (Cons t) (resolve_segments params ss))"

definition ident_start :: "char \<Rightarrow> bool" where
  "ident_start c \<longleftrightarrow> is_alpha c \<or> c = CHR ''_''"

definition ident_char :: "char \<Rightarrow> bool" where
  "ident_char c \<longleftrightarrow> is_alnum c \<or> c = CHR ''_''"

text \<open>\<open>replace(/:([A-Za-z_][A-Za-z0-9_]*)/g, ...)\<close>; None when a name is unresolved.\<close>

function replace_params :: "(string, string) jsmap \<Rightarrow> string \<Rightarrow> string option" where
  "replace_params params [] = Some []"
| "replace_params params (c # cs) =
     (if c = CHR '':'' \<and> cs \<noteq> [] \<and> ident_start (hd cs) then
        (case js_get params (takeWhile ident_char cs) of
           None \<Rightarrow> None
         | Some v \<Rightarrow> map_option (append (encode_uri_component v)) (replace_params params (dropWhile ident_char cs)))
      else map_option (Cons c) (replace_params params cs))"
  by pat_completeness auto
termination
  by (relation "measure (length \<circ> snd)") (simp_all add: le_imp_less_Suc length_dropWhile_le)

definition template_parts :: "string \<Rightarrow> string \<times> string option" where
  "template_parts t = (case js_split (CHR ''?'') t of
     p # q # _ \<Rightarrow> (p, Some q) | p # [] \<Rightarrow> (p, None) | [] \<Rightarrow> ([], None))"

definition interpolate_path :: "string \<Rightarrow> (string, string) jsmap \<Rightarrow> string option" where
  "interpolate_path path_template params =
     (case resolve_segments params (split_route_path (fst (template_parts path_template))) of
        None \<Rightarrow> None
      | Some segs \<Rightarrow>
          (let path = (if length segs = 0 then ''/'' else CHR ''/'' # js_join ''/'' segs)
           in case snd (template_parts path_template) of
                None \<Rightarrow> Some path
              | Some q \<Rightarrow>
                  (case replace_params params q of
                     None \<Rightarrow> None
                   | Some rq \<Rightarrow> Some (if rq \<noteq> [] then path @ ''?'' @ rq else path))))"

section \<open>The service URL\<close>

definition route_mount_service_path :: "route_mount \<Rightarrow> string option" where
  "route_mount_service_path m =
     (case rm_resolved_service_path m of Some p \<Rightarrow> Some p
      | None \<Rightarrow> (case rm_service_path_variant m of Some p \<Rightarrow> Some p | None \<Rightarrow> rm_target_path m))"

definition build_service_view_url ::
    "(string \<Rightarrow> url option) \<Rightarrow> string \<Rightarrow> route_mount \<Rightarrow> string \<Rightarrow> string option" where
  "build_service_view_url parse_url hostname route current_path =
     (let base = service_base_url hostname
      in case parse_url base of
           None \<Rightarrow> None
         | Some u \<Rightarrow>
             if \<not> credential_free u then None
             else
               (let path_params = extract_route_params (rm_path route) current_path
                in if route_pattern_matches (rm_path route) current_path \<and> path_params = None then None
                   else
                     (let params = js_spread (rm_fixed_params route) (case path_params of None \<Rightarrow> [] | Some p \<Rightarrow> p);
                          service_path = route_mount_service_path route;
                          resolved =
                            (if truthy service_path then interpolate_path (the service_path) params
                             else if length params > 0 then interpolate_path (rm_path route) params
                             else Some (infer_service_path_from_view_id (rm_view_id route)))
                      in case resolved of
                           None \<Rightarrow> None
                         | Some p \<Rightarrow> if p \<noteq> [] then Some (base @ p) else None)))"

section \<open>Segments\<close>

lemma filter_split_drop:
  "filter (\<lambda>s. s \<noteq> []) (js_split c (dropWhile (\<lambda>x. x = c) s)) = filter (\<lambda>s. s \<noteq> []) (js_split c s)"
  by (induction s) auto

lemma js_split_snoc: "js_split c (s @ [c]) = js_split c s @ [[]]"
  by (induction s) (auto split: list.splits)

lemma filter_split_rev_drop:
  "filter (\<lambda>s. s \<noteq> []) (js_split c (rev (dropWhile (\<lambda>x. x = c) (rev s)))) = filter (\<lambda>s. s \<noteq> []) (js_split c s)"
  by (induction s rule: rev_induct) (auto simp: js_split_snoc)

lemma split_route_path_eq: "split_route_path p = filter (\<lambda>s. s \<noteq> []) (js_split (CHR ''/'') p)"
  by (simp add: split_route_path_def strip_slashes_def filter_split_rev_drop filter_split_drop)

lemma split_route_path_segment:
  "s \<in> set (split_route_path p) \<Longrightarrow> s \<noteq> [] \<and> CHR ''/'' \<notin> set s"
  by (auto simp: split_route_path_eq dest: js_split_no_sep)

lemma split_route_path_join:
  assumes "\<forall>s\<in>set segs. s \<noteq> [] \<and> CHR ''/'' \<notin> set s"
  shows "split_route_path (CHR ''/'' # js_join ''/'' segs) = segs"
proof (cases "segs = []")
  case False
  with assms have "js_split (CHR ''/'') (js_join [CHR ''/''] segs) = segs"
    by (intro js_split_join) auto
  with assms show ?thesis by (simp add: split_route_path_eq filter_id_conv)
qed (simp add: split_route_path_eq)

lemma route_param_nameD: "route_param_name s = Some n \<Longrightarrow> s = CHR '':'' # n \<and> n \<noteq> []"
  by (cases s) (auto split: if_splits)

lemma route_pattern_matches_iff:
  "route_pattern_matches r p \<longleftrightarrow>
     list_all2 (\<lambda>s q. route_param_name s \<noteq> None \<or> s = q) (split_route_path r) (split_route_path p)"
  by (auto simp: route_pattern_matches_def list_all2_iff list_all_iff Let_def in_set_zip)

text \<open>Extraction succeeds exactly on a matching path whose parameter segments decode.\<close>

lemma extract_segments_Some:
  "length rs = length cs \<Longrightarrow>
   (\<exists>m. extract_segments rs cs params = Some m) \<longleftrightarrow>
     list_all2 (\<lambda>r c. if route_param_name r = None then r = c else decode_uri_component c \<noteq> None) rs cs"
  by (induction rs cs params rule: extract_segments.induct) (auto split: option.splits)

lemma extract_params_iff:
  "extract_route_params r p \<noteq> None \<longleftrightarrow>
     list_all2 (\<lambda>s c. if route_param_name s = None then s = c else decode_uri_component c \<noteq> None)
       (split_route_path r) (split_route_path p)"
  using extract_segments_Some [of "split_route_path r" "split_route_path p" "[]"]
  by (auto simp: extract_route_params_def Let_def dest: list_all2_lengthD)

section \<open>Building a path and reading it back\<close>

lemma extract_segments_keep:
  assumes "extract_segments rs cs params = Some m" "\<forall>r\<in>set rs. route_param_name r \<noteq> Some n"
  shows "js_get m n = js_get params n"
  using assms by (induction rs cs params rule: extract_segments.induct) (fastforce split: option.splits if_splits)+

lemma resolve_segments_length: "resolve_segments params rs = Some cs \<Longrightarrow> length cs = length rs"
  by (induction rs arbitrary: cs) (auto split: option.splits)

lemma extract_resolved:
  assumes "resolve_segments params rs = Some cs"
  shows "\<exists>m. extract_segments rs cs acc = Some m \<and>
    (\<forall>n. js_get m n = (if (\<exists>r\<in>set rs. route_param_name r = Some n) then js_get params n else js_get acc n))"
  using assms
proof (induction rs arbitrary: cs acc)
  case (Cons r rs)
  show ?case
  proof (cases "route_param_name r")
    case None
    with Cons obtain ds where ds: "cs = r # ds" "resolve_segments params rs = Some ds"
      by (auto split: option.splits)
    with Cons.IH [OF ds(2), of acc] None show ?thesis by auto
  next
    case (Some n)
    with Cons.prems obtain v ds where v: "js_get params n = Some v" "cs = encode_uri_component v # ds"
      "resolve_segments params rs = Some ds"
      by (auto split: option.splits)
    from Cons.IH [OF v(3), of "js_set n v acc"] obtain m where
      "extract_segments rs ds (js_set n v acc) = Some m"
      "\<forall>k. js_get m k = (if (\<exists>r\<in>set rs. route_param_name r = Some k) then js_get params k
                          else js_get (js_set n v acc) k)"
      by blast
    with v Some show ?thesis by (auto simp: decode_encode)
  qed
qed simp

lemma resolve_segments_clean:
  assumes "resolve_segments params rs = Some cs" "\<forall>r\<in>set rs. r \<noteq> [] \<and> CHR ''/'' \<notin> set r"
    and "\<forall>n v. js_get params n = Some v \<longrightarrow> v \<noteq> []"
  shows "\<forall>c\<in>set cs. c \<noteq> [] \<and> CHR ''/'' \<notin> set c"
  using assms(1,2)
proof (induction rs arbitrary: cs)
  case (Cons r rs)
  then obtain c ds where c: "cs = c # ds" "resolve_segment params r = Some c" "resolve_segments params rs = Some ds"
    by (auto split: option.splits)
  with Cons.prems(2) assms(3) have "c \<noteq> [] \<and> CHR ''/'' \<notin> set c"
    by (auto split: option.splits simp: encode_reserved)
  with c Cons show ?case by auto
qed simp

lemma template_parts_plain: "CHR ''?'' \<notin> set t \<Longrightarrow> template_parts t = (t, None)"
  by (simp add: template_parts_def js_split_single)

lemma interpolate_plain:
  assumes "CHR ''?'' \<notin> set t"
  shows "interpolate_path t params =
    map_option (\<lambda>segs. CHR ''/'' # js_join ''/'' segs) (resolve_segments params (split_route_path t))"
  using assms by (auto simp: interpolate_path_def template_parts_plain Let_def split: option.splits)

lemma interpolate_not_empty: "interpolate_path t params = Some p \<Longrightarrow> p \<noteq> []"
  by (auto simp: interpolate_path_def Let_def split: option.splits if_splits)

lemma interpolate_starts: "interpolate_path t params = Some p \<Longrightarrow> js_starts_with ''/'' p"
  by (auto simp: interpolate_path_def js_starts_with_def Let_def split: option.splits if_splits)

lemma infer_service_path_starts: "js_starts_with ''/'' (infer_service_path_from_view_id v)"
  by (auto simp: infer_service_path_from_view_id_def js_starts_with_def Let_def)

lemma build_service_view_urlD:
  assumes "build_service_view_url parse_url h route path = Some url"
  shows "\<exists>u p. parse_url (service_base_url h) = Some u \<and> credential_free u \<and>
    url = service_base_url h @ p \<and> js_starts_with ''/'' p"
proof -
  from assms obtain u p where u: "parse_url (service_base_url h) = Some u" "credential_free u" and p: "url = service_base_url h @ p"
    and src: "(\<exists>t ps. interpolate_path t ps = Some p) \<or> (\<exists>v. infer_service_path_from_view_id v = p)"
    unfolding build_service_view_url_def Let_def by (fastforce split: option.splits if_splits)
  with interpolate_starts infer_service_path_starts show ?thesis by metis
qed

section \<open>Route choice\<close>

lemma sort_key_hd_least:
  assumes "sort_key f xs = y # ys"
  shows "y \<in> set xs" "\<forall>x\<in>set xs. f y \<le> f x" "filter (\<lambda>x. f x = f y) xs = y # filter (\<lambda>x. f x = f y) ys"
proof -
  have "set (y # ys) = set xs" by (metis assms set_sort)
  then show "y \<in> set xs" by auto
  have "sorted (map f (y # ys))" by (metis assms sorted_sort_key)
  then show "\<forall>x\<in>set xs. f y \<le> f x" using \<open>set (y # ys) = set xs\<close> by auto
  have "filter (\<lambda>x. f x = f y) (y # ys) = filter (\<lambda>x. f x = f y) xs"
    by (metis (mono_tags) assms sort_key_stable)
  then show "filter (\<lambda>x. f x = f y) xs = y # filter (\<lambda>x. f x = f y) ys" by simp
qed

lemma resolve_app_route_cases:
  "resolve_app_route a p = Some r \<Longrightarrow>
     \<exists>ms rs. ms = filter (\<lambda>r. rm_enabled r \<and> route_pattern_matches (rm_path r)
                (if length (js_trim p) > 0 then p else ''/'')) (app_routes a) \<and>
       sort_key (\<lambda>r. dynamic_segments (rm_path r)) ms = r # rs"
  by (auto simp: resolve_app_route_def Let_def split: list.splits)

lemma sort_key_Nil_iff: "sort_key f xs = [] \<longleftrightarrow> xs = []"
  by (cases xs) (auto dest: arg_cong [where f = length])

lemma case_list_None: "(case xs of [] \<Rightarrow> None | r # _ \<Rightarrow> Some r) = None \<longleftrightarrow> xs = []"
  by (cases xs) simp_all

lemma resolve_app_route_None:
  "resolve_app_route a p = None \<longleftrightarrow>
     (\<forall>r\<in>set (app_routes a). rm_enabled r \<longrightarrow>
        \<not> route_pattern_matches (rm_path r) (if length (js_trim p) > 0 then p else ''/''))"
proof -
  have "resolve_app_route a p = None \<longleftrightarrow>
      sort_key (\<lambda>r. dynamic_segments (rm_path r)) (filter (\<lambda>r. rm_enabled r \<and> route_pattern_matches (rm_path r)
        (if length (js_trim p) > 0 then p else ''/'')) (app_routes a)) = []"
    unfolding resolve_app_route_def Let_def by (rule case_list_None)
  then show ?thesis
    unfolding sort_key_Nil_iff filter_empty_conv by blast
qed

section \<open>Properties\<close>

text \<open>
  C35: building a page path and reading it back is the identity on parameters: with a pattern
  without a query part and parameter values that are not empty, the interpolated path matches
  the pattern, and extracting its parameters gives exactly the value of every parameter the
  pattern names, whatever characters the values contain.
\<close>
theorem interpolate_extract_roundtrip:
  assumes "CHR ''?'' \<notin> set t" and "interpolate_path t params = Some path"
    and "\<forall>n v. js_get params n = Some v \<longrightarrow> v \<noteq> []"
  shows "route_pattern_matches t path \<and>
    (\<exists>m. extract_route_params t path = Some m \<and>
       (\<forall>n. js_get m n = (if n \<in> set (List.map_filter route_param_name (split_route_path t)) then js_get params n else None)))"
proof -
  obtain segs where segs: "resolve_segments params (split_route_path t) = Some segs"
    and path: "path = CHR ''/'' # js_join ''/'' segs"
    using assms(2) by (auto simp: interpolate_plain [OF assms(1)])
  have split: "split_route_path path = segs"
    unfolding path using resolve_segments_clean [OF segs _ assms(3)] split_route_path_segment
    by (intro split_route_path_join) blast
  obtain m where m: "extract_segments (split_route_path t) segs [] = Some m"
    and v: "\<forall>n. js_get m n = (if \<exists>r\<in>set (split_route_path t). route_param_name r = Some n then js_get params n else None)"
    using extract_resolved [OF segs, of "[]"] by auto
  have e: "extract_route_params t path = Some m"
    by (simp add: extract_route_params_def split m resolve_segments_length [OF segs])
  have "list_all2 (\<lambda>s c. if route_param_name s = None then s = c else decode_uri_component c \<noteq> None)
      (split_route_path t) (split_route_path path)"
    using e by (simp flip: extract_params_iff)
  then have "route_pattern_matches t path"
    unfolding route_pattern_matches_iff by (rule list_all2_mono) (auto split: if_splits)
  moreover have "(\<exists>r\<in>set rs. route_param_name r = Some n) \<longleftrightarrow> n \<in> set (List.map_filter route_param_name rs)" for n rs
    by (induction rs) (auto simp: List.map_filter_simps split: option.splits)
  ultimately show ?thesis using e v by auto
qed

theorem interpolate_extract_roundtrip_witness:
  "\<exists>m. extract_route_params ''/items/:id'' ''/items/a%2Fb'' = Some m \<and> js_get m ''id'' = Some ''a/b''"
proof -
  have p: "interpolate_path ''/items/:id'' [(''id'', ''a/b'')] = Some ''/items/a%2Fb''" by code_simp
  have n: "''id'' \<in> set (List.map_filter route_param_name (split_route_path ''/items/:id''))" by code_simp
  have v: "\<forall>n v. js_get [(''id'', ''a/b'')] n = Some v \<longrightarrow> v \<noteq> []" by auto
  from interpolate_extract_roundtrip [OF _ p v] obtain m where "extract_route_params ''/items/:id'' ''/items/a%2Fb'' = Some m"
    "js_get m ''id'' = js_get [(''id'', ''a/b'')] ''id''"
    using n by auto
  then show ?thesis by simp
qed

definition asked_path :: "string \<Rightarrow> string" where
  "asked_path p = (if length (js_trim p) > 0 then p else ''/'')"

text \<open>
  The page a path opens is the most specific one: the chosen mount is an enabled mount of
  the app whose pattern matches the path and, among all of those, it has the fewest dynamic
  segments and comes first; no mount is chosen exactly when none matches.
\<close>
theorem app_route_most_specific:
  "case resolve_app_route a p of
      None \<Rightarrow> \<forall>r\<in>set (app_routes a). rm_enabled r \<longrightarrow> \<not> route_pattern_matches (rm_path r) (asked_path p)
    | Some r \<Rightarrow> r \<in> set (app_routes a) \<and> rm_enabled r \<and> route_pattern_matches (rm_path r) (asked_path p) \<and>
        (\<forall>x\<in>set (app_routes a). rm_enabled x \<and> route_pattern_matches (rm_path x) (asked_path p) \<longrightarrow>
           dynamic_segments (rm_path r) \<le> dynamic_segments (rm_path x)) \<and>
        hd (filter (\<lambda>x. rm_enabled x \<and> route_pattern_matches (rm_path x) (asked_path p) \<and>
              dynamic_segments (rm_path x) = dynamic_segments (rm_path r)) (app_routes a)) = r"
proof (cases "resolve_app_route a p")
  case None
  with resolve_app_route_None [of a p] show ?thesis by (simp add: asked_path_def)
next
  case (Some r)
  let ?m = "\<lambda>x. rm_enabled x \<and> route_pattern_matches (rm_path x) (asked_path p)"
  from resolve_app_route_cases [OF Some] obtain rs
    where "sort_key (\<lambda>r. dynamic_segments (rm_path r)) (filter ?m (app_routes a)) = r # rs"
    unfolding asked_path_def by blast
  from sort_key_hd_least [OF this] Some show ?thesis
    by (auto simp: filter_filter conj_commute conj_left_commute)
qed

text \<open>
  A proxied request stays on the owning service: the URL built for a mount is the
  registered base URL of the service, which parses to an HTTP URL without credentials,
  followed by a path that starts with a slash; so the path can change neither the host nor the
  credentials.
\<close>
theorem service_view_url_safe:
  assumes "build_service_view_url parse_url h route path = Some url"
  shows "\<exists>u p. parse_url (service_base_url h) = Some u \<and> http_protocol u \<and> u_username u = [] \<and> u_password u = [] \<and>
    url = service_base_url h @ CHR ''/'' # p"
  using build_service_view_urlD [OF assms]
  by (auto simp: credential_free_def js_starts_with_def prefix_def)

end
