(* ===== verification/Json.thy ===== *)
theory Json
  imports Complex_Main Prelude_JS
begin

text \<open>
  \<open>contracts/json.ts\<close>: JSON values and the recursive contract check.

  \<open>js_value\<close> is what the check may be given; a plain object has its own enumerable
  entries in order. Object identity is outside the model, so values are finite trees and
  the circularity test, which only a cyclic value can fail, never fires.
\<close>

datatype js_num = Finite rat | Not_finite

text \<open>\<open>Number.isInteger\<close> and \<open>Number.isSafeInteger\<close>\<close>

fun is_integer_num :: "js_num \<Rightarrow> bool" where
  "is_integer_num (Finite r) = (snd (quotient_of r) = 1)"
| "is_integer_num Not_finite = False"

definition int_of_rat :: "rat \<Rightarrow> int option" where
  "int_of_rat r = (if snd (quotient_of r) = 1 then Some (fst (quotient_of r)) else None)"

definition safe_integer :: "rat \<Rightarrow> int option" where
  "safe_integer r = (case int_of_rat r of
     None \<Rightarrow> None | Some n \<Rightarrow> if \<bar>n\<bar> \<le> 9007199254740991 then Some n else None)"

lemma int_of_rat_of_int [simp]: "int_of_rat (of_int n) = Some n"
  by (simp add: int_of_rat_def)

lemma int_of_rat_Some: "int_of_rat r = Some n \<longleftrightarrow> r = of_int n"
proof
  assume "int_of_rat r = Some n"
  then have "quotient_of r = (n, 1)" by (cases "quotient_of r") (auto simp: int_of_rat_def split: if_splits)
  then show "r = of_int n" by (drule_tac quotient_of_div) simp
qed simp

datatype json =
  JNull | JBool bool | JNum rat | JStr string | JArr "json list" | JObj "(string \<times> json) list"

datatype js_value =
  VNull | VBool bool | VNum js_num | VStr string | VArr "js_value list"
| VObj bool "(string \<times> js_value) list" | VUndefined | VOther string

datatype path_part = Index nat | Key string

record json_issue =
  ji_message :: string
  ji_path :: "path_part list"

definition max_json_depth :: nat where "max_json_depth = 100"

definition invalid_json :: "path_part list \<Rightarrow> string \<Rightarrow> json_issue list" where
  "invalid_json path message = [\<lparr>ji_message = message, ji_path = path\<rparr>]"

text \<open>The issues pushed, in order. Paths are kept innermost last.\<close>

fun validate_json_value :: "path_part list \<Rightarrow> nat \<Rightarrow> js_value \<Rightarrow> json_issue list"
  and validate_items :: "path_part list \<Rightarrow> nat \<Rightarrow> nat \<Rightarrow> js_value list \<Rightarrow> json_issue list"
  and validate_entries :: "path_part list \<Rightarrow> nat \<Rightarrow> (string \<times> js_value) list \<Rightarrow> json_issue list" where
  "validate_json_value path depth v =
     (if depth > max_json_depth
      then invalid_json path ''Maximum JSON validation depth of 100 exceeded''
      else (case v of
              VNull \<Rightarrow> [] | VStr s \<Rightarrow> [] | VBool b \<Rightarrow> []
            | VNum n \<Rightarrow> (case n of Finite r \<Rightarrow> [] | Not_finite \<Rightarrow> invalid_json path ''JSON numbers must be finite'')
            | VUndefined \<Rightarrow> invalid_json path ''Expected a JSON value''
            | VOther t \<Rightarrow> invalid_json path ''Expected a JSON value''
            | VArr xs \<Rightarrow> validate_items path depth 0 xs
            | VObj plain kvs \<Rightarrow>
                if \<not> plain then invalid_json path ''JSON objects must be plain objects''
                else validate_entries path depth kvs))"
| "validate_items path depth i [] = []"
| "validate_items path depth i (x # xs) =
     validate_json_value (path @ [Index i]) (depth + 1) x @ validate_items path depth (i + 1) xs"
| "validate_entries path depth [] = []"
| "validate_entries path depth ((k, x) # kvs) =
     validate_json_value (path @ [Key k]) (depth + 1) x @ validate_entries path depth kvs"

declare validate_json_value.simps [simp del]

definition validate_json_contract :: "bool \<Rightarrow> js_value \<Rightarrow> json_issue list" where
  "validate_json_contract object_only v =
     (if object_only \<and> (case v of VObj p kvs \<Rightarrow> False | _ \<Rightarrow> True)
      then invalid_json [] ''Expected a JSON object''
      else validate_json_value [] 0 v)"

section \<open>What the contract accepts\<close>

fun json_height :: "js_value \<Rightarrow> nat" where
  "json_height (VArr xs) = foldr max (map (\<lambda>x. Suc (json_height x)) xs) 0"
| "json_height (VObj p kvs) = foldr max (map (\<lambda>kv. Suc (json_height (snd kv))) kvs) 0"
| "json_height _ = 0"

fun json_shaped :: "js_value \<Rightarrow> bool" where
  "json_shaped (VNum n) = (n \<noteq> Not_finite)"
| "json_shaped (VArr xs) = list_all json_shaped xs"
| "json_shaped (VObj p kvs) = (p \<and> list_all (\<lambda>kv. json_shaped (snd kv)) kvs)"
| "json_shaped VUndefined = False"
| "json_shaped (VOther t) = False"
| "json_shaped _ = True"

lemma height_bound:
  "d \<le> m \<Longrightarrow> d + foldr max (map (\<lambda>x. Suc (g x)) xs) 0 \<le> m \<longleftrightarrow> (\<forall>x\<in>set xs. d + 1 + g x \<le> (m :: nat))"
  by (induction xs) auto

lemma validate_items_Nil:
  "(\<And>x p. x \<in> set xs \<Longrightarrow> validate_json_value p (depth + 1) x = [] \<longleftrightarrow> P x) \<Longrightarrow>
   validate_items path depth i xs = [] \<longleftrightarrow> (\<forall>x\<in>set xs. P x)"
  by (induction xs arbitrary: i) auto

lemma validate_entries_Nil:
  "(\<And>k x p. (k, x) \<in> set kvs \<Longrightarrow> validate_json_value p (depth + 1) x = [] \<longleftrightarrow> P x) \<Longrightarrow>
   validate_entries path depth kvs = [] \<longleftrightarrow> (\<forall>kv\<in>set kvs. P (snd kv))"
proof (induction kvs)
  case (Cons kv kvs)
  obtain k x where kv: "kv = (k, x)" by (cases kv)
  have "validate_json_value (path @ [Key k]) (depth + 1) x = [] \<longleftrightarrow> P x"
    by (rule Cons.prems [of k]) (simp add: kv)
  moreover have "validate_entries path depth kvs = [] \<longleftrightarrow> (\<forall>kv\<in>set kvs. P (snd kv))"
  proof (rule Cons.IH)
    fix k' x' p assume "(k', x') \<in> set kvs"
    then show "validate_json_value p (depth + 1) x' = [] \<longleftrightarrow> P x'"
      by (intro Cons.prems [of k']) simp
  qed
  ultimately show ?case by (simp add: kv)
qed simp

lemma validate_json_iff:
  "validate_json_value path depth v = [] \<longleftrightarrow> json_shaped v \<and> depth + json_height v \<le> max_json_depth"
proof (induction v arbitrary: path depth)
  case (VArr xs)
  have items: "validate_items path depth 0 xs = [] \<longleftrightarrow>
      (\<forall>x\<in>set xs. json_shaped x \<and> depth + 1 + json_height x \<le> max_json_depth)"
    by (rule validate_items_Nil) (simp add: VArr)
  show ?case
  proof (cases "depth \<le> max_json_depth")
    case True
    with items height_bound [OF True, of json_height xs] show ?thesis
      by (subst validate_json_value.simps) (auto simp: list_all_iff)
  qed (subst validate_json_value.simps, simp add: invalid_json_def)
next
  case (VObj p kvs)
  have entries: "validate_entries path depth kvs = [] \<longleftrightarrow>
      (\<forall>kv\<in>set kvs. json_shaped (snd kv) \<and> depth + 1 + json_height (snd kv) \<le> max_json_depth)"
    by (rule validate_entries_Nil) (rule VObj, auto)
  show ?case
  proof (cases "depth \<le> max_json_depth")
    case True
    with entries height_bound [OF True, of "\<lambda>kv. json_height (snd kv)" kvs] show ?thesis
      by (subst validate_json_value.simps) (auto simp: list_all_iff invalid_json_def)
  qed (subst validate_json_value.simps, simp add: invalid_json_def)
qed (auto simp: validate_json_value.simps invalid_json_def split: js_num.splits)

text \<open>The parsed value of an accepted input.\<close>

fun to_json :: "js_value \<Rightarrow> json" where
  "to_json (VBool b) = JBool b"
| "to_json (VNum n) = (case n of Finite r \<Rightarrow> JNum r | Not_finite \<Rightarrow> JNull)"
| "to_json (VStr s) = JStr s"
| "to_json (VArr xs) = JArr (map to_json xs)"
| "to_json (VObj p kvs) = JObj (map (\<lambda>kv. (fst kv, to_json (snd kv))) kvs)"
| "to_json _ = JNull"

text \<open>\<open>JsonObjectSchema.parse\<close>: the entries, or a throw when there is an issue.\<close>

definition parse_json_object :: "js_value \<Rightarrow> (string, json) jsmap option" where
  "parse_json_object v =
     (if validate_json_contract True v \<noteq> [] then None
      else (case to_json v of JObj kvs \<Rightarrow> Some kvs | _ \<Rightarrow> None))"

section \<open>Properties\<close>

text \<open>
  The contract check accepts a value exactly when it is a finite JSON tree at most 100
  levels deep (no undefined, function, symbol, non-finite number or object with a prototype of
  its own anywhere) and, for an object contract, an object; anything it accepts parses to the
  entries of that object.
\<close>
theorem json_contract_exact:
  "(validate_json_contract object_only v = [] \<longleftrightarrow>
      json_shaped v \<and> json_height v \<le> 100 \<and> (if object_only then \<exists>p kvs. v = VObj p kvs else True)) \<and>
   (parse_json_object v = (case v of
      VObj p kvs \<Rightarrow> if json_shaped v \<and> json_height v \<le> 100 then Some (map (\<lambda>kv. (fst kv, to_json (snd kv))) kvs) else None
    | _ \<Rightarrow> None))"
proof -
  have "validate_json_contract object_only v = [] \<longleftrightarrow>
      json_shaped v \<and> json_height v \<le> 100 \<and> (if object_only then \<exists>p kvs. v = VObj p kvs else True)" for object_only
    using validate_json_iff [of "[]" 0 v]
    by (cases v) (auto simp: validate_json_contract_def max_json_depth_def invalid_json_def)
  then show ?thesis by (cases v) (auto simp: parse_json_object_def)
qed

end
