(* ===== verification/RouteRegistry.thy ===== *)
theory RouteRegistry
  imports Json MountedRoutes "HOL-Library.Product_Lexorder"
begin

text \<open>
  \<open>runtime/registry.ts\<close> over the records of \<open>contracts/registry.ts\<close>,
  \<open>contracts/view.ts\<close> and \<open>contracts/manifest.ts\<close>: resolving a request to a
  registered route, choosing its renderer, and publishing the manifest.

  A schema, a handler and a render function are named by a string. The published JSON
  schema of a schema is the parameter \<open>publish\<close>, its parser the parameter
  \<open>parse_with\<close>. A list that the code reads with \<open>?? []\<close> is a plain list. Object
  keys that are array indices (which the language orders first) are outside the model.
\<close>

section \<open>The registry\<close>

record view_renderer_entry =
  vr_renderer_id :: string
  vr_method :: "http_method option"
  vr_fragment_location :: "string option"
  vr_fragment_id :: "string option"
  vr_render :: string

record view_renderer_set =
  vs_pages :: "view_renderer_entry list"
  vs_components :: "view_renderer_entry list"
  vs_fragments :: "view_renderer_entry list"
  vs_stream :: "string option"

record route_schemas =
  sc_params :: "string option"
  sc_response :: "string option"
  sc_query :: "string option"
  sc_headers :: "string option"
  sc_request :: "string option"
  sc_multipart :: "string option"
  sc_item :: "string option"
  sc_summary :: "string option"

record auth_requirement =
  ar_required :: bool
  ar_elevation :: "elevation_requirement option"
  ar_callers :: "caller_mode list option"
  ar_permissions :: "permission_grant list"

record robots_rule =
  rb_user_agent :: string
  rb_access :: string
  rb_crawl_delay :: "js_num option"

record demo_scenario =
  ds_id :: string
  ds_title :: string
  ds_description :: "string option"
  ds_match :: "string option"
  ds_response :: string

datatype sitemap_declaration =
  No_sitemap | Sitemap_bool bool | Sitemap_provider
  | Sitemap_entry (se_last_modified: "string option") (se_change: "string option") (se_priority: "js_num option")

record method_route =
  op_method :: http_method
  op_operation_id :: string
  op_title :: string
  op_description :: string
  op_schemas :: route_schemas
  op_raw :: bool
  op_auth :: auth_requirement
  op_sitemap :: sitemap_declaration
  op_robots :: "robots_rule list"
  op_role :: "string option"
  op_dependencies :: "operation_dependency list"
  op_menu :: "bool option"
  op_chrome :: "string option"
  op_api_contracts :: "api_contract list"
  op_cache_hints :: string
  op_demo_scenarios :: "demo_scenario list"

record registered_route =
  rt_view_id :: string
  rt_path :: string
  rt_methods :: "http_method list"
  rt_param_names :: "string list"
  rt_schemas :: route_schemas
  rt_method_routes :: "(http_method, method_route option) jsmap"
  rt_title :: string
  rt_description :: string
  rt_renderers :: "(string, view_renderer_set) jsmap"

record shell_fragment =
  sf_id :: string
  sf_kind :: string
  sf_title :: string
  sf_description :: string
  sf_default_items :: "string list"

record registry =
  rg_dependencies :: "(string, string) jsmap"
  rg_routes :: "registered_route list"
  rg_shell_fragments :: "shell_fragment list option"

section \<open>Resolving a request\<close>

definition path_segments :: "string \<Rightarrow> string list" where
  "path_segments p = filter (\<lambda>s. s \<noteq> []) (js_split (CHR ''/'') p)"

definition param_index_name :: "string \<Rightarrow> string option" where
  "param_index_name s = (case s of c # cs \<Rightarrow> if c = CHR '':'' then Some cs else None | [] \<Rightarrow> None)"

record route_candidate =
  cd_route :: registered_route
  cd_segments :: "string list"
  cd_param_indices :: "string option list"
  cd_static_count :: nat

definition build_candidate :: "registered_route \<Rightarrow> route_candidate" where
  "build_candidate r =
     (let segs = path_segments (rt_path r)
      in \<lparr>cd_route = r, cd_segments = segs, cd_param_indices = map param_index_name segs,
          cd_static_count = length (filter (\<lambda>s. param_index_name s = None) segs)\<rparr>)"

definition build_candidates :: "registry \<Rightarrow> route_candidate list" where
  "build_candidates reg = map build_candidate (rg_routes reg)"

text \<open>One pass over the segments; a parameter with an empty name is compared literally.\<close>

fun match_segments ::
    "string list \<Rightarrow> string option list \<Rightarrow> string list \<Rightarrow> (string, string) jsmap \<Rightarrow> (string, string) jsmap option" where
  "match_segments (s # ss) (n # ns) (q # qs) params =
     (if truthy n then match_segments ss ns qs (js_set (the n) q params)
      else if s \<noteq> q then None else match_segments ss ns qs params)"
| "match_segments _ _ _ params = Some params"

definition match_candidate ::
    "string list \<Rightarrow> http_method \<Rightarrow> route_candidate \<Rightarrow> (route_candidate \<times> (string, string) jsmap) option" where
  "match_candidate request_segments meth c =
     (if length (cd_segments c) \<noteq> length request_segments then None
      else if meth \<notin> set (rt_methods (cd_route c)) then None
      else map_option (Pair c) (match_segments (cd_segments c) (cd_param_indices c) request_segments []))"

definition resolve_route ::
    "registry \<Rightarrow> string \<Rightarrow> http_method \<Rightarrow> (registered_route \<times> (string, string) jsmap) option" where
  "resolve_route reg path meth =
     (let matches = List.map_filter (match_candidate (path_segments path) meth) (build_candidates reg)
      in case sort_key (\<lambda>(c, p). - int (cd_static_count c)) matches of
           [] \<Rightarrow> None
         | (c, params) # _ \<Rightarrow> Some (cd_route c, params))"

section \<open>Choosing a renderer\<close>

datatype renderer_type = Page_type | Component_type | Fragment_type

definition fragment_key_parts :: "string \<Rightarrow> string option \<times> string option" where
  "fragment_key_parts k = (case js_split (CHR ''.'') k of
     l # i # _ \<Rightarrow> (Some l, Some i) | l # [] \<Rightarrow> (Some l, None) | [] \<Rightarrow> (None, None))"

definition resolve_renderer ::
    "registered_route \<Rightarrow> string \<Rightarrow> renderer_type \<Rightarrow> http_method option \<Rightarrow> string option \<Rightarrow> string option \<Rightarrow>
     (view_renderer_entry \<times> string) option" where
  "resolve_renderer route key type meth component_id fragment_key =
     (case js_get (rt_renderers route) key of
        None \<Rightarrow> None
      | Some vs \<Rightarrow>
          (let pool = (case type of Page_type \<Rightarrow> vs_pages vs | Component_type \<Rightarrow> vs_components vs
                       | Fragment_type \<Rightarrow> vs_fragments vs);
               candidates =
                 (if type = Component_type \<and> truthy component_id
                  then filter (\<lambda>r. Some (vr_renderer_id r) = component_id) pool
                  else if type = Fragment_type \<and> truthy fragment_key
                  then (let (loc, i) = fragment_key_parts (the fragment_key)
                        in filter (\<lambda>r. vr_fragment_location r = loc \<and> vr_fragment_id r = i) pool)
                  else filter (\<lambda>r. vr_renderer_id r = ''default'') pool)
           in if candidates = [] then None
              else (case meth of
                      None \<Rightarrow> None
                    | Some m \<Rightarrow> map_option (\<lambda>r. (r, key)) (List.find (\<lambda>r. vr_method r = Some m) candidates))))"

section \<open>The route a request resolves to\<close>

definition route_accepts :: "string list \<Rightarrow> http_method \<Rightarrow> registered_route \<Rightarrow> bool" where
  "route_accepts qs meth r \<longleftrightarrow> meth \<in> set (rt_methods r) \<and>
     list_all2 (\<lambda>s q. truthy (param_index_name s) \<or> s = q) (path_segments (rt_path r)) qs"

definition static_segments :: "registered_route \<Rightarrow> nat" where
  "static_segments r = length (filter (\<lambda>s. param_index_name s = None) (path_segments (rt_path r)))"

lemma match_segments_iff:
  "length ss = length qs \<Longrightarrow>
   (\<exists>m. match_segments ss (map param_index_name ss) qs params = Some m) \<longleftrightarrow>
     list_all2 (\<lambda>s q. truthy (param_index_name s) \<or> s = q) ss qs"
  by (induction ss qs arbitrary: params rule: list_induct2) auto

lemma param_index_name_colon [simp]: "param_index_name (CHR '':'' # n) = Some n"
  by (simp add: param_index_name_def)

lemma match_segments_param:
  assumes "length ss = length qs" "match_segments ss (map param_index_name ss) qs params = Some m"
    and "i < length ss" "ss ! i = CHR '':'' # n" "n \<noteq> []" "\<forall>j. i < j \<and> j < length ss \<longrightarrow> ss ! j \<noteq> CHR '':'' # n"
  shows "js_get m n = Some (qs ! i)"
proof -
  have keep: "length ss = length qs \<Longrightarrow> match_segments ss (map param_index_name ss) qs params = Some m \<Longrightarrow>
      \<forall>s\<in>set ss. s \<noteq> CHR '':'' # n \<Longrightarrow> js_get m n = js_get params n" for ss qs params
  proof (induction ss qs arbitrary: params rule: list_induct2)
    case (Cons s ss q qs)
    then show ?case
      by (auto simp: param_index_name_def truthy_iff split: list.splits if_splits)
  qed simp
  show ?thesis
    using assms
  proof (induction ss qs arbitrary: params i rule: list_induct2)
    case (Cons s ss q qs)
    show ?case
    proof (cases i)
      case 0
      have "\<forall>t\<in>set ss. t \<noteq> CHR '':'' # n"
      proof
        fix t assume "t \<in> set ss"
        then obtain j where "j < length ss" "ss ! j = t" by (auto simp: in_set_conv_nth)
        with Cons.prems(5) [rule_format, of "Suc j"] 0 show "t \<noteq> CHR '':'' # n" by simp
      qed
      with keep [OF Cons.hyps, of "js_set n q params"] Cons.prems 0 show ?thesis
        by simp
    next
      case (Suc k)
      have last: "\<forall>j. k < j \<and> j < length ss \<longrightarrow> ss ! j \<noteq> CHR '':'' # n"
        using Cons.prems(5) Suc by (metis Suc_less_eq length_Cons nth_Cons_Suc)
      from Cons.prems(1) obtain ps where "match_segments ss (map param_index_name ss) qs ps = Some m"
        by (auto split: if_splits)
      with Cons.IH [of ps k] Cons.prems Suc last show ?thesis by simp
    qed
  qed simp
qed

lemma match_candidate_build:
  "match_candidate qs meth (build_candidate r) = Some (c, ps) \<Longrightarrow>
     c = build_candidate r \<and> route_accepts qs meth r \<and>
     match_segments (path_segments (rt_path r)) (map param_index_name (path_segments (rt_path r))) qs [] = Some ps"
  using match_segments_iff [of "path_segments (rt_path r)" qs "[]"]
  by (auto simp: match_candidate_def build_candidate_def route_accepts_def Let_def split: if_splits)

lemma match_candidate_accepts:
  "route_accepts qs meth r \<Longrightarrow> \<exists>ps. match_candidate qs meth (build_candidate r) = Some (build_candidate r, ps)"
  using match_segments_iff [of "path_segments (rt_path r)" qs "[]"]
  by (auto simp: match_candidate_def build_candidate_def route_accepts_def Let_def dest: list_all2_lengthD)

lemma set_map_filter: "y \<in> set (List.map_filter f xs) \<longleftrightarrow> (\<exists>x\<in>set xs. f x = Some y)"
  by (induction xs) (auto simp: List.map_filter_def split: option.splits)

lemma map_filter_Nil_iff: "List.map_filter f xs = [] \<longleftrightarrow> (\<forall>x\<in>set xs. f x = None)"
  by (induction xs) (auto simp: List.map_filter_def split: option.splits)

lemma resolve_route_Some:
  assumes "resolve_route reg path meth = Some (r, ps)"
  shows "r \<in> set (rg_routes reg)" "route_accepts (path_segments path) meth r"
    and "match_segments (path_segments (rt_path r)) (map param_index_name (path_segments (rt_path r)))
           (path_segments path) [] = Some ps"
    and "\<forall>r'\<in>set (rg_routes reg). route_accepts (path_segments path) meth r' \<longrightarrow> static_segments r' \<le> static_segments r"
proof -
  let ?f = "match_candidate (path_segments path) meth"
  let ?k = "\<lambda>x :: route_candidate \<times> (string, string) jsmap. - int (cd_static_count (fst x))"
  from assms obtain c rest where c: "cd_route c = r"
    and sorted: "sort_key ?k (List.map_filter ?f (build_candidates reg)) = (c, ps) # rest"
    by (auto simp: resolve_route_def Let_def case_prod_beta' split: list.splits)
  from sort_key_hd_least(1) [OF sorted] obtain r0 where r0: "r0 \<in> set (rg_routes reg)"
    "?f (build_candidate r0) = Some (c, ps)"
    by (auto simp: set_map_filter build_candidates_def)
  from match_candidate_build [OF r0(2)] c have "r0 = r" by (simp add: build_candidate_def Let_def)
  with match_candidate_build [OF r0(2)] r0 show "r \<in> set (rg_routes reg)"
    "route_accepts (path_segments path) meth r"
    "match_segments (path_segments (rt_path r)) (map param_index_name (path_segments (rt_path r)))
           (path_segments path) [] = Some ps" by simp_all
  show "\<forall>r'\<in>set (rg_routes reg). route_accepts (path_segments path) meth r' \<longrightarrow> static_segments r' \<le> static_segments r"
  proof (intro ballI impI)
    fix r' assume "r' \<in> set (rg_routes reg)" "route_accepts (path_segments path) meth r'"
    with match_candidate_accepts obtain ps' where
      "(build_candidate r', ps') \<in> set (List.map_filter ?f (build_candidates reg))"
      by (fastforce simp: set_map_filter build_candidates_def)
    with sort_key_hd_least(2) [OF sorted] have "cd_static_count (build_candidate r') \<le> cd_static_count c" by fastforce
    with match_candidate_build [OF r0(2)] \<open>r0 = r\<close> show "static_segments r' \<le> static_segments r"
      by (simp add: build_candidate_def static_segments_def Let_def)
  qed
qed

lemma resolve_route_None:
  "resolve_route reg path meth = None \<longleftrightarrow> (\<forall>r\<in>set (rg_routes reg). \<not> route_accepts (path_segments path) meth r)"
proof -
  let ?f = "match_candidate (path_segments path) meth"
  have "?f (build_candidate r) = None \<longleftrightarrow> \<not> route_accepts (path_segments path) meth r" for r
    using match_candidate_build [of "path_segments path" meth r] match_candidate_accepts [of "path_segments path" meth r]
    by (cases "?f (build_candidate r)") auto
  then have none: "(\<forall>r\<in>set (rg_routes reg). \<not> route_accepts (path_segments path) meth r) \<longleftrightarrow>
      List.map_filter ?f (build_candidates reg) = []"
    by (simp add: map_filter_Nil_iff build_candidates_def)
  show ?thesis
    unfolding none by (auto simp: resolve_route_def Let_def sort_key_Nil_iff split: list.splits)
qed

lemma resolve_renderer_Some:
  "resolve_renderer route key type meth cid fk = Some (r, k) \<Longrightarrow>
     k = key \<and> meth \<noteq> None \<and> vr_method r = meth \<and>
     (\<exists>vs. js_get (rt_renderers route) key = Some vs \<and>
        r \<in> set (case type of Page_type \<Rightarrow> vs_pages vs | Component_type \<Rightarrow> vs_components vs | Fragment_type \<Rightarrow> vs_fragments vs))"
  by (cases type)
     (auto simp: resolve_renderer_def Let_def case_prod_beta split: option.splits if_splits dest!: find_SomeD)

section \<open>Properties\<close>

text \<open>
  A service request goes to the most specific registered route: the chosen route has the
  same number of segments, is registered for the method, agrees on every literal segment, and
  no other matching route has more literal segments; there is no route exactly when none
  matches, and a path parameter is bound to the request segment at its last position.
\<close>
theorem resolved_route_best:
  "case resolve_route reg path meth of
     None \<Rightarrow> \<forall>r\<in>set (rg_routes reg). \<not> route_accepts (path_segments path) meth r
   | Some (r, ps) \<Rightarrow> r \<in> set (rg_routes reg) \<and> route_accepts (path_segments path) meth r \<and>
       (\<forall>r'\<in>set (rg_routes reg). route_accepts (path_segments path) meth r' \<longrightarrow> static_segments r' \<le> static_segments r) \<and>
       (\<forall>i n. i < length (path_segments (rt_path r)) \<and> path_segments (rt_path r) ! i = CHR '':'' # n \<and> n \<noteq> [] \<and>
          (\<forall>j. i < j \<and> j < length (path_segments (rt_path r)) \<longrightarrow> path_segments (rt_path r) ! j \<noteq> CHR '':'' # n) \<longrightarrow>
          js_get ps n = Some (path_segments path ! i))"
proof (cases "resolve_route reg path meth")
  case None
  with resolve_route_None [of reg path meth] show ?thesis by simp
next
  case (Some rp)
  obtain r ps where rp: "rp = (r, ps)" by (cases rp)
  note s = resolve_route_Some [OF Some [unfolded rp]]
  have len: "length (path_segments (rt_path r)) = length (path_segments path)"
    using s(2) by (auto simp: route_accepts_def dest: list_all2_lengthD)
  show ?thesis
    using Some rp s(1,2,4) match_segments_param [OF len s(3)] by auto
qed

definition no_schemas :: route_schemas where
  "no_schemas = \<lparr>sc_params = None, sc_response = None, sc_query = None, sc_headers = None, sc_request = None,
     sc_multipart = None, sc_item = None, sc_summary = None\<rparr>"

definition sample_route :: registered_route where
  "sample_route = \<lparr>rt_view_id = ''items'', rt_path = ''/items/:id'', rt_methods = [GET], rt_param_names = [''id''],
     rt_schemas = no_schemas, rt_method_routes = [], rt_title = ''Items'', rt_description = '''', rt_renderers = []\<rparr>"

end
