(* ===== verification/ManifestBuilder.thy ===== *)
theory ManifestBuilder
  imports RouteRegistry "HOL-Library.Multiset"
begin

text \<open>
  The manifest half of \<open>runtime/registry.ts\<close>: \<open>buildManifestFromRegistry\<close> with its
  checks, \<open>groupRoutesByViewId\<close>, the operation metadata and \<open>buildBpSchema\<close>, and
  \<open>sitemapMetadata\<close> of \<open>contracts/seo.ts\<close>. Parts of a manifest the builder only
  copies (permissions, webhooks, requests, resources) are lists of names.
\<close>

section \<open>Names\<close>

fun method_name :: "http_method \<Rightarrow> string" where
  "method_name GET = ''GET''" | "method_name POST = ''POST''" | "method_name PUT = ''PUT''"
| "method_name PATCH = ''PATCH''" | "method_name DELETE = ''DELETE''" | "method_name OPTIONS = ''OPTIONS''"

fun caller_name :: "caller_mode \<Rightarrow> string" where
  "caller_name User_caller = ''user''"
| "caller_name Service_caller = ''service''"
| "caller_name Delegated_caller = ''delegated''"

definition default_callers :: "method_route \<Rightarrow> caller_mode list" where
  "default_callers opr = (case ar_callers (op_auth opr) of None \<Rightarrow> [User_caller] | Some cs \<Rightarrow> cs)"

definition contract_modes :: "api_contract \<Rightarrow> caller_mode list" where
  "contract_modes c = (case ac_modes c of None \<Rightarrow> [Service_caller] | Some ms \<Rightarrow> ms)"

definition route_operations :: "registered_route \<Rightarrow> method_route list" where
  "route_operations r = List.map_filter id (js_values (rt_method_routes r))"

section \<open>Admin APIs\<close>

record admin_api =
  aapi_id :: string
  aapi_title :: string
  aapi_description :: string
  aapi_path :: string
  aapi_methods :: "http_method list"
  aapi_custom_ui :: bool

record manifest_shell_part =
  mp_service :: string
  mp_renderer :: string
  mp_fragments :: "shell_fragment list"

record manifest_base =
  mb_plugin_id :: string
  mb_title :: string
  mb_description :: string
  mb_category :: "string option"
  mb_deployment_modes :: "deployment_mode list option"
  mb_capabilities :: "string list"
  mb_config_schemas :: "config_schema list"
  mb_permissions :: "string list"
  mb_admin_apis :: "admin_api list"
  mb_webhooks :: "string list"
  mb_api_contracts :: "published_contract list"
  mb_m2m_requests :: "string list"
  mb_developer_resources :: "string list"
  mb_shell :: "manifest_shell_part option"
  mb_metadata_ttl :: "int option"

definition config_admin_apis :: "admin_api list" where
  "config_admin_apis =
     [\<lparr>aapi_id = ''config.schema'', aapi_title = ''Config Schema'',
       aapi_description = ''BetterPortal-managed config schemas for this service.'',
       aapi_path = ''/.well-known/bp/config/schema'', aapi_methods = [GET], aapi_custom_ui = False\<rparr>,
      \<lparr>aapi_id = ''config.values'', aapi_title = ''Config Values'',
       aapi_description = ''Read and write BetterPortal-managed config values.'',
       aapi_path = ''/.well-known/bp/config'', aapi_methods = [GET, POST], aapi_custom_ui = False\<rparr>]"

definition derive_admin_apis :: "manifest_base \<Rightarrow> admin_api list" where
  "derive_admin_apis b =
     (if length (mb_config_schemas b) = 0 then mb_admin_apis b
      else mb_admin_apis b @ filter (\<lambda>a. aapi_id a \<notin> set (map aapi_id (mb_admin_apis b))) config_admin_apis)"

section \<open>Operation metadata\<close>

definition user_agent_char :: "char \<Rightarrow> bool" where
  "user_agent_char c \<longleftrightarrow> is_alnum c \<or> c \<in> set ''*._-''"

definition valid_user_agent :: "string \<Rightarrow> bool" where
  "valid_user_agent s \<longleftrightarrow> 1 \<le> length s \<and> length s \<le> 100 \<and> list_all user_agent_char s"

definition valid_crawl_delay :: "js_num option \<Rightarrow> bool" where
  "valid_crawl_delay d = (case d of
     None \<Rightarrow> True
   | Some n \<Rightarrow> is_integer_num n \<and> (case n of Finite r \<Rightarrow> 0 \<le> r \<and> r \<le> 86400 | Not_finite \<Rightarrow> False))"

fun validate_robots_rules :: "string \<Rightarrow> robots_rule list \<Rightarrow> unit res" where
  "validate_robots_rules oid [] = Inr ()"
| "validate_robots_rules oid (r # rs) =
     ensure (valid_user_agent (rb_user_agent r))
       (''Operation '' @ oid @ '' has an invalid robots user-agent token: '' @ rb_user_agent r)
     (ensure (rb_access r = ''allow'' \<or> rb_access r = ''disallow'')
       (''Operation '' @ oid @ '' has an invalid robots access rule'')
     (ensure (valid_crawl_delay (rb_crawl_delay r))
       (''Operation '' @ oid @ '' has an invalid robots crawl delay'')
     (validate_robots_rules oid rs)))"

definition validate_robots :: "method_route \<Rightarrow> unit res" where
  "validate_robots opr = validate_robots_rules (op_operation_id opr) (op_robots opr)"

record sitemap_metadata_rec =
  sm_kind :: string
  sm_last_modified :: "string option"
  sm_change :: "string option"
  sm_priority :: "js_num option"

definition plain_sitemap :: "string \<Rightarrow> sitemap_metadata_rec" where
  "plain_sitemap k = \<lparr>sm_kind = k, sm_last_modified = None, sm_change = None, sm_priority = None\<rparr>"

definition valid_priority :: "js_num option \<Rightarrow> bool" where
  "valid_priority p = (case p of None \<Rightarrow> True | Some Not_finite \<Rightarrow> False | Some (Finite r) \<Rightarrow> 0 \<le> r \<and> r \<le> 1)"

text \<open>\<open>to_iso\<close> is \<open>new Date(s).toISOString()\<close>, None for an invalid date.\<close>

fun sitemap_metadata :: "(string \<Rightarrow> string option) \<Rightarrow> sitemap_declaration \<Rightarrow> sitemap_metadata_rec res" where
  "sitemap_metadata to_iso (Sitemap_bool b) = Inr (plain_sitemap (if b then ''default'' else ''exclude''))"
| "sitemap_metadata to_iso Sitemap_provider = Inr (plain_sitemap ''provider'')"
| "sitemap_metadata to_iso No_sitemap = Inr (plain_sitemap ''default'')"
| "sitemap_metadata to_iso (Sitemap_entry lm ch pr) =
     (let modified = (if truthy lm then to_iso (the lm) else None)
      in ensure (truthy lm \<longrightarrow> modified \<noteq> None) ''sitemap.lastModified must be a valid date''
         (ensure (valid_priority pr) ''sitemap.priority must be between 0 and 1''
         (Inr \<lparr>sm_kind = ''metadata'', sm_last_modified = modified,
               sm_change = (if truthy ch then ch else None), sm_priority = pr\<rparr>)))"

record renderer_variant =
  vv_id :: string
  vv_title :: string
  vv_slot_id :: string
  vv_render_modes :: "string list"

record renderer_support =
  su_default :: string
  su_render_modes :: "string list"
  su_slots :: "string list"
  su_renderers :: "renderer_variant list"

definition page_variant :: "view_renderer_entry \<Rightarrow> renderer_variant" where
  "page_variant p = \<lparr>vv_id = vr_renderer_id p,
     vv_title = (if vr_renderer_id p = ''default'' then ''Default Content'' else vr_renderer_id p),
     vv_slot_id = ''main'', vv_render_modes = [''page'', ''fragment'']\<rparr>"

definition fragment_variant :: "view_renderer_entry \<Rightarrow> renderer_variant" where
  "fragment_variant f = \<lparr>vv_id = vr_renderer_id f, vv_title = vr_renderer_id f,
     vv_slot_id = (if truthy (vr_fragment_location f) \<and> truthy (vr_fragment_id f)
                   then the (vr_fragment_location f) @ ''.'' @ the (vr_fragment_id f) else vr_renderer_id f),
     vv_render_modes = [''fragment'']\<rparr>"

definition set_support :: "http_method \<Rightarrow> view_renderer_set \<Rightarrow> renderer_support option" where
  "set_support meth vs =
     (let pages = filter (\<lambda>e. vr_method e = Some meth) (vs_pages vs);
          fragments = filter (\<lambda>e. vr_method e = Some meth) (vs_fragments vs);
          components = filter (\<lambda>e. vr_method e = Some meth) (vs_components vs);
          stream = (if meth = GET then vs_stream vs else None);
          modes = (if length pages > 0 then [''page''] else []) @
                  (if length fragments > 0 \<or> stream \<noteq> None then [''fragment''] else []);
          variants = map page_variant pages @ map fragment_variant fragments
      in if length pages = 0 \<and> length fragments = 0 \<and> length components = 0 \<and> stream = None then None
         else Some \<lparr>su_default = ''default'', su_render_modes = modes,
                    su_slots = uniq (map vv_slot_id variants), su_renderers = variants\<rparr>)"

definition operation_renderer_support ::
    "registered_route \<Rightarrow> http_method \<Rightarrow> (string, renderer_support) jsmap" where
  "operation_renderer_support route meth =
     foldl (\<lambda>acc (renderer, vs). case set_support meth vs of None \<Rightarrow> acc | Some s \<Rightarrow> js_set renderer s acc)
       [] (rt_renderers route)"

record view_operation =
  vo_operation_id :: string
  vo_method :: http_method
  vo_title :: string
  vo_description :: string
  vo_query_schema :: string
  vo_headers_schema :: string
  vo_body_schema :: string
  vo_json_response_schema :: string
  vo_metadata_response_schema :: string
  vo_renderable :: bool
  vo_raw :: "bool option"
  vo_streaming :: "(string \<times> string option) option"
  vo_html :: "(string, renderer_support) jsmap"
  vo_auth :: auth_requirement
  vo_sitemap :: sitemap_metadata_rec
  vo_robots :: "robots_rule list"
  vo_role :: "string option"
  vo_dependencies :: "operation_dependency list"
  vo_menu :: "bool option"
  vo_chrome :: "string option"
  vo_api_contracts :: "published_contract list"
  vo_demo_scenarios :: "demo_scenario list"
  vo_cache_hints :: string

record view_metadata =
  vm_view_id :: string
  vm_title :: string
  vm_description :: string
  vm_path :: string
  vm_path_variants :: "string list"
  vm_params_schema :: string
  vm_operations :: "view_operation list"

text \<open>What the builder calls outside the repository: the schema library and the clock's date parser.\<close>

record schema_library =
  lib_publish :: "string \<Rightarrow> string \<Rightarrow> string res"
  lib_parse :: "string \<Rightarrow> string \<Rightarrow> string res"
  lib_iso_date :: "string \<Rightarrow> string option"

definition empty_object :: string where "empty_object = ''{}''"

definition publish_or_empty :: "schema_library \<Rightarrow> string option \<Rightarrow> string \<Rightarrow> string res" where
  "publish_or_empty lib schema label =
     (case schema of None \<Rightarrow> Inr empty_object | Some s \<Rightarrow> lib_publish lib s label)"

definition schema_label :: "registered_route \<Rightarrow> method_route \<Rightarrow> string \<Rightarrow> string" where
  "schema_label route opr kind = rt_view_id route @ '' '' @ method_name (op_method opr) @ '' '' @ kind"

definition publish_contract :: "registered_route \<Rightarrow> method_route \<Rightarrow> api_contract \<Rightarrow> published_contract" where
  "publish_contract route opr c =
     \<lparr>ac_id = ac_id c, ac_title = ac_title c, ac_version = ac_version c, ac_capabilities = ac_capabilities c,
      ac_permissions = ac_permissions c, ac_modes = ac_modes c,
      ac_view_id = rt_view_id route, ac_methods = [op_method opr]\<rparr>"

definition unknown_alias :: "method_route \<Rightarrow> string \<Rightarrow> string" where
  "unknown_alias opr a = ''Operation '' @ op_operation_id opr @ '' references unknown dependency alias '' @ a"

definition resolve_dependency ::
    "(string, string) jsmap \<Rightarrow> string \<Rightarrow> method_route \<Rightarrow> operation_dependency \<Rightarrow> operation_dependency res" where
  "resolve_dependency aliases plugin_id opr d =
     (if \<not> truthy (dp_service_id d) then Inr d
      else (let service_id = js_get aliases (the (dp_service_id d))
            in ensure (truthy service_id) (unknown_alias opr (the (dp_service_id d)))
               (Inr (if service_id = Some plugin_id then d\<lparr>dp_service_id := None\<rparr>
                     else d\<lparr>dp_service_id := service_id\<rparr>))))"

definition publish_demo :: "schema_library \<Rightarrow> method_route \<Rightarrow> demo_scenario \<Rightarrow> demo_scenario res" where
  "publish_demo lib opr s =
     res_bind (case sc_response (op_schemas opr) of
                 Some schema \<Rightarrow> if \<not> op_raw opr then lib_parse lib schema (ds_response s) else Inr (ds_response s)
               | None \<Rightarrow> Inr (ds_response s))
       (\<lambda>resp. Inr (s\<lparr>ds_description := (if truthy (ds_description s) then ds_description s else None),
                      ds_response := resp\<rparr>))"

definition publish_body :: "schema_library \<Rightarrow> registered_route \<Rightarrow> method_route \<Rightarrow> string res" where
  "publish_body lib route opr =
     (case sc_multipart (op_schemas opr) of
        Some m \<Rightarrow> lib_publish lib m (schema_label route opr ''MultipartSchema'')
      | None \<Rightarrow> publish_or_empty lib (sc_request (op_schemas opr)) (schema_label route opr ''RequestSchema''))"

definition publish_streaming ::
    "schema_library \<Rightarrow> registered_route \<Rightarrow> method_route \<Rightarrow> (string \<times> string option) option res" where
  "publish_streaming lib route opr =
     (case sc_item (op_schemas opr) of
        None \<Rightarrow> Inr None
      | Some i \<Rightarrow>
          res_bind (lib_publish lib i (schema_label route opr ''ItemSchema'')) (\<lambda>item.
          (case sc_summary (op_schemas opr) of
             None \<Rightarrow> Inr (Some (item, None))
           | Some sm \<Rightarrow> res_bind (lib_publish lib sm (schema_label route opr ''SummarySchema''))
                          (\<lambda>summary. Inr (Some (item, Some summary))))))"

definition operation_to_metadata ::
    "schema_library \<Rightarrow> registered_route \<Rightarrow> (string, string) jsmap \<Rightarrow> string \<Rightarrow> method_route \<Rightarrow> view_operation res" where
  "operation_to_metadata lib route aliases plugin_id opr =
     res_bind (validate_robots opr) (\<lambda>_.
     (let html = operation_renderer_support route (op_method opr);
          renderable = (if op_raw opr then False else length html > 0)
      in res_bind (publish_or_empty lib (sc_query (op_schemas opr)) (schema_label route opr ''QuerySchema'')) (\<lambda>query.
         res_bind (publish_or_empty lib (sc_headers (op_schemas opr)) (schema_label route opr ''HeadersSchema'')) (\<lambda>hdrs.
         res_bind (publish_body lib route opr) (\<lambda>body.
         res_bind (publish_or_empty lib (sc_response (op_schemas opr)) (schema_label route opr ''ResponseSchema'')) (\<lambda>resp.
         res_bind (publish_streaming lib route opr) (\<lambda>streaming.
         res_bind (sitemap_metadata (lib_iso_date lib) (op_sitemap opr)) (\<lambda>sitemap.
         res_bind (map_res (resolve_dependency aliases plugin_id opr) (op_dependencies opr)) (\<lambda>deps.
         res_bind (map_res (publish_demo lib opr) (op_demo_scenarios opr)) (\<lambda>demos.
         Inr \<lparr>vo_operation_id = op_operation_id opr, vo_method = op_method opr, vo_title = op_title opr,
              vo_description = op_description opr, vo_query_schema = query, vo_headers_schema = hdrs,
              vo_body_schema = body, vo_json_response_schema = resp, vo_metadata_response_schema = empty_object,
              vo_renderable = renderable, vo_raw = (if op_raw opr then Some True else None),
              vo_streaming = streaming, vo_html = html,
              vo_auth = (op_auth opr)\<lparr>ar_callers := Some (default_callers opr)\<rparr>,
              vo_sitemap = sitemap, vo_robots = op_robots opr,
              vo_role = (if truthy (op_role opr) then op_role opr else None),
              vo_dependencies = deps, vo_menu = op_menu opr, vo_chrome = op_chrome opr,
              vo_api_contracts = map (publish_contract route opr) (op_api_contracts opr),
              vo_demo_scenarios = demos, vo_cache_hints = op_cache_hints opr\<rparr>))))))))))"

section \<open>Views\<close>

definition method_operation :: "registered_route \<Rightarrow> http_method \<Rightarrow> method_route option" where
  "method_operation route m = (case js_get (rt_method_routes route) m of Some (Some opr) \<Rightarrow> Some opr | _ \<Rightarrow> None)"

definition missing_operation :: "registered_route \<Rightarrow> http_method \<Rightarrow> string" where
  "missing_operation route m =
     ''Route '' @ rt_view_id route @ '' is missing operation metadata for '' @ method_name m"

definition route_to_view_metadata ::
    "schema_library \<Rightarrow> (string, string) jsmap \<Rightarrow> string \<Rightarrow> registered_route \<times> string list \<Rightarrow> view_metadata res" where
  "route_to_view_metadata lib aliases plugin_id rv =
     (let (route, variants) = rv
      in res_bind (map_res (\<lambda>m. case method_operation route m of
                                 None \<Rightarrow> Inl (missing_operation route m)
                               | Some opr \<Rightarrow> operation_to_metadata lib route aliases plugin_id opr) (rt_methods route)) (\<lambda>operations.
         res_bind (publish_or_empty lib (sc_params (rt_schemas route)) (rt_view_id route @ '' ParamsSchema'')) (\<lambda>params.
         Inr \<lparr>vm_view_id = rt_view_id route, vm_title = rt_title route, vm_description = rt_description route,
              vm_path = rt_path route, vm_path_variants = (if length variants > 1 then variants else []),
              vm_params_schema = params, vm_operations = operations\<rparr>)))"

definition add_to_group ::
    "(string, registered_route list) jsmap \<Rightarrow> registered_route \<Rightarrow> (string, registered_route list) jsmap" where
  "add_to_group groups r =
     js_set (rt_view_id r) ((case js_get groups (rt_view_id r) of None \<Rightarrow> [] | Some g \<Rightarrow> g) @ [r]) groups"

definition order_group :: "registered_route list \<Rightarrow> registered_route list" where
  "order_group g = sort_key (\<lambda>r. (- int (length (rt_param_names r)), - int (length (rt_path r)))) g"

definition group_routes_by_view_id :: "registered_route list \<Rightarrow> (registered_route \<times> string list) list" where
  "group_routes_by_view_id routes =
     map (\<lambda>g. (hd (order_group g), map rt_path (order_group g))) (js_values (foldl add_to_group [] routes))"

section \<open>The manifest\<close>

record plugin_manifest =
  pm_protocol_version :: int
  pm_plugin_id :: string
  pm_title :: string
  pm_description :: string
  pm_version :: string
  pm_category :: string
  pm_deployment_modes :: "deployment_mode list"
  pm_capabilities :: "string list"
  pm_supported_renderers :: "string list"
  pm_supported_render_modes :: "string list"
  pm_views :: "view_metadata list"
  pm_config_schemas :: "config_schema list"
  pm_permissions :: "string list"
  pm_admin_apis :: "admin_api list"
  pm_webhooks :: "string list"
  pm_api_contracts :: "published_contract list"
  pm_m2m_requests :: "string list"
  pm_developer_resources :: "string list"
  pm_shell :: "manifest_shell_part option"
  pm_metadata_ttl :: int

definition unsupported_modes :: "method_route \<Rightarrow> api_contract \<Rightarrow> caller_mode list" where
  "unsupported_modes opr c = filter (\<lambda>m. m \<notin> set (default_callers opr)) (contract_modes c)"

definition check_contract :: "registered_route \<times> method_route \<times> api_contract \<Rightarrow> published_contract res" where
  "check_contract x =
     (let (route, opr, c) = x; bad = unsupported_modes opr c
      in ensure (bad = [])
           (''Operation '' @ op_operation_id opr @ '' publishes '' @ ac_id c @ '' for '' @
            js_join '', '' (map caller_name bad) @ '' callers but does not allow them in auth.callers'')
         (Inr (publish_contract route opr c)))"

definition registry_contracts :: "registry \<Rightarrow> (registered_route \<times> method_route \<times> api_contract) list" where
  "registry_contracts reg =
     concat (map (\<lambda>r. concat (map (\<lambda>opr. map (\<lambda>c. (r, opr, c)) (op_api_contracts opr)) (route_operations r)))
       (rg_routes reg))"

definition renderer_capabilities :: "string \<times> view_renderer_set \<Rightarrow> string list" where
  "renderer_capabilities x =
     (let (key, vs) = x
      in [''renderer.'' @ key] @
         (if length (vs_pages vs) > 0 \<or> length (vs_components vs) > 0 then [''view.html''] else []) @
         (if vs_stream vs \<noteq> None then [''view.sse-render'', ''view.html''] else []))"

definition renderer_modes :: "string \<times> view_renderer_set \<Rightarrow> string list" where
  "renderer_modes x =
     (let (key, vs) = x
      in (if length (vs_pages vs) > 0 then [''page''] else []) @
         (if length (vs_fragments vs) > 0 then [''fragment''] else []) @
         (if vs_stream vs \<noteq> None then [''fragment''] else []))"

definition route_capabilities :: "registered_route \<Rightarrow> string list" where
  "route_capabilities r =
     concat (map (\<lambda>opr. if sc_item (op_schemas opr) \<noteq> None then [''stream.ndjson''] else []) (route_operations r)) @
     concat (map renderer_capabilities (rt_renderers r))"

definition local_operations :: "registry \<Rightarrow> (string \<times> http_method) list" where
  "local_operations reg =
     concat (map (\<lambda>r. map (\<lambda>opr. (op_operation_id opr, op_method opr)) (route_operations r)) (rg_routes reg))"

definition check_dependency :: "registry \<Rightarrow> string \<Rightarrow> method_route \<times> operation_dependency \<Rightarrow> unit res" where
  "check_dependency reg plugin_id x =
     (let (opr, d) = x;
          target = (if truthy (dp_service_id d) then js_get (rg_dependencies reg) (the (dp_service_id d)) else Some plugin_id)
      in ensure (\<not> (truthy (dp_service_id d) \<and> \<not> truthy target)) (unknown_alias opr (the (dp_service_id d)))
         (ensure (\<not> (target = Some plugin_id \<and> (dp_operation_id d, dp_method d) \<notin> set (local_operations reg)))
            (''Operation '' @ op_operation_id opr @ '' references unavailable local dependency '' @
             dp_operation_id d @ '' '' @ method_name (dp_method d))
         (Inr ())))"

definition registry_dependencies :: "registry \<Rightarrow> (method_route \<times> operation_dependency) list" where
  "registry_dependencies reg =
     concat (map (\<lambda>r. concat (map (\<lambda>opr. map (Pair opr) (op_dependencies opr)) (route_operations r))) (rg_routes reg))"

definition manifest_shell_of :: "registry \<Rightarrow> manifest_shell_part \<Rightarrow> manifest_shell_part" where
  "manifest_shell_of reg sh =
     (case rg_shell_fragments reg of None \<Rightarrow> sh | Some fs \<Rightarrow> sh\<lparr>mp_fragments := fs\<rparr>)"

definition manifest_capabilities :: "registry \<Rightarrow> manifest_base \<Rightarrow> string list" where
  "manifest_capabilities reg b =
     uniq (mb_capabilities b @
           (case mb_shell b of None \<Rightarrow> [] | Some sh \<Rightarrow> [''renderer.'' @ mp_renderer sh]) @
           [''view.json'', ''view.metadata''] @
           concat (map route_capabilities (rg_routes reg)))"

definition manifest_renderers :: "registry \<Rightarrow> manifest_base \<Rightarrow> string list" where
  "manifest_renderers reg b =
     uniq ((case mb_shell b of None \<Rightarrow> [] | Some sh \<Rightarrow> [mp_renderer sh]) @
           concat (map (\<lambda>r. js_keys (rt_renderers r)) (rg_routes reg)))"

definition build_manifest_from_registry ::
    "schema_library \<Rightarrow> registry \<Rightarrow> string \<Rightarrow> manifest_base \<Rightarrow> plugin_manifest res" where
  "build_manifest_from_registry lib reg version b =
     res_bind (map_res check_contract (registry_contracts reg)) (\<lambda>contracts.
     res_bind (map_res (check_dependency reg (mb_plugin_id b)) (registry_dependencies reg)) (\<lambda>_.
     res_bind (map_res (route_to_view_metadata lib (rg_dependencies reg) (mb_plugin_id b))
                 (group_routes_by_view_id (rg_routes reg))) (\<lambda>views.
     Inr \<lparr>pm_protocol_version = 2, pm_plugin_id = mb_plugin_id b, pm_title = mb_title b,
          pm_description = mb_description b, pm_version = version,
          pm_category = (case mb_category b of None \<Rightarrow> ''service'' | Some c \<Rightarrow> c),
          pm_deployment_modes = (case mb_deployment_modes b of None \<Rightarrow> [Self_hosted] | Some ms \<Rightarrow> ms),
          pm_capabilities = manifest_capabilities reg b,
          pm_supported_renderers = manifest_renderers reg b,
          pm_supported_render_modes =
            uniq (concat (map (\<lambda>r. concat (map renderer_modes (rt_renderers r))) (rg_routes reg))),
          pm_views = views, pm_config_schemas = mb_config_schemas b, pm_permissions = mb_permissions b,
          pm_admin_apis = derive_admin_apis b, pm_webhooks = mb_webhooks b,
          pm_api_contracts = mb_api_contracts b @ contracts, pm_m2m_requests = mb_m2m_requests b,
          pm_developer_resources = mb_developer_resources b,
          pm_shell = map_option (manifest_shell_of reg) (mb_shell b),
          pm_metadata_ttl = (case mb_metadata_ttl b of None \<Rightarrow> 1800 | Some t \<Rightarrow> t)\<rparr>)))"

section \<open>The schema document\<close>

record schema_fragment =
  fr_location :: string
  fr_id :: string
  fr_operation_id :: string
  fr_method :: http_method
  fr_renderers :: "string list"

record schema_route =
  sr_view_id :: string
  sr_path :: string
  sr_path_variants :: "string list"
  sr_operations :: "(string \<times> http_method) list"
  sr_param_names :: "string list"
  sr_renderers :: "string list"
  sr_has_fragments :: bool
  sr_fragments :: "schema_fragment list"
  sr_components :: "string list"

definition fragment_map_key :: "string \<Rightarrow> string \<Rightarrow> string \<Rightarrow> http_method \<Rightarrow> string" where
  "fragment_map_key loc i oid m = loc @ ''::'' @ i @ ''::'' @ oid @ ''::'' @ method_name m"

definition add_fragment ::
    "registered_route \<Rightarrow> (string, schema_fragment) jsmap \<Rightarrow> string \<times> view_renderer_entry \<Rightarrow> (string, schema_fragment) jsmap" where
  "add_fragment route acc x =
     (let (renderer, f) = x
      in if \<not> truthy (vr_fragment_location f) \<or> \<not> truthy (vr_fragment_id f) \<or> vr_method f = None then acc
         else (case method_operation route (the (vr_method f)) of
                 None \<Rightarrow> acc
               | Some opr \<Rightarrow>
                   (let loc = the (vr_fragment_location f); i = the (vr_fragment_id f); m = the (vr_method f);
                        key = fragment_map_key loc i (op_operation_id opr) m
                    in case js_get acc key of
                         Some e \<Rightarrow> js_set key (e\<lparr>fr_renderers := fr_renderers e @ [renderer]\<rparr>) acc
                       | None \<Rightarrow> js_set key \<lparr>fr_location = loc, fr_id = i, fr_operation_id = op_operation_id opr,
                                            fr_method = m, fr_renderers = [renderer]\<rparr> acc)))"

definition route_fragments :: "registered_route \<Rightarrow> (string, schema_fragment) jsmap" where
  "route_fragments route =
     foldl (add_fragment route) [] (concat (map (\<lambda>(k, vs). map (Pair k) (vs_fragments vs)) (rt_renderers route)))"

definition schema_route_of :: "registered_route \<times> string list \<Rightarrow> schema_route res" where
  "schema_route_of rv =
     (let (route, variants) = rv; frags = route_fragments route
      in res_bind (map_res (\<lambda>m. case method_operation route m of
                                 None \<Rightarrow> Inl (missing_operation route m)
                               | Some opr \<Rightarrow> Inr (op_operation_id opr, m)) (rt_methods route)) (\<lambda>operations.
         Inr \<lparr>sr_view_id = rt_view_id route, sr_path = rt_path route,
              sr_path_variants = (if length variants > 1 then variants else []), sr_operations = operations,
              sr_param_names = rt_param_names route, sr_renderers = js_keys (rt_renderers route),
              sr_has_fragments = (length frags > 0), sr_fragments = js_values frags,
              sr_components = concat (map (\<lambda>vs. map vr_renderer_id (vs_components vs)) (js_values (rt_renderers route)))\<rparr>))"

definition build_bp_schema :: "registry \<Rightarrow> plugin_manifest \<Rightarrow> (plugin_manifest \<times> schema_route list) res" where
  "build_bp_schema reg manifest =
     res_bind (map_res schema_route_of (group_routes_by_view_id (rg_routes reg))) (\<lambda>routes. Inr (manifest, routes))"

section \<open>Groups\<close>

lemma group_get:
  "js_get (foldl add_to_group [] rs) k =
     (let g = filter (\<lambda>r. rt_view_id r = k) rs in if g = [] then None else Some g)"
  by (induction rs rule: rev_induct) (auto simp: add_to_group_def Let_def)

lemma group_distinct: "distinct (map fst (foldl add_to_group [] rs))"
  by (induction rs rule: rev_induct) (simp_all add: add_to_group_def)

lemma group_member:
  assumes "(primary, variants) \<in> set (group_routes_by_view_id rs)"
  shows "\<exists>k. primary \<in> set rs \<and> rt_view_id primary = k \<and>
    mset variants = mset (map rt_path (filter (\<lambda>r. rt_view_id r = k) rs)) \<and>
    (\<forall>r\<in>set rs. rt_view_id r = k \<longrightarrow>
       (length (rt_param_names r), length (rt_path r)) \<le> (length (rt_param_names primary), length (rt_path primary)))"
proof -
  let ?gs = "foldl add_to_group [] rs"
  from assms obtain k g where kg: "(k, g) \<in> set ?gs" "primary = hd (order_group g)" "variants = map rt_path (order_group g)"
    by (auto simp: group_routes_by_view_id_def js_values_def)
  then have "js_get ?gs k = Some g" using group_distinct by (simp add: map_of_eq_Some_iff)
  then have g: "g = filter (\<lambda>r. rt_view_id r = k) rs" "g \<noteq> []"
    by (auto simp: group_get Let_def split: if_splits)
  then obtain y ys where y: "order_group g = y # ys"
    by (cases "order_group g") (auto simp: order_group_def sort_key_Nil_iff)
  then have "primary = y" using kg by simp
  with sort_key_hd_least(1,2) [OF y [unfolded order_group_def]] g
  have "primary \<in> set rs" "rt_view_id primary = k"
    "\<forall>r\<in>set rs. rt_view_id r = k \<longrightarrow>
       (length (rt_param_names r), length (rt_path r)) \<le> (length (rt_param_names primary), length (rt_path primary))"
    by auto
  moreover have "mset variants = mset (map rt_path g)"
    unfolding kg(3) order_group_def by (simp add: mset_map)
  ultimately show ?thesis using g by blast
qed

lemma group_keys: "map (rt_view_id \<circ> fst) (group_routes_by_view_id rs) = js_keys (foldl add_to_group [] rs)"
proof -
  let ?gs = "foldl add_to_group [] rs"
  have "rt_view_id (hd (order_group g)) = k" if kg: "(k, g) \<in> set ?gs" for k g
  proof -
    have "js_get ?gs k = Some g" using kg group_distinct by (simp add: map_of_eq_Some_iff)
    then have g: "g = filter (\<lambda>r. rt_view_id r = k) rs" "g \<noteq> []"
      by (auto simp: group_get Let_def split: if_splits)
    then obtain y ys where y: "order_group g = y # ys"
      by (cases "order_group g") (auto simp: order_group_def sort_key_Nil_iff)
    with sort_key_hd_least(1) [OF y [unfolded order_group_def]] g show ?thesis by simp
  qed
  then show ?thesis
    by (force simp: group_routes_by_view_id_def js_values_def js_keys_def)
qed

lemma js_keys_js_set: "js_keys (js_set k v m) = (if k \<in> set (js_keys m) then js_keys m else js_keys m @ [k])"
proof (induction m)
  case Nil
  then show ?case by (simp add: js_keys_def)
next
  case (Cons p m)
  then show ?case by (cases p) (simp add: js_keys_def)
qed

lemma uniq_acc_snoc:
  "uniq_acc seen (xs @ [x]) = uniq_acc seen xs @ (if x \<in> set seen \<union> set xs then [] else [x])"
  by (induction seen xs rule: uniq_acc.induct) auto

lemma uniq_snoc: "uniq (xs @ [x]) = (if x \<in> set xs then uniq xs else uniq xs @ [x])"
  by (simp add: uniq_def uniq_acc_snoc)

lemma group_keys_uniq: "js_keys (foldl add_to_group [] rs) = uniq (map rt_view_id rs)"
proof (induction rs rule: rev_induct)
  case Nil
  show ?case by (simp add: js_keys_def uniq_def)
next
  case (snoc r rs)
  have "js_keys (add_to_group g r) = (if rt_view_id r \<in> set (js_keys g) then js_keys g else js_keys g @ [rt_view_id r])" for g
    by (simp add: add_to_group_def js_keys_js_set)
  with snoc show ?case by (simp add: uniq_snoc)
qed

section \<open>What a published manifest guarantees\<close>

lemma check_contract_Inr:
  "check_contract (r, opr, c) = Inr pc \<longleftrightarrow>
     set (contract_modes c) \<subseteq> set (default_callers opr) \<and> pc = publish_contract r opr c"
  by (auto simp: check_contract_def unsupported_modes_def Let_def guard_simps filter_empty_conv)

lemma map_res_all: "map_res f xs = Inr ys \<Longrightarrow> x \<in> set xs \<Longrightarrow> \<exists>y\<in>set ys. f x = Inr y"
  by (auto simp: map_res_Inr_iff list_all2_conv_all_nth in_set_conv_nth)

lemma build_manifestD:
  assumes "build_manifest_from_registry lib reg v b = Inr m"
  obtains contracts units views where "map_res check_contract (registry_contracts reg) = Inr contracts"
    "map_res (check_dependency reg (mb_plugin_id b)) (registry_dependencies reg) = Inr units"
    "map_res (route_to_view_metadata lib (rg_dependencies reg) (mb_plugin_id b))
       (group_routes_by_view_id (rg_routes reg)) = Inr views"
    "pm_api_contracts m = mb_api_contracts b @ contracts" "pm_views m = views"
    "pm_capabilities m = manifest_capabilities reg b" "pm_admin_apis m = derive_admin_apis b"
  using assms by (auto simp: build_manifest_from_registry_def guard_simps)

lemma registry_contracts_member:
  "(r, opr, c) \<in> set (registry_contracts reg) \<longleftrightarrow>
     r \<in> set (rg_routes reg) \<and> opr \<in> set (route_operations r) \<and> c \<in> set (op_api_contracts opr)"
  by (auto simp: registry_contracts_def)

lemma registry_dependencies_member:
  "(opr, d) \<in> set (registry_dependencies reg) \<longleftrightarrow>
     (\<exists>r\<in>set (rg_routes reg). opr \<in> set (route_operations r)) \<and> d \<in> set (op_dependencies opr)"
  by (auto simp: registry_dependencies_def)

lemma check_dependency_Inr:
  "check_dependency reg pid (opr, d) = Inr u \<longleftrightarrow>
     (let target = (if truthy (dp_service_id d) then js_get (rg_dependencies reg) (the (dp_service_id d)) else Some pid)
      in (truthy (dp_service_id d) \<longrightarrow> truthy target) \<and>
         (target = Some pid \<longrightarrow> (dp_operation_id d, dp_method d) \<in> set (local_operations reg)))"
  by (auto simp: check_dependency_def Let_def guard_simps)

lemma validate_robots_Inr:
  "validate_robots_rules oid rs = Inr u \<longleftrightarrow>
     (\<forall>r\<in>set rs. valid_user_agent (rb_user_agent r) \<and> (rb_access r = ''allow'' \<or> rb_access r = ''disallow'') \<and>
        valid_crawl_delay (rb_crawl_delay r))"
  by (induction rs) (auto simp: guard_simps)

lemma operation_to_metadata_fields:
  "operation_to_metadata lib route aliases pid opr = Inr v \<Longrightarrow>
     vo_operation_id v = op_operation_id opr \<and> vo_method v = op_method opr \<and>
     (op_raw opr \<longrightarrow> \<not> vo_renderable v) \<and>
     (\<forall>r\<in>set (vo_robots v). valid_user_agent (rb_user_agent r) \<and> valid_crawl_delay (rb_crawl_delay r)) \<and>
     map_res (resolve_dependency aliases pid opr) (op_dependencies opr) = Inr (vo_dependencies v)"
  by (auto simp: operation_to_metadata_def Let_def guard_simps validate_robots_def validate_robots_Inr)

lemma derive_admin_apis_ids:
  "map aapi_id (derive_admin_apis b) =
     map aapi_id (mb_admin_apis b) @
     (if mb_config_schemas b = [] then []
      else filter (\<lambda>i. i \<notin> set (map aapi_id (mb_admin_apis b))) [''config.schema'', ''config.values''])"
  by (simp add: derive_admin_apis_def config_admin_apis_def)

section \<open>Properties\<close>

text \<open>
  C40: a manifest is only published when what it promises can be called: every API contract of
  every registered operation is in the manifest and each of its caller modes is one the
  operation's own authentication allows; every dependency of an operation names a known
  service, and a dependency on this plugin names an operation and method that it has.
\<close>
theorem manifest_contracts_callable:
  assumes "build_manifest_from_registry lib reg v b = Inr m"
    and "r \<in> set (rg_routes reg)" and "opr \<in> set (route_operations r)"
  shows "(\<forall>c\<in>set (op_api_contracts opr). publish_contract r opr c \<in> set (pm_api_contracts m) \<and>
            set (contract_modes c) \<subseteq> set (default_callers opr)) \<and>
    (\<forall>d\<in>set (op_dependencies opr).
       (truthy (dp_service_id d) \<longrightarrow> truthy (js_get (rg_dependencies reg) (the (dp_service_id d)))) \<and>
       (\<not> truthy (dp_service_id d) \<or> js_get (rg_dependencies reg) (the (dp_service_id d)) = Some (mb_plugin_id b) \<longrightarrow>
          (dp_operation_id d, dp_method d) \<in> set (local_operations reg)))"
  using assms(1)
proof (rule build_manifestD)
  fix contracts units views
  assume k: "map_res check_contract (registry_contracts reg) = Inr contracts"
    and d: "map_res (check_dependency reg (mb_plugin_id b)) (registry_dependencies reg) = Inr units"
    and m: "pm_api_contracts m = mb_api_contracts b @ contracts"
  have "publish_contract r opr c \<in> set (pm_api_contracts m) \<and> set (contract_modes c) \<subseteq> set (default_callers opr)"
    if "c \<in> set (op_api_contracts opr)" for c
    using map_res_all [OF k, of "(r, opr, c)"] that assms(2,3) m
    by (auto simp: registry_contracts_member check_contract_Inr)
  moreover have "(truthy (dp_service_id d) \<longrightarrow> truthy (js_get (rg_dependencies reg) (the (dp_service_id d)))) \<and>
       (\<not> truthy (dp_service_id d) \<or> js_get (rg_dependencies reg) (the (dp_service_id d)) = Some (mb_plugin_id b) \<longrightarrow>
          (dp_operation_id d, dp_method d) \<in> set (local_operations reg))"
    if "d \<in> set (op_dependencies opr)" for d
  proof -
    have "(opr, d) \<in> set (registry_dependencies reg)"
      using that assms(2,3) by (auto simp: registry_dependencies_member)
    from map_res_all [OF d this] show ?thesis
      by (auto simp: check_dependency_Inr Let_def split: if_splits)
  qed
  ultimately show ?thesis by blast
qed

definition sample_contract :: api_contract where
  "sample_contract = \<lparr>ac_id = ''items'', ac_title = ''Items'', ac_version = ''1'', ac_capabilities = [],
     ac_permissions = [], ac_modes = None\<rparr>"

definition sample_operation :: method_route where
  "sample_operation = \<lparr>op_method = GET, op_operation_id = ''items.get'', op_title = ''Items'', op_description = '''',
     op_schemas = no_schemas, op_raw = False,
     op_auth = \<lparr>ar_required = True, ar_elevation = None, ar_callers = Some [User_caller, Service_caller], ar_permissions = []\<rparr>,
     op_sitemap = No_sitemap, op_robots = [], op_role = None,
     op_dependencies = [\<lparr>dp_service_id = None, dp_operation_id = ''items.get'', dp_method = GET\<rparr>],
     op_menu = None, op_chrome = None,
     op_api_contracts = [sample_contract],
     op_cache_hints = '''', op_demo_scenarios = []\<rparr>"

definition sample_registered :: registered_route where
  "sample_registered = sample_route\<lparr>rt_method_routes := [(GET, Some sample_operation)]\<rparr>"

definition sample_registry :: registry where
  "sample_registry = \<lparr>rg_dependencies = [],
     rg_routes = [sample_registered], rg_shell_fragments = None\<rparr>"

definition sample_schemas :: schema_library where
  "sample_schemas = \<lparr>lib_publish = \<lambda>s l. Inr s, lib_parse = \<lambda>s v. Inr v, lib_iso_date = \<lambda>s. None\<rparr>"

definition sample_base :: manifest_base where
  "sample_base = \<lparr>mb_plugin_id = ''p1'', mb_title = '''', mb_description = '''', mb_category = None,
     mb_deployment_modes = None, mb_capabilities = [], mb_config_schemas = [], mb_permissions = [], mb_admin_apis = [],
     mb_webhooks = [], mb_api_contracts = [], mb_m2m_requests = [], mb_developer_resources = [], mb_shell = None,
     mb_metadata_ttl = None\<rparr>"

lemma sample_manifest: "is_ok (build_manifest_from_registry sample_schemas sample_registry ''1'' sample_base)"
  by code_simp

theorem manifest_contracts_callable_witness:
  "\<exists>m. build_manifest_from_registry sample_schemas sample_registry ''1'' sample_base = Inr m \<and>
     publish_contract sample_registered sample_operation sample_contract \<in> set (pm_api_contracts m)"
proof -
  obtain m where m: "build_manifest_from_registry sample_schemas sample_registry ''1'' sample_base = Inr m"
    using sample_manifest unfolding is_ok_iff by blast
  have "sample_registered \<in> set (rg_routes sample_registry)" by (simp add: sample_registry_def)
  moreover have "sample_operation \<in> set (route_operations sample_registered)"
    by (simp add: route_operations_def js_values_def List.map_filter_def sample_registered_def)
  moreover have "sample_contract \<in> set (op_api_contracts sample_operation)" by (simp add: sample_operation_def)
  ultimately show ?thesis using manifest_contracts_callable [OF m] m by blast
qed

text \<open>
  A view that is registered under several paths is published once: the groups list each
  view id exactly once in the order of first registration, with all its paths, and the primary
  route of a group is the one with the most parameters and, among those, the longest path.
\<close>
theorem views_grouped_once:
  "map (rt_view_id \<circ> fst) (group_routes_by_view_id rs) = uniq (map rt_view_id rs) \<and>
   (\<forall>(primary, variants)\<in>set (group_routes_by_view_id rs). primary \<in> set rs \<and>
      mset variants = mset (map rt_path (filter (\<lambda>r. rt_view_id r = rt_view_id primary) rs)) \<and>
      (\<forall>r\<in>set rs. rt_view_id r = rt_view_id primary \<longrightarrow>
         (length (rt_param_names r), length (rt_path r)) \<le> (length (rt_param_names primary), length (rt_path primary))))"
  using group_member [of _ _ rs] by (auto simp only: group_keys group_keys_uniq split_beta)

end
