(* ===== verification/ScanValidate.thy ===== *)
theory ScanValidate
  imports Prelude_JS
begin

text \<open>
  \<open>codegen/validate.ts\<close> over the scanned types of \<open>codegen/scanner.ts\<close>: the passes
  that check a scanned service against the file conventions. A pass that pushes onto the
  shared error array is a function to the list it pushes; \<open>validate_scan_result\<close> appends
  them in the order of the calls. An optional array read with \<open>?? []\<close> is a list.
\<close>

section \<open>Scanned types\<close>

datatype severity = Error_severity | Warning_severity

record validation_error =
  ve_file :: string
  ve_message :: string
  ve_severity :: severity

datatype scanned_renderer_type = Page_renderer | Component_renderer | Fragment_renderer

record scanned_view_renderer =
  sv_renderer_key :: string
  sv_renderer_id :: string
  sv_type :: scanned_renderer_type
  sv_method :: "string option"
  sv_status_code :: "nat option"
  sv_relative_path :: string
  sv_sse_renderer_path :: "string option"
  sv_render_param_warning :: "string option"
  sv_render_context_warning :: "string option"
  sv_sse_render_context_warning :: "string option"

record scanned_stream_renderer =
  st_renderer_key :: string
  st_relative_path :: string
  st_exports :: "string list"

record scanned_method_module =
  mm_method :: string
  mm_operation_id :: "string option"
  mm_relative_path :: string
  mm_exports :: "string list"
  mm_legacy_dependencies :: bool
  mm_is_raw :: bool
  mm_loose_schemas :: "string list"
  mm_allow_unknown_keys :: "string list"
  mm_redundant_strip :: "string list"

record scanned_route =
  sn_view_id :: string
  sn_path :: string
  sn_relative_path :: string
  sn_metadata_exports :: "string list"
  sn_method_modules :: "scanned_method_module list"
  sn_handler_exports :: "string list"
  sn_methods :: "string list"
  sn_renderers :: "scanned_view_renderer list"
  sn_stream_renderers :: "scanned_stream_renderer list"
  sn_sse_relative_path :: "string option"
  sn_invalid_sse_paths :: "string list"
  sn_invalid_sse_renderer_paths :: "string list"
  sn_has_sse_handler :: bool
  sn_sse_has_contract :: bool
  sn_sse_exports :: "string list"
  sn_sse_loose_schemas :: "string list"
  sn_sse_allow_unknown_keys :: "string list"
  sn_sse_redundant_strip :: "string list"
  sn_is_raw :: bool
  sn_loose_schemas :: "string list"
  sn_allow_unknown_keys :: "string list"
  sn_redundant_strip :: "string list"
  sn_has_route_impl :: bool

record scanned_shell_fragment =
  sh_id :: string
  sh_relative_path :: string

record lifecycle_override =
  lo_method :: string
  lo_line :: nat
  lo_calls_super :: bool
  lo_awaits_super :: bool

record scan_result =
  sr_routes :: "scanned_route list"
  sr_shell_fragments :: "scanned_shell_fragment list"
  sr_lifecycle :: "lifecycle_override list"

definition error_at :: "string \<Rightarrow> string \<Rightarrow> validation_error" where
  "error_at file message = \<lparr>ve_file = file, ve_message = message, ve_severity = Error_severity\<rparr>"

definition warning_at :: "string \<Rightarrow> string \<Rightarrow> validation_error" where
  "warning_at file message = \<lparr>ve_file = file, ve_message = message, ve_severity = Warning_severity\<rparr>"

definition index_file :: "scanned_route \<Rightarrow> string" where
  "index_file r = sn_relative_path r @ ''/index.ts''"

section \<open>Patterns\<close>

fun plain_identifier :: "string \<Rightarrow> bool" where
  "plain_identifier [] = False"
| "plain_identifier (c # cs) = (is_alpha c \<and> list_all is_alnum cs)"

definition route_method :: "string \<Rightarrow> bool" where
  "route_method m \<longleftrightarrow> m \<in> set [''GET'', ''POST'', ''PUT'', ''PATCH'', ''DELETE'', ''OPTIONS'']"

fun underscored :: "string \<Rightarrow> bool" where
  "underscored [] = False"
| "underscored (c # cs) = (c = CHR ''_'' \<and> plain_identifier cs)"

text \<open>No part of the pattern but its separators matches a dot, so the file name is split there.\<close>

definition fragment_pattern :: "string \<Rightarrow> bool" where
  "fragment_pattern name =
     (case js_split (CHR ''.'') name of
        [l, i, m, e] \<Rightarrow> underscored l \<and> plain_identifier i \<and> route_method m \<and> e = ''tsx''
      | [l, i, m, s, e] \<Rightarrow> underscored l \<and> plain_identifier i \<and> route_method m \<and> s = ''sse'' \<and> e = ''tsx''
      | _ \<Rightarrow> False)"

fun valid_operation_id :: "string \<Rightarrow> bool" where
  "valid_operation_id [] = False"
| "valid_operation_id (c # cs) = (is_alpha c \<and> list_all (\<lambda>d. is_alnum d \<or> d \<in> set ''._-'') cs)"

text \<open>\<open>path.replace(/:[^/]+/g, ":*")\<close>\<close>

function normalize_path :: "string \<Rightarrow> string" where
  "normalize_path [] = []"
| "normalize_path (c # cs) =
     (if c = CHR '':'' \<and> takeWhile (\<lambda>x. x \<noteq> CHR ''/'') cs \<noteq> []
      then '':*'' @ normalize_path (dropWhile (\<lambda>x. x \<noteq> CHR ''/'') cs)
      else c # normalize_path cs)"
  by pat_completeness auto
termination
  by (relation "measure length") (simp_all add: le_imp_less_Suc length_dropWhile_le)

definition strip_index_ts :: "string \<Rightarrow> string" where
  "strip_index_ts p = (if js_ends_with ''/index.ts'' p then List.take (length p - 9) p else p)"

fun string_of_nat :: "nat \<Rightarrow> string" where
  "string_of_nat n =
     (if n < 10 then [char_of (48 + n)] else string_of_nat (n div 10) @ [char_of (48 + n mod 10)])"

declare string_of_nat.simps [simp del]

section \<open>Passes over one route\<close>

definition check_handler_exports :: "scanned_route \<Rightarrow> validation_error list" where
  "check_handler_exports r =
     map (\<lambda>h. error_at (index_file r)
           (''Legacy handler export '' @ quoted h @
            '' is no longer supported. Move the handler to a method file such as GET.ts or POST.ts and default-export it.''))
       (filter (js_starts_with ''handle'') (sn_metadata_exports r)) @
     (if \<not> length (sn_method_modules r) > 0
      then [error_at (index_file r)
             (''Route '' @ quoted (sn_view_id r) @
              '' does not define any method file. Add GET.ts, POST.ts, or another supported HTTP method file with a default-exported handler.'')]
      else [])"

definition method_route_text :: "scanned_route \<Rightarrow> scanned_method_module \<Rightarrow> string" where
  "method_route_text r m = ''ethod route '' @ quoted (sn_view_id r) @ '' '' @ mm_method m"

definition check_module_response :: "scanned_route \<Rightarrow> scanned_method_module \<Rightarrow> validation_error list" where
  "check_module_response r m =
     (let exports = mm_exports m; file = mm_relative_path m
      in (if ''default'' \<notin> set exports
          then [error_at file (CHR ''M'' # method_route_text r m @ '' must default-export a handler.'')] else []) @
         (if mm_is_raw m then
            (if ''ResponseSchema'' \<in> set exports
             then [error_at file (''Raw m'' @ method_route_text r m @ '' must not export a ResponseSchema.'')] else [])
          else if ''ItemSchema'' \<in> set exports then
            (if ''ResponseSchema'' \<in> set exports
             then [error_at file (CHR ''M'' # method_route_text r m @
                     '' exports both ItemSchema and ResponseSchema. Streaming routes derive their response schema - remove ResponseSchema.'')]
             else [])
          else if ''ResponseSchema'' \<notin> set exports
          then [error_at file (CHR ''M'' # method_route_text r m @ '' does not export a ResponseSchema.'')]
          else []))"

definition check_response_schema :: "scanned_route \<Rightarrow> validation_error list" where
  "check_response_schema r = concat (map (check_module_response r) (sn_method_modules r))"

definition operation_exports :: "string list" where
  "operation_exports =
     [''operationId'', ''auth'', ''QuerySchema'', ''HeadersSchema'', ''RequestSchema'', ''MultipartSchema'',
      ''ResponseSchema'', ''ItemSchema'', ''SummarySchema'', ''sitemap'', ''robots'', ''role'', ''dependencies'',
      ''chrome'', ''menu'', ''apiContracts'', ''cacheHints'', ''demoScenarios'']"

definition required_exports :: "string list" where
  "required_exports = [''operationId'', ''title'', ''description'', ''auth'']"

definition check_module_metadata :: "scanned_route \<Rightarrow> scanned_method_module \<Rightarrow> validation_error list" where
  "check_module_metadata r m =
     (if mm_legacy_dependencies m
      then [error_at (mm_relative_path m)
             ''Legacy string dependencies are not supported. Use { operationId, method, serviceId? }.''] else []) @
     map (\<lambda>n. error_at (mm_relative_path m) (CHR ''M'' # method_route_text r m @ '' must export '' @ n @ ''.''))
       (filter (\<lambda>n. n \<notin> set (mm_exports m)) required_exports) @
     (case mm_operation_id m of
        None \<Rightarrow> []
      | Some oid \<Rightarrow>
          if \<not> valid_operation_id oid
          then [error_at (mm_relative_path m)
                 (''Operation id '' @ quoted oid @ '' is invalid. Use a stable dot-separated identifier.'')] else [])"

definition check_operation_metadata :: "scanned_route \<Rightarrow> validation_error list" where
  "check_operation_metadata r =
     (if sn_has_route_impl r
      then [error_at (sn_relative_path r @ ''/route.impl.ts'')
             ''route.impl files are not supported. Keep each operation contract and handler in its HTTP method file; move genuinely shared domain logic to a named module outside the route directory.'']
      else []) @
     map (\<lambda>n. error_at (index_file r) (''Route metadata '' @ quoted n @ '' belongs in each method file that uses it.''))
       (filter (\<lambda>n. n \<in> set (sn_metadata_exports r)) operation_exports) @
     concat (map (check_module_metadata r) (sn_method_modules r))"

definition check_raw_renderers :: "scanned_route \<Rightarrow> validation_error list" where
  "check_raw_renderers r =
     (if \<not> sn_is_raw r then []
      else if length (sn_renderers r) = 0 \<and> length (sn_stream_renderers r) = 0 then []
      else [error_at (index_file r) (''Raw route '' @ quoted (sn_view_id r) @ '' cannot have HTML renderers.'')])"

definition warn_raw_handler :: "scanned_route \<Rightarrow> validation_error list" where
  "warn_raw_handler r =
     (if \<not> sn_is_raw r then []
      else [warning_at (index_file r)
             (''Route '' @ quoted (sn_view_id r) @
              '' uses createRawHandler. Prefer createHandler with RequestSchema/ResponseSchema for normal JSON or HTML responses; use raw handlers only for files, streams, redirects, or custom HTTP responses.'')])"

definition loose_text :: string where
  "loose_text = '' containing av.any() or av.unknown(). Published schemas must be concrete; use a specific AnyVali schema, JsonValueSchema, or JsonObjectSchema.''"

definition allow_text :: string where
  "allow_text = '' with unknownKeys: '' @ quoted ''allow'' @ ''. Validate extension keys with a concrete av.record(...) schema.''"

definition strip_text :: string where
  "strip_text = '' with unknownKeys: '' @ quoted ''strip'' @ ''. Stripping is the default; remove the redundant option.''"

definition sse_file :: "scanned_route \<Rightarrow> string" where
  "sse_file r = (case sn_sse_relative_path r of None \<Rightarrow> sn_relative_path r @ ''/sse.ts'' | Some p \<Rightarrow> p)"

definition check_module_schemas :: "scanned_route \<Rightarrow> scanned_method_module \<Rightarrow> validation_error list" where
  "check_module_schemas r m =
     (let who = ''Route '' @ quoted (sn_view_id r) @ '' '' @ mm_method m @ '' exports ''; file = mm_relative_path m
      in map (\<lambda>s. error_at file (who @ s @ loose_text)) (mm_loose_schemas m) @
         map (\<lambda>s. error_at file (who @ s @ allow_text)) (mm_allow_unknown_keys m) @
         map (\<lambda>s. warning_at file (who @ s @ strip_text)) (mm_redundant_strip m))"

definition check_schema_policy :: "scanned_route \<Rightarrow> validation_error list" where
  "check_schema_policy r =
     (let who = ''Route '' @ quoted (sn_view_id r) @ '' exports ''; sse = ''SSE route '' @ quoted (sn_view_id r) @ '' exports ''
      in map (\<lambda>s. error_at (index_file r) (who @ s @ loose_text)) (sn_loose_schemas r) @
         map (\<lambda>s. error_at (index_file r) (who @ s @ allow_text)) (sn_allow_unknown_keys r) @
         map (\<lambda>s. warning_at (index_file r) (who @ s @ strip_text)) (sn_redundant_strip r) @
         concat (map (check_module_schemas r) (sn_method_modules r)) @
         map (\<lambda>s. error_at (sse_file r) (sse @ s @ '' containing av.any() or av.unknown(). SSE schemas must be concrete.''))
           (sn_sse_loose_schemas r) @
         map (\<lambda>s. error_at (sse_file r) (sse @ s @ allow_text)) (sn_sse_allow_unknown_keys r) @
         map (\<lambda>s. warning_at (sse_file r) (sse @ s @ strip_text)) (sn_sse_redundant_strip r))"

section \<open>Renderer and SSE passes\<close>

definition param_phrase :: "string \<Rightarrow> string" where
  "param_phrase w = (if w = ''missing'' then ''an untyped or missing'' else ''a '' @ w)"

definition check_renderer_method :: "scanned_route \<Rightarrow> scanned_view_renderer \<Rightarrow> validation_error list" where
  "check_renderer_method r v =
     (let file = sv_relative_path v; who = ''enderer for route '' @ quoted (sn_view_id r)
      in if \<not> truthy (sv_method v)
         then [error_at file (''Generic UI r'' @ who @
                 '' is not type-safe. Use method-specific files such as GET.tsx or POST.400.tsx.'')]
         else
           (if the (sv_method v) \<notin> set (sn_methods r)
            then [error_at file (CHR ''R'' # who @ '' targets '' @ the (sv_method v) @ '', but that method has no '' @
                    the (sv_method v) @ ''.ts handler.'')] else []) @
           (if truthy (sv_render_param_warning v)
            then [error_at file (CHR ''R'' # who @ '' has '' @ param_phrase (the (sv_render_param_warning v)) @
                    '' render data parameter. Type it from the route response data.'')] else []) @
           (if truthy (sv_render_context_warning v)
            then [error_at file (CHR ''R'' # who @ '' has a '' @ the (sv_render_context_warning v) @
                    '' render context parameter. Type it as ViewRenderContext; the framework supplies it without adding presentation data to the API schema.'')]
            else []))"

definition check_renderers_match_methods :: "scanned_route \<Rightarrow> validation_error list" where
  "check_renderers_match_methods r = concat (map (check_renderer_method r) (sn_renderers r))"

definition contract_exports :: "string list" where
  "contract_exports = [''InputSchema'', ''EventSchema'', ''default'']"

definition check_sse_method :: "scanned_route \<Rightarrow> validation_error list" where
  "check_sse_method r =
     (if length (sn_invalid_sse_paths r) > 0
      then [error_at (js_join '', '' (sn_invalid_sse_paths r))
             (''SSE route '' @ quoted (sn_view_id r) @ '' must use sse.ts; method-qualified SSE handler names are unsupported.'')]
      else []) @
     (if truthy (sn_sse_relative_path r) \<and> \<not> sn_sse_has_contract r then
        (let missing = filter (\<lambda>n. n \<notin> set (sn_sse_exports r)) contract_exports
         in [error_at (the (sn_sse_relative_path r))
               (''SSE route '' @ quoted (sn_view_id r) @
                '' must export InputSchema, EventSchema, and a default createSse(...) contract'' @
                (if length missing > 0 then ''; missing '' @ js_join '', '' missing else []) @ ''.'')])
      else if \<not> sn_has_sse_handler r then []
      else if ''GET'' \<notin> set (sn_methods r)
      then [error_at (sse_file r) (''SSE route '' @ quoted (sn_view_id r) @ '' requires a GET.ts handler.'')]
      else [])"

definition check_sse_renderer :: "scanned_route \<Rightarrow> scanned_view_renderer \<Rightarrow> validation_error list" where
  "check_sse_renderer r v =
     (if truthy (sv_sse_renderer_path v) \<and> sv_method v \<noteq> Some ''GET''
      then [error_at (the (sv_sse_renderer_path v)) (''SSE fragment '' @ quoted (sv_renderer_id v) @ '' must target GET.'')]
      else []) @
     (if truthy (sv_sse_renderer_path v) \<and> truthy (sv_sse_render_context_warning v)
      then [error_at (the (sv_sse_renderer_path v))
             (''SSE renderer for route '' @ quoted (sn_view_id r) @ '' has a '' @ the (sv_sse_render_context_warning v) @
              '' render context parameter. Type it as ViewRenderContext; the framework supplies it server-side.'')]
      else [])"

definition check_sse_fragment_renderers :: "scanned_route \<Rightarrow> validation_error list" where
  "check_sse_fragment_renderers r =
     map (\<lambda>f. error_at f
           (''SSE fragment renderer for route '' @ quoted (sn_view_id r) @
            '' must use _<location>.<id>.sse.tsx; method-qualified SSE renderer names are unsupported.''))
       (sn_invalid_sse_renderer_paths r) @
     concat (map (check_sse_renderer r) (sn_renderers r))"

definition file_name :: "string \<Rightarrow> string" where
  "file_name p = last (js_split (CHR ''/'') p)"

definition check_fragment_file_names :: "scanned_route \<Rightarrow> validation_error list" where
  "check_fragment_file_names r =
     map (\<lambda>v. error_at (sv_relative_path v)
           (''Fragment file '' @ quoted (file_name (sv_relative_path v)) @ '' does not match the _{location}.{id}.tsx pattern.''))
       (filter (\<lambda>v. sv_type v = Fragment_renderer \<and> file_name (sv_relative_path v) \<noteq> [] \<and>
                    \<not> fragment_pattern (file_name (sv_relative_path v))) (sn_renderers r))"

definition check_renderer_orphans :: "scanned_route \<Rightarrow> validation_error list" where
  "check_renderer_orphans r =
     map (\<lambda>v. error_at (sv_relative_path v)
           (''Renderer '' @ quoted (sv_renderer_id v) @ '' (renderer '' @ quoted (sv_renderer_key v) @
            '') does not appear to belong to route '' @ quoted (sn_view_id r) @ ''.''))
       (filter (\<lambda>v. \<not> js_includes (strip_index_ts (sn_relative_path r)) (sv_relative_path v)) (sn_renderers r))"

definition check_missing_renderers :: "scanned_route \<Rightarrow> validation_error list" where
  "check_missing_renderers r =
     (if sn_is_raw r then []
      else if length (sn_renderers r) = 0 then
        (if list_ex (js_starts_with ''handle'') (sn_handler_exports r)
         then [warning_at (index_file r)
                (''Route '' @ quoted (sn_view_id r) @
                 '' has handlers but no HTML renderers. The route will serve JSON but not HTML.'')]
         else [])
      else [])"

section \<open>Passes over the whole scan\<close>

text \<open>One step per item; \<open>seen\<close> is the pass's \<open>Map\<close>.\<close>

fun check_duplicate_view_ids :: "(string, scanned_route) jsmap \<Rightarrow> scanned_route list \<Rightarrow> validation_error list" where
  "check_duplicate_view_ids seen [] = []"
| "check_duplicate_view_ids seen (r # rs) =
     (case js_get seen (sn_view_id r) of
        Some e \<Rightarrow>
          error_at (index_file r)
            (''Duplicate viewId '' @ quoted (sn_view_id r) @ ''. Also defined at '' @ quoted (index_file e) @ ''.'')
          # check_duplicate_view_ids seen rs
      | None \<Rightarrow> check_duplicate_view_ids (js_set (sn_view_id r) r seen) rs)"

fun check_duplicate_operations :: "(string, string) jsmap \<Rightarrow> scanned_method_module list \<Rightarrow> validation_error list" where
  "check_duplicate_operations seen [] = []"
| "check_duplicate_operations seen (m # ms) =
     (if \<not> truthy (mm_operation_id m) then check_duplicate_operations seen ms
      else (let oid = the (mm_operation_id m); existing = js_get seen oid
            in if truthy existing
               then error_at (mm_relative_path m)
                      (''Duplicate operationId '' @ quoted oid @ ''. Also defined at '' @ quoted (the existing) @ ''.'')
                    # check_duplicate_operations seen ms
               else check_duplicate_operations (js_set oid (mm_relative_path m) seen) ms))"

definition check_duplicate_operation_ids :: "scanned_route list \<Rightarrow> validation_error list" where
  "check_duplicate_operation_ids rs = check_duplicate_operations [] (concat (map sn_method_modules rs))"

fun check_duplicate_shell_ids :: "(string, string) jsmap \<Rightarrow> scanned_shell_fragment list \<Rightarrow> validation_error list" where
  "check_duplicate_shell_ids seen [] = []"
| "check_duplicate_shell_ids seen (f # fs) =
     (let existing = js_get seen (sh_id f)
      in if truthy existing
         then error_at (sh_relative_path f)
                (''Duplicate shell fragment id '' @ quoted (sh_id f) @ ''. Also defined at '' @ quoted (the existing) @ ''.'')
              # check_duplicate_shell_ids seen fs
         else check_duplicate_shell_ids (js_set (sh_id f) (sh_relative_path f) seen) fs)"

fun check_conflicting_paths :: "(string, scanned_route) jsmap \<Rightarrow> scanned_route list \<Rightarrow> validation_error list" where
  "check_conflicting_paths seen [] = []"
| "check_conflicting_paths seen (r # rs) =
     (let k = normalize_path (sn_path r); existing = js_get seen k
      in case existing of
           Some e \<Rightarrow>
             if sn_view_id e \<noteq> sn_view_id r
             then error_at (index_file r)
                    (''Path '' @ quoted (sn_path r) @ '' conflicts with '' @ quoted (sn_path e) @ '' (route '' @
                     quoted (sn_view_id e) @ ''). Both resolve to the same structural pattern.'')
                  # check_conflicting_paths seen rs
             else check_conflicting_paths (js_set k r seen) rs
         | None \<Rightarrow> check_conflicting_paths (js_set k r seen) rs)"

definition check_lifecycle :: "lifecycle_override \<Rightarrow> validation_error list" where
  "check_lifecycle l =
     (let file = ''index.ts:'' @ string_of_nat (lo_line l); m = lo_method l
      in if \<not> lo_calls_super l then
           [error_at file
             (if m = ''dispose''
              then ''Plugin.dispose overrides BPService.dispose but does not call super.dispose(). BetterPortal cleanup would be skipped.''
              else ''Plugin.'' @ m @ '' overrides BPService.'' @ m @ '' but does not call super.'' @ m @
                   ''(obs). Await or return the base lifecycle call, or remove the override.'')]
         else if m \<noteq> ''dispose'' \<and> \<not> lo_awaits_super l then
           [error_at file (''Plugin.'' @ m @ '' calls super.'' @ m @
              ''(obs) without awaiting or returning it. BetterPortal lifecycle setup must complete before the override returns.'')]
         else [])"

definition check_route :: "scanned_route \<Rightarrow> validation_error list" where
  "check_route r =
     check_handler_exports r @ check_response_schema r @ check_operation_metadata r @ check_raw_renderers r @
     warn_raw_handler r @ check_schema_policy r @ check_renderers_match_methods r @ check_sse_method r @
     check_sse_fragment_renderers r @ check_fragment_file_names r @ check_renderer_orphans r @
     check_missing_renderers r"

definition validate_scan_result :: "scan_result \<Rightarrow> validation_error list" where
  "validate_scan_result s =
     concat (map check_lifecycle (sr_lifecycle s)) @
     check_duplicate_view_ids [] (sr_routes s) @
     check_duplicate_operation_ids (sr_routes s) @
     check_conflicting_paths [] (sr_routes s) @
     check_duplicate_shell_ids [] (sr_shell_fragments s) @
     concat (map check_route (sr_routes s))"

section \<open>The conventions, declaratively\<close>

definition blocking :: "validation_error list \<Rightarrow> validation_error list" where
  "blocking es = filter (\<lambda>e. ve_severity e = Error_severity) es"

lemma blocking_simps [simp]:
  "blocking [] = []" "blocking (xs @ ys) = blocking xs @ blocking ys"
  "blocking (error_at p m # es) = error_at p m # blocking es"
  "blocking (warning_at p m # es) = blocking es"
  "blocking (map (\<lambda>x. error_at (f x) (g x)) zs) = map (\<lambda>x. error_at (f x) (g x)) zs"
  "blocking (map (\<lambda>x. warning_at (f x) (g x)) zs) = []"
  by (simp_all add: blocking_def error_at_def warning_at_def filter_map o_def)

lemma blocking_concat [simp]: "blocking (concat (map f xs)) = [] \<longleftrightarrow> (\<forall>x\<in>set xs. blocking (f x) = [])"
  by (auto simp: blocking_def filter_concat)

text \<open>A pass, and the condition under which it reports no error.\<close>

locale scan_pass =
  fixes check :: "'a \<Rightarrow> validation_error list"
    and clean :: "'a \<Rightarrow> bool"
  assumes no_error: "blocking (check x) = [] \<longleftrightarrow> clean x"
begin

lemma each_clean: "blocking (concat (map check xs)) = [] \<longleftrightarrow> list_all clean xs"
  by (simp add: no_error list_all_iff)

end

definition module_response_clean :: "scanned_method_module \<Rightarrow> bool" where
  "module_response_clean m \<longleftrightarrow> ''default'' \<in> set (mm_exports m) \<and>
     (if mm_is_raw m then ''ResponseSchema'' \<notin> set (mm_exports m)
      else (''ItemSchema'' \<in> set (mm_exports m)) \<noteq> (''ResponseSchema'' \<in> set (mm_exports m)))"

definition module_metadata_clean :: "scanned_method_module \<Rightarrow> bool" where
  "module_metadata_clean m \<longleftrightarrow> \<not> mm_legacy_dependencies m \<and> set required_exports \<subseteq> set (mm_exports m) \<and>
     (\<forall>oid. mm_operation_id m = Some oid \<longrightarrow> valid_operation_id oid)"

definition module_schemas_clean :: "scanned_method_module \<Rightarrow> bool" where
  "module_schemas_clean m \<longleftrightarrow> mm_loose_schemas m = [] \<and> mm_allow_unknown_keys m = []"

definition renderer_clean :: "scanned_route \<Rightarrow> scanned_view_renderer \<Rightarrow> bool" where
  "renderer_clean r v \<longleftrightarrow> truthy (sv_method v) \<and> the (sv_method v) \<in> set (sn_methods r) \<and>
     \<not> truthy (sv_render_param_warning v) \<and> \<not> truthy (sv_render_context_warning v) \<and>
     (truthy (sv_sse_renderer_path v) \<longrightarrow> sv_method v = Some ''GET'' \<and> \<not> truthy (sv_sse_render_context_warning v)) \<and>
     (sv_type v = Fragment_renderer \<longrightarrow>
        file_name (sv_relative_path v) = [] \<or> fragment_pattern (file_name (sv_relative_path v))) \<and>
     js_includes (strip_index_ts (sn_relative_path r)) (sv_relative_path v)"

definition sse_clean :: "scanned_route \<Rightarrow> bool" where
  "sse_clean r \<longleftrightarrow> sn_invalid_sse_paths r = [] \<and> sn_invalid_sse_renderer_paths r = [] \<and>
     (truthy (sn_sse_relative_path r) \<longrightarrow> sn_sse_has_contract r) \<and>
     (sn_has_sse_handler r \<longrightarrow> ''GET'' \<in> set (sn_methods r)) \<and>
     sn_sse_loose_schemas r = [] \<and> sn_sse_allow_unknown_keys r = []"

definition route_clean :: "scanned_route \<Rightarrow> bool" where
  "route_clean r \<longleftrightarrow>
     (\<forall>e\<in>set (sn_metadata_exports r). \<not> js_starts_with ''handle'' e \<and> e \<notin> set operation_exports) \<and>
     sn_method_modules r \<noteq> [] \<and> \<not> sn_has_route_impl r \<and>
     (\<forall>m\<in>set (sn_method_modules r). module_response_clean m \<and> module_metadata_clean m \<and> module_schemas_clean m) \<and>
     (sn_is_raw r \<longrightarrow> sn_renderers r = [] \<and> sn_stream_renderers r = []) \<and>
     sn_loose_schemas r = [] \<and> sn_allow_unknown_keys r = [] \<and> sse_clean r \<and>
     (\<forall>v\<in>set (sn_renderers r). renderer_clean r v)"

definition lifecycle_clean :: "lifecycle_override \<Rightarrow> bool" where
  "lifecycle_clean l \<longleftrightarrow> lo_calls_super l \<and> (lo_method l = ''dispose'' \<or> lo_awaits_super l)"

section \<open>Each pass\<close>

interpretation lifecycle_pass: scan_pass check_lifecycle lifecycle_clean
  by unfold_locales (simp add: check_lifecycle_def lifecycle_clean_def Let_def)

interpretation response_pass: scan_pass "check_module_response r" module_response_clean
  by unfold_locales (simp add: check_module_response_def module_response_clean_def Let_def)

interpretation metadata_pass: scan_pass "check_module_metadata r" module_metadata_clean
  by unfold_locales
     (auto simp: check_module_metadata_def module_metadata_clean_def filter_empty_conv split: option.splits)

interpretation schemas_pass: scan_pass "check_module_schemas r" module_schemas_clean
  by unfold_locales (auto simp: check_module_schemas_def module_schemas_clean_def Let_def)

definition handlers_clean :: "scanned_route \<Rightarrow> bool" where
  "handlers_clean r \<longleftrightarrow> (\<forall>e\<in>set (sn_metadata_exports r). \<not> js_starts_with ''handle'' e) \<and> sn_method_modules r \<noteq> []"

interpretation handlers_pass: scan_pass check_handler_exports handlers_clean
  by unfold_locales (simp add: check_handler_exports_def handlers_clean_def filter_empty_conv)

definition policy_clean :: "scanned_route \<Rightarrow> bool" where
  "policy_clean r \<longleftrightarrow> sn_loose_schemas r = [] \<and> sn_allow_unknown_keys r = [] \<and>
     (\<forall>m\<in>set (sn_method_modules r). module_schemas_clean m) \<and>
     sn_sse_loose_schemas r = [] \<and> sn_sse_allow_unknown_keys r = []"

interpretation policy_pass: scan_pass check_schema_policy policy_clean
  by unfold_locales (simp add: check_schema_policy_def policy_clean_def Let_def schemas_pass.no_error)

definition operation_clean :: "scanned_route \<Rightarrow> bool" where
  "operation_clean r \<longleftrightarrow> \<not> sn_has_route_impl r \<and> (\<forall>e\<in>set (sn_metadata_exports r). e \<notin> set operation_exports) \<and>
     (\<forall>m\<in>set (sn_method_modules r). module_metadata_clean m)"

interpretation operation_pass: scan_pass check_operation_metadata operation_clean
  by unfold_locales
     (auto simp: check_operation_metadata_def operation_clean_def filter_empty_conv metadata_pass.no_error)

definition sse_method_clean :: "scanned_route \<Rightarrow> bool" where
  "sse_method_clean r \<longleftrightarrow> sn_invalid_sse_paths r = [] \<and> (truthy (sn_sse_relative_path r) \<longrightarrow> sn_sse_has_contract r) \<and>
     (sn_has_sse_handler r \<longrightarrow> ''GET'' \<in> set (sn_methods r))"

interpretation sse_pass: scan_pass check_sse_method sse_method_clean
  by unfold_locales (auto simp: check_sse_method_def sse_method_clean_def Let_def)

definition renderer_method_clean :: "scanned_route \<Rightarrow> scanned_view_renderer \<Rightarrow> bool" where
  "renderer_method_clean r v \<longleftrightarrow> truthy (sv_method v) \<and> the (sv_method v) \<in> set (sn_methods r) \<and>
     \<not> truthy (sv_render_param_warning v) \<and> \<not> truthy (sv_render_context_warning v)"

interpretation renderer_pass: scan_pass "check_renderer_method r" "renderer_method_clean r"
  by unfold_locales (auto simp: check_renderer_method_def renderer_method_clean_def Let_def)

definition sse_renderer_clean :: "scanned_view_renderer \<Rightarrow> bool" where
  "sse_renderer_clean v \<longleftrightarrow>
     (truthy (sv_sse_renderer_path v) \<longrightarrow> sv_method v = Some ''GET'' \<and> \<not> truthy (sv_sse_render_context_warning v))"

interpretation sse_renderer_pass: scan_pass "check_sse_renderer r" sse_renderer_clean
  by unfold_locales (auto simp: check_sse_renderer_def sse_renderer_clean_def)

lemma missing_renderers_blocking [simp]: "blocking (check_missing_renderers r) = []"
  by (simp add: check_missing_renderers_def)

interpretation route_pass: scan_pass check_route route_clean
  by unfold_locales
     (auto simp: check_route_def route_clean_def handlers_pass.no_error handlers_clean_def
        operation_pass.no_error operation_clean_def policy_pass.no_error policy_clean_def sse_pass.no_error
        sse_method_clean_def sse_clean_def check_response_schema_def response_pass.no_error
        check_renderers_match_methods_def renderer_pass.no_error check_sse_fragment_renderers_def
        sse_renderer_pass.no_error check_raw_renderers_def warn_raw_handler_def check_fragment_file_names_def
        check_renderer_orphans_def filter_empty_conv renderer_clean_def renderer_method_clean_def sse_renderer_clean_def)

section \<open>The cross-route passes\<close>

lemma duplicate_views_clean:
  "blocking (check_duplicate_view_ids seen rs) = [] \<longleftrightarrow>
     distinct (map sn_view_id rs) \<and> sn_view_id ` set rs \<inter> dom (js_get seen) = {}"
proof (induction rs arbitrary: seen)
  case (Cons r rs)
  then show ?case by (cases "js_get seen (sn_view_id r)") (auto simp: domIff simp del: fun_upd_apply)
qed simp

definition operation_ids :: "scanned_method_module list \<Rightarrow> string list" where
  "operation_ids ms = filter (\<lambda>i. i \<noteq> []) (List.map_filter mm_operation_id ms)"

lemma operation_ids_simps [simp]:
  "operation_ids [] = []"
  "operation_ids (m # ms) = (if truthy (mm_operation_id m) then [the (mm_operation_id m)] else []) @ operation_ids ms"
  by (auto simp: operation_ids_def List.map_filter_def truthy_def split: option.splits)

lemma duplicate_operations_clean:
  "(\<forall>m\<in>set ms. mm_relative_path m \<noteq> []) \<Longrightarrow> [] \<notin> ran (js_get seen) \<Longrightarrow>
   blocking (check_duplicate_operations seen ms) = [] \<longleftrightarrow>
     distinct (operation_ids ms) \<and> set (operation_ids ms) \<inter> dom (js_get seen) = {}"
proof (induction ms arbitrary: seen)
  case (Cons m ms)
  show ?case
  proof (cases "truthy (mm_operation_id m)")
    case True
    show ?thesis
    proof (cases "js_get seen (the (mm_operation_id m))")
      case None
      with Cons.prems have "[] \<notin> ran (js_get (js_set (the (mm_operation_id m)) (mm_relative_path m) seen))" by (auto dest: sym)
      with Cons.IH Cons.prems None True show ?thesis by (simp add: Let_def domIff disjoint_insert) blast
    next
      case (Some p)
      with Cons.prems(2) have "p \<noteq> []" by (auto simp: ran_def)
      with Some True show ?thesis by (auto simp: Let_def)
    qed
  qed (use Cons in simp)
qed simp

lemma duplicate_shell_clean:
  "(\<forall>f\<in>set fs. sh_relative_path f \<noteq> []) \<Longrightarrow> [] \<notin> ran (js_get seen) \<Longrightarrow>
   blocking (check_duplicate_shell_ids seen fs) = [] \<longleftrightarrow>
     distinct (map sh_id fs) \<and> sh_id ` set fs \<inter> dom (js_get seen) = {}"
proof (induction fs arbitrary: seen)
  case (Cons f fs)
  show ?case
  proof (cases "js_get seen (sh_id f)")
    case None
    with Cons.prems have "[] \<notin> ran (js_get (js_set (sh_id f) (sh_relative_path f) seen))" by (auto dest: sym)
    with Cons.IH Cons.prems None show ?thesis by (simp add: Let_def domIff disjoint_insert) blast
  next
    case (Some p)
    with Cons.prems(2) have "p \<noteq> []" by (auto simp: ran_def)
    with Some show ?thesis by (auto simp: Let_def)
  qed
qed simp

definition same_view :: "scanned_route \<Rightarrow> scanned_route \<Rightarrow> bool" where
  "same_view r q \<longleftrightarrow> (normalize_path (sn_path r) = normalize_path (sn_path q) \<longrightarrow> sn_view_id r = sn_view_id q)"

lemma same_view_refl: "same_view r r" and same_view_sym: "same_view r q \<Longrightarrow> same_view q r"
  by (auto simp: same_view_def)

lemma conflicting_paths_clean:
  "blocking (check_conflicting_paths seen rs) = [] \<longleftrightarrow>
     (\<forall>r\<in>set rs. \<forall>e. js_get seen (normalize_path (sn_path r)) = Some e \<longrightarrow> sn_view_id e = sn_view_id r) \<and>
     (\<forall>r\<in>set rs. \<forall>q\<in>set rs. same_view r q)"
proof (induction rs arbitrary: seen)
  case (Cons r rs)
  let ?k = "normalize_path (sn_path r)"
  show ?case
  proof (cases "\<exists>e. js_get seen ?k = Some e \<and> sn_view_id e \<noteq> sn_view_id r")
    case False
    then have step: "blocking (check_conflicting_paths seen (r # rs)) = blocking (check_conflicting_paths (js_set ?k r seen) rs)"
      by (cases "js_get seen ?k") (simp_all add: Let_def)
    have "(\<forall>e. js_get (js_set ?k r seen) (normalize_path (sn_path q)) = Some e \<longrightarrow> sn_view_id e = sn_view_id q) \<longleftrightarrow>
        same_view r q \<and> (\<forall>e. js_get seen (normalize_path (sn_path q)) = Some e \<longrightarrow> sn_view_id e = sn_view_id q)" for q
    proof (cases "normalize_path (sn_path q) = ?k")
      case True
      then show ?thesis using False unfolding same_view_def by (cases "js_get seen ?k") simp_all
    qed (simp add: same_view_def)
    then have later: "(\<forall>q\<in>set rs. \<forall>e. js_get (js_set ?k r seen) (normalize_path (sn_path q)) = Some e \<longrightarrow> sn_view_id e = sn_view_id q) \<longleftrightarrow>
        (\<forall>q\<in>set rs. same_view r q \<and>
          (\<forall>e. js_get seen (normalize_path (sn_path q)) = Some e \<longrightarrow> sn_view_id e = sn_view_id q))"
      by blast
    have pairs: "(\<forall>a\<in>set (r # rs). \<forall>b\<in>set (r # rs). same_view a b) \<longleftrightarrow>
        (\<forall>q\<in>set rs. same_view r q) \<and> (\<forall>a\<in>set rs. \<forall>b\<in>set rs. same_view a b)"
      unfolding list.set using same_view_sym same_view_refl by blast
    show ?thesis
      unfolding step Cons.IH later pairs using False unfolding list.set by blast
  qed (auto simp: Let_def)
qed simp

lemma distinct_normalized:
  "distinct (map sn_view_id rs) \<Longrightarrow>
   (\<forall>r\<in>set rs. \<forall>q\<in>set rs. same_view r q) \<longleftrightarrow> distinct (map (normalize_path \<circ> sn_path) rs)"
proof (induction rs)
  case (Cons r rs)
  then have new: "(\<forall>q\<in>set rs. same_view r q) \<longleftrightarrow> normalize_path (sn_path r) \<notin> (normalize_path \<circ> sn_path) ` set rs"
    by (fastforce simp: same_view_def)
  have pairs: "(\<forall>a\<in>set (r # rs). \<forall>b\<in>set (r # rs). same_view a b) \<longleftrightarrow>
      (\<forall>q\<in>set rs. same_view r q) \<and> (\<forall>a\<in>set rs. \<forall>b\<in>set rs. same_view a b)"
    unfolding list.set using same_view_sym same_view_refl by blast
  show ?case unfolding pairs new using Cons by simp
qed simp

lemma validate_blocking:
  assumes "\<forall>r\<in>set (sr_routes s). \<forall>m\<in>set (sn_method_modules r). mm_relative_path m \<noteq> []"
    and "\<forall>f\<in>set (sr_shell_fragments s). sh_relative_path f \<noteq> []"
  shows "blocking (validate_scan_result s) = [] \<longleftrightarrow>
    list_all lifecycle_clean (sr_lifecycle s) \<and>
    distinct (map sn_view_id (sr_routes s)) \<and>
    distinct (map (normalize_path \<circ> sn_path) (sr_routes s)) \<and>
    distinct (operation_ids (concat (map sn_method_modules (sr_routes s)))) \<and>
    distinct (map sh_id (sr_shell_fragments s)) \<and>
    list_all route_clean (sr_routes s)"
proof -
  have ops: "blocking (check_duplicate_operation_ids (sr_routes s)) = [] \<longleftrightarrow>
      distinct (operation_ids (concat (map sn_method_modules (sr_routes s))))"
    unfolding check_duplicate_operation_ids_def using assms(1) by (subst duplicate_operations_clean) auto
  have shell: "blocking (check_duplicate_shell_ids [] (sr_shell_fragments s)) = [] \<longleftrightarrow>
      distinct (map sh_id (sr_shell_fragments s))"
    using assms(2) by (subst duplicate_shell_clean) auto
  have views: "blocking (check_duplicate_view_ids [] (sr_routes s)) = [] \<longleftrightarrow> distinct (map sn_view_id (sr_routes s))"
    by (simp add: duplicate_views_clean)
  have paths: "blocking (check_conflicting_paths [] (sr_routes s)) = [] \<longleftrightarrow>
      (\<forall>r\<in>set (sr_routes s). \<forall>q\<in>set (sr_routes s). same_view r q)"
    by (simp add: conflicting_paths_clean)
  have "blocking (validate_scan_result s) = [] \<longleftrightarrow>
      list_all lifecycle_clean (sr_lifecycle s) \<and> distinct (map sn_view_id (sr_routes s)) \<and>
      distinct (operation_ids (concat (map sn_method_modules (sr_routes s)))) \<and>
      (\<forall>r\<in>set (sr_routes s). \<forall>q\<in>set (sr_routes s). same_view r q) \<and>
      distinct (map sh_id (sr_shell_fragments s)) \<and> list_all route_clean (sr_routes s)"
    unfolding validate_scan_result_def blocking_simps append_is_Nil_conv lifecycle_pass.each_clean
      route_pass.each_clean ops shell views paths by (rule refl)
  then show ?thesis using distinct_normalized [of "sr_routes s"] by argo
qed

section \<open>Properties\<close>

text \<open>
  C39: code generation goes ahead exactly on a scan that keeps every convention: the validation
  reports no error iff every lifecycle override calls its parent, view ids, normalised paths,
  operation ids and shell fragment ids are all distinct, and every route is clean (its metadata
  exports, method modules, schemas, renderers and event streams). Warnings never block.
\<close>
theorem scan_accepted_iff:
  assumes "\<forall>r\<in>set (sr_routes s). \<forall>m\<in>set (sn_method_modules r). mm_relative_path m \<noteq> []"
    and "\<forall>f\<in>set (sr_shell_fragments s). sh_relative_path f \<noteq> []"
  shows "(\<forall>e\<in>set (validate_scan_result s). ve_severity e \<noteq> Error_severity) \<longleftrightarrow>
    list_all lifecycle_clean (sr_lifecycle s) \<and> distinct (map sn_view_id (sr_routes s)) \<and>
    distinct (map (normalize_path \<circ> sn_path) (sr_routes s)) \<and>
    distinct (operation_ids (concat (map sn_method_modules (sr_routes s)))) \<and>
    distinct (map sh_id (sr_shell_fragments s)) \<and> list_all route_clean (sr_routes s)"
proof -
  have "(\<forall>e\<in>set (validate_scan_result s). ve_severity e \<noteq> Error_severity) \<longleftrightarrow> blocking (validate_scan_result s) = []"
    by (simp add: blocking_def filter_empty_conv)
  then show ?thesis using validate_blocking [OF assms] by (simp only:)
qed

definition sample_module :: scanned_method_module where
  "sample_module = \<lparr>mm_method = ''GET'', mm_operation_id = Some ''items.get'', mm_relative_path = ''items/GET.ts'',
     mm_exports = ''default'' # ''ResponseSchema'' # required_exports, mm_legacy_dependencies = False, mm_is_raw = False,
     mm_loose_schemas = [], mm_allow_unknown_keys = [], mm_redundant_strip = []\<rparr>"

definition sample_scanned_route :: scanned_route where
  "sample_scanned_route = \<lparr>sn_view_id = ''items'', sn_path = ''/items'', sn_relative_path = ''items'', sn_metadata_exports = [],
     sn_method_modules = [sample_module], sn_handler_exports = [], sn_methods = [''GET''], sn_renderers = [],
     sn_stream_renderers = [], sn_sse_relative_path = None, sn_invalid_sse_paths = [], sn_invalid_sse_renderer_paths = [],
     sn_has_sse_handler = False, sn_sse_has_contract = False, sn_sse_exports = [], sn_sse_loose_schemas = [],
     sn_sse_allow_unknown_keys = [], sn_sse_redundant_strip = [], sn_is_raw = False, sn_loose_schemas = [],
     sn_allow_unknown_keys = [], sn_redundant_strip = [], sn_has_route_impl = False\<rparr>"

theorem scan_accepted_iff_witness:
  "\<exists>e\<in>set (validate_scan_result \<lparr>sr_routes = [sample_scanned_route, sample_scanned_route], sr_shell_fragments = [], sr_lifecycle = []\<rparr>).
     ve_severity e = Error_severity"
  using scan_accepted_iff [of "\<lparr>sr_routes = [sample_scanned_route, sample_scanned_route], sr_shell_fragments = [], sr_lifecycle = []\<rparr>"]
  by (auto simp: sample_scanned_route_def sample_module_def)

text \<open>
  Two routes that differ only in the names of their path parameters cannot both be
  generated: the check accepts a list of routes with distinct views exactly when their
  normalised paths are pairwise distinct.
\<close>
theorem conflicting_paths_detected:
  assumes "distinct (map sn_view_id rs)"
  shows "(\<forall>e\<in>set (check_conflicting_paths [] rs). ve_severity e \<noteq> Error_severity) \<longleftrightarrow>
    distinct (map (normalize_path \<circ> sn_path) rs)"
proof -
  have "(\<forall>e\<in>set (check_conflicting_paths [] rs). ve_severity e \<noteq> Error_severity) \<longleftrightarrow>
      blocking (check_conflicting_paths [] rs) = []"
    by (simp add: blocking_def filter_empty_conv)
  then show ?thesis by (simp add: conflicting_paths_clean distinct_normalized [OF assms])
qed

end
