(* ===== verification/Sse.thy ===== *)
theory Sse
  imports Prelude_JS
begin

text \<open>
  \<open>runtime/sse.ts\<close>: the publish/subscribe hub behind \<open>createSse\<close>, as a state machine.

  The hub keeps a \<open>Map\<close> from scope key to a \<open>Set\<close> object. A subscriber holds a
  reference to the set it joined, so sets live in a store and the map holds addresses.
  A generator runs without interruption between its suspension points: it is \<open>Parked\<close>
  on the promise, \<open>Ready\<close> once that promise is resolved, \<open>Mapping\<close> while it awaits
  \<open>map\<close>, \<open>Yielded\<close> while the consumer holds an event, at the loop head (\<open>Looping\<close>)
  after \<open>next()\<close>, or \<open>Finished\<close>. Any interleaving of these runs with publications,
  connections and aborts is a run of the step relation.
\<close>

datatype 'i phase = Looping | Parked | Ready | Mapping 'i | Yielded | Finished (failed: bool)

record 'i subscriber =
  su_key :: string
  su_scoped :: nat
  su_queue :: "'i list"
  su_overflow :: bool
  su_aborted :: bool
  su_phase :: "'i phase"
  su_taken :: "'i list"

record 'i hub =
  hb_sets :: "nat \<Rightarrow> nat list"
  hb_listeners :: "(string, nat) jsmap"
  hb_subs :: "nat \<Rightarrow> 'i subscriber option"
  hb_next_set :: nat
  hb_next_sub :: nat

definition max_pending :: nat where "max_pending = 256"

definition empty_hub :: "'i hub" where
  "empty_hub = \<lparr>hb_sets = (\<lambda>_. []), hb_listeners = [], hb_subs = (\<lambda>_. None), hb_next_set = 0, hb_next_sub = 0\<rparr>"

definition scope_key :: "string \<Rightarrow> string \<Rightarrow> string" where
  "scope_key tenant_id app_id = tenant_id @ [CHR 0x00] @ app_id"

section \<open>Operations\<close>

text \<open>\<open>resume?.()\<close>: the promise a parked generator awaits is resolved.\<close>

definition wake :: "'i phase \<Rightarrow> 'i phase" where
  "wake p = (case p of Parked \<Rightarrow> Ready | _ \<Rightarrow> p)"

definition put_sub :: "nat \<Rightarrow> 'i subscriber \<Rightarrow> 'i hub \<Rightarrow> 'i hub" where
  "put_sub i s h = h\<lparr>hb_subs := (hb_subs h)(i \<mapsto> s)\<rparr>"

definition leave_set :: "nat \<Rightarrow> nat \<Rightarrow> 'i hub \<Rightarrow> 'i hub" where
  "leave_set a i h = h\<lparr>hb_sets := (hb_sets h)(a := removeAll i (hb_sets h a))\<rparr>"

text \<open>The listener closure.\<close>

definition deliver :: "'i \<Rightarrow> nat \<Rightarrow> 'i hub \<Rightarrow> 'i hub" where
  "deliver x i h =
     (case hb_subs h i of
        None \<Rightarrow> h
      | Some s \<Rightarrow>
          if length (su_queue s) \<ge> max_pending
          then leave_set (su_scoped s) i
                 (put_sub i (s\<lparr>su_overflow := True, su_queue := [], su_phase := wake (su_phase s)\<rparr>) h)
          else put_sub i (s\<lparr>su_queue := su_queue s @ [x], su_phase := wake (su_phase s)\<rparr>) h)"

definition members :: "string \<Rightarrow> 'i hub \<Rightarrow> nat list" where
  "members k h = (case js_get (hb_listeners h) k of None \<Rightarrow> [] | Some a \<Rightarrow> hb_sets h a)"

text \<open>A listener only ever removes itself, so the loop visits the members it started with.\<close>

definition publish :: "string \<Rightarrow> 'i \<Rightarrow> 'i hub \<Rightarrow> 'i hub" where
  "publish k x h = fold (deliver x) (members k h) h"

definition subscribe :: "string \<Rightarrow> bool \<Rightarrow> 'i hub \<Rightarrow> 'i hub" where
  "subscribe k aborted h =
     (let i = hb_next_sub h;
          a = (case js_get (hb_listeners h) k of Some a \<Rightarrow> a | None \<Rightarrow> hb_next_set h);
          sets = (case js_get (hb_listeners h) k of Some a \<Rightarrow> hb_sets h | None \<Rightarrow> (hb_sets h)(hb_next_set h := []))
      in h\<lparr>hb_sets := sets(a := sets a @ [i]),
           hb_listeners := js_set k a (hb_listeners h),
           hb_subs := (hb_subs h)(i \<mapsto> \<lparr>su_key = k, su_scoped = a, su_queue = [], su_overflow = False,
                                       su_aborted = aborted, su_phase = Looping, su_taken = []\<rparr>),
           hb_next_set := (case js_get (hb_listeners h) k of Some _ \<Rightarrow> hb_next_set h | None \<Rightarrow> Suc (hb_next_set h)),
           hb_next_sub := Suc i\<rparr>)"

text \<open>The \<open>finally\<close> block.\<close>

definition finish :: "bool \<Rightarrow> nat \<Rightarrow> 'i subscriber \<Rightarrow> 'i hub \<Rightarrow> 'i hub" where
  "finish fail i s h =
     (let h' = leave_set (su_scoped s) i (put_sub i (s\<lparr>su_phase := Finished fail\<rparr>) h)
      in if hb_sets h' (su_scoped s) = [] then h'\<lparr>hb_listeners := js_del (su_key s) (hb_listeners h')\<rparr> else h')"

text \<open>From the abort test after the promise to the call of \<open>map\<close>.\<close>

definition take_next :: "nat \<Rightarrow> 'i subscriber \<Rightarrow> 'i hub \<Rightarrow> 'i hub" where
  "take_next i s h =
     (if su_aborted s then finish False i s h
      else if su_overflow s then finish True i s h
      else (case su_queue s of
              [] \<Rightarrow> h
            | x # xs \<Rightarrow> put_sub i (s\<lparr>su_queue := xs, su_phase := Mapping x, su_taken := su_taken s @ [x]\<rparr>) h))"

text \<open>A run of the generator from the loop head or from the awaited promise.\<close>

definition advance :: "nat \<Rightarrow> 'i hub \<Rightarrow> 'i hub" where
  "advance i h =
     (case hb_subs h i of
        None \<Rightarrow> h
      | Some s \<Rightarrow>
          (case su_phase s of
             Looping \<Rightarrow>
               if su_aborted s then finish False i s h
               else if su_queue s = [] \<and> \<not> su_overflow s then put_sub i (s\<lparr>su_phase := Parked\<rparr>) h
               else take_next i s h
           | Ready \<Rightarrow> take_next i s h
           | _ \<Rightarrow> h))"

definition abort :: "nat \<Rightarrow> 'i hub \<Rightarrow> 'i hub" where
  "abort i h = (case hb_subs h i of None \<Rightarrow> h
     | Some s \<Rightarrow> put_sub i (s\<lparr>su_aborted := True, su_phase := wake (su_phase s)\<rparr>) h)"

text \<open>\<open>map\<close> and the event schema succeed or throw.\<close>

definition mapped :: "bool \<Rightarrow> nat \<Rightarrow> 'i hub \<Rightarrow> 'i hub" where
  "mapped ok i h =
     (case hb_subs h i of None \<Rightarrow> h
      | Some s \<Rightarrow> (case su_phase s of
            Mapping x \<Rightarrow> if ok then put_sub i (s\<lparr>su_phase := Yielded\<rparr>) h else finish True i s h
          | _ \<Rightarrow> h))"

text \<open>The consumer calls \<open>next()\<close>, or \<open>return()\<close> at the \<open>yield\<close>.\<close>

definition consume :: "bool \<Rightarrow> nat \<Rightarrow> 'i hub \<Rightarrow> 'i hub" where
  "consume again i h =
     (case hb_subs h i of None \<Rightarrow> h
      | Some s \<Rightarrow> (case su_phase s of
            Yielded \<Rightarrow> if again then put_sub i (s\<lparr>su_phase := Looping\<rparr>) h else finish False i s h
          | _ \<Rightarrow> h))"

datatype 'i sse_event =
  Publish string 'i | Subscribe string bool | Advance nat | Abort nat | Mapped nat bool | Consume nat bool

fun sse_step :: "'i sse_event \<Rightarrow> 'i hub \<Rightarrow> 'i hub" where
  "sse_step (Publish k x) h = publish k x h"
| "sse_step (Subscribe k aborted) h = subscribe k aborted h"
| "sse_step (Advance i) h = advance i h"
| "sse_step (Abort i) h = abort i h"
| "sse_step (Mapped i ok) h = mapped ok i h"
| "sse_step (Consume i again) h = consume again i h"

definition sse_run :: "'i sse_event list \<Rightarrow> 'i hub \<Rightarrow> 'i hub" where
  "sse_run es h = fold sse_step es h"

inductive reachable :: "'i hub \<Rightarrow> bool" where
  start: "reachable empty_hub"
| step: "reachable h \<Longrightarrow> reachable (sse_step e h)"

section \<open>Well-formed hubs\<close>

definition sub_ok :: "'i subscriber \<Rightarrow> bool" where
  "sub_ok s \<longleftrightarrow> length (su_queue s) \<le> max_pending \<and>
     (su_phase s = Parked \<longrightarrow> su_queue s = [] \<and> \<not> su_overflow s \<and> \<not> su_aborted s) \<and>
     (su_phase s = Ready \<longrightarrow> su_aborted s \<or> su_overflow s \<or> su_queue s \<noteq> [])"

definition hub_ok :: "'i hub \<Rightarrow> bool" where
  "hub_ok h \<longleftrightarrow>
     (\<forall>i s. hb_subs h i = Some s \<longrightarrow> sub_ok s \<and> i < hb_next_sub h \<and> su_scoped s < hb_next_set h) \<and>
     (\<forall>k a. js_get (hb_listeners h) k = Some a \<longrightarrow> a < hb_next_set h) \<and>
     (\<forall>a. distinct (hb_sets h a) \<and>
        (\<forall>i\<in>set (hb_sets h a). \<exists>s. hb_subs h i = Some s \<and> su_scoped s = a))"

lemma hub_okD:
  assumes "hub_ok h"
  shows "hb_subs h i = Some s \<Longrightarrow> sub_ok s" "hb_subs h i = Some s \<Longrightarrow> i < hb_next_sub h"
    and "hb_subs h i = Some s \<Longrightarrow> su_scoped s < hb_next_set h"
    and "js_get (hb_listeners h) k = Some a \<Longrightarrow> a < hb_next_set h"
    and "distinct (hb_sets h a)" "i \<in> set (hb_sets h a) \<Longrightarrow> \<exists>s. hb_subs h i = Some s \<and> su_scoped s = a"
  using assms by (simp_all add: hub_ok_def)

lemma put_sub_ok:
  assumes "hub_ok h" "hb_subs h i = Some s" "su_scoped s' = su_scoped s" "sub_ok s'"
  shows "hub_ok (put_sub i s' h)"
proof -
  note h = hub_okD [OF assms(1)]
  have "\<exists>t. hb_subs (put_sub i s' h) j = Some t \<and> su_scoped t = a" if "j \<in> set (hb_sets h a)" for j a
    using h(6) [OF that] assms(2,3) by (auto simp: put_sub_def)
  then show ?thesis
    using h(1-5) assms(2-4) by (simp add: hub_ok_def put_sub_def)
qed

lemma leave_set_ok: "hub_ok h \<Longrightarrow> hub_ok (leave_set a i h)"
  by (auto simp: hub_ok_def leave_set_def distinct_removeAll)

lemma put_sub_same: "hb_subs (put_sub i s h) i = Some s"
  by (simp add: put_sub_def)

lemma finish_ok:
  assumes "hub_ok h" "hb_subs h i = Some s"
  shows "hub_ok (finish fail i s h)"
proof -
  have "sub_ok (s\<lparr>su_phase := Finished fail\<rparr>)" using hub_okD(1) [OF assms] by (simp add: sub_ok_def)
  then have "hub_ok (leave_set (su_scoped s) i (put_sub i (s\<lparr>su_phase := Finished fail\<rparr>) h))"
    using assms by (intro leave_set_ok put_sub_ok) auto
  moreover have "hub_ok h' \<Longrightarrow> hub_ok (h'\<lparr>hb_listeners := js_del k (hb_listeners h')\<rparr>)" for h' :: "'a hub" and k
    by (auto simp: hub_ok_def split: if_splits)
  ultimately show ?thesis by (simp add: finish_def Let_def)
qed

lemma wake_simps [simp]:
  "wake p = Parked \<longleftrightarrow> False" "wake p = Ready \<longleftrightarrow> p = Parked \<or> p = Ready"
  "wake p = Finished b \<longleftrightarrow> p = Finished b" "wake p = Looping \<longleftrightarrow> p = Looping"
  by (cases p; simp add: wake_def)+

definition deliver_sub :: "'i \<Rightarrow> 'i subscriber \<Rightarrow> 'i subscriber" where
  "deliver_sub x s =
     (if length (su_queue s) \<ge> max_pending
      then s\<lparr>su_overflow := True, su_queue := [], su_phase := wake (su_phase s)\<rparr>
      else s\<lparr>su_queue := su_queue s @ [x], su_phase := wake (su_phase s)\<rparr>)"

lemma deliver_sub_fields [simp]:
  "su_scoped (deliver_sub x s) = su_scoped s" "su_key (deliver_sub x s) = su_key s"
  "su_aborted (deliver_sub x s) = su_aborted s" "su_taken (deliver_sub x s) = su_taken s"
  "su_phase (deliver_sub x s) = wake (su_phase s)"
  "su_overflow (deliver_sub x s) \<longleftrightarrow> su_overflow s \<or> length (su_queue s) \<ge> max_pending"
  by (simp_all add: deliver_sub_def)

lemma deliver_eq:
  "deliver x i h = (case hb_subs h i of None \<Rightarrow> h | Some s \<Rightarrow>
     if length (su_queue s) \<ge> max_pending then leave_set (su_scoped s) i (put_sub i (deliver_sub x s) h)
     else put_sub i (deliver_sub x s) h)"
  by (auto simp: deliver_def deliver_sub_def split: option.splits)

lemma deliver_ok: "hub_ok h \<Longrightarrow> hub_ok (deliver x i h)"
proof (cases "hb_subs h i")
  case (Some s)
  assume h: "hub_ok h"
  have "sub_ok (deliver_sub x s)"
    using hub_okD(1) [OF h Some] by (auto simp: sub_ok_def deliver_sub_def)
  then have "hub_ok (put_sub i (deliver_sub x s) h)" using h Some by (intro put_sub_ok) auto
  with Some show ?thesis by (simp add: deliver_eq leave_set_ok)
qed (simp add: deliver_eq)

lemma publish_ok: "hub_ok h \<Longrightarrow> hub_ok (publish k x h)"
proof -
  have "hub_ok h \<Longrightarrow> hub_ok (fold (deliver x) is h)" for "is" and h :: "'a hub"
    by (induction "is" arbitrary: h) (simp_all add: deliver_ok)
  then show "hub_ok h \<Longrightarrow> ?thesis" by (simp add: publish_def)
qed

lemma take_next_ok: "hub_ok h \<Longrightarrow> hb_subs h i = Some s \<Longrightarrow> hub_ok (take_next i s h)"
  using hub_okD(1) [of h i s]
  by (auto simp: take_next_def finish_ok split: list.splits intro!: put_sub_ok) (auto simp: sub_ok_def)

lemma advance_ok: "hub_ok h \<Longrightarrow> hub_ok (advance i h)"
  by (auto simp: advance_def finish_ok take_next_ok sub_ok_def split: option.splits phase.splits intro!: put_sub_ok)

lemma abort_ok: "hub_ok h \<Longrightarrow> hub_ok (abort i h)"
  using hub_okD(1) [of h i]
  by (auto simp: abort_def split: option.splits intro!: put_sub_ok) (auto simp: sub_ok_def)

lemma mapped_ok: "hub_ok h \<Longrightarrow> hub_ok (mapped ok i h)"
  using hub_okD(1) [of h i]
  by (auto simp: mapped_def finish_ok split: option.splits phase.splits intro!: put_sub_ok) (auto simp: sub_ok_def)

lemma consume_ok: "hub_ok h \<Longrightarrow> hub_ok (consume again i h)"
  using hub_okD(1) [of h i]
  by (auto simp: consume_def finish_ok split: option.splits phase.splits intro!: put_sub_ok) (auto simp: sub_ok_def)

lemma subscribe_fields:
  "hb_subs (subscribe k b h) =
     (hb_subs h)(hb_next_sub h \<mapsto>
        \<lparr>su_key = k, su_scoped = (case js_get (hb_listeners h) k of Some a \<Rightarrow> a | None \<Rightarrow> hb_next_set h), su_queue = [],
         su_overflow = False, su_aborted = b, su_phase = Looping, su_taken = []\<rparr>)"
  "hb_next_sub (subscribe k b h) = Suc (hb_next_sub h)"
  "js_get (hb_listeners h) k = Some a \<Longrightarrow> hb_sets (subscribe k b h) = (hb_sets h)(a := hb_sets h a @ [hb_next_sub h])"
  "js_get (hb_listeners h) k = None \<Longrightarrow> hb_sets (subscribe k b h) = (hb_sets h)(hb_next_set h := [hb_next_sub h])"
  "js_get (hb_listeners h) k = Some a \<Longrightarrow> hb_next_set (subscribe k b h) = hb_next_set h"
  "js_get (hb_listeners h) k = None \<Longrightarrow> hb_next_set (subscribe k b h) = Suc (hb_next_set h)"
  "js_get (hb_listeners (subscribe k b h)) =
     (js_get (hb_listeners h))(k \<mapsto> (case js_get (hb_listeners h) k of Some a \<Rightarrow> a | None \<Rightarrow> hb_next_set h))"
  by (simp_all add: subscribe_def Let_def fun_eq_iff)

lemma subscribe_ok:
  assumes "hub_ok h"
  shows "hub_ok (subscribe k b h)"
proof -
  note ok = hub_okD [OF assms]
  have fresh: "hb_next_sub h \<notin> set (hb_sets h a)" for a
    using ok(6) [of "hb_next_sub h" a] ok(2) by blast
  have unused: "hb_subs h (hb_next_sub h) = None"
    using ok(2) [of "hb_next_sub h"] by (cases "hb_subs h (hb_next_sub h)") auto
  show ?thesis
  proof (cases "js_get (hb_listeners h) k")
    case None
    show ?thesis
      unfolding hub_ok_def subscribe_fields(1,2,7) subscribe_fields(4,6) [OF None] None
      using ok(1-5) unused by (auto simp: sub_ok_def less_Suc_eq dest!: ok(6))
  next
    case (Some a)
    show ?thesis
      unfolding hub_ok_def subscribe_fields(1,2,7) subscribe_fields(3,5) [OF Some] Some
      using ok(1-5) ok(4) [OF Some] fresh unused by (auto simp: sub_ok_def less_Suc_eq dest!: ok(6))
  qed
qed

lemma sse_step_ok: "hub_ok h \<Longrightarrow> hub_ok (sse_step e h)"
  by (cases e) (simp_all add: publish_ok subscribe_ok advance_ok abort_ok mapped_ok consume_ok)

lemma reachable_ok: "reachable h \<Longrightarrow> hub_ok h"
  by (induction rule: reachable.induct) (simp_all add: sse_step_ok, simp add: hub_ok_def empty_hub_def)

section \<open>Registration while nobody overflows\<close>

definition live :: "'i subscriber \<Rightarrow> bool" where
  "live s \<longleftrightarrow> (\<forall>b. su_phase s \<noteq> Finished b)"

lemma live_simps [simp]: "live (s\<lparr>su_phase := Finished f\<rparr>) \<longleftrightarrow> False"
  by (auto simp: live_def)

definition calm :: "'i hub \<Rightarrow> bool" where
  "calm h \<longleftrightarrow> (\<forall>i s. hb_subs h i = Some s \<longrightarrow> \<not> su_overflow s)"

definition registered :: "'i hub \<Rightarrow> bool" where
  "registered h \<longleftrightarrow> (\<forall>i s. hb_subs h i = Some s \<and> live s \<longrightarrow>
     i \<in> set (hb_sets h (su_scoped s)) \<and> js_get (hb_listeners h) (su_key s) = Some (su_scoped s))"

lemma registeredD:
  assumes "registered h" "hb_subs h i = Some s" "live s"
  shows "i \<in> set (hb_sets h (su_scoped s))" "js_get (hb_listeners h) (su_key s) = Some (su_scoped s)"
  using assms by (auto simp: registered_def)

lemma put_sub_registered:
  assumes "registered h" "hb_subs h i = Some s" "su_scoped s' = su_scoped s" "su_key s' = su_key s" "live s' \<longrightarrow> live s"
  shows "registered (put_sub i s' h)"
  using assms by (auto simp: registered_def put_sub_def)

lemma calm_mono:
  assumes "calm h'" "\<And>j t. hb_subs h j = Some t \<Longrightarrow> \<exists>t'. hb_subs h' j = Some t' \<and> (su_overflow t \<longrightarrow> su_overflow t')"
  shows "calm h"
  using assms unfolding calm_def by meson

lemma calm_put_sub: "calm (put_sub i s' h) \<Longrightarrow> hb_subs h i = Some s \<Longrightarrow> (su_overflow s \<longrightarrow> su_overflow s') \<Longrightarrow> calm h"
  by (rule calm_mono [of "put_sub i s' h"]) (auto simp: put_sub_def)

lemma finish_fields:
  "hb_subs (finish f i s h) = (hb_subs h)(i \<mapsto> s\<lparr>su_phase := Finished f\<rparr>)"
  "hb_sets (finish f i s h) = (hb_sets h)(su_scoped s := removeAll i (hb_sets h (su_scoped s)))"
  "js_get (hb_listeners (finish f i s h)) =
     (if removeAll i (hb_sets h (su_scoped s)) = [] then (js_get (hb_listeners h))(su_key s := None)
      else js_get (hb_listeners h))"
  by (simp_all add: finish_def leave_set_def put_sub_def Let_def)

lemma finish_registered:
  assumes "registered h" "hub_ok h" "hb_subs h i = Some s" "live s"
  shows "registered (finish f i s h)"
  unfolding registered_def
proof (intro allI impI, elim conjE)
  fix j t assume j: "hb_subs (finish f i s h) j = Some t" "live t"
  then have ne: "j \<noteq> i" by (auto simp: finish_fields)
  with j have t: "hb_subs h j = Some t" by (simp add: finish_fields)
  note old = registeredD [OF assms(1) t j(2)]
  note mine = registeredD [OF assms(1,3,4)]
  have same: "su_key t = su_key s \<Longrightarrow> su_scoped t = su_scoped s"
    using old(2) mine(2) by simp
  have kept: "su_scoped t = su_scoped s \<Longrightarrow> j \<in> set (removeAll i (hb_sets h (su_scoped s)))"
    using old(1) ne by simp
  then have "su_scoped t = su_scoped s \<Longrightarrow> removeAll i (hb_sets h (su_scoped s)) \<noteq> []"
    by (metis empty_iff empty_set)
  with same kept old show "j \<in> set (hb_sets (finish f i s h) (su_scoped t)) \<and>
      js_get (hb_listeners (finish f i s h)) (su_key t) = Some (su_scoped t)"
    by (auto simp: finish_fields)
qed

lemma calm_finish: "calm (finish f i s h) \<Longrightarrow> hb_subs h i = Some s \<Longrightarrow> calm h"
  by (rule calm_mono [of "finish f i s h"]) (auto simp: finish_fields)

lemma calm_take_next: "calm (take_next i s h) \<Longrightarrow> hb_subs h i = Some s \<Longrightarrow> calm h"
  by (auto simp: take_next_def dest: calm_finish calm_put_sub split: if_splits list.splits)

lemma calm_deliver: "calm (deliver x i h) \<Longrightarrow> calm h"
  by (rule calm_mono [of "deliver x i h"])
     (auto simp: deliver_eq put_sub_def leave_set_def split: option.splits if_splits)

lemma calm_fold_deliver: "calm (fold (deliver x) is h) \<Longrightarrow> calm h"
  by (induction "is" arbitrary: h) (auto dest: calm_deliver)

lemma calm_subscribe: "hub_ok h \<Longrightarrow> calm (subscribe k b h) \<Longrightarrow> calm h"
  by (rule calm_mono [of "subscribe k b h"]) (auto simp: subscribe_fields dest: hub_okD(2))

lemma sse_step_calm: "hub_ok h \<Longrightarrow> calm (sse_step e h) \<Longrightarrow> calm h"
  by (cases e)
     (auto simp: publish_def advance_def abort_def mapped_def consume_def
        dest: calm_fold_deliver calm_subscribe calm_take_next calm_finish calm_put_sub
        split: option.splits phase.splits if_splits)

lemma deliver_calm_put:
  "calm (deliver x i h) \<Longrightarrow> hb_subs h i = Some s \<Longrightarrow>
     length (su_queue s) < max_pending \<and> deliver x i h = put_sub i (deliver_sub x s) h"
  by (auto simp: deliver_eq calm_def put_sub_def leave_set_def split: if_splits)

lemma live_wake [simp]: "live (deliver_sub x s) \<longleftrightarrow> live s"
  by (simp add: live_def)

lemma deliver_registered: "registered h \<Longrightarrow> calm (deliver x i h) \<Longrightarrow> registered (deliver x i h)"
proof (cases "hb_subs h i")
  case (Some s)
  assume r: "registered h" and c: "calm (deliver x i h)"
  have "registered (put_sub i (deliver_sub x s) h)"
    by (rule put_sub_registered [OF r Some]) simp_all
  with deliver_calm_put [OF c Some] show ?thesis by simp
qed (simp add: deliver_eq)

lemma publish_registered: "registered h \<Longrightarrow> calm (publish k x h) \<Longrightarrow> registered (publish k x h)"
proof -
  have "registered h \<Longrightarrow> calm (fold (deliver x) is h) \<Longrightarrow> registered (fold (deliver x) is h)" for "is" and h :: "'a hub"
    by (induction "is" arbitrary: h) (auto dest: calm_fold_deliver deliver_registered)
  then show "registered h \<Longrightarrow> calm (publish k x h) \<Longrightarrow> ?thesis" by (simp add: publish_def)
qed

lemma subscribe_registered:
  assumes "registered h" "hub_ok h"
  shows "registered (subscribe k b h)"
proof -
  note ok = hub_okD [OF assms(2)]
  let ?h = "subscribe k b h"
  have "j \<in> set (hb_sets ?h (su_scoped t)) \<and> js_get (hb_listeners ?h) (su_key t) = Some (su_scoped t)"
    if "hb_subs ?h j = Some t" "live t" for j t
  proof (cases "j = hb_next_sub h")
    case True
    with that show ?thesis
      by (cases "js_get (hb_listeners h) k") (auto simp: subscribe_fields)
  next
    case False
    with that have t: "hb_subs h j = Some t" by (simp add: subscribe_fields)
    note old = registeredD [OF assms(1) t that(2)]
    show ?thesis
    proof (cases "js_get (hb_listeners h) k")
      case None
      then have "su_key t \<noteq> k" using old(2) by auto
      with None old ok(3) [OF t] show ?thesis by (simp add: subscribe_fields)
    next
      case (Some a)
      with old show ?thesis by (auto simp: subscribe_fields)
    qed
  qed
  then show ?thesis unfolding registered_def by blast
qed

lemma step_registered: "registered h \<Longrightarrow> hub_ok h \<Longrightarrow> calm (sse_step e h) \<Longrightarrow> registered (sse_step e h)"
proof (cases e)
  case (Publish k x)
  then show "registered h \<Longrightarrow> calm (sse_step e h) \<Longrightarrow> ?thesis" by (simp add: publish_registered)
next
  case (Subscribe k b)
  then show "registered h \<Longrightarrow> hub_ok h \<Longrightarrow> ?thesis" by (simp add: subscribe_registered)
next
  case (Advance i)
  have take: "registered (take_next i s h)" if "registered h" "hub_ok h" "hb_subs h i = Some s" "live s" for s
    using that by (auto simp: take_next_def finish_registered live_def split: list.splits intro!: put_sub_registered)
  assume "registered h" "hub_ok h"
  with Advance take show ?thesis
    by (auto simp: advance_def finish_registered live_def split: option.splits phase.splits intro!: put_sub_registered)
next
  case (Abort i)
  then show "registered h \<Longrightarrow> ?thesis"
    by (auto simp: abort_def live_def split: option.splits intro!: put_sub_registered)
next
  case (Mapped i ok)
  then show "registered h \<Longrightarrow> hub_ok h \<Longrightarrow> ?thesis"
    by (auto simp: mapped_def finish_registered live_def split: option.splits phase.splits intro!: put_sub_registered)
next
  case (Consume i again)
  then show "registered h \<Longrightarrow> hub_ok h \<Longrightarrow> ?thesis"
    by (auto simp: consume_def finish_registered live_def split: option.splits phase.splits intro!: put_sub_registered)
qed

lemma reachable_registered: "reachable h \<Longrightarrow> calm h \<Longrightarrow> registered h"
proof (induction rule: reachable.induct)
  case start
  show ?case by (simp add: registered_def empty_hub_def)
next
  case (step h e)
  with reachable_ok [OF step.hyps] show ?case
    by (meson sse_step_calm step_registered)
qed

section \<open>Scopes\<close>

definition keyed :: "'i hub \<Rightarrow> bool" where
  "keyed h \<longleftrightarrow>
     (\<forall>k k' a. js_get (hb_listeners h) k = Some a \<and> js_get (hb_listeners h) k' = Some a \<longrightarrow> k = k') \<and>
     (\<forall>k a i. js_get (hb_listeners h) k = Some a \<and> i \<in> set (hb_sets h a) \<longrightarrow>
        (\<exists>s. hb_subs h i = Some s \<and> su_key s = k))"

lemma keyedI:
  "(\<And>k k' a. js_get (hb_listeners h) k = Some a \<Longrightarrow> js_get (hb_listeners h) k' = Some a \<Longrightarrow> k = k') \<Longrightarrow>
   (\<And>k a i. js_get (hb_listeners h) k = Some a \<Longrightarrow> i \<in> set (hb_sets h a) \<Longrightarrow>
      \<exists>s. hb_subs h i = Some s \<and> su_key s = k) \<Longrightarrow> keyed h"
  unfolding keyed_def by blast

lemma keyed_member:
  "keyed h \<Longrightarrow> js_get (hb_listeners h) k = Some a \<Longrightarrow> i \<in> set (hb_sets h a) \<Longrightarrow> hb_subs h i = Some s \<Longrightarrow> su_key s = k"
  unfolding keyed_def by (metis option.inject)

lemma put_sub_keyed: "keyed h \<Longrightarrow> hb_subs h i = Some s \<Longrightarrow> su_key s' = su_key s \<Longrightarrow> keyed (put_sub i s' h)"
  unfolding keyed_def put_sub_def by (simp, metis option.inject)

lemma leave_set_keyed: "keyed h \<Longrightarrow> keyed (leave_set a i h)"
  unfolding keyed_def leave_set_def by (simp add: if_splits) (metis Diff_iff)

lemma finish_keyed: "keyed h \<Longrightarrow> hb_subs h i = Some s \<Longrightarrow> keyed (finish f i s h)"
proof -
  assume "keyed h" "hb_subs h i = Some s"
  then have "keyed (leave_set (su_scoped s) i (put_sub i (s\<lparr>su_phase := Finished f\<rparr>) h))"
    by (intro leave_set_keyed put_sub_keyed) auto
  moreover have "keyed h' \<Longrightarrow> keyed (h'\<lparr>hb_listeners := js_del k (hb_listeners h')\<rparr>)" for h' :: "'a hub" and k
    by (auto simp: keyed_def split: if_splits)
  ultimately show ?thesis by (simp add: finish_def Let_def)
qed

lemma subscribe_keyed:
  assumes "keyed h" "hub_ok h"
  shows "keyed (subscribe k b h)"
proof -
  note ok = hub_okD [OF assms(2)]
  have inj: "js_get (hb_listeners h) p = Some a \<Longrightarrow> js_get (hb_listeners h) q = Some a \<Longrightarrow> p = q" for p q a
    using assms(1) by (auto simp: keyed_def)
  have mem: "js_get (hb_listeners h) p = Some a \<Longrightarrow> i \<in> set (hb_sets h a) \<Longrightarrow>
      \<exists>s. hb_subs h i = Some s \<and> su_key s = p \<and> i \<noteq> hb_next_sub h" for p a i
    using assms(1) ok(2) unfolding keyed_def by (metis less_irrefl)
  let ?h = "subscribe k b h"
  define a0 where "a0 = (case js_get (hb_listeners h) k of Some a \<Rightarrow> a | None \<Rightarrow> hb_next_set h)"
  have get: "js_get (hb_listeners ?h) p = (if p = k then Some a0 else js_get (hb_listeners h) p)" for p
    by (simp add: subscribe_fields a0_def)
  have other: "a \<noteq> a0" if "js_get (hb_listeners h) p = Some a" "p \<noteq> k" for p a
    using that inj [of k _ p] ok(4) [OF that(1)] by (auto simp: a0_def split: option.splits)
  have sets: "hb_sets ?h a = (if a = a0 then (if js_get (hb_listeners h) k = None then [] else hb_sets h a0) @ [hb_next_sub h]
      else hb_sets h a)" for a
    by (cases "js_get (hb_listeners h) k") (simp_all add: subscribe_fields a0_def)
  have new: "\<exists>s. hb_subs ?h (hb_next_sub h) = Some s \<and> su_key s = k"
    by (simp add: subscribe_fields)
  have old: "i \<noteq> hb_next_sub h \<Longrightarrow> hb_subs ?h i = hb_subs h i" for i
    by (simp add: subscribe_fields)
  show ?thesis
  proof (rule keyedI)
    fix p q a assume "js_get (hb_listeners ?h) p = Some a" "js_get (hb_listeners ?h) q = Some a"
    then show "p = q" using inj other unfolding get by (metis option.inject)
  next
    fix p a i assume p: "js_get (hb_listeners ?h) p = Some a" and i: "i \<in> set (hb_sets ?h a)"
    show "\<exists>s. hb_subs ?h i = Some s \<and> su_key s = p"
    proof (cases "p = k")
      case True
      with p have a: "a = a0" by (simp add: get)
      with i have "i = hb_next_sub h \<or> (js_get (hb_listeners h) k = Some a0 \<and> i \<in> set (hb_sets h a0))"
        by (auto simp: sets a0_def split: if_splits)
      with new mem [of k a0 i] old True show ?thesis by metis
    next
      case False
      with p i other have "js_get (hb_listeners h) p = Some a" "i \<in> set (hb_sets h a)"
        by (auto simp: get sets split: if_splits)
      with mem old show ?thesis by metis
    qed
  qed
qed

lemma step_keyed: "keyed h \<Longrightarrow> hub_ok h \<Longrightarrow> keyed (sse_step e h)"
proof -
  assume k: "keyed h" and ok: "hub_ok h"
  have fold: "keyed g \<Longrightarrow> keyed (fold (deliver x) is g)" for x "is" and g :: "'a hub"
    by (induction "is" arbitrary: g)
       (auto simp: deliver_eq put_sub_keyed leave_set_keyed split: option.splits)
  have take: "hb_subs h i = Some s \<Longrightarrow> keyed (take_next i s h)" for i s
    using k by (auto simp: take_next_def finish_keyed split: list.splits intro!: put_sub_keyed)
  show ?thesis
    using k ok take
    by (cases e)
       (auto simp: publish_def fold subscribe_keyed advance_def abort_def mapped_def consume_def finish_keyed
          split: option.splits phase.splits intro!: put_sub_keyed)
qed

lemma reachable_keyed: "reachable h \<Longrightarrow> keyed h"
  by (induction rule: reachable.induct) (simp_all add: step_keyed reachable_ok, simp add: keyed_def empty_hub_def)

lemma fold_deliver_subs:
  "distinct is \<Longrightarrow> hb_subs (fold (deliver x) is h) j =
     (if j \<in> set is then map_option (deliver_sub x) (hb_subs h j) else hb_subs h j)"
proof (induction "is" arbitrary: h)
  case (Cons i "is")
  have one: "hb_subs (deliver x i h) j = (if j = i then map_option (deliver_sub x) (hb_subs h j) else hb_subs h j)" for j
    by (auto simp: deliver_eq put_sub_def leave_set_def split: option.splits)
  from Cons show ?case by (auto simp: one)
qed simp

lemma publish_subs:
  "hub_ok h \<Longrightarrow> hb_subs (publish k x h) j =
     (if j \<in> set (members k h) then map_option (deliver_sub x) (hb_subs h j) else hb_subs h j)"
  unfolding publish_def
  by (rule fold_deliver_subs) (auto simp: members_def hub_okD(5) split: option.splits)

lemma publish_other_scope:
  assumes "hub_ok h" "keyed h" "hb_subs h j = Some s" "su_key s \<noteq> k"
  shows "hb_subs (publish k x h) j = Some s"
proof -
  have "j \<notin> set (members k h)"
    using keyed_member [OF assms(2) _ _ assms(3)] assms(4)
    by (cases "js_get (hb_listeners h) k") (auto simp: members_def)
  then show ?thesis by (simp add: publish_subs [OF assms(1)] assms(3))
qed

section \<open>Delivery in order\<close>

definition published :: "string \<Rightarrow> 'i sse_event list \<Rightarrow> 'i list" where
  "published k es = concat (map (\<lambda>e. case e of Publish k' x \<Rightarrow> if k' = k then [x] else [] | _ \<Rightarrow> []) es)"

lemma step_delivers:
  assumes "hub_ok h" "registered h" "keyed h" "calm (sse_step e h)" "hb_subs h i = Some s"
    and "hb_subs (sse_step e h) i = Some t" "live t"
  shows "live s \<and> su_key t = su_key s \<and> su_taken t @ su_queue t = su_taken s @ su_queue s @ published (su_key s) [e]"
proof (cases e)
  case (Publish k x)
  show ?thesis
  proof (cases "k = su_key s")
    case True
    show ?thesis
    proof (cases "live s")
      case True
      from registeredD [OF assms(2,5) True] \<open>k = su_key s\<close> have "i \<in> set (members k h)"
        by (simp add: members_def)
      with assms(5,6) Publish have t: "t = deliver_sub x s" by (simp add: publish_subs [OF assms(1)])
      moreover from assms(4,6) have "\<not> su_overflow t" by (auto simp: calm_def)
      ultimately have "length (su_queue s) < max_pending" by simp
      with t True \<open>k = su_key s\<close> Publish show ?thesis by (simp add: deliver_sub_def published_def live_def)
    next
      case False
      with assms(5-7) Publish show ?thesis
        by (auto simp: publish_subs [OF assms(1)] split: if_splits)
    qed
  next
    case False
    with publish_other_scope [OF assms(1,3,5)] Publish assms(6,7) show ?thesis
      by (fastforce simp: published_def)
  qed
next
  case (Subscribe k b)
  with assms(5,6,7) hub_okD(2) [OF assms(1,5)] show ?thesis
    by (auto simp: subscribe_fields published_def)
next
  case (Advance j)
  with assms(5,6,7) show ?thesis
    by (auto simp: advance_def take_next_def finish_fields put_sub_def published_def live_def
        split: option.splits phase.splits if_splits list.splits)
next
  case (Abort j)
  with assms(5,6,7) show ?thesis
    by (auto simp: abort_def put_sub_def published_def live_def split: option.splits if_splits)
next
  case (Mapped j ok)
  with assms(5,6,7) show ?thesis
    by (auto simp: mapped_def finish_fields put_sub_def published_def live_def split: option.splits phase.splits if_splits)
next
  case (Consume j again)
  with assms(5,6,7) show ?thesis
    by (auto simp: consume_def finish_fields put_sub_def published_def live_def split: option.splits phase.splits if_splits)
qed

lemma step_keeps_sub:
  assumes "hub_ok h" "hb_subs h i = Some s"
  shows "\<exists>t. hb_subs (sse_step e h) i = Some t"
  using assms hub_okD(2) [OF assms]
  by (cases e)
     (auto simp: publish_subs subscribe_fields advance_def take_next_def abort_def mapped_def consume_def
        finish_fields put_sub_def split: option.splits phase.splits list.splits)

lemma run_delivers:
  assumes "reachable h" "calm (sse_run es h)" "hb_subs h i = Some s" "hb_subs (sse_run es h) i = Some t" "live t"
  shows "calm h \<and> live s \<and> su_key t = su_key s \<and>
    su_taken t @ su_queue t = su_taken s @ su_queue s @ published (su_key s) es"
  using assms
proof (induction es arbitrary: h s)
  case Nil
  then show ?case by (simp add: sse_run_def published_def)
next
  case (Cons e es)
  let ?g = "sse_step e h"
  note ok = reachable_ok [OF Cons.prems(1)]
  from step_keeps_sub [OF ok Cons.prems(3)] obtain u where u: "hb_subs ?g i = Some u" by blast
  have run: "sse_run (e # es) h = sse_run es ?g" by (simp add: sse_run_def)
  from Cons.IH [of ?g u] Cons.prems u have later: "calm ?g" "live u" "su_key t = su_key u"
    "su_taken t @ su_queue t = su_taken u @ su_queue u @ published (su_key u) es"
    by (auto simp: run intro: reachable.step)
  note calm = sse_step_calm [OF ok later(1)]
  have "registered h" "keyed h"
    using reachable_registered reachable_keyed Cons.prems(1) calm by blast+
  from step_delivers [OF ok this later(1) Cons.prems(3) u later(2)] later calm
  show ?case by (auto simp: published_def)
qed

section \<open>A subscriber that no publication reaches\<close>

text \<open>
  The \<open>finally\<close> block deletes the map entry of its key when its own set is empty, without
  asking whether the entry still is that set. Two subscribers that overflowed together leave
  one after the other; a third that connects in between loses its registration.
\<close>

definition burst :: "string \<Rightarrow> 'i \<Rightarrow> nat \<Rightarrow> 'i sse_event list" where
  "burst k x n = replicate n (Publish k x)"

definition leave_run :: "nat \<Rightarrow> 'i sse_event list" where
  "leave_run i = [Mapped i True, Consume i True, Advance i]"

definition orphaning_run :: "string \<Rightarrow> 'i \<Rightarrow> 'i sse_event list" where
  "orphaning_run k x =
     [Subscribe k False, Advance 0, Subscribe k False, Advance 1, Publish k x, Advance 0, Advance 1] @
     burst k x (max_pending + 1) @ leave_run 0 @ [Subscribe k False] @ leave_run 1 @ [Advance 2]"

definition busy_sub :: "string \<Rightarrow> 'i \<Rightarrow> 'i list \<Rightarrow> 'i subscriber" where
  "busy_sub k x q = \<lparr>su_key = k, su_scoped = 0, su_queue = q, su_overflow = False, su_aborted = False,
     su_phase = Mapping x, su_taken = [x]\<rparr>"

definition two_busy :: "string \<Rightarrow> 'i \<Rightarrow> 'i list \<Rightarrow> 'i hub" where
  "two_busy k x q = \<lparr>hb_sets = (\<lambda>_. [])(0 := [0, 1]), hb_listeners = [(k, 0)],
     hb_subs = (\<lambda>_. None)(0 \<mapsto> busy_sub k x q, 1 \<mapsto> busy_sub k x q), hb_next_set = 1, hb_next_sub = 2\<rparr>"

lemma max_pending_pos [simp]: "0 < max_pending" "max_pending \<noteq> 0"
  by (simp_all add: max_pending_def)

lemma reach_two_busy:
  "sse_run [Subscribe k False, Advance 0, Subscribe k False, Advance 1, Publish k x, Advance 0, Advance 1] empty_hub
     = two_busy k x []"
  by (simp add: sse_run_def subscribe_def advance_def put_sub_def empty_hub_def two_busy_def busy_sub_def
      publish_def members_def deliver_def wake_def take_next_def Let_def fun_eq_iff)

lemma publish_two_busy:
  "length q < max_pending \<Longrightarrow> publish k x (two_busy k x q) = two_busy k x (q @ [x])"
  by (simp add: publish_def members_def two_busy_def deliver_def put_sub_def busy_sub_def wake_def fun_eq_iff)

lemma burst_two_busy:
  "length q + n \<le> max_pending \<Longrightarrow> sse_run (burst k x n) (two_busy k x q) = two_busy k x (q @ replicate n x)"
proof (induction n arbitrary: q)
  case (Suc n)
  then have "length (q @ [x]) + n \<le> max_pending" by simp
  from Suc.IH [OF this] Suc.prems show ?case
    by (simp add: sse_run_def burst_def publish_two_busy replicate_app_Cons_same)
qed (simp add: sse_run_def burst_def)

lemma burst_Suc: "burst k x (n + 1) = burst k x n @ [Publish k x]"
  by (simp add: burst_def replicate_append_same)

lemma sse_run_append: "sse_run (xs @ ys) h = sse_run ys (sse_run xs h)"
  by (simp add: sse_run_def)

lemma sse_run_Cons: "sse_run (e # es) h = sse_run es (sse_step e h)" and sse_run_Nil: "sse_run [] h = h"
  by (simp_all add: sse_run_def)

lemma orphaning_run_result:
  "let h = sse_run (orphaning_run k x) empty_hub
   in js_get (hb_listeners h) k = None \<and> 2 \<in> set (hb_sets h 1) \<and>
      (\<exists>s. hb_subs h 2 = Some s \<and> su_key s = k \<and> su_scoped s = 1 \<and> su_phase s = Parked \<and>
         \<not> su_overflow s \<and> \<not> su_aborted s)"
proof -
  let ?full = "replicate max_pending x"
  let ?rest = "leave_run 0 @ [Subscribe k False] @ leave_run 1 @ [Advance 2]"
  have filled: "sse_run (burst k x max_pending) (two_busy k x []) = two_busy k x ?full"
    by (subst burst_two_busy) simp_all
  have run: "sse_run (orphaning_run k x) empty_hub = sse_run ?rest (publish k x (two_busy k x ?full))"
    unfolding orphaning_run_def burst_Suc sse_run_append reach_two_busy filled
    by (simp only: sse_run_Cons sse_run_Nil sse_step.simps)
  define gone :: "'a subscriber" where "gone = \<lparr>su_key = k, su_scoped = 0, su_queue = [], su_overflow = True,
      su_aborted = False, su_phase = Mapping x, su_taken = [x]\<rparr>"
  have burst: "publish k x (two_busy k x ?full) = \<lparr>hb_sets = (\<lambda>_. []), hb_listeners = [(k, 0)],
      hb_subs = (\<lambda>_. None)(0 \<mapsto> gone, 1 \<mapsto> gone), hb_next_set = 1, hb_next_sub = 2\<rparr>"
    by (simp add: publish_def members_def two_busy_def busy_sub_def deliver_def put_sub_def leave_set_def wake_def
        gone_def fun_eq_iff)
  define h2 where "h2 = \<lparr>hb_sets = (\<lambda>_. []), hb_listeners = [],
      hb_subs = (\<lambda>_. None)(0 \<mapsto> gone\<lparr>su_phase := Finished True\<rparr>, 1 \<mapsto> gone), hb_next_set = 1, hb_next_sub = 2\<rparr>"
  note steps = mapped_def consume_def advance_def take_next_def finish_def put_sub_def leave_set_def gone_def
    js_del_def Let_def
  have h2: "sse_run (leave_run 0) (publish k x (two_busy k x ?full)) = h2"
    unfolding burst leave_run_def sse_run_Cons sse_run_Nil sse_step.simps
    by (simp add: steps h2_def fun_eq_iff)
  show ?thesis
    unfolding run sse_run_append h2 unfolding leave_run_def sse_run_Cons sse_run_Nil sse_step.simps
    by (simp add: steps h2_def subscribe_def)
qed

section \<open>Properties\<close>

text \<open>
  C36: while no subscriber falls behind, nothing is lost, duplicated or reordered: whatever the
  interleaving of publications, connections, aborts and consumer steps, a subscriber that is
  still connected has taken or still has queued exactly what it had before, followed by
  everything published since in its own tenant and app, in order.
\<close>
theorem events_delivered_in_order:
  assumes "reachable h" and "calm (sse_run es h)"
    and "hb_subs h i = Some s" and "hb_subs (sse_run es h) i = Some t" and "live t"
  shows "su_key t = su_key s \<and> su_taken t @ su_queue t = su_taken s @ su_queue s @ published (su_key s) es"
  using run_delivers [OF assms] by blast

lemma sample_hub:
  "reachable (sse_run [Subscribe ''k'' False, Advance 0] (empty_hub :: nat hub))"
  "hb_subs (sse_run [Subscribe ''k'' False, Advance 0] (empty_hub :: nat hub)) 0 =
     Some \<lparr>su_key = ''k'', su_scoped = 0, su_queue = [], su_overflow = False, su_aborted = False, su_phase = Parked, su_taken = []\<rparr>"
proof -
  have "reachable (sse_step (Advance 0) (sse_step (Subscribe ''k'' False) (empty_hub :: nat hub)))"
    by (intro reachable.intros)
  then show "reachable (sse_run [Subscribe ''k'' False, Advance 0] (empty_hub :: nat hub))" by (simp add: sse_run_def)
qed (simp add: sse_run_def subscribe_def advance_def put_sub_def empty_hub_def Let_def)

theorem events_delivered_in_order_witness:
  "\<exists>t. hb_subs (sse_run [Publish ''k'' 7, Publish ''other'' 8, Advance 0, Publish ''k'' (9 :: nat)]
         (sse_run [Subscribe ''k'' False, Advance 0] empty_hub)) 0 = Some t \<and> su_taken t @ su_queue t = [7, 9]"
proof -
  let ?h = "sse_run [Subscribe ''k'' False, Advance 0] (empty_hub :: nat hub)"
  let ?es = "[Publish ''k'' 7, Publish ''other'' 8, Advance 0, Publish ''k'' 9]"
  let ?t = "\<lparr>su_key = ''k'', su_scoped = 0, su_queue = [9], su_overflow = False, su_aborted = False,
      su_phase = Mapping 7, su_taken = [7]\<rparr>"
  note ops = sse_run_def subscribe_def advance_def put_sub_def empty_hub_def publish_def members_def deliver_def
    wake_def take_next_def max_pending_def Let_def
  have subs: "hb_subs (sse_run ?es ?h) = (\<lambda>_. None)(0 \<mapsto> ?t)" by (simp add: ops fun_eq_iff)
  then have "hb_subs (sse_run ?es ?h) 0 = Some ?t" "calm (sse_run ?es ?h)"
    unfolding calm_def subs by simp_all
  then show ?thesis
    using events_delivered_in_order [OF sample_hub(1) _ sample_hub(2), of ?es ?t]
    by (simp add: live_def published_def)
qed

text \<open>
  C37: memory per subscriber is bounded and no wake-up is lost: in every reachable hub a queue
  holds at most 256 items; a generator that is parked on its promise has nothing to do (an
  empty queue, no overflow, no abort), and one whose promise was resolved has something to do.
\<close>
theorem hub_bounded_and_awake:
  assumes "reachable h" and "hb_subs h i = Some s"
  shows "length (su_queue s) \<le> 256 \<and>
    (su_phase s = Parked \<longrightarrow> su_queue s = [] \<and> \<not> su_overflow s \<and> \<not> su_aborted s) \<and>
    (su_phase s = Ready \<longrightarrow> su_aborted s \<or> su_overflow s \<or> su_queue s \<noteq> [])"
  using hub_okD(1) [OF reachable_ok [OF assms(1)] assms(2)] by (simp add: sub_ok_def max_pending_def)

theorem hub_bounded_and_awake_witness:
  "length (su_queue (the (hb_subs (sse_run [Subscribe ''k'' False, Advance 0] (empty_hub :: nat hub)) 0))) \<le> 256"
  using hub_bounded_and_awake [OF sample_hub] by (simp add: sample_hub(2))

text \<open>
  Tenants and apps are isolated: a publication in one scope leaves every subscriber of
  another scope exactly as it was, in every reachable hub.
\<close>
theorem publish_isolated:
  assumes "reachable h" and "hb_subs h j = Some s" and "su_key s \<noteq> k"
  shows "hb_subs (sse_step (Publish k x) h) j = Some s"
  using publish_other_scope [OF reachable_ok [OF assms(1)] reachable_keyed [OF assms(1)] assms(2,3)] by simp

text \<open>
  A subscriber that falls behind is not served a stream with holes: the publication that
  would exceed the bound empties its queue and marks it as overflowed, and the next time its
  generator runs from the loop head it fails instead of waiting for later events.
\<close>
theorem overflow_fails_subscriber:
  assumes "reachable h" and "hb_subs h i = Some s" and "i \<in> set (members k h)"
    and "length (su_queue s) = 256" and "\<not> su_aborted s" and "su_phase s = Looping"
  shows "\<exists>t u. hb_subs (sse_step (Publish k x) h) i = Some t \<and> su_overflow t \<and> su_queue t = [] \<and> su_taken t = su_taken s \<and>
    hb_subs (sse_step (Advance i) (sse_step (Publish k x) h)) i = Some u \<and> su_phase u = Finished True"
proof -
  have "hb_subs (publish k x h) i = Some (s\<lparr>su_overflow := True, su_queue := []\<rparr>)"
    using assms(2,3,4,6) by (simp add: publish_subs [OF reachable_ok [OF assms(1)]] deliver_sub_def max_pending_def wake_def)
  then show ?thesis
    using assms(5,6) by (simp add: advance_def take_next_def finish_fields)
qed

definition lone_sub :: "string \<Rightarrow> 'i list \<Rightarrow> 'i subscriber" where
  "lone_sub k q = \<lparr>su_key = k, su_scoped = 0, su_queue = q, su_overflow = False, su_aborted = False,
     su_phase = Looping, su_taken = []\<rparr>"

definition lone_hub :: "string \<Rightarrow> 'i list \<Rightarrow> 'i hub" where
  "lone_hub k q = \<lparr>hb_sets = (\<lambda>_. [])(0 := [0]), hb_listeners = [(k, 0)],
     hb_subs = (\<lambda>_. None)(0 \<mapsto> lone_sub k q), hb_next_set = 1, hb_next_sub = 1\<rparr>"

lemma lone_hub_reachable: "length q \<le> 256 \<Longrightarrow> reachable (lone_hub k q)"
proof (induction q rule: rev_induct)
  case Nil
  have "sse_step (Subscribe k False) empty_hub = lone_hub k []"
    by (simp add: subscribe_def empty_hub_def lone_hub_def lone_sub_def Let_def)
  then show ?case by (metis reachable.intros)
next
  case (snoc x q)
  then have "sse_step (Publish k x) (lone_hub k q) = lone_hub k (q @ [x])"
    by (simp add: publish_def members_def lone_hub_def deliver_def put_sub_def lone_sub_def wake_def max_pending_def fun_eq_iff)
  with snoc show ?case by (metis Suc_leD length_append_singleton reachable.step)
qed

text \<open>
  The hub can lose a connected subscriber for good: there is a run after which a subscriber
  is parked and waiting for events of its scope while the map of listeners has no entry for
  that scope, so that no publication reaches it. Two subscribers that overflowed together cause
  it, because the second one to leave deletes the entry that a third has made in between.
\<close>
theorem subscriber_orphaned:
  "let h = sse_run (orphaning_run k x) empty_hub
   in members k h = [] \<and>
      (\<exists>s. hb_subs h 2 = Some s \<and> su_key s = k \<and> su_phase s = Parked \<and> \<not> su_overflow s \<and> \<not> su_aborted s)"
  using orphaning_run_result [of k x] by (auto simp: Let_def members_def)

end
