(* ===== verification/StreamDriver.thy ===== *)
theory StreamDriver
  imports Prelude_JS
begin

text \<open>
  \<open>runtime/stream.ts\<close>: driving a stream generator. The frames the sink is called with
  are the result of a run.

  A generator is the list of values it yields and how it ends. Time counts the awaited
  promises; \<open>abort = Some a\<close> means that the signal fires before promise number \<open>a\<close>
  settles, so every wait from then on rejects. The schemas are the parsers
  \<open>parse_item\<close> and \<open>parse_summary\<close>, the sink says which callbacks reject.
\<close>

record js_error =
  er_name :: string
  er_message :: string

datatype 's gen_end = Returns "'s option" | Throws js_error | Hangs

datatype ('w, 't) stream_frame =
  Item_frame (frame_item: 'w) | Summary_frame (frame_summary: 't)
| Error_frame string string | End_frame nat

record ('v, 'w, 's, 't) stream_handler =
  sd_parse_item :: "'v \<Rightarrow> js_error + 'w"
  sd_parse_summary :: "('s \<Rightarrow> js_error + 't) option"

definition to_error_frame :: "js_error \<Rightarrow> ('w, 't) stream_frame" where
  "to_error_frame e = Error_frame
     (if er_name e = ''ValidationError'' then ''item_validation_failed'' else ''stream_failed'')
     (if er_message e \<noteq> [] then er_message e else ''stream failed'')"

definition aborted :: "nat option \<Rightarrow> nat \<Rightarrow> bool" where
  "aborted a t \<longleftrightarrow> (case a of None \<Rightarrow> False | Some n \<Rightarrow> n \<le> t)"

text \<open>The \<open>catch\<close> block: cleanup is awaited, then the error frame unless the signal fired.\<close>

definition fail_frames :: "nat option \<Rightarrow> nat \<Rightarrow> js_error \<Rightarrow> ('w, 't) stream_frame list" where
  "fail_frames a t e =
     (if aborted a t then [] else if aborted a (Suc t) then [] else [to_error_frame e])"

text \<open>One awaited sink callback, and what follows it.\<close>

definition send ::
    "(('w, 't) stream_frame \<Rightarrow> js_error option) \<Rightarrow> nat option \<Rightarrow> nat \<Rightarrow> ('w, 't) stream_frame \<Rightarrow>
     ('w, 't) stream_frame list \<Rightarrow> ('w, 't) stream_frame list" where
  "send sink a t frame rest =
     frame # (if aborted a (Suc t) then []
              else (case sink frame of Some e \<Rightarrow> fail_frames a (Suc t) e | None \<Rightarrow> rest))"

definition end_frames ::
    "(('w, 't) stream_frame \<Rightarrow> js_error option) \<Rightarrow> nat option \<Rightarrow> nat \<Rightarrow> nat \<Rightarrow> ('w, 't) stream_frame list" where
  "end_frames sink a t count = (if aborted a t then [] else send sink a t (End_frame count) [])"

definition return_frames ::
    "('v, 'w, 's, 't) stream_handler \<Rightarrow> (('w, 't) stream_frame \<Rightarrow> js_error option) \<Rightarrow> nat option \<Rightarrow> nat \<Rightarrow> nat \<Rightarrow>
     's option \<Rightarrow> ('w, 't) stream_frame list" where
  "return_frames h sink a t count v =
     (if aborted a t then []
      else (case (v, sd_parse_summary h) of
              (Some s, Some parse) \<Rightarrow>
                (case parse s of
                   Inl e \<Rightarrow> fail_frames a t e
                 | Inr summary \<Rightarrow> send sink a t (Summary_frame summary) (end_frames sink a (Suc t) count))
            | _ \<Rightarrow> end_frames sink a t count))"

fun drive_from ::
    "('v, 'w, 's, 't) stream_handler \<Rightarrow> (('w, 't) stream_frame \<Rightarrow> js_error option) \<Rightarrow> nat option \<Rightarrow>
     's gen_end \<Rightarrow> nat \<Rightarrow> nat \<Rightarrow> 'v list \<Rightarrow> ('w, 't) stream_frame list" where
  "drive_from h sink a ending t count [] =
     (case ending of
        Hangs \<Rightarrow> []
      | Throws e \<Rightarrow> fail_frames a (Suc t) e
      | Returns v \<Rightarrow> return_frames h sink a (Suc t) count v)"
| "drive_from h sink a ending t count (v # vs) =
     (if aborted a (Suc t) then []
      else (case sd_parse_item h v of
              Inl e \<Rightarrow> fail_frames a (Suc t) e
            | Inr item \<Rightarrow>
                send sink a (Suc t) (Item_frame item)
                  (drive_from h sink a ending (Suc (Suc t)) (Suc count) vs)))"

definition drive_stream ::
    "('v, 'w, 's, 't) stream_handler \<Rightarrow> (('w, 't) stream_frame \<Rightarrow> js_error option) \<Rightarrow> nat option \<Rightarrow>
     'v list \<Rightarrow> 's gen_end \<Rightarrow> ('w, 't) stream_frame list" where
  "drive_stream h sink a vs ending = (if aborted a 0 then [] else drive_from h sink a ending 0 0 vs)"

definition frame_error :: "('w, 't) stream_frame \<Rightarrow> js_error option" where
  "frame_error f = (case f of Error_frame n m \<Rightarrow> Some \<lparr>er_name = n, er_message = m\<rparr> | _ \<Rightarrow> None)"

definition frame_items :: "('w, 't) stream_frame list \<Rightarrow> 'w list" where
  "frame_items fs = List.map_filter (\<lambda>f. case f of Item_frame w \<Rightarrow> Some w | _ \<Rightarrow> None) fs"

definition frame_summaries :: "('w, 't) stream_frame list \<Rightarrow> 't list" where
  "frame_summaries fs = List.map_filter (\<lambda>f. case f of Summary_frame s \<Rightarrow> Some s | _ \<Rightarrow> None) fs"

definition drive_stream_buffered ::
    "('v, 'w, 's, 't) stream_handler \<Rightarrow> nat option \<Rightarrow> 'v list \<Rightarrow> 's gen_end \<Rightarrow> js_error + ('w list \<times> 't option)" where
  "drive_stream_buffered h a vs ending =
     (let frames = drive_stream h (\<lambda>_. None) a vs ending
      in case List.map_filter frame_error frames of
           e # es \<Rightarrow> Inl (last (e # es))
         | [] \<Rightarrow> Inr (frame_items frames,
                    (case frame_summaries frames of [] \<Rightarrow> None | s # ss \<Rightarrow> Some (last (s # ss)))))"

section \<open>Legal frame sequences\<close>

text \<open>Items, at most one summary, at most one terminal frame, and nothing after it.\<close>

datatype frame_state = In_items | After_summary | Closed

fun frame_next :: "frame_state \<Rightarrow> nat \<Rightarrow> ('w, 't) stream_frame \<Rightarrow> frame_state option" where
  "frame_next In_items n (Item_frame w) = Some In_items"
| "frame_next In_items n (Summary_frame s) = Some After_summary"
| "frame_next In_items n (End_frame k) = (if k = n then Some Closed else None)"
| "frame_next After_summary n (End_frame k) = (if k = n then Some Closed else None)"
| "frame_next In_items n (Error_frame e m) = Some Closed"
| "frame_next After_summary n (Error_frame e m) = Some Closed"
| "frame_next _ n _ = None"

fun legal_frames :: "frame_state \<Rightarrow> nat \<Rightarrow> ('w, 't) stream_frame list \<Rightarrow> bool" where
  "legal_frames st n [] = True"
| "legal_frames st n (f # fs) =
     (case frame_next st n f of None \<Rightarrow> False
      | Some st' \<Rightarrow> legal_frames st' (case f of Item_frame w \<Rightarrow> Suc n | _ \<Rightarrow> n) fs)"

lemma fail_frames_legal: "st \<noteq> Closed \<Longrightarrow> legal_frames st n (fail_frames a t e)"
  by (cases st) (simp_all add: fail_frames_def to_error_frame_def)

text \<open>The only sequence that breaks the protocol is a rejected \<open>onEnd\<close>, which calls \<open>onError\<close> too.\<close>

definition end_accepted :: "(('w, 't) stream_frame \<Rightarrow> js_error option) \<Rightarrow> bool" where
  "end_accepted sink \<longleftrightarrow> (\<forall>n. sink (End_frame n) = None)"

lemma end_frames_legal: "end_accepted sink \<Longrightarrow> st \<noteq> Closed \<Longrightarrow> legal_frames st n (end_frames sink a t n)"
  by (cases st) (simp_all add: end_frames_def send_def end_accepted_def)

lemma return_frames_legal: "end_accepted sink \<Longrightarrow> legal_frames In_items n (return_frames h sink a t n v)"
  by (auto simp: return_frames_def send_def fail_frames_legal end_frames_legal split: option.splits sum.splits)

lemma drive_from_legal: "end_accepted sink \<Longrightarrow> legal_frames In_items n (drive_from h sink a ending t n vs)"
  by (induction vs arbitrary: t n)
     (auto simp: send_def fail_frames_legal return_frames_legal split: gen_end.splits option.splits sum.splits)

text \<open>What the producer yielded bounds what the sink is given.\<close>

lemma items_fail [simp]: "frame_items (fail_frames a t e) = []"
  by (simp add: frame_items_def fail_frames_def to_error_frame_def List.map_filter_simps)

lemma frame_items_Cons [simp]:
  "frame_items [] = []"
  "frame_items (f # fs) = (case f of Item_frame w \<Rightarrow> [w] | _ \<Rightarrow> []) @ frame_items fs"
  by (simp_all add: frame_items_def List.map_filter_simps split: stream_frame.splits)

lemma items_end [simp]: "frame_items (end_frames sink a t n) = []"
  by (simp add: end_frames_def send_def split: option.splits)

lemma items_return [simp]: "frame_items (return_frames h sink a t n v) = []"
  by (auto simp: return_frames_def send_def split: option.splits sum.splits)

lemma drive_from_items:
  "\<exists>k \<le> length vs. map (\<lambda>w. Inr w) (frame_items (drive_from h sink a ending t n vs)) = map (sd_parse_item h) (take k vs)"
proof (induction vs arbitrary: t n)
  case Nil
  then show ?case by (simp split: gen_end.splits)
next
  case (Cons v vs)
  show ?case
  proof (cases "aborted a (Suc t)")
    case False
    show ?thesis
    proof (cases "sd_parse_item h v")
      case (Inr w)
      let ?rest = "drive_from h sink a ending (Suc (Suc t)) (Suc n) vs"
      from Cons obtain k where "k \<le> length vs" "map (\<lambda>w. Inr w) (frame_items ?rest) = map (sd_parse_item h) (take k vs)"
        by blast
      with False Inr show ?thesis
        by (cases "aborted a (Suc (Suc t)) \<or> sink (Item_frame w) \<noteq> None")
           (auto simp: send_def intro: exI [of _ "Suc 0"] exI [of _ "Suc k"])
    qed (use False in \<open>auto intro: exI [of _ 0]\<close>)
  qed (auto intro: exI [of _ 0])
qed

section \<open>The buffered representation\<close>

definition reported :: "js_error \<Rightarrow> js_error" where
  "reported e = \<lparr>er_name = (if er_name e = ''ValidationError'' then ''item_validation_failed'' else ''stream_failed''),
     er_message = (if er_message e \<noteq> [] then er_message e else ''stream failed'')\<rparr>"

fun parse_summary_value :: "('v, 'w, 's, 't) stream_handler \<Rightarrow> 's option \<Rightarrow> js_error + 't option" where
  "parse_summary_value h None = Inr None"
| "parse_summary_value h (Some s) =
     (case sd_parse_summary h of None \<Rightarrow> Inr None
      | Some parse \<Rightarrow> (case parse s of Inl e \<Rightarrow> Inl (reported e) | Inr t \<Rightarrow> Inr (Some t)))"

text \<open>What an uninterrupted buffered run computes: parse in order, stop at the first failure.\<close>

fun buffered_reference ::
    "('v, 'w, 's, 't) stream_handler \<Rightarrow> 's gen_end \<Rightarrow> 'v list \<Rightarrow> js_error + ('w list \<times> 't option)" where
  "buffered_reference h ending [] =
     (case ending of
        Throws e \<Rightarrow> Inl (reported e)
      | Returns v \<Rightarrow> (case parse_summary_value h v of Inl e \<Rightarrow> Inl e | Inr s \<Rightarrow> Inr ([], s))
      | Hangs \<Rightarrow> Inr ([], None))"
| "buffered_reference h ending (v # vs) =
     (case sd_parse_item h v of
        Inl e \<Rightarrow> Inl (reported e)
      | Inr w \<Rightarrow> (case buffered_reference h ending vs of Inl e \<Rightarrow> Inl e | Inr (ws, s) \<Rightarrow> Inr (w # ws, s)))"

definition collect :: "('w, 't) stream_frame list \<Rightarrow> js_error + ('w list \<times> 't option)" where
  "collect frames =
     (case List.map_filter frame_error frames of
        e # es \<Rightarrow> Inl (last (e # es))
      | [] \<Rightarrow> Inr (frame_items frames, (case frame_summaries frames of [] \<Rightarrow> None | s # ss \<Rightarrow> Some (last (s # ss)))))"

lemma collect_item:
  "collect (Item_frame w # fs) = (case collect fs of Inl e \<Rightarrow> Inl e | Inr (ws, s) \<Rightarrow> Inr (w # ws, s))"
  by (simp add: collect_def frame_error_def frame_summaries_def List.map_filter_simps split: list.splits)

lemma not_aborted [simp]: "aborted None t \<longleftrightarrow> False"
  by (simp add: aborted_def)

lemma fail_unaborted: "fail_frames None t e = [to_error_frame e]"
  by (simp add: fail_frames_def)

lemma send_unaborted: "send (\<lambda>_. None) None t f rest = f # rest"
  by (simp add: send_def)

lemma collect_return:
  "collect (return_frames h (\<lambda>_. None) None t n v) =
     (case parse_summary_value h v of Inl e \<Rightarrow> Inl e | Inr s \<Rightarrow> Inr ([], s))"
  by (cases v)
     (auto simp: return_frames_def end_frames_def send_unaborted fail_unaborted collect_def frame_error_def
        frame_summaries_def to_error_frame_def reported_def List.map_filter_simps split: option.splits sum.splits)

lemma collect_drive_from:
  "ending \<noteq> Hangs \<Longrightarrow> collect (drive_from h (\<lambda>_. None) None ending t n vs) = buffered_reference h ending vs"
proof (induction vs arbitrary: t n)
  case Nil
  then show ?case
    by (cases ending)
       (simp add: collect_return,
        simp add: fail_unaborted collect_def frame_error_def to_error_frame_def reported_def List.map_filter_simps,
        simp)
next
  case (Cons v vs)
  then show ?case
    by (cases "sd_parse_item h v")
       (simp_all add: collect_item send_unaborted,
        simp add: fail_unaborted collect_def frame_error_def to_error_frame_def reported_def List.map_filter_simps)
qed

lemma buffered_collect: "drive_stream_buffered h None vs ending = collect (drive_from h (\<lambda>_. None) None ending 0 0 vs)"
  by (simp add: drive_stream_buffered_def drive_stream_def collect_def Let_def)

text \<open>
  A run that the signal may have interrupted: the reference result, or the validated values of a
  prefix of what was yielded, without a summary and without an error.
\<close>

definition interrupted_of ::
    "('v, 'w, 's, 't) stream_handler \<Rightarrow> 's gen_end \<Rightarrow> 'v list \<Rightarrow> js_error + ('w list \<times> 't option) \<Rightarrow> bool" where
  "interrupted_of h ending vs r \<longleftrightarrow> r = buffered_reference h ending vs \<or>
     (\<exists>k \<le> length vs. \<exists>ws. r = Inr (ws, None) \<and> map Inr ws = map (sd_parse_item h) (take k vs))"

lemma interrupted_empty: "interrupted_of h ending vs (Inr ([], None))"
  by (auto simp: interrupted_of_def intro: exI [of _ 0])

lemma interrupted_item:
  assumes "sd_parse_item h v = Inr w" "interrupted_of h ending vs (collect fs)"
  shows "interrupted_of h ending (v # vs) (collect (Item_frame w # fs))"
proof (cases "collect fs = buffered_reference h ending vs")
  case False
  then obtain k ws where "k \<le> length vs" "collect fs = Inr (ws, None)" "map Inr ws = map (sd_parse_item h) (take k vs)"
    using assms(2) by (auto simp: interrupted_of_def)
  then show ?thesis
    using assms(1) by (auto simp: interrupted_of_def collect_item intro!: exI [of _ "Suc k"])
qed (use assms(1) in \<open>simp add: interrupted_of_def collect_item\<close>)

lemma collect_Nil: "collect [] = Inr ([], None)"
  by (simp add: collect_def frame_summaries_def List.map_filter_simps)

lemma collect_single:
  "collect [to_error_frame e] = Inl (reported e)" "collect [End_frame n] = Inr ([], None)"
  "collect [Summary_frame s] = Inr ([], Some s)" "collect [Summary_frame s, End_frame n] = Inr ([], Some s)"
  by (simp_all add: collect_def frame_error_def frame_summaries_def to_error_frame_def reported_def List.map_filter_simps)

lemma interrupted_fail:
  "buffered_reference h ending vs = Inl (reported e) \<Longrightarrow> interrupted_of h ending vs (collect (fail_frames a t e))"
  using interrupted_empty [of h ending vs] by (auto simp: fail_frames_def collect_Nil collect_single interrupted_of_def)

lemma interrupted_return:
  "interrupted_of h (Returns v) [] (collect (return_frames h (\<lambda>_. None) a t n v))"
  using interrupted_empty [of h "Returns v" "[]"] 
  by (cases v; cases "sd_parse_summary h")
     (auto simp: return_frames_def end_frames_def send_def fail_frames_def collect_Nil collect_single split: sum.splits;
      simp add: interrupted_of_def)+

lemma interrupted_drive: "interrupted_of h ending vs (collect (drive_from h (\<lambda>_. None) a ending t n vs))"
proof (induction vs arbitrary: t n)
  case Nil
  show ?case
    by (cases ending) (simp_all add: interrupted_return interrupted_fail collect_Nil interrupted_empty)
next
  case (Cons v vs)
  show ?case
  proof (cases "sd_parse_item h v")
    case (Inl e)
    then show ?thesis by (simp add: interrupted_fail collect_Nil interrupted_empty)
  next
    case (Inr w)
    then have "interrupted_of h ending (v # vs) (collect (Item_frame w # []))"
      by (intro interrupted_item) (simp_all add: collect_Nil interrupted_empty)
    then show ?thesis
      using Inr interrupted_item [OF Inr Cons.IH] by (simp add: send_def collect_Nil interrupted_empty)
  qed
qed

lemma buffered_collect_signal:
  "drive_stream_buffered h a vs ending = (if aborted a 0 then Inr ([], None) else collect (drive_from h (\<lambda>_. None) a ending 0 0 vs))"
  by (simp add: drive_stream_buffered_def drive_stream_def collect_def Let_def frame_summaries_def List.map_filter_simps)

section \<open>Properties\<close>

text \<open>
  A client never sees an ill-formed stream: for every handler, every generator, every
  moment at which the signal fires and every sink that accepts the end frame, the frames are
  items, then at most one summary, then at most one terminal frame, and nothing after it; the
  end frame counts exactly the items sent before it.
\<close>
theorem stream_frames_legal:
  assumes "\<forall>n. sink (End_frame n) = None"
  shows "legal_frames In_items 0 (drive_stream h sink a vs ending)"
  using assms by (simp add: drive_stream_def drive_from_legal end_accepted_def)

text \<open>
  Only validated items are sent, in order: the items a client receives are the parsed
  values of a prefix of what the generator yielded, whatever the sink does and whenever the
  signal fires.
\<close>
theorem stream_items_prefix:
  "\<exists>k \<le> length vs. map Inr (frame_items (drive_stream h sink a vs ending)) = map (sd_parse_item h) (take k vs)"
  using drive_from_items [of vs h sink a ending 0 0] by (auto simp: drive_stream_def intro: exI [of _ 0])

text \<open>
  C38: the buffered answer is the reference computation (parse the items in order, then the
  summary, and stop at the first failure) when the signal does not fire and the generator ends.
  Whenever the signal fires, and for a generator that hangs as well, the answer is either that
  very result or the validated values of a prefix of what was yielded, without a summary; it never
  shows an item, a summary or an error the full run would not.
\<close>
theorem buffered_equals_reference:
  "(ending \<noteq> Hangs \<longrightarrow> drive_stream_buffered h None vs ending = buffered_reference h ending vs) \<and>
   interrupted_of h ending vs (drive_stream_buffered h a vs ending)"
  by (simp add: buffered_collect collect_drive_from buffered_collect_signal interrupted_drive interrupted_empty)

theorem buffered_equals_reference_witness:
  "drive_stream_buffered \<lparr>sd_parse_item = Inr, sd_parse_summary = Some Inr\<rparr> None [1, 2 :: nat] (Returns (Some (3 :: nat))) = Inr ([1, 2], Some 3)"
  using buffered_equals_reference [of "Returns (Some (3 :: nat))" "\<lparr>sd_parse_item = Inr, sd_parse_summary = Some Inr\<rparr>" "[1, 2 :: nat]"]
  by simp

text \<open>
  A rejected end callback breaks the protocol: the sink is then called with an error frame
  after the end frame, so a client can be told twice that the stream is over.
\<close>
theorem rejected_end_reports_twice:
  "drive_stream \<lparr>sd_parse_item = Inr, sd_parse_summary = None :: ('s \<Rightarrow> js_error + 't) option\<rparr>
      (\<lambda>f. case f of End_frame n \<Rightarrow> Some e | _ \<Rightarrow> None) None [] (Returns None) = [End_frame 0, to_error_frame e]"
  by (simp add: drive_stream_def return_frames_def end_frames_def send_def fail_frames_def)

end
