(* ===== verification/Tokens.thy ===== *)
theory Tokens
  imports PlatformConfig Json
begin

text \<open>
  The token verifiers: \<open>runtime/auth/tokens.ts\<close>, \<open>envelope.ts\<close>, \<open>externalOidc.ts\<close>,
  \<open>runtime/configTicket.ts\<close>, over the claims of \<open>contracts/auth.ts\<close>.

  The base64url/JSON decoder, the RS256 library and the claim schemas are parameters
  (\<open>jwt_library\<close>), the clock is the argument \<open>now\<close> in seconds. Each \<open>throw\<close> is a
  constructor of \<open>token_error\<close>.
\<close>

datatype token_error =
  Token_empty | Token_too_long | Token_parts | Header_not_json | Header_not_object
| Algorithm_not_allowed | Typ_not_allowed | Missing_kid | Untrusted_reference | Invalid_kid
| No_key_source | Key_lookup string | Verification_failed string | Claims_not_object | Claims_invalid
| Token_expired | Not_yet_valid | Invalid_lifetime | Issuer_mismatch | Audience_mismatch | Tenant_missing
| App_missing | Roles_invalid | Type_mismatch | Service_mismatch | Subject_missing | Expiry_missing

datatype token_type = Access | Refresh | Cp_envelope | Setup | Install

datatype audience = One_audience string | Audiences "string list"

datatype assurance = Confirmed | Mfa

record elevation_claims =
  el_assurance :: assurance
  el_verified_at :: int
  el_expires_at :: int

record jwt_claims =
  jc_iss :: string
  jc_aud :: audience
  jc_sub :: string
  jc_exp :: int
  jc_iat :: int
  jc_nbf :: "int option"
  jc_jti :: string
  jc_realm :: string
  jc_tenant_id :: string
  jc_app_id :: string
  jc_roles :: "string list"
  jc_token_type :: token_type
  jc_auth_provider :: "string option"
  jc_refresh_context :: "json option"
  jc_elevation :: "elevation_claims option"
  jc_session_id :: "string option"
  jc_session_version :: "int option"
  jc_provider_subject :: "string option"
  jc_provider :: "json option"
  jc_name :: "string option"
  jc_email :: "string option"
  jc_picture :: "string option"

record jwt_check =
  ck_issuer :: "string option"
  ck_audience :: "string option"
  ck_tolerance :: int

record jwt_library =
  lib_decode :: "string \<Rightarrow> json option"
  lib_verify :: "string \<Rightarrow> string \<Rightarrow> jwt_check \<Rightarrow> string + json"
  lib_jwt_claims :: "json \<Rightarrow> jwt_claims option"

datatype key_source = Resolver "string \<Rightarrow> string + string" | Jwks "string \<Rightarrow> string + string" | No_source

section \<open>The header\<close>

fun header_field :: "json \<Rightarrow> string \<Rightarrow> json option" where
  "header_field (JObj kvs) k = js_get kvs k"
| "header_field _ k = None"

fun is_object :: "json \<Rightarrow> bool" where
  "is_object (JObj kvs) = True"
| "is_object (JArr xs) = True"
| "is_object _ = False"

definition has_reference :: "json \<Rightarrow> bool" where
  "has_reference h \<longleftrightarrow> header_field h ''jku'' \<noteq> None \<or> header_field h ''x5u'' \<noteq> None"

definition kid_char :: "char \<Rightarrow> bool" where
  "kid_char c \<longleftrightarrow> is_alnum c \<or> c = CHR ''_'' \<or> c = CHR ''-''"

definition kid_pattern :: "string \<Rightarrow> bool" where
  "kid_pattern s \<longleftrightarrow> s \<noteq> [] \<and> list_all kid_char s"

definition parse_header :: "jwt_library \<Rightarrow> string \<Rightarrow> token_error + json" where
  "parse_header lib encoded =
     (case lib_decode lib encoded of
        None \<Rightarrow> Inl Header_not_json
      | Some h \<Rightarrow> ensure (is_object h) Header_not_object (Inr h))"

definition token_parts :: "string \<Rightarrow> token_error + string list" where
  "token_parts token =
     ensure (token \<noteq> []) Token_empty
     (ensure (length (js_split (CHR ''.'') token) = 3) Token_parts (Inr (js_split (CHR ''.'') token)))"

text \<open>The header checks of \<open>verifyJwt\<close>, in order.\<close>

definition jwt_header :: "json \<Rightarrow> token_error + string" where
  "jwt_header h =
     ensure (header_field h ''alg'' = Some (JStr ''RS256'')) Algorithm_not_allowed
     (ensure (header_field h ''typ'' = Some (JStr ''JWT'')) Typ_not_allowed
     (case header_field h ''kid'' of
        Some (JStr kid) \<Rightarrow>
          ensure (\<not> has_reference h) Untrusted_reference
          (ensure (\<not> (\<not> kid_pattern kid \<or> length kid > 256)) Invalid_kid (Inr kid))
      | _ \<Rightarrow> Inl Missing_kid))"

text \<open>Those of \<open>verifyTypedToken\<close>.\<close>

definition envelope_header :: "json \<Rightarrow> token_error + string" where
  "envelope_header h =
     ensure (header_field h ''alg'' = Some (JStr ''RS256'')) Algorithm_not_allowed
     (ensure (header_field h ''typ'' = Some (JStr ''JWT'')) Typ_not_allowed
     (case header_field h ''kid'' of
        Some (JStr kid) \<Rightarrow>
          ensure (kid_pattern kid) Invalid_kid (ensure (\<not> has_reference h) Untrusted_reference (Inr kid))
      | _ \<Rightarrow> Inl Invalid_kid))"

text \<open>Those of \<open>verifyServiceConfigTicket\<close>.\<close>

definition ticket_header :: "json \<Rightarrow> token_error + string" where
  "ticket_header h =
     ensure (header_field h ''alg'' = Some (JStr ''RS256'')) Algorithm_not_allowed
     (ensure (header_field h ''typ'' = Some (JStr ''JWT'')) Typ_not_allowed
     (ensure (\<not> has_reference h) Untrusted_reference
     (case header_field h ''kid'' of
        Some (JStr kid) \<Rightarrow> ensure (\<not> (\<not> kid_pattern kid \<or> length kid > 256)) Invalid_kid (Inr kid)
      | _ \<Rightarrow> Inl Invalid_kid)))"

text \<open>Those of \<open>verifyExternalOidcToken\<close>: \<open>typ\<close> may be missing.\<close>

definition oidc_header :: "json \<Rightarrow> token_error + string" where
  "oidc_header h =
     ensure (header_field h ''alg'' = Some (JStr ''RS256'')) Algorithm_not_allowed
     (ensure (header_field h ''typ'' = None \<or> header_field h ''typ'' = Some (JStr ''JWT'')) Typ_not_allowed
     (case header_field h ''kid'' of
        Some (JStr kid) \<Rightarrow>
          ensure (\<not> (length kid > 256 \<or> \<not> kid_pattern kid)) Invalid_kid
          (ensure (\<not> has_reference h) Untrusted_reference (Inr kid))
      | _ \<Rightarrow> Inl Invalid_kid))"

text \<open>Those of \<open>authorizeServiceToken\<close>.\<close>

definition service_header :: "json \<Rightarrow> token_error + string" where
  "service_header h =
     (case header_field h ''kid'' of
        Some (JStr kid) \<Rightarrow>
          ensure (\<not> (header_field h ''alg'' \<noteq> Some (JStr ''RS256'') \<or> header_field h ''typ'' \<noteq> Some (JStr ''BP-S2S-JWT'')
                    \<or> \<not> (kid_pattern kid \<and> length kid \<le> 256))) Invalid_kid
          (ensure (\<not> has_reference h) Untrusted_reference (Inr kid))
      | _ \<Rightarrow> Inl Invalid_kid)"

text \<open>What every verifier relies on before it looks a key up.\<close>

locale jwt_gate =
  fixes gate :: "json \<Rightarrow> token_error + string"
  assumes accepts: "gate h = Inr kid \<Longrightarrow>
    header_field h ''alg'' = Some (JStr ''RS256'') \<and> \<not> has_reference h \<and>
    header_field h ''kid'' = Some (JStr kid) \<and> kid_pattern kid"
begin

lemma rejects_algorithm: "header_field h ''alg'' \<noteq> Some (JStr ''RS256'') \<Longrightarrow> \<exists>e. gate h = Inl e"
  using accepts by (cases "gate h") auto

lemma rejects_reference: "has_reference h \<Longrightarrow> \<exists>e. gate h = Inl e"
  using accepts by (cases "gate h") auto

lemma kid_safe: "gate h = Inr kid \<Longrightarrow> kid \<noteq> [] \<and> (\<forall>c\<in>set kid. kid_char c)"
  using accepts [of h kid] by (simp add: kid_pattern_def list_all_iff)

lemma rejects_array: "\<exists>e. gate (JArr xs) = Inl e"
  by (rule rejects_algorithm) simp

end

interpretation jwt: jwt_gate jwt_header
  by unfold_locales (auto simp: jwt_header_def guard_simps split: option.splits json.splits)

interpretation envelope: jwt_gate envelope_header
  by unfold_locales (auto simp: envelope_header_def guard_simps split: option.splits json.splits)

interpretation ticket: jwt_gate ticket_header
  by unfold_locales (auto simp: ticket_header_def guard_simps split: option.splits json.splits)

interpretation oidc: jwt_gate oidc_header
  by unfold_locales (auto simp: oidc_header_def guard_simps split: option.splits json.splits)

interpretation service: jwt_gate service_header
  by unfold_locales (auto simp: service_header_def guard_simps split: option.splits json.splits)

section \<open>Verification\<close>

definition find_key :: "key_source \<Rightarrow> string \<Rightarrow> token_error + string" where
  "find_key src kid =
     (case src of
        Resolver f \<Rightarrow> (case f kid of Inl m \<Rightarrow> Inl (Key_lookup m) | Inr pem \<Rightarrow> Inr pem)
      | Jwks f \<Rightarrow> (case f kid of Inl m \<Rightarrow> Inl (Key_lookup m) | Inr pem \<Rightarrow> Inr pem)
      | No_source \<Rightarrow> Inl No_key_source)"

definition verify_rs256 :: "jwt_library \<Rightarrow> string \<Rightarrow> string \<Rightarrow> jwt_check \<Rightarrow> token_error + json" where
  "verify_rs256 lib token pem check =
     (case lib_verify lib token pem check of Inl m \<Rightarrow> Inl (Verification_failed m) | Inr c \<Rightarrow> Inr c)"

text \<open>The common prefix: split, gate the header, find the key, check the signature.\<close>

definition verified_claims ::
    "jwt_library \<Rightarrow> (json \<Rightarrow> token_error + string) \<Rightarrow> key_source \<Rightarrow> jwt_check \<Rightarrow> string \<Rightarrow> token_error + json" where
  "verified_claims lib gate src check token =
     res_bind (token_parts token) (\<lambda>parts.
     res_bind (parse_header lib (hd parts)) (\<lambda>h.
     res_bind (gate h) (\<lambda>kid.
     res_bind (find_key src kid) (\<lambda>pem.
     res_bind (verify_rs256 lib token pem check) (\<lambda>claims.
     ensure (is_object claims) Claims_not_object (Inr claims))))))"

definition audience_list :: "audience \<Rightarrow> string list" where
  "audience_list a = (case a of One_audience s \<Rightarrow> [s] | Audiences ss \<Rightarrow> ss)"

record verify_options =
  vj_source :: key_source
  vj_issuer :: string
  vj_audience :: string
  vj_token_type :: "token_type option"
  vj_tolerance :: "int option"

definition tolerance_of :: "int option \<Rightarrow> int" where
  "tolerance_of t = (case t of None \<Rightarrow> 0 | Some n \<Rightarrow> n)"

definition recheck_claims :: "verify_options \<Rightarrow> int \<Rightarrow> jwt_claims \<Rightarrow> token_error + jwt_claims" where
  "recheck_claims opts now c =
     (let tol = tolerance_of (vj_tolerance opts)
      in ensure (\<not> jc_exp c \<le> now - tol) Token_expired
         (ensure (\<not> (case jc_nbf c of None \<Rightarrow> False | Some nbf \<Rightarrow> nbf > now + tol)) Not_yet_valid
         (ensure (jc_iss c = vj_issuer opts) Issuer_mismatch
         (ensure (vj_audience opts \<in> set (audience_list (jc_aud c))) Audience_mismatch
         (ensure (length (jc_tenant_id c) \<noteq> 0) Tenant_missing
         (ensure (length (jc_app_id c) \<noteq> 0) App_missing
         (ensure (\<not> list_ex (\<lambda>r. length r = 0) (jc_roles c)) Roles_invalid
         (ensure (\<not> (case vj_token_type opts of None \<Rightarrow> False | Some t \<Rightarrow> jc_token_type c \<noteq> t)) Type_mismatch
         (Inr c)))))))))"

definition jwt_check_of :: "verify_options \<Rightarrow> jwt_check" where
  "jwt_check_of opts = \<lparr>ck_issuer = Some (vj_issuer opts), ck_audience = Some (vj_audience opts),
     ck_tolerance = tolerance_of (vj_tolerance opts)\<rparr>"

definition verify_jwt :: "jwt_library \<Rightarrow> verify_options \<Rightarrow> int \<Rightarrow> string \<Rightarrow> token_error + jwt_claims" where
  "verify_jwt lib opts now token =
     res_bind (verified_claims lib jwt_header (vj_source opts) (jwt_check_of opts) token) (\<lambda>verified.
     (case lib_jwt_claims lib verified of
        None \<Rightarrow> Inl Claims_invalid
      | Some c \<Rightarrow> recheck_claims opts now c))"

section \<open>Envelopes and setup tokens\<close>

record envelope_options =
  ve_source :: key_source
  ve_issuer :: string
  ve_audience :: "string option"
  ve_tolerance :: "int option"

definition verify_typed_token :: "jwt_library \<Rightarrow> envelope_options \<Rightarrow> string \<Rightarrow> token_error + json" where
  "verify_typed_token lib opts token =
     verified_claims lib envelope_header (ve_source opts)
       \<lparr>ck_issuer = Some (ve_issuer opts), ck_audience = ve_audience opts, ck_tolerance = tolerance_of (ve_tolerance opts)\<rparr>
       token"

definition verify_envelope_of ::
    "string \<Rightarrow> (json \<Rightarrow> 'c option) \<Rightarrow> jwt_library \<Rightarrow> envelope_options \<Rightarrow> string \<Rightarrow> token_error + 'c" where
  "verify_envelope_of kind schema lib opts token =
     res_bind (verify_typed_token lib opts token) (\<lambda>claims.
     ensure (header_field claims ''tokenType'' = Some (JStr kind)) Type_mismatch
     (case schema claims of None \<Rightarrow> Inl Claims_invalid | Some c \<Rightarrow> Inr c))"

definition verify_cp_envelope ::
    "(json \<Rightarrow> 'c option) \<Rightarrow> jwt_library \<Rightarrow> envelope_options \<Rightarrow> string \<Rightarrow> token_error + 'c" where
  "verify_cp_envelope schema lib opts token = verify_envelope_of ''cp-envelope'' schema lib opts token"

definition verify_setup_token ::
    "(json \<Rightarrow> 'c option) \<Rightarrow> jwt_library \<Rightarrow> envelope_options \<Rightarrow> string \<Rightarrow> token_error + 'c" where
  "verify_setup_token schema lib opts token = verify_envelope_of ''setup'' schema lib opts token"

section \<open>Config tickets\<close>

datatype config_action = Schema_read | Config_read | Config_write

record ticket_claims =
  tk_iss :: string
  tk_aud :: audience
  tk_sub :: string
  tk_exp :: int
  tk_iat :: int
  tk_jti :: string
  tk_tenant_id :: string
  tk_service_id :: string
  tk_binding_id :: "string option"
  tk_actions :: "config_action list"

definition config_ticket_audience :: string where
  "config_ticket_audience = ''betterportal-service-config''"

record ticket_options =
  to_source :: key_source
  to_issuer :: string
  to_service_id :: string
  to_tolerance :: "int option"

definition recheck_ticket :: "ticket_options \<Rightarrow> int \<Rightarrow> ticket_claims \<Rightarrow> token_error + ticket_claims" where
  "recheck_ticket opts now c =
     (let tol = tolerance_of (to_tolerance opts)
      in ensure (\<not> tk_exp c \<le> now - tol) Token_expired
         (ensure (\<not> (tk_iat c > now + tol \<or> tk_exp c \<le> tk_iat c)) Invalid_lifetime
         (ensure (tk_iss c = to_issuer opts) Issuer_mismatch
         (ensure (config_ticket_audience \<in> set (audience_list (tk_aud c))) Audience_mismatch
         (ensure (tk_service_id c = to_service_id opts) Service_mismatch
         (Inr c))))))"

definition verify_service_config_ticket ::
    "jwt_library \<Rightarrow> (json \<Rightarrow> ticket_claims option) \<Rightarrow> ticket_options \<Rightarrow> int \<Rightarrow> string \<Rightarrow> token_error + ticket_claims" where
  "verify_service_config_ticket lib schema opts now token =
     res_bind (verified_claims lib ticket_header (to_source opts)
       \<lparr>ck_issuer = Some (to_issuer opts), ck_audience = Some config_ticket_audience,
        ck_tolerance = tolerance_of (to_tolerance opts)\<rparr> token) (\<lambda>verified.
     (case schema verified of None \<Rightarrow> Inl Claims_invalid | Some c \<Rightarrow> recheck_ticket opts now c))"

text \<open>\<open>createCpConfigTicketValidator\<close>: any failure is \<open>null\<close>.\<close>

definition cp_config_ticket_validator ::
    "jwt_library \<Rightarrow> (json \<Rightarrow> ticket_claims option) \<Rightarrow> ticket_options \<Rightarrow> int \<Rightarrow> string option \<Rightarrow> ticket_claims option" where
  "cp_config_ticket_validator lib schema opts now ticket =
     (if \<not> truthy ticket then None
      else (case verify_service_config_ticket lib schema opts now (the ticket) of Inl e \<Rightarrow> None | Inr c \<Rightarrow> Some c))"

record sign_ticket_options =
  sg_issuer :: string
  sg_tenant_id :: string
  sg_service_id :: string
  sg_actions :: "config_action list"
  sg_subject :: "string option"
  sg_binding_id :: "string option"
  sg_expires_in :: int
  sg_jti :: "string option"

definition ticket_claims_for :: "sign_ticket_options \<Rightarrow> int \<Rightarrow> string \<Rightarrow> ticket_claims" where
  "ticket_claims_for opts now fresh =
     \<lparr>tk_iss = sg_issuer opts, tk_aud = Audiences [config_ticket_audience],
      tk_sub = (case sg_subject opts of None \<Rightarrow> ''betterportal-control-plane'' | Some s \<Rightarrow> s),
      tk_exp = now + sg_expires_in opts, tk_iat = now,
      tk_jti = (case sg_jti opts of None \<Rightarrow> fresh | Some j \<Rightarrow> j),
      tk_tenant_id = sg_tenant_id opts, tk_service_id = sg_service_id opts,
      tk_binding_id = (if truthy (sg_binding_id opts) then sg_binding_id opts else None),
      tk_actions = sg_actions opts\<rparr>"

section \<open>External OIDC tokens\<close>

record oidc_options =
  oo_source :: key_source
  oo_issuer :: string
  oo_audience :: string
  oo_tolerance :: "int option"

definition parse_oidc_header :: "jwt_library \<Rightarrow> string \<Rightarrow> token_error + json" where
  "parse_oidc_header lib encoded =
     (case lib_decode lib encoded of Some (JObj kvs) \<Rightarrow> Inr (JObj kvs) | _ \<Rightarrow> Inl Header_not_json)"

fun nonempty_string_field :: "json option \<Rightarrow> bool" where
  "nonempty_string_field (Some (JStr t)) = (t \<noteq> [])"
| "nonempty_string_field _ = False"

fun number_field :: "json option \<Rightarrow> bool" where
  "number_field (Some (JNum n)) = True"
| "number_field _ = False"

definition verify_external_oidc_token :: "jwt_library \<Rightarrow> oidc_options \<Rightarrow> string \<Rightarrow> token_error + json" where
  "verify_external_oidc_token lib opts token =
     ensure (\<not> (token = [] \<or> length token > 16384)) Token_too_long
     (ensure (length (js_split (CHR ''.'') token) = 3) Token_parts
     (res_bind (parse_oidc_header lib (hd (js_split (CHR ''.'') token))) (\<lambda>h.
      res_bind (oidc_header h) (\<lambda>kid.
      res_bind (find_key (oo_source opts) kid) (\<lambda>pem.
      res_bind (verify_rs256 lib token pem \<lparr>ck_issuer = Some (oo_issuer opts), ck_audience = Some (oo_audience opts),
         ck_tolerance = (case oo_tolerance opts of None \<Rightarrow> 30 | Some t \<Rightarrow> t)\<rparr>) (\<lambda>claims.
      (case claims of
         JObj kvs \<Rightarrow>
           ensure (nonempty_string_field (js_get kvs ''sub'')) Subject_missing
           (ensure (number_field (js_get kvs ''exp'')) Expiry_missing
           (Inr claims))
       | _ \<Rightarrow> Inl Claims_not_object)))))))"

section \<open>What an accepted token guarantees\<close>

lemma token_parts_Inr: "token_parts t = Inr ps \<longleftrightarrow> t \<noteq> [] \<and> length ps = 3 \<and> ps = js_split (CHR ''.'') t"
  by (auto simp: token_parts_def guard_simps)

lemma verify_rs256_Inr: "verify_rs256 lib t pem ck = Inr c \<longleftrightarrow> lib_verify lib t pem ck = Inr c"
  by (cases "lib_verify lib t pem ck") (simp_all add: verify_rs256_def)

lemma parse_header_Inr: "parse_header lib e = Inr h \<longleftrightarrow> lib_decode lib e = Some h \<and> is_object h"
  by (cases "lib_decode lib e") (auto simp: parse_header_def guard_simps)

lemma verified_claimsD:
  assumes "verified_claims lib gate src check token = Inr claims"
  obtains h kid pem where "length (js_split (CHR ''.'') token) = 3"
    "lib_decode lib (hd (js_split (CHR ''.'') token)) = Some h" "gate h = Inr kid" "find_key src kid = Inr pem"
    "lib_verify lib token pem check = Inr claims"
  using assms
  by (auto simp: verified_claims_def guard_simps token_parts_Inr parse_header_Inr verify_rs256_Inr)

lemma recheck_claims_Inr:
  "recheck_claims opts now c = Inr d \<longleftrightarrow>
     d = c \<and> now - tolerance_of (vj_tolerance opts) < jc_exp c \<and>
     (\<forall>n. jc_nbf c = Some n \<longrightarrow> n \<le> now + tolerance_of (vj_tolerance opts)) \<and>
     jc_iss c = vj_issuer opts \<and> vj_audience opts \<in> set (audience_list (jc_aud c)) \<and>
     jc_tenant_id c \<noteq> [] \<and> jc_app_id c \<noteq> [] \<and> [] \<notin> set (jc_roles c) \<and>
     (\<forall>t. vj_token_type opts = Some t \<longrightarrow> jc_token_type c = t)"
  by (auto simp: recheck_claims_def guard_simps Let_def list_ex_iff split: option.splits)

lemma verify_jwtD:
  assumes "verify_jwt lib opts now token = Inr c"
  obtains h kid pem v where "lib_decode lib (hd (js_split (CHR ''.'') token)) = Some h" "jwt_header h = Inr kid"
    "find_key (vj_source opts) kid = Inr pem" "lib_verify lib token pem (jwt_check_of opts) = Inr v"
    "lib_jwt_claims lib v = Some c" "recheck_claims opts now c = Inr c"
proof -
  from assms obtain v where v: "verified_claims lib jwt_header (vj_source opts) (jwt_check_of opts) token = Inr v"
    and c: "lib_jwt_claims lib v = Some c" "recheck_claims opts now c = Inr c"
    by (auto simp: verify_jwt_def guard_simps recheck_claims_Inr split: option.splits)
  from v c that show ?thesis by (elim verified_claimsD) blast
qed

lemma recheck_ticket_Inr:
  "recheck_ticket opts now c = Inr d \<longleftrightarrow>
     d = c \<and> now - tolerance_of (to_tolerance opts) < tk_exp c \<and>
     tk_iat c \<le> now + tolerance_of (to_tolerance opts) \<and> tk_iat c < tk_exp c \<and>
     tk_iss c = to_issuer opts \<and> config_ticket_audience \<in> set (audience_list (tk_aud c)) \<and>
     tk_service_id c = to_service_id opts"
  by (auto simp: recheck_ticket_def guard_simps Let_def)

lemma ticketD:
  assumes "verify_service_config_ticket lib schema opts now token = Inr c"
  obtains v where "verified_claims lib ticket_header (to_source opts)
       \<lparr>ck_issuer = Some (to_issuer opts), ck_audience = Some config_ticket_audience,
        ck_tolerance = tolerance_of (to_tolerance opts)\<rparr> token = Inr v"
    "schema v = Some c" "recheck_ticket opts now c = Inr c"
  using assms
  by (auto simp: verify_service_config_ticket_def guard_simps recheck_ticket_Inr split: option.splits)

lemma envelopeD:
  assumes "verify_envelope_of kind schema lib opts token = Inr c"
  obtains claims where "verify_typed_token lib opts token = Inr claims"
    "header_field claims ''tokenType'' = Some (JStr kind)" "schema claims = Some c"
  using assms by (auto simp: verify_envelope_of_def guard_simps split: option.splits)

lemma verified_claims_gate:
  "lib_decode lib (hd (js_split (CHR ''.'') token)) = Some h \<Longrightarrow> \<exists>e. gate h = Inl e \<Longrightarrow>
   \<exists>e. verified_claims lib gate src check token = Inl e"
  by (cases "verified_claims lib gate src check token") (auto elim!: verified_claimsD)

section \<open>A sample library\<close>

text \<open>One signed token \<open>h.p.s\<close> under the key \<open>pem\<close>, for the applications below.\<close>

definition sample_header :: json where
  "sample_header = JObj [(''alg'', JStr ''RS256''), (''typ'', JStr ''JWT''), (''kid'', JStr ''k1'')]"

definition sample_claims :: jwt_claims where
  "sample_claims = \<lparr>jc_iss = ''iss'', jc_aud = One_audience ''aud'', jc_sub = ''u'', jc_exp = 200, jc_iat = 100,
     jc_nbf = None, jc_jti = ''j'', jc_realm = ''runtime'', jc_tenant_id = ''t1'', jc_app_id = ''a1'',
     jc_roles = [''editor''], jc_token_type = Access, jc_auth_provider = None, jc_refresh_context = None,
     jc_elevation = None, jc_session_id = None, jc_session_version = None, jc_provider_subject = None, jc_provider = None,
     jc_name = None, jc_email = None, jc_picture = None\<rparr>"

definition sample_library :: jwt_library where
  "sample_library =
     \<lparr>lib_decode = (\<lambda>e. if e = ''h'' then Some sample_header
        else if e = ''x'' then Some (JObj [(''alg'', JStr ''none'')]) else None),
      lib_verify = (\<lambda>t pem ck. if t = ''h.p.s'' \<and> pem = ''pem'' then Inr (JObj [(''sub'', JStr ''u'')]) else Inl ''bad''),
      lib_jwt_claims = (\<lambda>j. Some sample_claims)\<rparr>"

definition sample_resolver :: key_source where
  "sample_resolver = Resolver (\<lambda>kid. if kid = ''k1'' then Inr ''pem'' else Inl ''unknown'')"

definition sample_options :: verify_options where
  "sample_options = \<lparr>vj_source = sample_resolver, vj_issuer = ''iss'', vj_audience = ''aud'',
     vj_token_type = Some Access, vj_tolerance = None\<rparr>"

definition sample_ticket :: ticket_claims where
  "sample_ticket = \<lparr>tk_iss = ''iss'', tk_aud = Audiences [config_ticket_audience], tk_sub = ''cp'', tk_exp = 200,
     tk_iat = 100, tk_jti = ''j'', tk_tenant_id = ''t1'', tk_service_id = ''s1'', tk_binding_id = None,
     tk_actions = [Config_read, Config_write]\<rparr>"

definition sample_ticket_options :: ticket_options where
  "sample_ticket_options = \<lparr>to_source = sample_resolver, to_issuer = ''iss'', to_service_id = ''s1'', to_tolerance = None\<rparr>"

lemmas sample_defs = sample_header_def sample_claims_def sample_library_def sample_resolver_def sample_options_def
  sample_ticket_def sample_ticket_options_def

lemmas verify_defs = verified_claims_def token_parts_def parse_header_def jwt_header_def ticket_header_def
  has_reference_def kid_pattern_def kid_char_def find_key_def verify_rs256_def tolerance_of_def audience_list_def

lemma sample_verifies: "verify_jwt sample_library sample_options 150 ''h.p.s'' = Inr sample_claims"
  by (simp add: verify_jwt_def verify_defs recheck_claims_def sample_defs ensure_def is_alnum_def is_alpha_def is_digit_def char_between_def Let_def)

section \<open>Properties\<close>

text \<open>
  C1: a token that \<open>verifyJwt\<close> accepts has three parts; its header pins RS256, carries no
  key reference and names a well-formed key id; the signature verified under the key found
  for that id; and the returned claims are the verified ones, unexpired, already valid, from
  the expected issuer, for the expected audience and token type, with a tenant, an app and
  no empty role.
\<close>
theorem verify_jwt_sound:
  assumes "verify_jwt lib opts now token = Inr c"
  shows "\<exists>h kid pem v. length (js_split (CHR ''.'') token) = 3 \<and>
    lib_decode lib (hd (js_split (CHR ''.'') token)) = Some h \<and>
    header_field h ''alg'' = Some (JStr ''RS256'') \<and> header_field h ''typ'' = Some (JStr ''JWT'') \<and>
    \<not> has_reference h \<and> header_field h ''kid'' = Some (JStr kid) \<and> kid_pattern kid \<and> length kid \<le> 256 \<and>
    find_key (vj_source opts) kid = Inr pem \<and> lib_verify lib token pem (jwt_check_of opts) = Inr v \<and>
    lib_jwt_claims lib v = Some c \<and>
    now - tolerance_of (vj_tolerance opts) < jc_exp c \<and>
    (\<forall>n. jc_nbf c = Some n \<longrightarrow> n \<le> now + tolerance_of (vj_tolerance opts)) \<and>
    jc_iss c = vj_issuer opts \<and> vj_audience opts \<in> set (audience_list (jc_aud c)) \<and>
    jc_tenant_id c \<noteq> [] \<and> jc_app_id c \<noteq> [] \<and> [] \<notin> set (jc_roles c) \<and>
    (\<forall>t. vj_token_type opts = Some t \<longrightarrow> jc_token_type c = t)"
proof -
  from assms obtain v where v: "verified_claims lib jwt_header (vj_source opts) (jwt_check_of opts) token = Inr v"
    and c: "lib_jwt_claims lib v = Some c" "recheck_claims opts now c = Inr c"
    by (auto simp: verify_jwt_def guard_simps recheck_claims_Inr split: option.splits)
  from v obtain h kid pem where "length (js_split (CHR ''.'') token) = 3"
    "lib_decode lib (hd (js_split (CHR ''.'') token)) = Some h" "jwt_header h = Inr kid"
    "find_key (vj_source opts) kid = Inr pem" "lib_verify lib token pem (jwt_check_of opts) = Inr v"
    by (elim verified_claimsD)
  moreover from \<open>jwt_header h = Inr kid\<close> have "header_field h ''typ'' = Some (JStr ''JWT'')" "length kid \<le> 256"
    by (auto simp: jwt_header_def guard_simps split: option.splits json.splits)
  ultimately show ?thesis
    using c jwt.accepts [of h kid] recheck_claims_Inr [of opts now c c] by blast
qed

theorem verify_jwt_sound_witness:
  "\<exists>kid pem. kid_pattern kid \<and> find_key sample_resolver kid = Inr pem \<and> jc_tenant_id sample_claims \<noteq> []"
  using verify_jwt_sound [OF sample_verifies] by (auto simp: sample_options_def)

text \<open>A header that names another algorithm or refers to a key of its own.\<close>

definition untrusted_header :: "json \<Rightarrow> bool" where
  "untrusted_header h \<longleftrightarrow> header_field h ''alg'' \<noteq> Some (JStr ''RS256'') \<or> has_reference h"

lemma gates_reject:
  assumes "untrusted_header h"
  shows "\<exists>e. jwt_header h = Inl e" "\<exists>e. envelope_header h = Inl e" "\<exists>e. ticket_header h = Inl e"
    "\<exists>e. oidc_header h = Inl e" "\<exists>e. service_header h = Inl e"
  using assms jwt.rejects_algorithm jwt.rejects_reference envelope.rejects_algorithm envelope.rejects_reference
    ticket.rejects_algorithm ticket.rejects_reference oidc.rejects_algorithm oidc.rejects_reference
    service.rejects_algorithm service.rejects_reference by (auto simp: untrusted_header_def)

lemma verifiers_reject:
  assumes "lib_decode lib (hd (js_split (CHR ''.'') token)) = Some h" "untrusted_header h"
  shows "\<exists>e. verify_jwt lib opts now token = Inl e" "\<exists>e. verify_typed_token lib eopts token = Inl e"
    "\<exists>e. verify_service_config_ticket lib schema topts now token = Inl e"
    "\<exists>e. verify_external_oidc_token lib oopts token = Inl e"
proof -
  have g: "\<exists>e. verified_claims lib jwt_header src check token = Inl e"
    "\<exists>e. verified_claims lib envelope_header src check token = Inl e"
    "\<exists>e. verified_claims lib ticket_header src check token = Inl e" for src check
    using gates_reject(1-3) [OF assms(2)] by (simp_all add: verified_claims_gate [OF assms(1)])
  show "\<exists>e. verify_jwt lib opts now token = Inl e" "\<exists>e. verify_typed_token lib eopts token = Inl e"
    "\<exists>e. verify_service_config_ticket lib schema topts now token = Inl e"
    using g(1) [of "vj_source opts" "jwt_check_of opts"] g(2) [of "ve_source eopts"] g(3) [of "to_source topts"]
    by (simp_all add: verify_jwt_def verify_typed_token_def verify_service_config_ticket_def) (metis res_bind.simps(1))+
  show "\<exists>e. verify_external_oidc_token lib oopts token = Inl e"
    using gates_reject(4) [OF assms(2)]
    by (auto simp: verify_external_oidc_token_def parse_oidc_header_def assms(1) ensure_def split: json.splits)
qed

text \<open>
  A config ticket that \<open>verifyServiceConfigTicket\<close> accepts was verified under the key
  its header names, for the control plane's issuer and the config audience; it is for this
  very service, was not issued in the future, has a positive lifetime and has not expired.
\<close>
theorem config_ticket_sound:
  assumes "verify_service_config_ticket lib schema opts now token = Inr c"
  shows "(\<exists>h kid pem v. lib_decode lib (hd (js_split (CHR ''.'') token)) = Some h \<and> ticket_header h = Inr kid \<and>
      find_key (to_source opts) kid = Inr pem \<and>
      lib_verify lib token pem \<lparr>ck_issuer = Some (to_issuer opts), ck_audience = Some config_ticket_audience,
        ck_tolerance = tolerance_of (to_tolerance opts)\<rparr> = Inr v \<and> schema v = Some c) \<and>
    tk_service_id c = to_service_id opts \<and> tk_iss c = to_issuer opts \<and>
    config_ticket_audience \<in> set (audience_list (tk_aud c)) \<and>
    now - tolerance_of (to_tolerance opts) < tk_exp c \<and> tk_iat c \<le> now + tolerance_of (to_tolerance opts) \<and>
    tk_iat c < tk_exp c"
  using assms by (elim ticketD verified_claimsD) (auto simp: recheck_ticket_Inr)

end
