(* ===== verification/ServiceToken.thy ===== *)
theory ServiceToken
  imports Tokens
begin

text \<open>
  \<open>runtime/auth/serviceToken.ts\<close>: short-lived tokens between services, checked against
  the policy the control plane synced (\<open>ScopedM2MConfig\<close> of \<open>contracts/controlPlane.ts\<close>,
  bindings and grants of \<open>contracts/platformConfig.ts\<close>).
\<close>

datatype service_error = Unauthorized string | Forbidden string | Malformed string

record service_token_claims =
  stc_iss :: string
  stc_sub :: string
  stc_aud :: string
  stc_tenant_id :: string
  stc_app_id :: string
  stc_binding_id :: string
  stc_iat :: int
  stc_nbf :: "int option"
  stc_exp :: int
  stc_jti :: string

record m2m_service =
  m2_id :: string
  m2_service_id :: "string option"
  m2_hostname :: string
  m2_public_key_pem :: "string option"
  m2_key_id :: "string option"

record m2m_policy =
  po_local_service_ids :: "string list"
  po_services :: "m2m_service list"
  po_bindings :: "m2m_binding list"
  po_grants :: "m2m_grant list"

definition max_lifetime :: int where "max_lifetime = 60"

section \<open>Signing\<close>

record sign_service_options =
  so_source_service_id :: string
  so_target_service_id :: string
  so_tenant_id :: string
  so_app_id :: string
  so_binding_id :: string
  so_expires_in :: "js_num option"

definition service_lifetime :: "js_num option \<Rightarrow> service_error + int" where
  "service_lifetime n =
     (let bad = Inl (Unauthorized ''Service token lifetime must be between 1 and 60 seconds'')
      in case n of
           None \<Rightarrow> Inr max_lifetime
         | Some Not_finite \<Rightarrow> bad
         | Some (Finite r) \<Rightarrow>
             (case int_of_rat r of None \<Rightarrow> bad
              | Some l \<Rightarrow> if l < 1 \<or> l > max_lifetime then bad else Inr l))"

definition service_claims :: "sign_service_options \<Rightarrow> int \<Rightarrow> string \<Rightarrow> service_error + service_token_claims" where
  "service_claims opts now jti =
     res_bind (service_lifetime (so_expires_in opts)) (\<lambda>lifetime.
     Inr \<lparr>stc_iss = so_source_service_id opts, stc_sub = so_source_service_id opts, stc_aud = so_target_service_id opts,
          stc_tenant_id = so_tenant_id opts, stc_app_id = so_app_id opts, stc_binding_id = so_binding_id opts,
          stc_iat = now, stc_nbf = Some now, stc_exp = now + lifetime, stc_jti = jti\<rparr>)"

section \<open>Reading a token\<close>

definition read_json_part :: "jwt_library \<Rightarrow> string \<Rightarrow> string \<Rightarrow> service_error + json" where
  "read_json_part lib label part =
     (case lib_decode lib part of
        None \<Rightarrow> Inl (Malformed (''Service token '' @ label @ '' is invalid''))
      | Some (JObj kvs) \<Rightarrow> Inr (JObj kvs)
      | Some _ \<Rightarrow> Inl (Malformed (''Service token '' @ label @ '' is not an object'')))"

definition service_token_part :: "jwt_library \<Rightarrow> nat \<Rightarrow> string \<Rightarrow> string \<Rightarrow> service_error + json" where
  "service_token_part lib i label token =
     ensure (length (js_split (CHR ''.'') token) = 3) (Malformed ''Service token must have three parts'')
     (read_json_part lib label (js_split (CHR ''.'') token ! i))"

definition is_service_token :: "jwt_library \<Rightarrow> string \<Rightarrow> bool" where
  "is_service_token lib token =
     (case service_token_part lib 0 ''header'' token of
        Inl e \<Rightarrow> False | Inr h \<Rightarrow> header_field h ''typ'' = Some (JStr ''BP-S2S-JWT''))"

section \<open>Authorization\<close>

record authorize_options =
  ao_policy :: m2m_policy
  ao_tenant_id :: string
  ao_app_id :: string
  ao_view_id :: string
  ao_method :: http_method
  ao_mode :: m2m_mode
  ao_source_service_id :: string
  ao_required_permissions :: "string list"
  ao_tolerance :: "int option"

definition gate_service_header :: "json \<Rightarrow> service_error + string" where
  "gate_service_header h =
     (case service_header h of
        Inl Untrusted_reference \<Rightarrow> Inl (Unauthorized ''Service token contains an untrusted key reference'')
      | Inl _ \<Rightarrow> Inl (Unauthorized ''Invalid service token header'')
      | Inr kid \<Rightarrow> Inr kid)"

definition untrusted_issuer :: "json \<Rightarrow> string" where
  "untrusted_issuer p = (case header_field p ''iss'' of Some (JStr s) \<Rightarrow> s | _ \<Rightarrow> [])"

definition trusted_key :: "m2m_policy \<Rightarrow> string \<Rightarrow> string \<Rightarrow> string option" where
  "trusted_key pol source kid =
     (case List.find (\<lambda>s. m2_id s = source \<and> m2_key_id s = Some kid \<and> m2_public_key_pem s \<noteq> None) (po_services pol) of
        None \<Rightarrow> None
      | Some s \<Rightarrow> if truthy (m2_public_key_pem s) then m2_public_key_pem s else None)"

definition same_app :: "string option \<Rightarrow> string \<Rightarrow> bool" where
  "same_app a i \<longleftrightarrow> \<not> truthy a \<or> a = Some i"

definition binding_matches :: "authorize_options \<Rightarrow> service_token_claims \<Rightarrow> m2m_binding \<Rightarrow> bool" where
  "binding_matches opts c b \<longleftrightarrow>
     mbd_enabled b \<and> mbd_id b = stc_binding_id c \<and> mbd_source_service_id b = stc_iss c \<and>
     mbd_target_service_id b = stc_aud c \<and> mbd_mode b = ao_mode opts \<and> mbd_tenant_id b = stc_tenant_id c \<and>
     same_app (mbd_app_id b) (stc_app_id c) \<and> mbd_target_view_id b = ao_view_id opts"

definition grant_matches :: "authorize_options \<Rightarrow> service_token_claims \<Rightarrow> m2m_binding \<Rightarrow> m2m_grant \<Rightarrow> bool" where
  "grant_matches opts c b g \<longleftrightarrow>
     mg_enabled g \<and> mg_binding_id g = mbd_id b \<and> mg_tenant_id g = stc_tenant_id c \<and>
     same_app (mg_app_id g) (stc_app_id c) \<and> ao_method opts \<in> set (mg_methods g)"

definition check_service_claims ::
    "authorize_options \<Rightarrow> service_token_claims \<Rightarrow> service_error + service_token_claims \<times> string list" where
  "check_service_claims opts c =
     ensure (stc_sub c = stc_iss c) (Unauthorized ''Service token subject does not match issuer'')
     (ensure (stc_iss c = ao_source_service_id opts) (Unauthorized ''Service token source does not match request headers'')
     (ensure (\<not> stc_exp c - stc_iat c > max_lifetime) (Unauthorized ''Service token lifetime exceeds the maximum'')
     (ensure (stc_aud c \<in> set (po_local_service_ids (ao_policy opts))) (Unauthorized ''Service token targets another service'')
     (ensure (\<not> (stc_tenant_id c \<noteq> ao_tenant_id opts \<or> stc_app_id c \<noteq> ao_app_id opts))
       (Unauthorized ''Service token is bound to another tenant/app'')
     (case List.find (binding_matches opts c) (po_bindings (ao_policy opts)) of
        None \<Rightarrow> Inl (Forbidden ''Service binding is unavailable'')
      | Some b \<Rightarrow>
          (case List.find (grant_matches opts c b) (po_grants (ao_policy opts)) of
             None \<Rightarrow> Inl (Forbidden ''Service grant is unavailable'')
           | Some g \<Rightarrow>
               ensure (list_all (\<lambda>p. p \<in> set (mg_permissions g)) (ao_required_permissions opts))
                 (Forbidden ''Service grant has insufficient permissions'')
               (Inr (c, mg_permissions g))))))))"

definition authorize_service_token ::
    "jwt_library \<Rightarrow> (json \<Rightarrow> service_token_claims option) \<Rightarrow> authorize_options \<Rightarrow> string \<Rightarrow>
     service_error + service_token_claims \<times> string list" where
  "authorize_service_token lib schema opts token =
     res_bind (service_token_part lib 0 ''header'' token) (\<lambda>h.
     res_bind (gate_service_header h) (\<lambda>kid.
     res_bind (service_token_part lib 1 ''payload'' token) (\<lambda>untrusted.
     (case trusted_key (ao_policy opts) (untrusted_issuer untrusted) kid of
        None \<Rightarrow> Inl (Unauthorized ''Service signing key is not trusted'')
      | Some pem \<Rightarrow>
          (case lib_verify lib token pem
                  \<lparr>ck_issuer = None, ck_audience = None,
                   ck_tolerance = (case ao_tolerance opts of None \<Rightarrow> 5 | Some t \<Rightarrow> t)\<rparr> of
             Inl m \<Rightarrow> Inl (Unauthorized (''Service token verification failed: '' @ m))
           | Inr verified \<Rightarrow>
               (case schema verified of
                  None \<Rightarrow> Inl (Malformed ''Service token claims are invalid'')
                | Some c \<Rightarrow> check_service_claims opts c))))))"

section \<open>What an authorized call guarantees\<close>

definition authorizes :: "authorize_options \<Rightarrow> service_token_claims \<Rightarrow> string list \<Rightarrow> bool" where
  "authorizes opts c perms \<longleftrightarrow>
     stc_sub c = stc_iss c \<and> stc_iss c = ao_source_service_id opts \<and> stc_exp c - stc_iat c \<le> max_lifetime \<and>
     stc_aud c \<in> set (po_local_service_ids (ao_policy opts)) \<and>
     stc_tenant_id c = ao_tenant_id opts \<and> stc_app_id c = ao_app_id opts \<and>
     (\<exists>b\<in>set (po_bindings (ao_policy opts)). binding_matches opts c b \<and>
        (\<exists>g\<in>set (po_grants (ao_policy opts)). grant_matches opts c b g \<and> perms = mg_permissions g \<and>
           set (ao_required_permissions opts) \<subseteq> set perms))"

lemma check_service_claims_Inr:
  "check_service_claims opts c = Inr (d, perms) \<Longrightarrow> d = c \<and> authorizes opts c perms"
  unfolding check_service_claims_def authorizes_def
  by (auto simp: guard_simps list_all_iff split: option.splits dest!: find_SomeD)

lemma authorize_service_tokenD:
  assumes "authorize_service_token lib schema opts token = Inr (c, perms)"
  obtains s kid payload pem v where "s \<in> set (po_services (ao_policy opts))" "m2_id s = untrusted_issuer payload"
    "m2_key_id s = Some kid" "m2_public_key_pem s = Some pem"
    "lib_decode lib (js_split (CHR ''.'') token ! 1) = Some payload"
    "lib_verify lib token pem
       \<lparr>ck_issuer = None, ck_audience = None, ck_tolerance = (case ao_tolerance opts of None \<Rightarrow> 5 | Some t \<Rightarrow> t)\<rparr> = Inr v"
    "schema v = Some c" "authorizes opts c perms"
proof -
  from assms obtain payload kid pem v where k: "trusted_key (ao_policy opts) (untrusted_issuer payload) kid = Some pem"
    and p: "service_token_part lib 1 ''payload'' token = Inr payload"
    and v: "lib_verify lib token pem
       \<lparr>ck_issuer = None, ck_audience = None, ck_tolerance = (case ao_tolerance opts of None \<Rightarrow> 5 | Some t \<Rightarrow> t)\<rparr> = Inr v"
    and c: "schema v = Some c" "authorizes opts c perms"
    unfolding authorize_service_token_def
    by (fastforce simp: guard_simps case_sum_Inr case_option_Inr dest!: check_service_claims_Inr)
  from p have "lib_decode lib (js_split (CHR ''.'') token ! 1) = Some payload"
    by (auto simp: service_token_part_def read_json_part_def guard_simps split: option.splits json.splits)
  moreover from k obtain s where "s \<in> set (po_services (ao_policy opts))" "m2_public_key_pem s = Some pem"
      "m2_id s = untrusted_issuer payload" "m2_key_id s = Some kid"
    by (auto simp: trusted_key_def split: option.splits if_splits dest!: find_SomeD)
  ultimately show ?thesis using v c that by metis
qed

lemma service_claims_lifetime:
  "service_claims opts now jti = Inr c \<Longrightarrow>
     1 \<le> stc_exp c - stc_iat c \<and> stc_exp c - stc_iat c \<le> max_lifetime \<and> stc_sub c = stc_iss c"
  by (auto simp: service_claims_def service_lifetime_def guard_simps Let_def max_lifetime_def
      split: option.splits js_num.splits if_splits)

section \<open>A sample policy\<close>

definition sample_service :: m2m_service where
  "sample_service = \<lparr>m2_id = ''src'', m2_service_id = None, m2_hostname = ''https://src.example'',
     m2_public_key_pem = Some ''pem'', m2_key_id = Some ''k1''\<rparr>"

definition sample_policy :: m2m_policy where
  "sample_policy = \<lparr>po_local_service_ids = [''dst''], po_services = [sample_service],
     po_bindings = [\<lparr>mbd_id = ''b'', mbd_tenant_id = ''t'', mbd_app_id = None, mbd_source_service_id = ''src'', mbd_request_id = ''req'',
       mbd_contract_id = ''c'',
       mbd_target_service_id = ''dst'', mbd_target_view_id = ''view'', mbd_mode = Service_to_service, mbd_enabled = True,
       mbd_created_at = ''''\<rparr>],
     po_grants = [\<lparr>mg_id = ''g'', mg_tenant_id = ''t'', mg_app_id = None, mg_binding_id = ''b'', mg_methods = [GET],
       mg_permissions = [''read''], mg_enabled = True, mg_created_at = ''''\<rparr>]\<rparr>"

definition sample_service_claims :: service_token_claims where
  "sample_service_claims = \<lparr>stc_iss = ''src'', stc_sub = ''src'', stc_aud = ''dst'', stc_tenant_id = ''t'', stc_app_id = ''a'',
     stc_binding_id = ''b'', stc_iat = 100, stc_nbf = Some 100, stc_exp = 160, stc_jti = ''j''\<rparr>"

definition sample_payload :: json where "sample_payload = JObj [(''iss'', JStr ''src'')]"

definition sample_service_library :: jwt_library where
  "sample_service_library =
     \<lparr>lib_decode = (\<lambda>e. if e = ''h'' then Some (JObj [(''alg'', JStr ''RS256''), (''typ'', JStr ''BP-S2S-JWT''), (''kid'', JStr ''k1'')])
        else if e = ''p'' then Some sample_payload else None),
      lib_verify = (\<lambda>t pem ck. if t = ''h.p.s'' \<and> pem = ''pem'' then Inr sample_payload else Inl ''bad''),
      lib_jwt_claims = (\<lambda>j. None)\<rparr>"

definition sample_service_schema :: "json \<Rightarrow> service_token_claims option" where
  "sample_service_schema j = (if j = sample_payload then Some sample_service_claims else None)"

definition sample_authorize :: authorize_options where
  "sample_authorize = \<lparr>ao_policy = sample_policy, ao_tenant_id = ''t'', ao_app_id = ''a'', ao_view_id = ''view'',
     ao_method = GET, ao_mode = Service_to_service, ao_source_service_id = ''src'',
     ao_required_permissions = [''read''], ao_tolerance = None\<rparr>"

lemmas sample_service_defs = sample_service_def sample_policy_def sample_service_claims_def sample_payload_def
  sample_service_library_def sample_service_schema_def sample_authorize_def

lemma sample_authorized:
  "authorize_service_token sample_service_library sample_service_schema sample_authorize ''h.p.s'' =
     Inr (sample_service_claims, [''read''])"
proof -
  have "service_token_part sample_service_library 0 ''header'' ''h.p.s'' =
      Inr (JObj [(''alg'', JStr ''RS256''), (''typ'', JStr ''BP-S2S-JWT''), (''kid'', JStr ''k1'')])"
    "service_token_part sample_service_library 1 ''payload'' ''h.p.s'' = Inr sample_payload"
    by (simp_all add: service_token_part_def read_json_part_def ensure_def sample_service_library_def sample_payload_def)
  moreover have "gate_service_header (JObj [(''alg'', JStr ''RS256''), (''typ'', JStr ''BP-S2S-JWT''), (''kid'', JStr ''k1'')]) = Inr ''k1''"
    by (simp add: gate_service_header_def service_header_def ensure_def has_reference_def kid_pattern_def kid_char_def
        is_alnum_def is_alpha_def is_digit_def char_between_def)
  moreover have "trusted_key (ao_policy sample_authorize) (untrusted_issuer sample_payload) ''k1'' = Some ''pem''"
    by (simp add: trusted_key_def untrusted_issuer_def sample_service_defs)
  moreover have "check_service_claims sample_authorize sample_service_claims = Inr (sample_service_claims, [''read''])"
    by (simp add: check_service_claims_def ensure_def binding_matches_def grant_matches_def same_app_def
        max_lifetime_def sample_service_defs)
  ultimately show ?thesis
    by (simp add: authorize_service_token_def sample_service_library_def sample_service_schema_def)
qed

section \<open>Properties\<close>

text \<open>
  C2: an authorized service call was signed by the service it names. With a JWT library that
  returns the payload of the token it verified and a claims schema that keeps the issuer, an
  accepted token verified under the public key that the synced policy registers for exactly
  its issuer and key id; issuer, subject and the caller's headers agree; it lives at most a
  minute, is for this service, tenant and app; and an enabled binding for the called view and
  mode together with an enabled grant for the method carries every required permission.
\<close>
theorem authorize_service_token_sound:
  assumes "authorize_service_token lib schema opts token = Inr (c, perms)"
    and "\<forall>t pem ck v. lib_verify lib t pem ck = Inr v \<longrightarrow> lib_decode lib (js_split (CHR ''.'') t ! 1) = Some v"
    and "\<forall>v d. schema v = Some d \<longrightarrow> header_field v ''iss'' = Some (JStr (stc_iss d))"
  shows "(\<exists>s kid pem v. s \<in> set (po_services (ao_policy opts)) \<and> m2_id s = stc_iss c \<and> m2_key_id s = Some kid \<and>
      m2_public_key_pem s = Some pem \<and>
      lib_verify lib token pem \<lparr>ck_issuer = None, ck_audience = None,
        ck_tolerance = (case ao_tolerance opts of None \<Rightarrow> 5 | Some t \<Rightarrow> t)\<rparr> = Inr v \<and> schema v = Some c) \<and>
    stc_sub c = stc_iss c \<and> stc_iss c = ao_source_service_id opts \<and> stc_exp c - stc_iat c \<le> 60 \<and>
    stc_aud c \<in> set (po_local_service_ids (ao_policy opts)) \<and>
    stc_tenant_id c = ao_tenant_id opts \<and> stc_app_id c = ao_app_id opts \<and>
    (\<exists>b\<in>set (po_bindings (ao_policy opts)). \<exists>g\<in>set (po_grants (ao_policy opts)).
       mbd_enabled b \<and> mg_enabled g \<and> mbd_id b = stc_binding_id c \<and> mg_binding_id g = mbd_id b \<and>
       mbd_source_service_id b = stc_iss c \<and> mbd_target_service_id b = stc_aud c \<and>
       mbd_target_view_id b = ao_view_id opts \<and> mbd_mode b = ao_mode opts \<and>
       mbd_tenant_id b = ao_tenant_id opts \<and> mg_tenant_id g = ao_tenant_id opts \<and>
       ao_method opts \<in> set (mg_methods g) \<and> perms = mg_permissions g \<and>
       set (ao_required_permissions opts) \<subseteq> set perms)"
proof -
  obtain s kid payload pem v where s: "s \<in> set (po_services (ao_policy opts))" "m2_id s = untrusted_issuer payload"
    "m2_key_id s = Some kid" "m2_public_key_pem s = Some pem"
    and p: "lib_decode lib (js_split (CHR ''.'') token ! 1) = Some payload"
    and v: "lib_verify lib token pem
       \<lparr>ck_issuer = None, ck_audience = None, ck_tolerance = (case ao_tolerance opts of None \<Rightarrow> 5 | Some t \<Rightarrow> t)\<rparr> = Inr v"
    and c: "schema v = Some c" "authorizes opts c perms"
    by (rule authorize_service_tokenD [OF assms(1)])
  have "v = payload" using assms(2) v p by force
  then have "untrusted_issuer payload = stc_iss c" using assms(3) c(1) by (auto simp: untrusted_issuer_def)
  with s v c(1) have "\<exists>s kid pem v. s \<in> set (po_services (ao_policy opts)) \<and> m2_id s = stc_iss c \<and>
      m2_key_id s = Some kid \<and> m2_public_key_pem s = Some pem \<and>
      lib_verify lib token pem \<lparr>ck_issuer = None, ck_audience = None,
        ck_tolerance = (case ao_tolerance opts of None \<Rightarrow> 5 | Some t \<Rightarrow> t)\<rparr> = Inr v \<and> schema v = Some c"
    by (intro exI [of _ s] exI [of _ kid] exI [of _ pem] exI [of _ v] conjI) simp_all
  with c(2) show ?thesis
    unfolding authorizes_def max_lifetime_def by (fastforce simp: binding_matches_def grant_matches_def)
qed

theorem authorize_service_token_sound_witness:
  "\<exists>s \<in> set (po_services sample_policy). m2_id s = stc_iss sample_service_claims"
proof -
  have "\<forall>t pem ck v. lib_verify sample_service_library t pem ck = Inr v \<longrightarrow>
      lib_decode sample_service_library (js_split (CHR ''.'') t ! 1) = Some v"
    by (auto simp: sample_service_library_def split: if_splits)
  moreover have "\<forall>v d. sample_service_schema v = Some d \<longrightarrow> header_field v ''iss'' = Some (JStr (stc_iss d))"
    by (simp add: sample_service_schema_def sample_payload_def sample_service_claims_def)
  ultimately show ?thesis
    using authorize_service_token_sound [OF sample_authorized] by (auto simp: sample_authorize_def)
qed

text \<open>
  A service token that \<open>signServiceToken\<close> issues lives between one second and a minute,
  whatever lifetime was asked for (a fraction, a non-finite number and everything outside the
  range is refused), and never longer than a verifier accepts.
\<close>
theorem service_token_lifetime_bounded:
  "case service_claims opts now jti of
     Inl e \<Rightarrow> (\<exists>n. so_expires_in opts = Some n \<and> \<not> (\<exists>l. n = Finite (of_int l) \<and> 1 \<le> l \<and> l \<le> 60))
   | Inr c \<Rightarrow> 1 \<le> stc_exp c - stc_iat c \<and> stc_exp c - stc_iat c \<le> 60 \<and> stc_sub c = stc_iss c \<and> stc_iat c = now"
proof (cases "so_expires_in opts")
  case None
  then show ?thesis by (simp add: service_claims_def service_lifetime_def max_lifetime_def Let_def)
next
  case (Some n)
  show ?thesis
  proof (cases n)
    case Not_finite
    with Some show ?thesis by (simp add: service_claims_def service_lifetime_def Let_def)
  next
    case (Finite r)
    with Some show ?thesis
      by (cases "int_of_rat r")
         (auto simp: service_claims_def service_lifetime_def max_lifetime_def Let_def int_of_rat_Some)
  qed
qed

text \<open>
  C33: no verifier looks at anything but the algorithm it pins: a token whose header names
  another algorithm than RS256, or points at a key (\<open>jku\<close>, \<open>x5u\<close>), is rejected by
  \<open>verifyJwt\<close>, \<open>verifyTypedToken\<close>, \<open>verifyServiceConfigTicket\<close>,
  \<open>verifyExternalOidcToken\<close> and \<open>authorizeServiceToken\<close>, whatever the library says
  about its signature and whatever keys and policies they are given.
\<close>
theorem untrusted_header_rejected:
  assumes "lib_decode lib (hd (js_split (CHR ''.'') token)) = Some h"
    and "header_field h ''alg'' \<noteq> Some (JStr ''RS256'') \<or> header_field h ''jku'' \<noteq> None \<or> header_field h ''x5u'' \<noteq> None"
  shows "(\<exists>e. verify_jwt lib opts now token = Inl e) \<and> (\<exists>e. verify_typed_token lib eopts token = Inl e) \<and>
    (\<exists>e. verify_service_config_ticket lib schema topts now token = Inl e) \<and>
    (\<exists>e. verify_external_oidc_token lib oopts token = Inl e) \<and>
    (\<exists>e. authorize_service_token lib sschema aopts token = Inl e)"
proof -
  have u: "untrusted_header h" using assms(2) by (auto simp: untrusted_header_def has_reference_def)
  have "js_split (CHR ''.'') token ! 0 = hd (js_split (CHR ''.'') token)"
    if "length (js_split (CHR ''.'') token) = 3" using that by (cases "js_split (CHR ''.'') token") simp_all
  moreover have "\<exists>e. gate_service_header h = Inl e"
    using gates_reject(5) [OF u] by (auto simp: gate_service_header_def split: token_error.splits)
  ultimately have "\<exists>e. authorize_service_token lib sschema aopts token = Inl e"
    using assms(1)
    by (auto simp: authorize_service_token_def service_token_part_def read_json_part_def ensure_def split: json.splits)
  then show ?thesis using verifiers_reject [OF assms(1) u] by blast
qed

theorem untrusted_header_rejected_witness:
  "(\<exists>e. verify_jwt sample_library sample_options 150 ''x.p.s'' = Inl e) \<and>
   (\<exists>e. authorize_service_token sample_library sample_service_schema sample_authorize ''x.p.s'' = Inl e)"
  using untrusted_header_rejected [of sample_library "''x.p.s''" "JObj [(''alg'', JStr ''none'')]"]
  by (simp add: sample_library_def)

end
