(* ===== verification/TokenIssuer.thy ===== *)
theory TokenIssuer
  imports Tokens
begin

text \<open>
  \<open>runtime/auth/issuer.ts\<close>, \<open>runtime/auth/elevation.ts\<close> and \<open>signJwt\<close> of
  \<open>runtime/auth/tokens.ts\<close>: which claims a token carries, confirmation receipts, and when
  a session is elevated. Signing and the payload encoder are parameters (\<open>signer\<close>); a
  signing operation returns the claims it signs. \<open>now\<close> is the clock, \<open>fresh\<close> a new UUID.
\<close>

section \<open>Elevation\<close>

definition satisfies_elevation :: "jwt_claims option \<Rightarrow> elevation_requirement \<Rightarrow> int \<Rightarrow> bool" where
  "satisfies_elevation claims req now =
     (case claims of
        None \<Rightarrow> False
      | Some c \<Rightarrow>
          (case jc_elevation c of
             None \<Rightarrow> False
           | Some e \<Rightarrow>
               jc_token_type c = Access \<and> jc_exp c > now \<and> el_verified_at e \<le> now \<and>
               el_verified_at e < el_expires_at e \<and> el_expires_at e > now \<and> el_expires_at e \<le> jc_exp c \<and>
               (eq_minimum req \<noteq> Minimum_mfa \<or> el_assurance e = Mfa) \<and>
               (case eq_max_age req of None \<Rightarrow> True | Some m \<Rightarrow> now - el_verified_at e \<le> m)))"

text \<open>\<open>ElevationRequirementSchema.parse\<close>: a maximal age is at least one second.\<close>

definition elevation_requirement_schema :: "elevation_requirement \<Rightarrow> bool" where
  "elevation_requirement_schema r \<longleftrightarrow> (case eq_max_age r of None \<Rightarrow> True | Some m \<Rightarrow> 1 \<le> m)"

datatype elevation_failure = Invalid_requirement | Elevation_required elevation_requirement

definition require_elevation :: "jwt_claims option \<Rightarrow> elevation_requirement \<Rightarrow> int \<Rightarrow> elevation_failure + unit" where
  "require_elevation claims req now =
     ensure (elevation_requirement_schema req) Invalid_requirement
     (ensure (satisfies_elevation claims req now) (Elevation_required req) (Inr ()))"

section \<open>Issuing\<close>

record issuer_options =
  io_kid :: string
  io_issuer :: string
  io_audience :: string
  io_access_seconds :: int
  io_refresh_seconds :: "int option"

record token_user =
  tu_sub :: string
  tu_tenant_id :: string
  tu_app_id :: string
  tu_roles :: "string list"
  tu_auth_provider :: "string option"
  tu_refresh_context :: "json option"
  tu_session_id :: "string option"
  tu_session_version :: "int option"
  tu_provider_subject :: "string option"
  tu_provider :: "json option"
  tu_name :: "string option"
  tu_email :: "string option"
  tu_picture :: "string option"

definition sign_token ::
    "issuer_options \<Rightarrow> token_user \<Rightarrow> token_type \<Rightarrow> int \<Rightarrow> string \<Rightarrow> elevation_claims option \<Rightarrow> int \<Rightarrow> jwt_claims" where
  "sign_token opts u kind seconds token_id elevation now =
     \<lparr>jc_iss = io_issuer opts, jc_aud = One_audience (io_audience opts), jc_sub = tu_sub u,
      jc_exp = now + seconds, jc_iat = now, jc_nbf = None, jc_jti = token_id, jc_realm = ''runtime'',
      jc_tenant_id = tu_tenant_id u, jc_app_id = tu_app_id u,
      jc_roles = (if kind = Refresh then [] else tu_roles u), jc_token_type = kind,
      jc_auth_provider = tu_auth_provider u,
      jc_refresh_context = (if kind = Refresh then tu_refresh_context u else None),
      jc_elevation = (if kind = Access then elevation else None),
      jc_session_id = (if kind = Access then tu_session_id u else None),
      jc_session_version = (if kind = Access then tu_session_version u else None),
      jc_provider_subject = tu_provider_subject u, jc_provider = tu_provider u, jc_name = tu_name u, jc_email = tu_email u,
      jc_picture = tu_picture u\<rparr>"

text \<open>\<open>signJwt\<close> validates the claims against \<open>JwtClaimsSchema\<close> before it signs them.\<close>

definition elevation_claims_schema :: "elevation_claims \<Rightarrow> bool" where
  "elevation_claims_schema e \<longleftrightarrow> 0 \<le> el_verified_at e \<and> 1 \<le> el_expires_at e"

definition jwt_claims_schema :: "jwt_claims \<Rightarrow> bool" where
  "jwt_claims_schema c \<longleftrightarrow>
     jc_iss c \<noteq> [] \<and> list_all (\<lambda>a. a \<noteq> []) (audience_list (jc_aud c)) \<and> jc_sub c \<noteq> [] \<and>
     1 \<le> jc_exp c \<and> 0 \<le> jc_iat c \<and> all_opt (\<lambda>n. 0 \<le> n) (jc_nbf c) \<and> jc_jti c \<noteq> [] \<and>
     uuid_v7_schema (jc_tenant_id c) \<and> uuid_v7_schema (jc_app_id c) \<and> list_all (\<lambda>r. r \<noteq> []) (jc_roles c) \<and>
     jc_auth_provider c \<noteq> Some [] \<and> all_opt elevation_claims_schema (jc_elevation c) \<and>
     jc_session_id c \<noteq> Some [] \<and> all_opt (\<lambda>n. 0 \<le> n) (jc_session_version c) \<and> jc_provider_subject c \<noteq> Some []"

definition sign_jwt :: "jwt_claims \<Rightarrow> jwt_claims res" where
  "sign_jwt c = ensure (jwt_claims_schema c) ''ValidationError'' (Inr c)"

lemma sign_jwt_Inr [guard_simps]: "sign_jwt c = Inr d \<longleftrightarrow> jwt_claims_schema c \<and> d = c"
  by (auto simp: sign_jwt_def guard_simps)

definition sign_access_token :: "issuer_options \<Rightarrow> token_user \<Rightarrow> string \<Rightarrow> int \<Rightarrow> jwt_claims res" where
  "sign_access_token opts u fresh now = sign_jwt (sign_token opts u Access (io_access_seconds opts) fresh None now)"

text \<open>
  The source reads the clock once for the elevation and once for the token; both readings are taken
  within the same second.
\<close>

definition sign_elevated_access_token ::
    "issuer_options \<Rightarrow> token_user \<Rightarrow> elevation_claims \<Rightarrow> rat \<Rightarrow> string \<Rightarrow> int \<Rightarrow> jwt_claims res" where
  "sign_elevated_access_token opts u e expires_in fresh now =
     (let lifetime = min (io_access_seconds opts) \<lfloor>expires_in\<rfloor>
      in ensure (\<not> (lifetime < 1 \<or> el_verified_at e > now \<or> el_expires_at e > now + lifetime
                    \<or> el_expires_at e \<le> now \<or> el_verified_at e \<ge> el_expires_at e)) ''Invalid elevation lifetime''
         (sign_jwt (sign_token opts u Access lifetime fresh (Some e) now)))"

record token_pair =
  tp_token_id :: string
  tp_access :: jwt_claims
  tp_access_seconds :: int
  tp_refresh :: "(jwt_claims \<times> int) option"

definition issue_token_pair ::
    "issuer_options \<Rightarrow> token_user \<Rightarrow> bool option \<Rightarrow> string \<Rightarrow> int \<Rightarrow> token_pair res" where
  "issue_token_pair opts u include_refresh fresh now =
     res_bind (sign_jwt (sign_token opts u Access (io_access_seconds opts) fresh None now)) (\<lambda>access.
     if include_refresh = Some False
     then Inr \<lparr>tp_token_id = fresh, tp_access = access, tp_access_seconds = io_access_seconds opts, tp_refresh = None\<rparr>
     else
       ensure (truthy (tu_auth_provider u)) ''authProvider is required to issue refresh tokens''
       (ensure (tu_refresh_context u \<noteq> None) ''refreshContext is required to issue refresh tokens''
       (ensure (case io_refresh_seconds opts of None \<Rightarrow> False | Some s \<Rightarrow> s \<noteq> 0)
          ''refreshTokenSeconds is required to issue refresh tokens''
       (res_bind (sign_jwt (sign_token opts u Refresh (the (io_refresh_seconds opts)) fresh None now)) (\<lambda>refresh.
        Inr \<lparr>tp_token_id = fresh, tp_access = access, tp_access_seconds = io_access_seconds opts,
              tp_refresh = Some (refresh, the (io_refresh_seconds opts))\<rparr>)))))"

definition issuer_key :: "issuer_options \<Rightarrow> string \<Rightarrow> string \<Rightarrow> string + string" where
  "issuer_key opts public_pem kid =
     (if kid \<noteq> io_kid opts then Inl ''Unknown signing key'' else Inr public_pem)"

definition issuer_verify_options :: "issuer_options \<Rightarrow> string \<Rightarrow> token_type \<Rightarrow> verify_options" where
  "issuer_verify_options opts public_pem kind =
     \<lparr>vj_source = Resolver (issuer_key opts public_pem), vj_issuer = io_issuer opts, vj_audience = io_audience opts,
      vj_token_type = Some kind, vj_tolerance = None\<rparr>"

datatype refresh_error = Token_failure token_error | Other_tenant

definition verify_refresh_token ::
    "jwt_library \<Rightarrow> issuer_options \<Rightarrow> string \<Rightarrow> string \<Rightarrow> string \<Rightarrow> string \<Rightarrow> int \<Rightarrow> refresh_error + jwt_claims" where
  "verify_refresh_token lib opts public_pem token tenant app now =
     (case verify_jwt lib (issuer_verify_options opts public_pem Refresh) now token of
        Inl e \<Rightarrow> Inl (Token_failure e)
      | Inr c \<Rightarrow> ensure (\<not> (jc_tenant_id c \<noteq> tenant \<or> jc_app_id c \<noteq> app)) Other_tenant (Inr c))"

section \<open>Confirmation receipts\<close>

record signer =
  si_encode :: "json \<Rightarrow> string"
  si_decode :: "string \<Rightarrow> json option"
  si_sign :: "string \<Rightarrow> string"
  si_check :: "string \<Rightarrow> string \<Rightarrow> bool"

definition confirm_purpose :: string where "confirm_purpose = ''bp-confirm-v1''"

definition confirmation_data :: "issuer_options \<Rightarrow> jwt_claims \<Rightarrow> string \<Rightarrow> int \<Rightarrow> json" where
  "confirmation_data opts user nonce now =
     JObj [(''iss'', JStr (io_issuer opts)), (''aud'', JStr (io_audience opts)), (''sub'', JStr (jc_sub user)),
           (''tenantId'', JStr (jc_tenant_id user)), (''appId'', JStr (jc_app_id user)), (''jti'', JStr (jc_jti user)),
           (''nonce'', JStr nonce), (''iat'', JNum (of_int now)), (''exp'', JNum (of_int (min (jc_exp user) (now + 300))))]"

definition sign_confirmation_challenge ::
    "signer \<Rightarrow> issuer_options \<Rightarrow> jwt_claims \<Rightarrow> string \<Rightarrow> int \<Rightarrow> string" where
  "sign_confirmation_challenge sg opts user nonce now =
     (let receipt = confirm_purpose @ ''.'' @ si_encode sg (confirmation_data opts user nonce now)
      in receipt @ ''.'' @ si_sign sg receipt)"

definition safe_field :: "json \<Rightarrow> string \<Rightarrow> int option" where
  "safe_field d k = (case header_field d k of Some (JNum r) \<Rightarrow> safe_integer r | _ \<Rightarrow> None)"

definition receipt_matches :: "issuer_options \<Rightarrow> jwt_claims \<Rightarrow> json \<Rightarrow> bool" where
  "receipt_matches opts user d \<longleftrightarrow>
     header_field d ''iss'' = Some (JStr (io_issuer opts)) \<and> header_field d ''aud'' = Some (JStr (io_audience opts)) \<and>
     header_field d ''sub'' = Some (JStr (jc_sub user)) \<and> header_field d ''tenantId'' = Some (JStr (jc_tenant_id user)) \<and>
     header_field d ''appId'' = Some (JStr (jc_app_id user)) \<and> header_field d ''jti'' = Some (JStr (jc_jti user))"

definition check_receipt :: "issuer_options \<Rightarrow> jwt_claims \<Rightarrow> int \<Rightarrow> json \<Rightarrow> int res" where
  "check_receipt opts user now d =
     (let bad = Inl ''Invalid confirmation receipt''
      in if \<not> receipt_matches opts user d then bad
         else (case (safe_field d ''iat'', safe_field d ''exp'') of
                 (Some iat, Some ex) \<Rightarrow>
                   if iat > now \<or> iat < 0 \<or> ex \<le> now \<or> ex > jc_exp user \<or> ex > iat + 300 then bad else Inr iat
               | _ \<Rightarrow> bad))"

definition verify_confirmation_challenge ::
    "signer \<Rightarrow> issuer_options \<Rightarrow> jwt_claims \<Rightarrow> string \<Rightarrow> int \<Rightarrow> int res" where
  "verify_confirmation_challenge sg opts user receipt now =
     (let bad = Inl ''Invalid confirmation receipt''
      in if length receipt > 8192 then bad
         else (case js_split (CHR ''.'') receipt of
                 [purpose, payload, signature] \<Rightarrow>
                   if purpose \<noteq> confirm_purpose \<or> payload = [] \<or> signature = [] \<or>
                      \<not> si_check sg (purpose @ ''.'' @ payload) signature then bad
                   else (case si_decode sg payload of
                           None \<Rightarrow> Inl ''Unexpected token''
                         | Some d \<Rightarrow> check_receipt opts user now d)
               | _ \<Rightarrow> bad))"

section \<open>Facts about issued tokens\<close>

lemma sign_token_fields:
  "jc_token_type (sign_token opts u k s i e now) = k" "jc_exp (sign_token opts u k s i e now) = now + s"
  "jc_jti (sign_token opts u k s i e now) = i" "jc_iat (sign_token opts u k s i e now) = now"
  "jc_elevation (sign_token opts u k s i e now) = (if k = Access then e else None)"
  "jc_roles (sign_token opts u k s i e now) = (if k = Refresh then [] else tu_roles u)"
  "jc_tenant_id (sign_token opts u k s i e now) = tu_tenant_id u" "jc_app_id (sign_token opts u k s i e now) = tu_app_id u"
  "jc_iss (sign_token opts u k s i e now) = io_issuer opts"
  "jc_aud (sign_token opts u k s i e now) = One_audience (io_audience opts)"
  "jc_nbf (sign_token opts u k s i e now) = None"
  by (simp_all add: sign_token_def)

lemma elevated_Inr:
  "sign_elevated_access_token opts u e x fresh now = Inr c \<longleftrightarrow>
     (let lifetime = min (io_access_seconds opts) \<lfloor>x\<rfloor>
      in 1 \<le> lifetime \<and> el_verified_at e \<le> now \<and> el_expires_at e \<le> now + lifetime \<and> now < el_expires_at e \<and>
         el_verified_at e < el_expires_at e \<and> jwt_claims_schema (sign_token opts u Access lifetime fresh (Some e) now) \<and>
         c = sign_token opts u Access lifetime fresh (Some e) now)"
  by (auto simp: sign_elevated_access_token_def guard_simps Let_def simp del: one_le_floor)

lemma satisfies_iff:
  "satisfies_elevation (Some c) req now \<longleftrightarrow>
     (\<exists>e. jc_elevation c = Some e \<and> jc_token_type c = Access \<and> el_verified_at e \<le> now \<and> now < el_expires_at e \<and>
        el_expires_at e \<le> jc_exp c \<and> (eq_minimum req = Minimum_mfa \<longrightarrow> el_assurance e = Mfa) \<and>
        (\<forall>m. eq_max_age req = Some m \<longrightarrow> now - el_verified_at e \<le> m))"
  by (auto simp: satisfies_elevation_def split: option.splits)

lemma satisfies_earlier:
  assumes "satisfies_elevation (Some c) req later" "now \<le> later" "\<forall>e. jc_elevation c = Some e \<longrightarrow> el_verified_at e \<le> now"
  shows "satisfies_elevation (Some c) req now"
  using assms unfolding satisfies_iff by fastforce

section \<open>Facts about receipts\<close>

lemma check_receipt_Inr:
  "check_receipt opts user now d = Inr t \<longleftrightarrow>
     receipt_matches opts user d \<and> safe_field d ''iat'' = Some t \<and>
     (\<exists>ex. safe_field d ''exp'' = Some ex \<and> 0 \<le> t \<and> t \<le> now \<and> now < ex \<and> ex \<le> jc_exp user \<and> ex \<le> t + 300)"
  by (auto simp: check_receipt_def Let_def split: option.splits)

lemma verify_confirmationD:
  assumes "verify_confirmation_challenge sg opts user receipt now = Inr t"
  obtains payload signature d where "js_split (CHR ''.'') receipt = [confirm_purpose, payload, signature]"
    "si_check sg (confirm_purpose @ ''.'' @ payload) signature" "si_decode sg payload = Some d"
    "check_receipt opts user now d = Inr t"
  using assms
  by (auto simp: verify_confirmation_challenge_def Let_def split: list.splits if_splits option.splits)

definition no_dots :: "string \<Rightarrow> bool" where
  "no_dots s \<longleftrightarrow> s \<noteq> [] \<and> CHR ''.'' \<notin> set s"

lemma split_receipt:
  assumes "no_dots p" "no_dots s"
  shows "js_split (CHR ''.'') (confirm_purpose @ ''.'' @ p @ ''.'' @ s) = [confirm_purpose, p, s]"
proof -
  have "CHR ''.'' \<notin> set confirm_purpose" by (simp add: confirm_purpose_def)
  then show ?thesis
    using assms js_split_append [of "CHR ''.''" p s] js_split_append [of "CHR ''.''" confirm_purpose "p @ CHR ''.'' # s"]
    by (simp add: no_dots_def js_split_single)
qed

lemma confirmation_fields:
  "receipt_matches opts user (confirmation_data opts user nonce now)"
  "safe_field (confirmation_data opts user nonce now) ''iat'' = (if \<bar>now\<bar> \<le> 9007199254740991 then Some now else None)"
  "safe_field (confirmation_data opts user nonce now) ''exp'' =
     (let ex = min (jc_exp user) (now + 300) in if \<bar>ex\<bar> \<le> 9007199254740991 then Some ex else None)"
  unfolding confirmation_data_def receipt_matches_def safe_field_def safe_integer_def
  by (simp_all add: Let_def del: of_int_min of_int_add)

lemma confirmation_roundtrip:
  assumes lib: "si_decode sg (si_encode sg d) = Some d" "\<forall>m. si_check sg m (si_sign sg m)"
    "no_dots (si_encode sg d)" "\<forall>m. no_dots (si_sign sg m)"
    and d: "d = confirmation_data opts user nonce issued"
    and size: "length (sign_confirmation_challenge sg opts user nonce issued) \<le> 8192"
    and time: "0 \<le> issued" "issued \<le> now" "now < issued + 300" "now < jc_exp user" "issued + 300 \<le> 9007199254740991"
  shows "verify_confirmation_challenge sg opts user (sign_confirmation_challenge sg opts user nonce issued) now = Inr issued"
proof -
  let ?p = "si_encode sg d"
  let ?r = "confirm_purpose @ ''.'' @ ?p"
  have receipt: "sign_confirmation_challenge sg opts user nonce issued = confirm_purpose @ ''.'' @ ?p @ ''.'' @ si_sign sg ?r"
    by (simp add: sign_confirmation_challenge_def d Let_def)
  have split: "js_split (CHR ''.'') (sign_confirmation_challenge sg opts user nonce issued) = [confirm_purpose, ?p, si_sign sg ?r]"
    unfolding receipt using lib(3,4) by (intro split_receipt) auto
  have ok: "check_receipt opts user now d = Inr issued"
    unfolding d check_receipt_Inr confirmation_fields(2,3)
    using confirmation_fields(1) time by (auto simp: Let_def)
  have "?p \<noteq> []" "si_sign sg ?r \<noteq> []" using lib(3,4) by (auto simp: no_dots_def)
  then show ?thesis
    unfolding verify_confirmation_challenge_def Let_def split using size lib(1,2) ok by simp
qed

section \<open>A sample issuer\<close>

definition sample_uuid :: string where "sample_uuid = ''01890000-0000-7000-8000-000000000000''"

definition sample_issuer :: issuer_options where
  "sample_issuer = \<lparr>io_kid = ''k1'', io_issuer = ''iss'', io_audience = ''aud'', io_access_seconds = 600,
     io_refresh_seconds = Some 9000\<rparr>"

definition sample_user :: token_user where
  "sample_user = \<lparr>tu_sub = ''u'', tu_tenant_id = sample_uuid, tu_app_id = sample_uuid, tu_roles = [''editor''],
     tu_auth_provider = Some ''local'', tu_refresh_context = Some (JObj []), tu_session_id = None,
     tu_session_version = None, tu_provider_subject = None, tu_provider = None, tu_name = None, tu_email = None,
     tu_picture = None\<rparr>"

definition sample_elevation :: elevation_claims where
  "sample_elevation = \<lparr>el_assurance = Confirmed, el_verified_at = 990, el_expires_at = 1200\<rparr>"

lemmas sample_issuer_defs = sample_issuer_def sample_user_def sample_elevation_def sample_uuid_def

lemma sample_uuid_valid: "uuid_v7_schema sample_uuid"
  by (simp add: uuid_v7_schema_def uuid_v7_template_def sample_uuid_def template_char_def lower_hex_def is_digit_def
      char_between_def)

lemma sample_signed: "jwt_claims_schema (sign_token sample_issuer sample_user kind 600 ''j'' None 1000)"
    "jwt_claims_schema (sign_token sample_issuer sample_user kind 9000 ''j'' None 1000)"
    "jwt_claims_schema (sign_token sample_issuer sample_user kind 600 ''j'' (Some sample_elevation) 1000)"
  using sample_uuid_valid
  by (simp_all add: jwt_claims_schema_def sign_token_def sample_issuer_def sample_user_def sample_elevation_def
      elevation_claims_schema_def audience_list_def)

lemma sample_elevated:
  "sign_elevated_access_token sample_issuer sample_user sample_elevation 600 ''j'' 1000 =
     Inr (sign_token sample_issuer sample_user Access 600 ''j'' (Some sample_elevation) 1000)"
  using sample_signed(3) by (simp add: elevated_Inr Let_def sample_issuer_def sample_elevation_def)

section \<open>Properties\<close>

text \<open>
  A token pair issued in the ordinary way carries no elevation at all: its access token
  satisfies no elevation requirement at any time, and its refresh token has neither roles nor
  elevation, is of type refresh, lives for the configured time and shares the pair's id.
\<close>
theorem issued_pair_not_elevated:
  assumes "issue_token_pair opts u include fresh now = Inr p"
  shows "(\<forall>req t. \<not> satisfies_elevation (Some (tp_access p)) req t) \<and> jc_jti (tp_access p) = tp_token_id p \<and>
    (case tp_refresh p of
       None \<Rightarrow> include = Some False
     | Some (r, s) \<Rightarrow> jc_roles r = [] \<and> jc_elevation r = None \<and> jc_token_type r = Refresh \<and>
         jc_exp r = now + s \<and> io_refresh_seconds opts = Some s \<and> jc_jti r = tp_token_id p \<and>
         jc_tenant_id r = tu_tenant_id u \<and> jc_app_id r = tu_app_id u \<and>
         (\<forall>req t. \<not> satisfies_elevation (Some r) req t))"
  using assms
  by (auto simp: issue_token_pair_def guard_simps satisfies_iff sign_token_fields split: if_splits option.splits)

text \<open>
  C34: an elevated access token outlives neither the issuer's access lifetime nor the time it
  was asked for, and it satisfies an elevation requirement exactly during its elevation: from
  the verification until the expiry, with the required assurance and within the required age.
\<close>
theorem elevated_token_window:
  assumes "sign_elevated_access_token opts u e seconds fresh now = Inr c"
  shows "jc_exp c - now \<le> io_access_seconds opts \<and> of_int (jc_exp c - now) \<le> seconds \<and>
    (satisfies_elevation (Some c) req t \<longleftrightarrow>
       el_verified_at e \<le> t \<and> t < el_expires_at e \<and> (eq_minimum req = Minimum_mfa \<longrightarrow> el_assurance e = Mfa) \<and>
       (\<forall>m. eq_max_age req = Some m \<longrightarrow> t - el_verified_at e \<le> m))"
proof -
  let ?l = "min (io_access_seconds opts) \<lfloor>seconds\<rfloor>"
  have "of_int ?l \<le> seconds" by (simp add: le_floor_iff [symmetric] del: of_int_min)
  with assms show ?thesis
    by (auto simp: elevated_Inr Let_def satisfies_iff sign_token_fields simp del: of_int_min one_le_floor)
qed

theorem elevated_token_window_witness:
  "satisfies_elevation (Some (sign_token sample_issuer sample_user Access 600 ''j'' (Some sample_elevation) 1000))
     \<lparr>eq_minimum = Minimum_confirm, eq_max_age = Some 300\<rparr> 1100"
  using elevated_token_window [OF sample_elevated, of "\<lparr>eq_minimum = Minimum_confirm, eq_max_age = Some 300\<rparr>" 1100]
  by (simp add: sample_elevation_def)

text \<open>
  A confirmation receipt is accepted only for the session that asked for it (same issuer,
  subject, tenant, app and token id), with a signature over exactly the text that names its
  purpose, less than 300 seconds after it was issued and before that session's token expires.
\<close>
theorem confirmation_receipt_fresh:
  assumes "verify_confirmation_challenge sg opts user receipt now = Inr t"
  shows "0 \<le> t \<and> t \<le> now \<and> now < t + 300 \<and> now < jc_exp user \<and>
    (\<exists>payload signature d. js_split (CHR ''.'') receipt = [confirm_purpose, payload, signature] \<and>
       si_check sg (confirm_purpose @ ''.'' @ payload) signature \<and> si_decode sg payload = Some d \<and>
       receipt_matches opts user d)"
  using assms by (elim verify_confirmationD) (auto simp: check_receipt_Inr)

text \<open>
  A receipt round trip: with a payload encoder that can be decoded and a signer whose
  signatures check, the receipt of a session is accepted for that session during 300 seconds,
  and the confirmation it proves stays dated to the moment the receipt was issued however
  often it is completed.
\<close>
theorem confirmation_receipt_roundtrip:
  assumes "si_decode sg (si_encode sg (confirmation_data opts user nonce issued)) = Some (confirmation_data opts user nonce issued)"
    and "\<forall>m. si_check sg m (si_sign sg m)"
    and "no_dots (si_encode sg (confirmation_data opts user nonce issued))" "\<forall>m. no_dots (si_sign sg m)"
    and "length (sign_confirmation_challenge sg opts user nonce issued) \<le> 8192"
    and "0 \<le> issued" "issued \<le> now" "now < issued + 300" "now < jc_exp user" "issued + 300 \<le> 9007199254740991"
  shows "verify_confirmation_challenge sg opts user (sign_confirmation_challenge sg opts user nonce issued) now = Inr issued"
  using assms by (intro confirmation_roundtrip [OF _ _ _ _ refl]) simp_all

end
