(* ===== verification/ThemeMenu.thy ===== *)
theory ThemeMenu
  imports TokenIssuer MountedRoutes
begin

text \<open>
  \<open>runtime/auth/menu.ts\<close>: the identity a shell renders with and the menu it shows.
  An absent \<open>authStatus\<close> reads as \<open>auto\<close> in the code and is \<open>Auto\<close> here.
\<close>

datatype auth_state = Unknown_user | Anonymous | Authenticated

record theme_auth =
  ta_status :: auth_state
  ta_user :: "jwt_claims option"
  ta_permissions :: "permission_grant list"

definition anonymous_auth :: theme_auth where
  "anonymous_auth = \<lparr>ta_status = Anonymous, ta_user = None, ta_permissions = []\<rparr>"

definition unknown_auth :: theme_auth where
  "unknown_auth = \<lparr>ta_status = Unknown_user, ta_user = None, ta_permissions = []\<rparr>"

definition role_permissions :: "string list \<Rightarrow> app_auth option \<Rightarrow> permission_grant list" where
  "role_permissions roles auth =
     (case auth of None \<Rightarrow> []
      | Some a \<Rightarrow> concat (map role_grants (filter (\<lambda>r. role_id r \<in> set roles) (aa_roles a))))"

section \<open>Identity\<close>

text \<open>\<open>createStaticJwksVerifier\<close> of \<open>runtime/auth/verifier.ts\<close>; \<open>pem_of\<close> is the key import.\<close>

definition static_jwks :: "(public_jwk \<Rightarrow> string option) \<Rightarrow> public_jwk list \<Rightarrow> (string, string) jsmap" where
  "static_jwks pem_of keys =
     foldl (\<lambda>m k. if length (jwk_kid k) = 0 then m
                  else (case pem_of k of None \<Rightarrow> m | Some pem \<Rightarrow> js_set (jwk_kid k) pem m)) [] keys"

definition static_jwks_resolver :: "(public_jwk \<Rightarrow> string option) \<Rightarrow> public_jwk list \<Rightarrow> string \<Rightarrow> string + string" where
  "static_jwks_resolver pem_of keys kid =
     (let pem = js_get (static_jwks pem_of keys) kid
      in if \<not> truthy pem then Inl (''No public key for kid '' @ kid) else Inr (the pem))"

definition line_break :: "char \<Rightarrow> bool" where
  "line_break c \<longleftrightarrow> c = CHR 0x0A \<or> c = CHR 0x0D"

text \<open>\<open>/^Bearer\s+(.+)$/i\<close>, with the backtracking of an all-blank value.\<close>

definition bearer_token :: "string \<Rightarrow> string option" where
  "bearer_token v =
     (if js_lower (take 6 v) \<noteq> ''bearer'' then None
      else (let after = List.drop 6 v; sp = takeWhile is_js_space after; rest = dropWhile is_js_space after
            in if sp = [] then None
               else if rest \<noteq> [] then (if list_ex line_break rest then None else Some rest)
               else if length sp \<ge> 2 \<and> \<not> line_break (last sp) then Some [last sp] else None))"

definition resolve_theme_auth ::
    "jwt_library \<Rightarrow> (public_jwk \<Rightarrow> string option) \<Rightarrow> int \<Rightarrow> app \<Rightarrow> (string, string) jsmap \<Rightarrow> theme_auth" where
  "resolve_theme_auth lib pem_of now a hs =
     (if \<not> truthy (js_get hs ''authorization'')
      then (if truthy (js_get hs ''hx-request'') \<or> js_get hs ''x-bp-auth-resolved'' = Some ''true''
            then anonymous_auth else unknown_auth)
      else (case (bearer_token (the (js_get hs ''authorization'')), app_auth_config a) of
              (Some token, Some auth) \<Rightarrow>
                (case aa_public_keys auth of
                   None \<Rightarrow> unknown_auth
                 | Some keys \<Rightarrow>
                     (case verify_jwt lib \<lparr>vj_source = Resolver (static_jwks_resolver pem_of keys),
                              vj_issuer = aa_expected_issuer auth, vj_audience = aa_expected_audience auth,
                              vj_token_type = Some Access, vj_tolerance = None\<rparr> now token of
                        Inl e \<Rightarrow> anonymous_auth
                      | Inr user \<Rightarrow>
                          if jc_tenant_id user \<noteq> app_tenant_id a \<or> jc_app_id user \<noteq> app_id a then anonymous_auth
                          else \<lparr>ta_status = Authenticated, ta_user = Some user,
                                ta_permissions = role_permissions (jc_roles user) (Some auth)\<rparr>))
            | _ \<Rightarrow> unknown_auth))"

section \<open>The menu\<close>

definition grant_covers :: "(string, string) jsmap \<Rightarrow> menu_permission \<Rightarrow> string \<Rightarrow> permission_grant \<Rightarrow> bool" where
  "grant_covers aliases req action g \<longleftrightarrow>
     (pg_service_id g = mp_service_id req \<or> js_get aliases (pg_service_id g) = Some (mp_service_id req) \<or>
      js_get aliases (mp_service_id req) = Some (pg_service_id g)) \<and>
     pg_view_id g = mp_view_id req \<and> action \<in> set (pg_permissions g)"

definition requirements_met :: "(string, string) jsmap \<Rightarrow> theme_auth \<Rightarrow> menu_permission list \<Rightarrow> bool" where
  "requirements_met aliases auth reqs \<longleftrightarrow>
     list_all (\<lambda>req. list_all (\<lambda>action. list_ex (grant_covers aliases req action) (ta_permissions auth))
       (mp_permissions req)) reqs"

definition has_role :: "theme_auth \<Rightarrow> string \<Rightarrow> bool" where
  "has_role auth r \<longleftrightarrow> (case ta_user auth of None \<Rightarrow> False | Some u \<Rightarrow> r \<in> set (jc_roles u))"

definition menu_item_visible ::
    "auth_status \<Rightarrow> string list option \<Rightarrow> route_mount option \<Rightarrow> theme_auth \<Rightarrow> (string, string) jsmap \<Rightarrow> bool \<Rightarrow> bool" where
  "menu_item_visible status roles route auth aliases platform_root =
     (let automatic = (status = Auto); roles_list = (case roles of None \<Rightarrow> [] | Some rs \<Rightarrow> rs)
      in if (case route of Some r \<Rightarrow> rm_menu r = Some False | None \<Rightarrow> False) then False
         else if route = None \<and> length roles_list > 0 \<and> (ta_user auth = None \<or> \<not> list_ex (has_role auth) roles_list) then False
         else if status = Show_unauthenticated then ta_status auth = Anonymous
         else if status = Hide_unauthenticated then ta_status auth = Authenticated
         else if automatic \<and> route = None then True
         else if automatic \<and> (case route of Some r \<Rightarrow> rm_auth_required r = Some False | None \<Rightarrow> False) then True
         else if automatic \<and> (case route of Some r \<Rightarrow> rm_auth_required r = None \<or> rm_menu_permissions r = None | None \<Rightarrow> True) then False
         else if \<not> automatic \<and> status \<noteq> Hide_unauthorized then True
         else if ta_status auth \<noteq> Authenticated then False
         else if platform_root \<and> has_role auth ''*'' then True
         else (case route of
                 None \<Rightarrow> True
               | Some r \<Rightarrow> (case rm_menu_permissions r of None \<Rightarrow> False | Some reqs \<Rightarrow> requirements_met aliases auth reqs)))"

definition route_map :: "route_mount list \<Rightarrow> (string, route_mount) jsmap" where
  "route_map rs = foldl (\<lambda>m r. js_set (rm_id r) r m) [] rs"

definition item_route :: "(string, route_mount) jsmap \<Rightarrow> string option \<Rightarrow> route_mount option" where
  "item_route routes rid = (if truthy rid then js_get routes (the rid) else None)"

fun visit_item ::
    "(string, route_mount) jsmap \<Rightarrow> theme_auth \<Rightarrow> (string, string) jsmap \<Rightarrow> bool \<Rightarrow> menu_item \<Rightarrow> menu_item list" where
  "visit_item routes auth aliases plat (Menu_item i t ti ic rid h en sv st ro d children) =
     (if \<not> en \<or> \<not> menu_item_visible st ro (item_route routes rid) auth aliases plat then []
      else (let kept = concat (map (visit_item routes auth aliases plat) children)
            in if t = Group \<and> kept = [] then []
               else [Menu_item i t ti ic rid h en sv st ro d kept]))"

definition filter_theme_menu ::
    "app \<Rightarrow> theme_auth \<Rightarrow> (string, string) jsmap \<Rightarrow> bool \<Rightarrow> menu_item list" where
  "filter_theme_menu a auth aliases plat =
     concat (map (visit_item (route_map (app_routes a)) auth aliases plat) (app_menu a))"

section \<open>What is shown\<close>

text \<open>An item occurs in a menu at any depth.\<close>

fun menu_items :: "menu_item \<Rightarrow> menu_item list" where
  "menu_items (Menu_item i t ti ic rid h en sv st ro d children) =
     Menu_item i t ti ic rid h en sv st ro d children # concat (map menu_items children)"

definition shown :: "(string, route_mount) jsmap \<Rightarrow> theme_auth \<Rightarrow> (string, string) jsmap \<Rightarrow> bool \<Rightarrow> menu_item \<Rightarrow> bool" where
  "shown routes auth aliases plat m \<longleftrightarrow>
     mi_enabled m \<and> menu_item_visible (mi_auth_status m) (mi_roles_any_of m) (item_route routes (mi_route_id m)) auth aliases plat \<and>
     (mi_type m = Group \<longrightarrow> mi_children m \<noteq> [])"

lemma visit_item_shown:
  "k \<in> set (visit_item routes auth aliases plat m) \<Longrightarrow> n \<in> set (menu_items k) \<Longrightarrow> shown routes auth aliases plat n"
proof (induction m arbitrary: k n)
  case (Menu_item i t ti ic rid h en sv st ro d children)
  let ?kept = "concat (map (visit_item routes auth aliases plat) children)"
  from Menu_item.prems(1) have vis: "en" "menu_item_visible st ro (item_route routes rid) auth aliases plat"
    "t = Group \<longrightarrow> ?kept \<noteq> []" "k = Menu_item i t ti ic rid h en sv st ro d ?kept"
    by (auto simp: Let_def split: if_splits)
  from Menu_item.prems(2) consider "n = k" | "n \<in> set (concat (map menu_items ?kept))"
    unfolding vis(4) by auto
  then show ?case
  proof cases
    case 1
    with vis show ?thesis by (simp add: shown_def)
  next
    case 2
    then obtain c k' where "c \<in> set children" "k' \<in> set (visit_item routes auth aliases plat c)" "n \<in> set (menu_items k')"
      by auto
    then show ?thesis by (rule Menu_item.IH)
  qed
qed

lemma concat_map_id: "\<forall>c\<in>set xs. f c = [c] \<Longrightarrow> concat (map f xs) = xs"
  by (induction xs) auto

lemma visit_item_idempotent:
  "k \<in> set (visit_item routes auth aliases plat m) \<Longrightarrow> visit_item routes auth aliases plat k = [k]"
proof (induction m arbitrary: k)
  case (Menu_item i t ti ic rid h en sv st ro d children)
  let ?visit = "visit_item routes auth aliases plat"
  let ?kept = "concat (map ?visit children)"
  from Menu_item.prems have vis: "en" "menu_item_visible st ro (item_route routes rid) auth aliases plat"
    "t = Group \<longrightarrow> ?kept \<noteq> []" "k = Menu_item i t ti ic rid h en sv st ro d ?kept"
    by (auto simp: Let_def split: if_splits)
  have "\<forall>c\<in>set ?kept. ?visit c = [c]" using Menu_item.IH by fastforce
  then have "concat (map ?visit ?kept) = ?kept" by (rule concat_map_id)
  with vis show ?case by (simp add: Let_def)
qed

lemma resolve_theme_authD:
  assumes "ta_status (resolve_theme_auth lib pem_of now a hs) = Authenticated"
  obtains auth token keys user where "app_auth_config a = Some auth" "aa_public_keys auth = Some keys"
    "js_get hs ''authorization'' \<noteq> None"
    "verify_jwt lib \<lparr>vj_source = Resolver (static_jwks_resolver pem_of keys),
       vj_issuer = aa_expected_issuer auth, vj_audience = aa_expected_audience auth,
       vj_token_type = Some Access, vj_tolerance = None\<rparr> now token = Inr user"
    "jc_tenant_id user = app_tenant_id a" "jc_app_id user = app_id a"
    "resolve_theme_auth lib pem_of now a hs =
       \<lparr>ta_status = Authenticated, ta_user = Some user, ta_permissions = role_permissions (jc_roles user) (Some auth)\<rparr>"
  using assms unfolding resolve_theme_auth_def
  by (auto simp: anonymous_auth_def unknown_auth_def truthy_iff split: if_splits option.splits sum.splits)

section \<open>Properties\<close>

text \<open>
  The shell shows a user as signed in only on proof: the state is authenticated exactly
  with a token that verifies under the app's own configured keys, issuer and audience, as an
  access token of this very tenant and app, and the permissions are those of the roles in that
  token, as the app defines them.
\<close>
theorem theme_auth_sound:
  assumes "ta_status (resolve_theme_auth lib pem_of now a hs) = Authenticated"
  shows "\<exists>auth keys token user. app_auth_config a = Some auth \<and> aa_public_keys auth = Some keys \<and>
    verify_jwt lib \<lparr>vj_source = Resolver (static_jwks_resolver pem_of keys), vj_issuer = aa_expected_issuer auth,
      vj_audience = aa_expected_audience auth, vj_token_type = Some Access, vj_tolerance = None\<rparr> now token = Inr user \<and>
    jc_tenant_id user = app_tenant_id a \<and> jc_app_id user = app_id a \<and>
    ta_user (resolve_theme_auth lib pem_of now a hs) = Some user \<and>
    ta_permissions (resolve_theme_auth lib pem_of now a hs) =
      concat (map role_grants (filter (\<lambda>r. role_id r \<in> set (jc_roles user)) (aa_roles auth)))"
  using assms
proof (cases rule: resolve_theme_authD)
  case (1 auth token keys user)
  have "ta_user (resolve_theme_auth lib pem_of now a hs) = Some user"
    "ta_permissions (resolve_theme_auth lib pem_of now a hs) =
      concat (map role_grants (filter (\<lambda>r. role_id r \<in> set (jc_roles user)) (aa_roles auth)))"
    unfolding 1(7) by (simp_all add: role_permissions_def)
  with 1(1,2,4,5,6) show ?thesis by blast
qed

text \<open>
  C32: whatever menu entry the shell shows, at any depth, is enabled; and an entry whose
  visibility follows its page's protection (shown automatically, for a page that requires
  authentication) or that is marked as hidden from the unauthorized is shown only to an
  authenticated user whose grants cover every permission the page's route asks for, or to the
  platform's root role. The other markings only ask whether somebody is signed in.
\<close>
theorem shown_menu_authorized:
  assumes "k \<in> set (filter_theme_menu a auth aliases plat)" and "m \<in> set (menu_items k)"
  shows "mi_enabled m \<and> (mi_type m = Group \<longrightarrow> mi_children m \<noteq> []) \<and>
    (\<forall>r. item_route (route_map (app_routes a)) (mi_route_id m) = Some r \<longrightarrow> rm_menu r \<noteq> Some False) \<and>
    (\<forall>r. item_route (route_map (app_routes a)) (mi_route_id m) = Some r \<and>
         (mi_auth_status m = Auto \<and> rm_auth_required r \<noteq> Some False \<or> mi_auth_status m = Hide_unauthorized) \<longrightarrow>
       ta_status auth = Authenticated \<and>
       (plat \<and> has_role auth ''*'' \<or>
        (\<exists>reqs. rm_menu_permissions r = Some reqs \<and>
           (\<forall>req\<in>set reqs. \<forall>action\<in>set (mp_permissions req).
              \<exists>g\<in>set (ta_permissions auth). grant_covers aliases req action g))))"
proof -
  have "shown (route_map (app_routes a)) auth aliases plat m"
    using assms visit_item_shown unfolding filter_theme_menu_def by fastforce
  then show ?thesis
    by (auto simp: shown_def menu_item_visible_def Let_def requirements_met_def list_all_iff list_ex_iff
        split: if_splits option.splits)
qed

definition sample_menu_app :: app where
  "sample_menu_app = sample_app\<lparr>
     app_routes := [sample_mount\<lparr>rm_auth_required := Some True,
       rm_menu_permissions := Some [\<lparr>mp_service_id = ''s1'', mp_view_id = ''items.view'', mp_permissions = [''read'']\<rparr>]\<rparr>],
     app_menu := [Menu_item ''i1'' Link (Some ''Items'') None (Some ''r1'') None True True Auto None None []]\<rparr>"

definition sample_reader :: theme_auth where
  "sample_reader = \<lparr>ta_status = Authenticated, ta_user = None,
     ta_permissions = [\<lparr>pg_service_id = ''s1'', pg_view_id = ''items.view'', pg_permissions = [''read'']\<rparr>]\<rparr>"

lemma sample_menu_shown: "filter_theme_menu sample_menu_app sample_reader [] False = app_menu sample_menu_app"
  by code_simp

theorem shown_menu_authorized_witness:
  "\<exists>g\<in>set (ta_permissions sample_reader).
     grant_covers [] \<lparr>mp_service_id = ''s1'', mp_view_id = ''items.view'', mp_permissions = [''read'']\<rparr> ''read'' g"
proof -
  let ?m = "Menu_item ''i1'' Link (Some ''Items'') None (Some ''r1'') None True True Auto None None []"
  let ?r = "sample_mount\<lparr>rm_auth_required := Some True,
       rm_menu_permissions := Some [\<lparr>mp_service_id = ''s1'', mp_view_id = ''items.view'', mp_permissions = [''read'']\<rparr>]\<rparr>"
  have m: "?m \<in> set (filter_theme_menu sample_menu_app sample_reader [] False)"
    unfolding sample_menu_shown by (simp add: sample_menu_app_def)
  have r: "item_route (route_map (app_routes sample_menu_app)) (mi_route_id ?m) = Some ?r"
    by (simp add: item_route_def route_map_def sample_menu_app_def sample_mount_def)
  from shown_menu_authorized [OF m, of ?m] r show ?thesis by simp
qed

text \<open>
  Filtering the menu is a projection: it keeps the order, and filtering the filtered menu
  for the same user changes nothing.
\<close>
theorem menu_filter_idempotent:
  "filter_theme_menu (a\<lparr>app_menu := filter_theme_menu a auth aliases plat\<rparr>) auth aliases plat =
     filter_theme_menu a auth aliases plat"
proof -
  let ?visit = "visit_item (route_map (app_routes a)) auth aliases plat"
  have "concat (map ?visit (concat (map ?visit (app_menu a)))) = concat (map ?visit (app_menu a))"
    by (rule concat_map_id) (auto dest: visit_item_idempotent)
  then show ?thesis by (simp add: filter_theme_menu_def)
qed

end
