(* ===== verification/ConfigStore.thy ===== *)
theory ConfigStore
  imports Tokens "HOL-Library.Countable"
begin

text \<open>
  \<open>runtime/configStore.ts\<close>: the values a service keeps per tenant and app, in memory and
  in a file with encrypted secrets.

  The file is modelled by the state last renamed into place. AES-256-GCM under a key derived
  by scrypt at a given cost is \<open>ci_seal\<close>/\<open>ci_open\<close>; the random nonce is part of the
  sealed text. The memo of derived keys does not change a result and is left out.
\<close>

type_synonym config_values = "(string, json) jsmap"

record bucket =
  bk_tenant :: config_values
  bk_app :: "(string, config_values) jsmap"

record persisted_state =
  pe_tenants :: "(string, bucket) jsmap"
  pe_legacy :: "bucket option"

definition empty_bucket :: bucket where
  "empty_bucket = \<lparr>bk_tenant = [], bk_app = []\<rparr>"

definition clone_bucket :: "bucket option \<Rightarrow> bucket" where
  "clone_bucket b =
     (case b of None \<Rightarrow> empty_bucket
      | Some x \<Rightarrow> \<lparr>bk_tenant = bk_tenant x, bk_app = map_values id (bk_app x)\<rparr>)"

definition or_empty :: "'a list option \<Rightarrow> 'a list" where
  "or_empty x = (case x of None \<Rightarrow> [] | Some v \<Rightarrow> v)"

definition bucket_of :: "(string, bucket) jsmap \<Rightarrow> string \<Rightarrow> bucket" where
  "bucket_of m t = (case js_get m t of None \<Rightarrow> empty_bucket | Some b \<Rightarrow> b)"

text \<open>The update both stores make: merge into the app's values, or into the tenant's.\<close>

definition merge_values :: "string option \<Rightarrow> config_values \<Rightarrow> bucket \<Rightarrow> bucket" where
  "merge_values aid vs b =
     (if truthy aid
      then b\<lparr>bk_app := js_set (the aid) (js_spread (or_empty (js_get (bk_app b) (the aid))) vs) (bk_app b)\<rparr>
      else b\<lparr>bk_tenant := js_spread (bk_tenant b) vs\<rparr>)"

definition remove_key :: "string option \<Rightarrow> string \<Rightarrow> bucket \<Rightarrow> bucket" where
  "remove_key aid key b =
     (if truthy aid
      then b\<lparr>bk_app := js_set (the aid) (js_del key (or_empty (js_get (bk_app b) (the aid)))) (bk_app b)\<rparr>
      else b\<lparr>bk_tenant := js_del key (bk_tenant b)\<rparr>)"

section \<open>In memory\<close>

type_synonym memory_store = "(string, bucket) jsmap"

definition mem_read :: "memory_store \<Rightarrow> ticket_claims \<Rightarrow> bucket" where
  "mem_read m ticket = clone_bucket (js_get m (tk_tenant_id ticket))"

definition mem_write ::
    "memory_store \<Rightarrow> string \<Rightarrow> string option \<Rightarrow> js_value \<Rightarrow> ticket_claims \<Rightarrow> memory_store \<times> bucket res" where
  "mem_write m tenant_id aid values ticket =
     (case parse_json_object values of
        None \<Rightarrow> (m, Inl ''Validation failed'')
      | Some parsed \<Rightarrow>
          if tenant_id \<noteq> tk_tenant_id ticket then (m, Inr (mem_read m ticket))
          else (let m' = js_set tenant_id (merge_values aid parsed (bucket_of m tenant_id)) m
                in (m', Inr (mem_read m' ticket))))"

definition mem_clear_key ::
    "memory_store \<Rightarrow> string \<Rightarrow> string option \<Rightarrow> string \<Rightarrow> ticket_claims \<Rightarrow> memory_store \<times> bucket res" where
  "mem_clear_key m tenant_id aid key ticket =
     (if tenant_id \<noteq> tk_tenant_id ticket then (m, Inr (mem_read m ticket))
      else (let m' = js_set tenant_id (remove_key aid key (bucket_of m tenant_id)) m
            in (m', Inr (mem_read m' ticket))))"

section \<open>Sealed values\<close>

record cipher =
  ci_seal :: "nat \<Rightarrow> string \<Rightarrow> string \<Rightarrow> string"
  ci_open :: "nat \<Rightarrow> nat \<Rightarrow> string \<Rightarrow> string \<Rightarrow> string option"
  ci_stringify :: "json \<Rightarrow> string"
  ci_parse :: "string \<Rightarrow> json option"

definition encrypted_prefix :: string where "encrypted_prefix = ''enc:aes256gcm2:''"
definition encrypted_json_prefix :: string where "encrypted_json_prefix = ''enc:aes256gcm3:''"
definition legacy_encrypted_prefix :: string where "legacy_encrypted_prefix = ''enc:aes256gcm:''"

definition kdf_cost_v1 :: nat where "kdf_cost_v1 = 16384"
definition kdf_cost :: nat where "kdf_cost = 32768"
definition iv_length :: nat where "iv_length = 12"
definition legacy_iv_length :: nat where "legacy_iv_length = 16"

definition is_encrypted :: "string \<Rightarrow> bool" where
  "is_encrypted v \<longleftrightarrow> js_starts_with encrypted_prefix v \<or> js_starts_with encrypted_json_prefix v
     \<or> js_starts_with legacy_encrypted_prefix v"

definition encrypt_value :: "cipher \<Rightarrow> string \<Rightarrow> string \<Rightarrow> string \<Rightarrow> string" where
  "encrypt_value c plaintext key pre = pre @ ci_seal c kdf_cost key plaintext"

definition decrypt_value :: "cipher \<Rightarrow> string \<Rightarrow> string \<Rightarrow> string res" where
  "decrypt_value c ciphertext key =
     (let json_value = js_starts_with encrypted_json_prefix ciphertext;
          legacy = (\<not> json_value \<and> \<not> js_starts_with encrypted_prefix ciphertext)
      in if legacy \<and> \<not> js_starts_with legacy_encrypted_prefix ciphertext then Inr ciphertext
         else (let pre = (if json_value then encrypted_json_prefix
                          else if legacy then legacy_encrypted_prefix else encrypted_prefix);
                   ivlen = (if legacy then legacy_iv_length else iv_length);
                   cost = (if legacy then kdf_cost_v1 else kdf_cost)
               in case ci_open c ivlen cost key (List.drop (length pre) ciphertext) of
                    None \<Rightarrow> Inl ''Unsupported state or unable to authenticate data''
                  | Some p \<Rightarrow> Inr p))"

definition resolve_secret_keys :: "config_schema list \<Rightarrow> string list" where
  "resolve_secret_keys schemas =
     uniq (concat (map (\<lambda>s. map cf_key (filter (\<lambda>f. cf_visibility f = Secret) (cs_fields s))) schemas))"

definition encrypt_secret :: "cipher \<Rightarrow> string \<Rightarrow> json \<Rightarrow> json" where
  "encrypt_secret c key v =
     (case v of JStr s \<Rightarrow> JStr (encrypt_value c s key encrypted_prefix)
      | _ \<Rightarrow> JStr (encrypt_value c (ci_stringify c v) key encrypted_json_prefix))"

definition encrypt_secrets :: "cipher \<Rightarrow> string list \<Rightarrow> string \<Rightarrow> config_values \<Rightarrow> config_values" where
  "encrypt_secrets c secrets key vs = map (\<lambda>(k, v). (k, if k \<in> set secrets then encrypt_secret c key v else v)) vs"

definition decrypt_secret :: "cipher \<Rightarrow> string \<Rightarrow> json \<Rightarrow> json res" where
  "decrypt_secret c key v =
     (case v of
        JStr s \<Rightarrow>
          if is_encrypted s then
            (if js_starts_with encrypted_json_prefix s
             then res_bind (decrypt_value c s key) (\<lambda>p. case ci_parse c p of None \<Rightarrow> Inl ''Unexpected token'' | Some j \<Rightarrow> Inr j)
             else res_bind (decrypt_value c s key) (\<lambda>p. Inr (JStr p)))
          else Inr v
      | _ \<Rightarrow> Inr v)"

definition decrypt_secrets :: "cipher \<Rightarrow> string list \<Rightarrow> string \<Rightarrow> config_values \<Rightarrow> config_values res" where
  "decrypt_secrets c secrets key vs =
     map_res (\<lambda>(k, v). if k \<in> set secrets then res_bind (decrypt_secret c key v) (\<lambda>d. Inr (k, d)) else Inr (k, v)) vs"

section \<open>In a file\<close>

record file_store =
  fi_state :: persisted_state
  fi_disk :: "persisted_state option"

record file_options =
  fo_cipher :: cipher
  fo_key :: string
  fo_schemas :: "config_schema list"

definition secret_keys :: "file_options \<Rightarrow> string list" where
  "secret_keys o' = resolve_secret_keys (fo_schemas o')"

definition save_to_disk :: "file_store \<Rightarrow> file_store" where
  "save_to_disk s = s\<lparr>fi_disk := Some (fi_state s)\<rparr>"

text \<open>The constructor's pass over one record of values.\<close>

definition sealed_value :: "json \<Rightarrow> bool" where
  "sealed_value v = (case v of JStr s \<Rightarrow> is_encrypted s | _ \<Rightarrow> False)"

definition migrate_values :: "file_options \<Rightarrow> config_values \<Rightarrow> config_values" where
  "migrate_values o' vs =
     map (\<lambda>(k, v). (k, if k \<in> set (secret_keys o') \<and> \<not> sealed_value v then encrypt_secret (fo_cipher o') (fo_key o') v else v)) vs"

definition needs_migration :: "file_options \<Rightarrow> config_values \<Rightarrow> bool" where
  "needs_migration o' vs = list_ex (\<lambda>(k, v). k \<in> set (secret_keys o') \<and> \<not> sealed_value v) vs"

definition migrate_bucket :: "file_options \<Rightarrow> bucket \<Rightarrow> bucket" where
  "migrate_bucket o' b = \<lparr>bk_tenant = migrate_values o' (bk_tenant b), bk_app = map_values (migrate_values o') (bk_app b)\<rparr>"

definition bucket_values :: "bucket \<Rightarrow> config_values list" where
  "bucket_values b = bk_tenant b # js_values (bk_app b)"

definition state_buckets :: "persisted_state \<Rightarrow> bucket list" where
  "state_buckets s = js_values (pe_tenants s) @ (case pe_legacy s of None \<Rightarrow> [] | Some b \<Rightarrow> [b])"

definition open_file_store :: "file_options \<Rightarrow> persisted_state option \<Rightarrow> file_store" where
  "open_file_store o' disk =
     (let loaded = (case disk of None \<Rightarrow> \<lparr>pe_tenants = [], pe_legacy = None\<rparr> | Some s \<Rightarrow> s);
          migrated = \<lparr>pe_tenants = map_values (migrate_bucket o') (pe_tenants loaded),
                      pe_legacy = map_option (migrate_bucket o') (pe_legacy loaded)\<rparr>;
          changed = list_ex (needs_migration o') (concat (map bucket_values (state_buckets loaded)));
          s = \<lparr>fi_state = migrated, fi_disk = disk\<rparr>
      in if changed then save_to_disk s else s)"

definition ensure_tenant_bucket :: "string \<Rightarrow> file_store \<Rightarrow> file_store \<times> bucket" where
  "ensure_tenant_bucket t s =
     (let st = fi_state s;
          s1 = (case (js_get (pe_tenants st) t, pe_legacy st) of
                  (None, Some b) \<Rightarrow>
                    save_to_disk (s\<lparr>fi_state := \<lparr>pe_tenants = js_set t b (pe_tenants st), pe_legacy = None\<rparr>\<rparr>)
                | _ \<Rightarrow> s)
      in case js_get (pe_tenants (fi_state s1)) t of
           Some b \<Rightarrow> (s1, b)
         | None \<Rightarrow> (s1\<lparr>fi_state := (fi_state s1)\<lparr>pe_tenants := js_set t empty_bucket (pe_tenants (fi_state s1))\<rparr>\<rparr>, empty_bucket))"

definition decrypt_bucket :: "file_options \<Rightarrow> bucket \<Rightarrow> bucket res" where
  "decrypt_bucket o' b =
     res_bind (decrypt_secrets (fo_cipher o') (secret_keys o') (fo_key o') (bk_tenant b)) (\<lambda>tenant_values.
     res_bind (map_res (\<lambda>(i, vs). res_bind (decrypt_secrets (fo_cipher o') (secret_keys o') (fo_key o') vs) (\<lambda>d. Inr (i, d))) (bk_app b)) (\<lambda>app_values.
     Inr \<lparr>bk_tenant = tenant_values, bk_app = app_values\<rparr>))"

text \<open>Reading creates the tenant's bucket; the store changes even when decryption throws.\<close>

definition file_read :: "file_options \<Rightarrow> file_store \<Rightarrow> ticket_claims \<Rightarrow> file_store \<times> bucket res" where
  "file_read o' s ticket =
     (let (s', b) = ensure_tenant_bucket (tk_tenant_id ticket) s in (s', decrypt_bucket o' b))"

definition put_bucket :: "string \<Rightarrow> bucket \<Rightarrow> file_store \<Rightarrow> file_store" where
  "put_bucket t b s = s\<lparr>fi_state := (fi_state s)\<lparr>pe_tenants := js_set t b (pe_tenants (fi_state s))\<rparr>\<rparr>"

text \<open>
  Writes to the disk are taken to succeed: an exception of the file system reaches the caller
  in the source, with the new bucket already in memory.
\<close>

definition file_write ::
    "file_options \<Rightarrow> file_store \<Rightarrow> string \<Rightarrow> string option \<Rightarrow> js_value \<Rightarrow> ticket_claims \<Rightarrow> file_store \<times> bucket res" where
  "file_write o' s tenant_id aid values ticket =
     (case parse_json_object values of
        None \<Rightarrow> (s, Inl ''Validation failed'')
      | Some parsed \<Rightarrow>
          if tenant_id \<noteq> tk_tenant_id ticket then file_read o' s ticket
          else (let encrypted = encrypt_secrets (fo_cipher o') (secret_keys o') (fo_key o') parsed;
                    (s1, current) = ensure_tenant_bucket tenant_id s
                in file_read o' (save_to_disk (put_bucket tenant_id (merge_values aid encrypted current) s1)) ticket))"

definition file_clear_key ::
    "file_options \<Rightarrow> file_store \<Rightarrow> string \<Rightarrow> string option \<Rightarrow> string \<Rightarrow> ticket_claims \<Rightarrow> file_store \<times> bucket res" where
  "file_clear_key o' s tenant_id aid key ticket =
     (if tenant_id \<noteq> tk_tenant_id ticket then file_read o' s ticket
      else (let (s1, current) = ensure_tenant_bucket tenant_id s
            in file_read o' (save_to_disk (put_bucket tenant_id (remove_key aid key current) s1)) ticket))"

section \<open>The store interface\<close>

text \<open>A call a service makes on its store.\<close>

datatype store_op = Write_op string "string option" js_value | Clear_op string "string option" string

text \<open>What \<open>ServiceConfigStore\<close> promises: \<open>contents\<close> is what a tenant's ticket reads.\<close>

locale config_store =
  fixes ready :: "'s \<Rightarrow> bool"
    and contents :: "'s \<Rightarrow> string \<Rightarrow> bucket"
    and put :: "'s \<Rightarrow> string \<Rightarrow> string option \<Rightarrow> js_value \<Rightarrow> ticket_claims \<Rightarrow> 's \<times> bucket res"
    and forget :: "'s \<Rightarrow> string \<Rightarrow> string option \<Rightarrow> string \<Rightarrow> ticket_claims \<Rightarrow> 's \<times> bucket res"
  assumes put_ready: "ready s \<Longrightarrow> ready (fst (put s t a v tk))"
    and forget_ready: "ready s \<Longrightarrow> ready (fst (forget s t a k tk))"
    and put_contents: "ready s \<Longrightarrow> parse_json_object v = Some vs \<Longrightarrow>
      contents (fst (put s t a v tk)) u =
        (if t = tk_tenant_id tk \<and> u = t then merge_values a vs (contents s u) else contents s u)"
    and put_rejected: "ready s \<Longrightarrow> parse_json_object v = None \<Longrightarrow> fst (put s t a v tk) = s"
    and put_result: "ready s \<Longrightarrow> parse_json_object v = Some vs \<Longrightarrow>
      snd (put s t a v tk) = Inr (contents (fst (put s t a v tk)) (tk_tenant_id tk))"
    and forget_contents: "ready s \<Longrightarrow>
      contents (fst (forget s t a k tk)) u =
        (if t = tk_tenant_id tk \<and> u = t then remove_key a k (contents s u) else contents s u)"
begin

definition perform :: "store_op \<times> ticket_claims \<Rightarrow> 's \<Rightarrow> 's" where
  "perform x s = (case x of
     (Write_op t a v, tk) \<Rightarrow> fst (put s t a v tk) | (Clear_op t a k, tk) \<Rightarrow> fst (forget s t a k tk))"

lemma perform_ready: "ready s \<Longrightarrow> ready (perform x s)"
  by (cases x) (auto simp: perform_def put_ready forget_ready split: store_op.splits)

lemma perform_other:
  assumes "ready s" "tk_tenant_id (snd x) \<noteq> u"
  shows "contents (perform x s) u = contents s u"
proof -
  obtain e tk where x: "x = (e, tk)" by (cases x)
  show ?thesis
  proof (cases e)
    case (Write_op t a v)
    then show ?thesis
      using assms x put_contents [OF assms(1)] put_rejected [OF assms(1)]
      by (cases "parse_json_object v") (auto simp: perform_def)
  next
    case (Clear_op t a k)
    then show ?thesis using assms x forget_contents [OF assms(1)] by (auto simp: perform_def)
  qed
qed

lemma other_tenants_unaffected:
  "ready s \<Longrightarrow> \<forall>x\<in>set ops. tk_tenant_id (snd x) \<noteq> u \<Longrightarrow> contents (fold perform ops s) u = contents s u"
  by (induction ops arbitrary: s) (auto simp: perform_ready perform_other)

lemma written_value:
  assumes "ready s" "parse_json_object v = Some vs" "distinct (map fst vs)" "js_get vs k = Some j" "tk_tenant_id tk = t"
  shows "js_get (bk_tenant (contents (fst (put s t None v tk)) t)) k = Some j"
  using assms put_contents [OF assms(1,2), of t None tk t]
  by (simp add: merge_values_def js_get_spread_distinct)

lemma forgotten_value:
  assumes "ready s" "tk_tenant_id tk = t"
  shows "js_get (bk_tenant (contents (fst (forget s t None k tk)) t)) k = None"
  using assms forget_contents [OF assms(1), of t None k tk t] by (simp add: remove_key_def)

end

section \<open>The memory store keeps it\<close>

lemma clone_bucket_eq: "clone_bucket (js_get m t) = bucket_of m t"
  by (auto simp: clone_bucket_def bucket_of_def map_values_def split: option.splits)

interpretation mem: config_store "\<lambda>_. True" bucket_of mem_write mem_clear_key
proof unfold_locales
  fix s t a v tk vs u
  assume v: "parse_json_object v = Some vs"
  show "bucket_of (fst (mem_write s t a v tk)) u =
      (if t = tk_tenant_id tk \<and> u = t then merge_values a vs (bucket_of s u) else bucket_of s u)"
    using v by (simp add: mem_write_def Let_def bucket_of_def)
  show "snd (mem_write s t a v tk) = Inr (bucket_of (fst (mem_write s t a v tk)) (tk_tenant_id tk))"
    using v by (simp add: mem_write_def mem_read_def clone_bucket_eq Let_def)
next
  fix s t a k tk u
  show "bucket_of (fst (mem_clear_key s t a k tk)) u =
      (if t = tk_tenant_id tk \<and> u = t then remove_key a k (bucket_of s u) else bucket_of s u)"
    by (simp add: mem_clear_key_def Let_def bucket_of_def)
qed (simp_all add: mem_write_def)

section \<open>Sealing and opening\<close>

definition cipher_ok :: "cipher \<Rightarrow> string \<Rightarrow> bool" where
  "cipher_ok c key \<longleftrightarrow> (\<forall>p. ci_open c iv_length kdf_cost key (ci_seal c kdf_cost key p) = Some p) \<and>
     (\<forall>j. ci_parse c (ci_stringify c j) = Some j)"

lemmas prefix_defs = encrypted_prefix_def encrypted_json_prefix_def legacy_encrypted_prefix_def js_starts_with_def

lemma decrypt_encrypt_value:
  "cipher_ok c key \<Longrightarrow> decrypt_value c (encrypt_value c p key encrypted_prefix) key = Inr p"
  "cipher_ok c key \<Longrightarrow> decrypt_value c (encrypt_value c p key encrypted_json_prefix) key = Inr p"
  by (simp_all add: decrypt_value_def encrypt_value_def prefix_defs cipher_ok_def)

lemma encrypted_value_prefix:
  "is_encrypted (encrypt_value c p key encrypted_prefix)" "is_encrypted (encrypt_value c p key encrypted_json_prefix)"
  "\<not> js_starts_with encrypted_json_prefix (encrypt_value c p key encrypted_prefix)"
  "js_starts_with encrypted_json_prefix (encrypt_value c p key encrypted_json_prefix)"
  by (simp_all add: is_encrypted_def encrypt_value_def prefix_defs)

lemma sealed_encrypt [simp]: "sealed_value (encrypt_secret c key v)"
  by (cases v) (simp_all add: sealed_value_def encrypt_secret_def encrypted_value_prefix)

lemma decrypt_encrypt_secret: "cipher_ok c key \<Longrightarrow> decrypt_secret c key (encrypt_secret c key v) = Inr v"
  by (cases v)
     (simp_all add: decrypt_secret_def encrypt_secret_def encrypted_value_prefix decrypt_encrypt_value,
      simp_all add: cipher_ok_def)

text \<open>Both decryption passes map the values of a record, key by key.\<close>

definition map_res_values :: "('k \<Rightarrow> 'v \<Rightarrow> 'w res) \<Rightarrow> ('k, 'v) jsmap \<Rightarrow> ('k, 'w) jsmap res" where
  "map_res_values f m = map_res (\<lambda>(k, v). res_bind (f k v) (\<lambda>d. Inr (k, d))) m"

lemma map_res_values_simps [simp]:
  "map_res_values f [] = Inr []"
  "map_res_values f ((k, v) # m) =
     res_bind (f k v) (\<lambda>d. res_bind (map_res_values f m) (\<lambda>n. Inr ((k, d) # n)))"
  by (cases "f k v"; simp add: map_res_values_def)+

lemma map_res_values_set:
  "map_res_values f m = Inr n \<Longrightarrow> f k x = Inr y \<Longrightarrow> map_res_values f (js_set k x m) = Inr (js_set k y n)"
proof (induction m arbitrary: n)
  case (Cons p m)
  then show ?case by (cases p) (auto simp: guard_simps)
qed simp

lemma map_res_values_del:
  "map_res_values f m = Inr n \<Longrightarrow> map_res_values f (js_del k m) = Inr (js_del k n)"
proof (induction m arbitrary: n)
  case (Cons p m)
  then show ?case by (cases p) (auto simp: guard_simps js_del_def)
qed (simp add: js_del_def)

lemma map_res_values_get:
  "map_res_values f m = Inr n \<Longrightarrow>
     (case js_get m k of None \<Rightarrow> js_get n k = None | Some x \<Rightarrow> \<exists>y. f k x = Inr y \<and> js_get n k = Some y)"
proof (induction m arbitrary: n)
  case (Cons p m)
  then show ?case by (cases p) (auto simp: guard_simps split: option.splits)
qed simp

definition open_value :: "file_options \<Rightarrow> string \<Rightarrow> json \<Rightarrow> json res" where
  "open_value o' k v = (if k \<in> set (secret_keys o') then decrypt_secret (fo_cipher o') (fo_key o') v else Inr v)"

definition open_values :: "file_options \<Rightarrow> config_values \<Rightarrow> config_values res" where
  "open_values o' vs = map_res_values (open_value o') vs"

lemma decrypt_secrets_eq: "decrypt_secrets (fo_cipher o') (secret_keys o') (fo_key o') vs = open_values o' vs"
proof -
  have "(\<lambda>(k, v). if k \<in> set (secret_keys o') then res_bind (decrypt_secret (fo_cipher o') (fo_key o') v) (\<lambda>d. Inr (k, d)) else Inr (k, v)) =
    (\<lambda>(k, v). res_bind (open_value o' k v) (\<lambda>d. Inr (k, d)))"
    by (auto simp: fun_eq_iff open_value_def)
  then show ?thesis by (simp add: decrypt_secrets_def open_values_def map_res_values_def)
qed

lemma decrypt_bucket_eq:
  "decrypt_bucket o' b = res_bind (open_values o' (bk_tenant b)) (\<lambda>tv.
     res_bind (map_res_values (\<lambda>i. open_values o') (bk_app b)) (\<lambda>av. Inr \<lparr>bk_tenant = tv, bk_app = av\<rparr>))"
  by (simp add: decrypt_bucket_def decrypt_secrets_eq map_res_values_def)

lemma open_values_spread:
  assumes "cipher_ok (fo_cipher o') (fo_key o')" "open_values o' vs = Inr ds"
  shows "open_values o' (js_spread vs (encrypt_secrets (fo_cipher o') (secret_keys o') (fo_key o') ps)) = Inr (js_spread ds ps)"
proof (induction ps rule: rev_induct)
  case Nil
  then show ?case using assms(2) by (simp add: encrypt_secrets_def)
next
  case (snoc p ps)
  obtain k v where p: "p = (k, v)" by (cases p)
  let ?w = "if k \<in> set (secret_keys o') then encrypt_secret (fo_cipher o') (fo_key o') v else v"
  have "open_value o' k ?w = Inr v"
    using assms(1) by (simp add: open_value_def decrypt_encrypt_secret)
  with snoc show ?case
    by (simp add: p encrypt_secrets_def js_spread_snoc open_values_def map_res_values_set)
qed

lemma decrypt_merge:
  assumes "cipher_ok (fo_cipher o') (fo_key o')" "decrypt_bucket o' b = Inr d"
  shows "decrypt_bucket o' (merge_values a (encrypt_secrets (fo_cipher o') (secret_keys o') (fo_key o') vs) b) =
    Inr (merge_values a vs d)"
proof -
  from assms(2) have tv: "open_values o' (bk_tenant b) = Inr (bk_tenant d)"
    and av: "map_res_values (\<lambda>i. open_values o') (bk_app b) = Inr (bk_app d)"
    by (auto simp: decrypt_bucket_eq guard_simps)
  have "open_values o' (or_empty (js_get (bk_app b) i)) = Inr (or_empty (js_get (bk_app d) i))" for i
    using map_res_values_get [OF av, of i] by (auto simp: or_empty_def open_values_def split: option.splits)
  then show ?thesis
    using open_values_spread [OF assms(1)] tv av
    by (simp add: merge_values_def decrypt_bucket_eq map_res_values_set)
qed

lemma decrypt_remove:
  assumes "decrypt_bucket o' b = Inr d"
  shows "decrypt_bucket o' (remove_key a k b) = Inr (remove_key a k d)"
proof -
  from assms have tv: "open_values o' (bk_tenant b) = Inr (bk_tenant d)"
    and av: "map_res_values (\<lambda>i. open_values o') (bk_app b) = Inr (bk_app d)"
    by (auto simp: decrypt_bucket_eq guard_simps)
  have "open_values o' (or_empty (js_get (bk_app b) i)) = Inr (or_empty (js_get (bk_app d) i))" for i
    using map_res_values_get [OF av, of i] by (auto simp: or_empty_def open_values_def split: option.splits)
  then have "open_values o' (js_del k (or_empty (js_get (bk_app b) i))) = Inr (js_del k (or_empty (js_get (bk_app d) i)))" for i
    by (simp add: open_values_def map_res_values_del)
  then show ?thesis
    using tv av by (simp add: remove_key_def decrypt_bucket_eq map_res_values_set open_values_def map_res_values_del)
qed

section \<open>The file store keeps it\<close>

text \<open>
  A file store serves tickets when its cipher opens what it sealed, every bucket on record
  opens, and the values of a single-tenant file have been claimed (the first ticket claims them).
\<close>

definition opens :: "file_options \<Rightarrow> (string, bucket) jsmap \<Rightarrow> bool" where
  "opens o' m \<longleftrightarrow> (\<forall>t. is_ok (decrypt_bucket o' (bucket_of m t)))"

definition file_ready :: "file_options \<Rightarrow> file_store \<Rightarrow> bool" where
  "file_ready o' s \<longleftrightarrow> cipher_ok (fo_cipher o') (fo_key o') \<and> pe_legacy (fi_state s) = None \<and> opens o' (pe_tenants (fi_state s))"

definition file_contents :: "file_options \<Rightarrow> file_store \<Rightarrow> string \<Rightarrow> bucket" where
  "file_contents o' s t =
     (case decrypt_bucket o' (bucket_of (pe_tenants (fi_state s)) t) of Inr d \<Rightarrow> d | Inl _ \<Rightarrow> empty_bucket)"

lemma file_contentsD:
  "file_ready o' s \<Longrightarrow> decrypt_bucket o' (bucket_of (pe_tenants (fi_state s)) t) = Inr (file_contents o' s t)"
  by (auto simp: file_ready_def opens_def file_contents_def is_ok_iff split: sum.splits dest!: spec [of _ t])

lemma file_contentsI:
  "decrypt_bucket o' (bucket_of (pe_tenants (fi_state s)) t) = Inr d \<Longrightarrow> file_contents o' s t = d"
  by (simp add: file_contents_def)

text \<open>Claiming a bucket changes neither the readiness nor what any ticket reads.\<close>

lemma ensure_bucket:
  assumes "file_ready o' s"
  obtains s1 where "ensure_tenant_bucket t s = (s1, bucket_of (pe_tenants (fi_state s)) t)"
    "pe_legacy (fi_state s1) = None" "\<And>u. bucket_of (pe_tenants (fi_state s1)) u = bucket_of (pe_tenants (fi_state s)) u"
  using assms
  by (cases "js_get (pe_tenants (fi_state s)) t")
     (auto simp: ensure_tenant_bucket_def file_ready_def Let_def bucket_of_def)

lemma ready_transfer:
  assumes "file_ready o' s" "pe_legacy (fi_state s1) = None"
    "\<And>u. bucket_of (pe_tenants (fi_state s1)) u = bucket_of (pe_tenants (fi_state s)) u"
  shows "file_ready o' s1" "file_contents o' s1 u = file_contents o' s u"
  using assms by (simp_all add: file_ready_def opens_def file_contents_def)

lemma file_read_ready:
  assumes "file_ready o' s"
  shows "file_ready o' (fst (file_read o' s tk))"
    "file_contents o' (fst (file_read o' s tk)) u = file_contents o' s u"
    "snd (file_read o' s tk) = Inr (file_contents o' s (tk_tenant_id tk))"
proof -
  obtain s1 where s1: "ensure_tenant_bucket (tk_tenant_id tk) s = (s1, bucket_of (pe_tenants (fi_state s)) (tk_tenant_id tk))"
    "pe_legacy (fi_state s1) = None" "\<And>u. bucket_of (pe_tenants (fi_state s1)) u = bucket_of (pe_tenants (fi_state s)) u"
    using ensure_bucket [OF assms] by metis
  note t = ready_transfer [OF assms s1(2,3)]
  show "file_ready o' (fst (file_read o' s tk))"
    "file_contents o' (fst (file_read o' s tk)) u = file_contents o' s u"
    "snd (file_read o' s tk) = Inr (file_contents o' s (tk_tenant_id tk))"
    using t file_contentsD [OF assms] by (simp_all add: file_read_def s1(1))
qed

lemma put_bucket_ready:
  assumes s: "file_ready o' s"
    and l: "pe_legacy (fi_state s1) = None"
    and b: "\<And>u. bucket_of (pe_tenants (fi_state s1)) u = bucket_of (pe_tenants (fi_state s)) u"
    and d: "decrypt_bucket o' n = Inr d"
  shows "file_ready o' (save_to_disk (put_bucket t n s1))"
    "file_contents o' (save_to_disk (put_bucket t n s1)) u = (if u = t then d else file_contents o' s u)"
proof -
  have g: "bucket_of (js_set t n (pe_tenants (fi_state s1))) u = (if u = t then n else bucket_of (pe_tenants (fi_state s)) u)" for u
    using b [of u] by (simp add: bucket_of_def)
  show "file_ready o' (save_to_disk (put_bucket t n s1))"
    using s l d by (simp add: file_ready_def opens_def save_to_disk_def put_bucket_def g)
  show "file_contents o' (save_to_disk (put_bucket t n s1)) u = (if u = t then d else file_contents o' s u)"
    using d by (simp add: file_contents_def save_to_disk_def put_bucket_def g)
qed

lemma file_write_ready:
  assumes s: "file_ready o' s" and v: "parse_json_object v = Some vs"
  shows "file_ready o' (fst (file_write o' s t a v tk)) \<and>
    file_contents o' (fst (file_write o' s t a v tk)) u =
      (if t = tk_tenant_id tk \<and> u = t then merge_values a vs (file_contents o' s u) else file_contents o' s u) \<and>
    snd (file_write o' s t a v tk) = Inr (file_contents o' (fst (file_write o' s t a v tk)) (tk_tenant_id tk))"
proof (cases "t = tk_tenant_id tk")
  case True
  obtain s1 where s1: "ensure_tenant_bucket t s = (s1, bucket_of (pe_tenants (fi_state s)) t)"
    "pe_legacy (fi_state s1) = None" "\<And>u. bucket_of (pe_tenants (fi_state s1)) u = bucket_of (pe_tenants (fi_state s)) u"
    using ensure_bucket [OF s] by metis
  have c: "cipher_ok (fo_cipher o') (fo_key o')" using s by (simp add: file_ready_def)
  note p = put_bucket_ready [OF s s1(2,3) decrypt_merge [OF c file_contentsD [OF s], of a vs t]]
  show ?thesis
    using v True s1(1) p file_read_ready [OF p(1)] by (simp add: file_write_def Let_def)
next
  case False
  then show ?thesis using v file_read_ready [OF s] by (simp add: file_write_def)
qed

lemma file_clear_ready:
  assumes s: "file_ready o' s"
  shows "file_ready o' (fst (file_clear_key o' s t a k tk)) \<and>
    file_contents o' (fst (file_clear_key o' s t a k tk)) u =
      (if t = tk_tenant_id tk \<and> u = t then remove_key a k (file_contents o' s u) else file_contents o' s u) \<and>
    snd (file_clear_key o' s t a k tk) = Inr (file_contents o' (fst (file_clear_key o' s t a k tk)) (tk_tenant_id tk))"
proof (cases "t = tk_tenant_id tk")
  case True
  obtain s1 where s1: "ensure_tenant_bucket t s = (s1, bucket_of (pe_tenants (fi_state s)) t)"
    "pe_legacy (fi_state s1) = None" "\<And>u. bucket_of (pe_tenants (fi_state s1)) u = bucket_of (pe_tenants (fi_state s)) u"
    using ensure_bucket [OF s] by metis
  note p = put_bucket_ready [OF s s1(2,3) decrypt_remove [OF file_contentsD [OF s], of a k t]]
  show ?thesis
    using True s1(1) p file_read_ready [OF p(1)] by (simp add: file_clear_key_def Let_def)
next
  case False
  then show ?thesis using file_read_ready [OF s] by (simp add: file_clear_key_def)
qed

lemma file_clear_result:
  "file_ready o' s \<Longrightarrow>
   snd (file_clear_key o' s t a k tk) = Inr (file_contents o' (fst (file_clear_key o' s t a k tk)) (tk_tenant_id tk))"
  using file_clear_ready by blast

interpretation disk: config_store "file_ready o'" "file_contents o'" "file_write o'" "file_clear_key o'" for o'
proof unfold_locales
  fix s t a v tk
  assume s: "file_ready o' s"
  show "file_ready o' (fst (file_write o' s t a v tk))"
    using s file_write_ready [OF s] by (cases "parse_json_object v") (auto simp: file_write_def)
next
  fix s v vs t a tk u
  assume s: "file_ready o' s" and v: "parse_json_object v = Some vs"
  show "file_contents o' (fst (file_write o' s t a v tk)) u =
      (if t = tk_tenant_id tk \<and> u = t then merge_values a vs (file_contents o' s u) else file_contents o' s u)"
    using file_write_ready [OF s v] by blast
  show "snd (file_write o' s t a v tk) = Inr (file_contents o' (fst (file_write o' s t a v tk)) (tk_tenant_id tk))"
    using file_write_ready [OF s v] by blast
next
  fix s t a k tk u
  assume s: "file_ready o' s"
  show "file_ready o' (fst (file_clear_key o' s t a k tk))"
    using file_clear_ready [OF s] by blast
  show "file_contents o' (fst (file_clear_key o' s t a k tk)) u =
      (if t = tk_tenant_id tk \<and> u = t then remove_key a k (file_contents o' s u) else file_contents o' s u)"
    using file_clear_ready [OF s] by blast
qed (simp add: file_write_def)

section \<open>Secrets rest sealed\<close>

text \<open>
  \<open>rests_sealed\<close>: the value is what the cipher made of some text under the store's own key,
  behind one of the current marks, or a value of the file as it was opened that carried a mark
  already (an earlier run sealed it; opening takes the mark at its word). The predicates below
  lift a condition on the values of secret fields to records, buckets, states and stores.
\<close>

definition rests_sealed :: "file_options \<Rightarrow> persisted_state option \<Rightarrow> string \<Rightarrow> json \<Rightarrow> bool" where
  "rests_sealed o' opened k v \<longleftrightarrow>
     (\<exists>pre p. pre \<in> {encrypted_prefix, encrypted_json_prefix} \<and> v = JStr (pre @ ci_seal (fo_cipher o') kdf_cost (fo_key o') p)) \<or>
     (\<exists>d b vs c. opened = Some d \<and> b \<in> set (state_buckets d) \<and> vs \<in> set (bucket_values b) \<and> (k, v) \<in> set vs \<and>
        v = JStr c \<and> is_encrypted c)"

lemma encrypt_rests: "rests_sealed o' opened k (encrypt_secret (fo_cipher o') (fo_key o') v)"
  by (cases v) (auto simp: rests_sealed_def encrypt_secret_def encrypt_value_def)

lemma held_rests:
  assumes "opened = Some d" "b \<in> set (state_buckets d)" "vs \<in> set (bucket_values b)" "(k, v) \<in> set vs" "sealed_value v"
  shows "rests_sealed o' opened k v"
proof -
  from assms(5) obtain c where "v = JStr c" "is_encrypted c" by (cases v) (auto simp: sealed_value_def)
  with assms show ?thesis unfolding rests_sealed_def by blast
qed

type_synonym value_rule = "string \<Rightarrow> json \<Rightarrow> bool"

definition sealed_values :: "value_rule \<Rightarrow> string list \<Rightarrow> config_values \<Rightarrow> bool" where
  "sealed_values P secrets vs \<longleftrightarrow> (\<forall>(k, v)\<in>set vs. k \<in> set secrets \<longrightarrow> P k v)"

definition sealed_bucket :: "value_rule \<Rightarrow> string list \<Rightarrow> bucket \<Rightarrow> bool" where
  "sealed_bucket P secrets b \<longleftrightarrow> list_all (sealed_values P secrets) (bucket_values b)"

definition sealed_state :: "value_rule \<Rightarrow> string list \<Rightarrow> persisted_state \<Rightarrow> bool" where
  "sealed_state P secrets p \<longleftrightarrow> list_all (sealed_bucket P secrets) (state_buckets p)"

definition sealed_store :: "value_rule \<Rightarrow> string list \<Rightarrow> file_store \<Rightarrow> bool" where
  "sealed_store P secrets s \<longleftrightarrow> sealed_state P secrets (fi_state s) \<and>
     (case fi_disk s of None \<Rightarrow> True | Some d \<Rightarrow> sealed_state P secrets d)"

lemma js_set_subset: "set (js_set k v m) \<subseteq> insert (k, v) (set m)"
  by (induction m) (auto split: if_splits)

lemma js_spread_subset: "set (js_spread m n) \<subseteq> set m \<union> set n"
proof (induction n rule: rev_induct)
  case (snoc p n)
  obtain k v where "p = (k, v)" by (cases p)
  then show ?case using snoc js_set_subset [of k v "js_spread m n"] by (auto simp: js_spread_snoc)
qed simp

lemma js_get_member: "js_get m k = Some v \<Longrightarrow> (k, v) \<in> set m"
  by (simp add: map_of_SomeD)

lemma sealed_values_Nil [simp]: "sealed_values P secrets []"
  by (simp add: sealed_values_def)

lemma sealed_values_mono: "sealed_values P secrets vs \<Longrightarrow> set ws \<subseteq> set vs \<Longrightarrow> sealed_values P secrets ws"
  by (auto simp: sealed_values_def)

lemma sealed_values_encrypt: "(\<And>k v. P k (encrypt_secret c key v)) \<Longrightarrow> sealed_values P secrets (encrypt_secrets c secrets key vs)"
  by (auto simp: sealed_values_def encrypt_secrets_def)

lemma sealed_values_migrate:
  assumes "\<And>k v. P k (encrypt_secret (fo_cipher o') (fo_key o') v)"
    and "\<And>k v. (k, v) \<in> set vs \<Longrightarrow> sealed_value v \<Longrightarrow> P k v"
  shows "sealed_values P (secret_keys o') (migrate_values o' vs)"
  using assms by (fastforce simp: sealed_values_def migrate_values_def)

lemma sealed_values_spread:
  "sealed_values P secrets vs \<Longrightarrow> sealed_values P secrets ws \<Longrightarrow> sealed_values P secrets (js_spread vs ws)"
  using js_spread_subset [of vs ws] by (fastforce simp: sealed_values_def)

lemma sealed_values_del: "sealed_values P secrets vs \<Longrightarrow> sealed_values P secrets (js_del k vs)"
  by (rule sealed_values_mono) (auto simp: js_del_def)

lemma sealed_bucket_iff:
  "sealed_bucket P secrets b \<longleftrightarrow> sealed_values P secrets (bk_tenant b) \<and> (\<forall>(i, vs)\<in>set (bk_app b). sealed_values P secrets vs)"
  by (auto simp: sealed_bucket_def bucket_values_def js_values_def list_all_iff)

lemma sealed_empty_bucket [simp]: "sealed_bucket P secrets empty_bucket"
  by (simp add: sealed_bucket_iff empty_bucket_def)

lemma sealed_app: "sealed_bucket P secrets b \<Longrightarrow> sealed_values P secrets (or_empty (js_get (bk_app b) i))"
  by (auto simp: sealed_bucket_iff or_empty_def dest!: js_get_member split: option.splits)

lemma sealed_app_set:
  "sealed_bucket P secrets b \<Longrightarrow> sealed_values P secrets vs \<Longrightarrow> sealed_bucket P secrets (b\<lparr>bk_app := js_set i vs (bk_app b)\<rparr>)"
  using js_set_subset [of i vs "bk_app b"] by (fastforce simp: sealed_bucket_iff)

lemma sealed_merge:
  "sealed_bucket P secrets b \<Longrightarrow> sealed_values P secrets vs \<Longrightarrow> sealed_bucket P secrets (merge_values a vs b)"
  by (auto simp: merge_values_def sealed_app sealed_app_set sealed_values_spread)
     (simp add: sealed_bucket_iff sealed_values_spread)

lemma sealed_remove: "sealed_bucket P secrets b \<Longrightarrow> sealed_bucket P secrets (remove_key a k b)"
  by (auto simp: remove_key_def sealed_app sealed_app_set sealed_values_del)
     (simp add: sealed_bucket_iff sealed_values_del)

lemma sealed_state_iff:
  "sealed_state P secrets p \<longleftrightarrow> (\<forall>(t, b)\<in>set (pe_tenants p). sealed_bucket P secrets b) \<and>
     (case pe_legacy p of None \<Rightarrow> True | Some b \<Rightarrow> sealed_bucket P secrets b)"
  by (auto simp: sealed_state_def state_buckets_def js_values_def list_all_iff split: option.splits)

lemma sealed_state_put:
  "sealed_state P secrets p \<Longrightarrow> sealed_bucket P secrets b \<Longrightarrow> sealed_state P secrets (p\<lparr>pe_tenants := js_set t b (pe_tenants p)\<rparr>)"
  using js_set_subset [of t b "pe_tenants p"] by (fastforce simp: sealed_state_iff split: option.splits)

lemma sealed_save: "sealed_state P secrets (fi_state s) \<Longrightarrow> sealed_store P secrets (save_to_disk s)"
  by (simp add: sealed_store_def save_to_disk_def)

lemma sealed_put_bucket:
  "sealed_store P secrets s \<Longrightarrow> sealed_bucket P secrets b \<Longrightarrow> sealed_store P secrets (save_to_disk (put_bucket t b s))"
  by (rule sealed_save) (simp add: put_bucket_def sealed_store_def sealed_state_put)

lemma sealed_ensure:
  assumes "sealed_store P secrets s" "ensure_tenant_bucket t s = (s1, b)"
  shows "sealed_store P secrets s1" "sealed_bucket P secrets b"
proof -
  let ?p = "fi_state s"
  have p: "sealed_state P secrets ?p" using assms(1) by (simp add: sealed_store_def)
  have "sealed_store P secrets s1 \<and> sealed_bucket P secrets b"
  proof (cases "js_get (pe_tenants ?p) t")
    case (Some x)
    then show ?thesis
      using assms p by (auto simp: ensure_tenant_bucket_def sealed_state_iff dest!: js_get_member)
  next
    case None
    then show ?thesis
    proof (cases "pe_legacy ?p")
      case None
      with \<open>js_get (pe_tenants ?p) t = None\<close> show ?thesis
        using assms p sealed_state_put [OF p sealed_empty_bucket]
        by (auto simp: ensure_tenant_bucket_def Let_def sealed_store_def)
    next
      case (Some l)
      have "sealed_bucket P secrets l" using p Some by (simp add: sealed_state_iff)
      moreover have "sealed_state P secrets \<lparr>pe_tenants = js_set t l (pe_tenants ?p), pe_legacy = None\<rparr>"
        using sealed_state_put [OF p \<open>sealed_bucket P secrets l\<close>, of t] by (simp add: sealed_state_iff)
      ultimately show ?thesis
        using assms None Some by (auto simp: ensure_tenant_bucket_def Let_def save_to_disk_def sealed_store_def)
    qed
  qed
  then show "sealed_store P secrets s1" "sealed_bucket P secrets b" by simp_all
qed

lemma sealed_file_read: "sealed_store P secrets s \<Longrightarrow> sealed_store P secrets (fst (file_read o' s tk))"
  by (cases "ensure_tenant_bucket (tk_tenant_id tk) s") (simp add: file_read_def sealed_ensure)

lemma sealed_file_write:
  assumes "sealed_store P (secret_keys o') s" and "\<And>k v. P k (encrypt_secret (fo_cipher o') (fo_key o') v)"
  shows "sealed_store P (secret_keys o') (fst (file_write o' s t a v tk))"
proof -
  obtain s1 b where e: "ensure_tenant_bucket t s = (s1, b)" by (cases "ensure_tenant_bucket t s")
  show ?thesis
    using assms e sealed_ensure [OF assms(1) e] sealed_values_encrypt [of P, OF assms(2)]
    by (auto simp: file_write_def Let_def sealed_file_read sealed_put_bucket sealed_merge
        split: option.splits)
qed

lemma sealed_file_clear_key:
  assumes "sealed_store P (secret_keys o') s"
  shows "sealed_store P (secret_keys o') (fst (file_clear_key o' s t a k tk))"
proof -
  obtain s1 b where e: "ensure_tenant_bucket t s = (s1, b)" by (cases "ensure_tenant_bucket t s")
  show ?thesis
    using assms e sealed_ensure [OF assms e]
    by (auto simp: file_clear_key_def Let_def sealed_file_read sealed_put_bucket sealed_remove)
qed

lemma sealed_migrate_bucket:
  assumes "opened = Some d" "b \<in> set (state_buckets d)"
  shows "sealed_bucket (rests_sealed o' opened) (secret_keys o') (migrate_bucket o' b)"
proof -
  have "sealed_values (rests_sealed o' opened) (secret_keys o') (migrate_values o' vs)" if "vs \<in> set (bucket_values b)" for vs
    using encrypt_rests held_rests [OF assms that] by (rule sealed_values_migrate)
  moreover have "bk_tenant b \<in> set (bucket_values b)" by (simp add: bucket_values_def)
  moreover have "vs \<in> set (bucket_values b)" if "(i, vs) \<in> set (bk_app b)" for i vs
    using that image_iff by (fastforce simp: bucket_values_def js_values_def)
  ultimately show ?thesis
    by (auto simp: sealed_bucket_iff migrate_bucket_def map_values_def)
qed

lemma unmigrated_rests:
  assumes "\<not> list_ex (needs_migration o') (concat (map bucket_values (state_buckets d)))"
  shows "sealed_state (rests_sealed o' (Some d)) (secret_keys o') d"
  unfolding sealed_state_def sealed_bucket_def list_all_iff sealed_values_def
proof (intro ballI, clarify)
  fix b vs k v
  assume m: "b \<in> set (state_buckets d)" "vs \<in> set (bucket_values b)" "(k, v) \<in> set vs" "k \<in> set (secret_keys o')"
  then have "sealed_value v" using assms by (fastforce simp: list_ex_iff needs_migration_def)
  with m(1-3) show "rests_sealed o' (Some d) k v" by (intro held_rests) auto
qed

lemma sealed_open_file_store: "sealed_store (rests_sealed o' disk) (secret_keys o') (open_file_store o' disk)"
proof (cases disk)
  case None
  then show ?thesis
    by (simp add: open_file_store_def sealed_store_def sealed_state_def state_buckets_def js_values_def map_values_def save_to_disk_def)
next
  case (Some d)
  let ?m = "\<lparr>pe_tenants = map_values (migrate_bucket o') (pe_tenants d), pe_legacy = map_option (migrate_bucket o') (pe_legacy d)\<rparr>"
  have "sealed_bucket (rests_sealed o' disk) (secret_keys o') (migrate_bucket o' b)" if "b \<in> set (state_buckets d)" for b
    using Some that by (rule sealed_migrate_bucket)
  then have m: "sealed_state (rests_sealed o' disk) (secret_keys o') ?m"
    by (fastforce simp: sealed_state_iff map_values_def state_buckets_def js_values_def split: option.splits)
  show ?thesis
    using m Some unmigrated_rests [of o' d]
    by (auto simp: open_file_store_def Let_def sealed_save sealed_store_def save_to_disk_def)
qed

text \<open>A store in use: opened on some file, then given calls.\<close>

inductive file_served :: "file_options \<Rightarrow> persisted_state option \<Rightarrow> file_store \<Rightarrow> bool"
    for o' :: file_options and opened :: "persisted_state option" where
  served_open: "file_served o' opened (open_file_store o' opened)"
| served_read: "file_served o' opened s \<Longrightarrow> file_served o' opened (fst (file_read o' s tk))"
| served_write: "file_served o' opened s \<Longrightarrow> file_served o' opened (fst (file_write o' s t a v tk))"
| served_clear: "file_served o' opened s \<Longrightarrow> file_served o' opened (fst (file_clear_key o' s t a k tk))"

lemma file_served_sealed: "file_served o' opened s \<Longrightarrow> sealed_store (rests_sealed o' opened) (secret_keys o') s"
proof (induction rule: file_served.induct)
  case (served_write s t a v tk)
  then show ?case by (intro sealed_file_write encrypt_rests)
qed (simp_all add: sealed_open_file_store sealed_file_read sealed_file_clear_key)

section \<open>Sequences of calls\<close>

text \<open>The calls a service makes on either store, one after the other.\<close>

definition mem_perform :: "store_op \<times> ticket_claims \<Rightarrow> memory_store \<Rightarrow> memory_store" where
  "mem_perform x m = (case x of
     (Write_op t a v, tk) \<Rightarrow> fst (mem_write m t a v tk) | (Clear_op t a k, tk) \<Rightarrow> fst (mem_clear_key m t a k tk))"

definition file_perform :: "file_options \<Rightarrow> store_op \<times> ticket_claims \<Rightarrow> file_store \<Rightarrow> file_store" where
  "file_perform o' x s = (case x of
     (Write_op t a v, tk) \<Rightarrow> fst (file_write o' s t a v tk) | (Clear_op t a k, tk) \<Rightarrow> fst (file_clear_key o' s t a k tk))"

lemma disk_perform: "disk.perform o' = file_perform o'"
  by (simp add: fun_eq_iff disk.perform_def file_perform_def)

lemma perform_agree:
  assumes "file_ready o' s" and "\<forall>u. bucket_of m u = file_contents o' s u"
  shows "file_ready o' (file_perform o' x s) \<and> (\<forall>u. bucket_of (mem_perform x m) u = file_contents o' (file_perform o' x s) u)"
proof -
  obtain e tk where x: "x = (e, tk)" by (cases x)
  have "file_ready o' (file_perform o' x s)"
    using disk.perform_ready [OF assms(1)] by (simp add: disk_perform)
  moreover have "bucket_of (mem_perform x m) u = file_contents o' (file_perform o' x s) u" for u
  proof (cases e)
    case (Write_op t a v)
    then show ?thesis
      using assms x mem.put_contents disk.put_contents [OF assms(1)] mem.put_rejected disk.put_rejected [OF assms(1)]
      by (cases "parse_json_object v") (simp_all add: mem_perform_def file_perform_def)
  next
    case (Clear_op t a k)
    then show ?thesis
      using assms x mem.forget_contents disk.forget_contents [OF assms(1)]
      by (simp add: mem_perform_def file_perform_def)
  qed
  ultimately show ?thesis by blast
qed

section \<open>Properties\<close>

text \<open>
  C7: secrets rest encrypted: after opening a store on any file, whatever it holds, and after
  any sequence of reads, writes and clears, every value of a secret field in the state that is
  kept and in the file that was last saved, for every tenant and app and in the unclaimed
  values of a single-tenant file, is the output of the cipher under the store's own key at the
  specified cost, behind the mark of the current format; the only other values are those the
  opened file already held behind a mark of an encrypted value.
\<close>
theorem secrets_rest_sealed:
  assumes "file_served o' opened s" and "d = fi_state s \<or> fi_disk s = Some d"
    and "b \<in> set (state_buckets d)" and "vs \<in> set (bucket_values b)" and "(k, v) \<in> set vs" and "k \<in> set (secret_keys o')"
  shows "(\<exists>pre p. pre \<in> {''enc:aes256gcm2:'', ''enc:aes256gcm3:''} \<and>
       v = JStr (pre @ ci_seal (fo_cipher o') 32768 (fo_key o') p)) \<or>
    (\<exists>d' b' vs' c. opened = Some d' \<and> b' \<in> set (state_buckets d') \<and> vs' \<in> set (bucket_values b') \<and> (k, v) \<in> set vs' \<and>
       v = JStr c \<and> is_encrypted c)"
proof -
  have "sealed_state (rests_sealed o' opened) (secret_keys o') d"
    using file_served_sealed [OF assms(1)] assms(2) by (auto simp: sealed_store_def)
  then have "rests_sealed o' opened k v"
    using assms(3-6) by (fastforce simp: sealed_state_def sealed_bucket_def sealed_values_def list_all_iff)
  then show ?thesis by (simp add: rests_sealed_def encrypted_prefix_def encrypted_json_prefix_def kdf_cost_def)
qed

definition sample_cipher :: cipher where
  "sample_cipher = \<lparr>ci_seal = \<lambda>cost key p. rev p, ci_open = \<lambda>iv cost key t. Some (rev t),
     ci_stringify = \<lambda>j. (case j of JBool b \<Rightarrow> ''b'' | _ \<Rightarrow> ''''), ci_parse = \<lambda>s. None\<rparr>"

definition sample_store_options :: file_options where
  "sample_store_options = \<lparr>fo_cipher = sample_cipher, fo_key = ''key'',
     fo_schemas = [\<lparr>cs_id = ''c'', cs_title = '''', cs_scope = Tenant_scope, cs_fields =
       [\<lparr>cf_key = ''token'', cf_title = '''', cf_description = '''', cf_scope = Tenant_scope, cf_visibility = Secret, cf_required = True\<rparr>]\<rparr>]\<rparr>"

definition sample_plain_file :: persisted_state where
  "sample_plain_file = \<lparr>pe_tenants = [(''t1'', \<lparr>bk_tenant = [(''token'', JStr ''abc'')], bk_app = []\<rparr>)], pe_legacy = None\<rparr>"

theorem secrets_rest_sealed_witness:
  "\<exists>pre p. pre \<in> {''enc:aes256gcm2:'', ''enc:aes256gcm3:''} \<and> JStr ''enc:aes256gcm2:cba'' = JStr (pre @ rev p)"
proof -
  let ?s = "open_file_store sample_store_options (Some sample_plain_file)"
  let ?b = "\<lparr>bk_tenant = [(''token'', JStr ''enc:aes256gcm2:cba'')], bk_app = []\<rparr>"
  have "state_buckets (fi_state ?s) = [?b]" "''token'' \<in> set (secret_keys sample_store_options)"
    by code_simp+
  then show ?thesis
    using secrets_rest_sealed [OF served_open, of "fi_state ?s" sample_store_options "Some sample_plain_file" ?b
        "[(''token'', JStr ''enc:aes256gcm2:cba'')]" "''token''"]
    by (simp add: bucket_values_def sample_plain_file_def state_buckets_def js_values_def sample_store_options_def sample_cipher_def)
qed

text \<open>
  C8: the encrypted file store is the plain store: with a cipher that opens what it sealed,
  any sequence of writes and clears with any tickets leaves every tenant reading the same
  values from the file store, decrypted, as from the in-memory store.
\<close>
theorem file_store_refines_memory:
  assumes "file_ready o' s" and "\<forall>u. bucket_of m u = file_contents o' s u"
  shows "bucket_of (fold mem_perform ops m) u = file_contents o' (fold (file_perform o') ops s) u"
proof -
  have "file_ready o' (fold (file_perform o') ops s) \<and>
      (\<forall>u. bucket_of (fold mem_perform ops m) u = file_contents o' (fold (file_perform o') ops s) u)"
    using assms
  proof (induction ops arbitrary: s m)
    case (Cons x ops)
    from perform_agree [OF Cons.prems, of x] Cons.IH [of "file_perform o' x s" "mem_perform x m"] show ?case by simp
  qed simp
  then show ?thesis by blast
qed

instance json :: countable
  by countable_datatype

text \<open>A cipher with a printer that can be read back, for every JSON value.\<close>

definition sample_exact_cipher :: cipher where
  "sample_exact_cipher = \<lparr>ci_seal = \<lambda>cost key p. rev p, ci_open = \<lambda>iv cost key t. Some (rev t),
     ci_stringify = \<lambda>j. replicate (to_nat j) (CHR ''x''), ci_parse = \<lambda>s. Some (from_nat (length s))\<rparr>"

definition sample_exact_options :: file_options where
  "sample_exact_options = sample_store_options\<lparr>fo_cipher := sample_exact_cipher\<rparr>"

lemma sample_file_ready: "file_ready sample_exact_options (open_file_store sample_exact_options None)"
  by (simp add: file_ready_def cipher_ok_def sample_exact_options_def sample_exact_cipher_def open_file_store_def opens_def
      bucket_of_def map_values_def state_buckets_def js_values_def save_to_disk_def decrypt_bucket_def decrypt_secrets_def empty_bucket_def)

lemma sample_file_empty: "file_contents sample_exact_options (open_file_store sample_exact_options None) u = empty_bucket"
  by (simp add: file_contents_def open_file_store_def bucket_of_def map_values_def state_buckets_def js_values_def
      decrypt_bucket_def decrypt_secrets_def empty_bucket_def)

theorem file_store_refines_memory_witness:
  "bucket_of (fold mem_perform [(Write_op ''t1'' None (VObj True [(''token'', VStr ''abc'')]), sample_ticket)] []) ''t1'' =
   file_contents sample_exact_options (fold (file_perform sample_exact_options)
     [(Write_op ''t1'' None (VObj True [(''token'', VStr ''abc'')]), sample_ticket)]
     (open_file_store sample_exact_options None)) ''t1''"
  by (rule file_store_refines_memory [OF sample_file_ready]) (simp add: sample_file_empty bucket_of_def)

text \<open>
  Tenants cannot touch each other's configuration: a sequence of writes and clears whose
  tickets are all for other tenants, with whatever tenant ids in the requests, leaves what a
  tenant reads from the file store unchanged.
\<close>
theorem store_tenants_isolated:
  assumes "file_ready o' s" and "\<forall>x\<in>set ops. tk_tenant_id (snd x) \<noteq> u"
  shows "file_contents o' (fold (file_perform o') ops s) u = file_contents o' s u"
  using disk.other_tenants_unaffected [OF assms] by (simp add: disk_perform)

text \<open>
  A written value reads back: after a write with a ticket of the tenant, reading returns
  every value that was written, secrets in clear, and after a clear the key is gone.
\<close>
theorem file_write_read_roundtrip:
  assumes "file_ready o' s" and "parse_json_object v = Some vs" and "distinct (map fst vs)"
    and "js_get vs k = Some j"
  shows "\<exists>b. snd (file_read o' (fst (file_write o' s (tk_tenant_id tk) None v tk)) tk) = Inr b \<and> js_get (bk_tenant b) k = Some j \<and>
    (\<exists>c. snd (file_clear_key o' (fst (file_write o' s (tk_tenant_id tk) None v tk)) (tk_tenant_id tk) None k tk) = Inr c \<and>
       js_get (bk_tenant c) k = None)"
proof -
  let ?s = "fst (file_write o' s (tk_tenant_id tk) None v tk)"
  have ready: "file_ready o' ?s" by (rule disk.put_ready [OF assms(1)])
  have "snd (file_read o' ?s tk) = Inr (file_contents o' ?s (tk_tenant_id tk))" by (rule file_read_ready(3) [OF ready])
  moreover have "js_get (bk_tenant (file_contents o' ?s (tk_tenant_id tk))) k = Some j"
    by (rule disk.written_value [OF assms refl])
  ultimately show ?thesis
    using file_clear_result [OF ready] disk.forgotten_value [OF ready refl] by metis
qed

end
