(* ===== verification/ScopedConfig.thy ===== *)
theory ScopedConfig
  imports ConfigProvider ServiceToken
begin

text \<open>
  The configuration the control plane pushes to one service: \<open>ScopedServiceConfig\<close> of
  \<open>contracts/controlPlane.ts\<close> with the wire schemas of \<open>contracts/scopedConfig.ts\<close>.

  A scoped service or app extends the platform's record; the field the wire leaves out
  (\<open>apiKeyHash\<close>, the unresolved \<open>shell\<close>) is carried but never read. The preview
  configuration and theme settings are left out.
\<close>

record scoped_service = tenant_service +
  sv_shared_service_id :: "string option"

record scoped_tenant =
  sx_id :: string
  sx_slug :: string
  sx_title :: string
  sx_active :: bool
  sx_services :: "scoped_service list"
  sx_activated_platform_services :: "string list"

record scoped_app = app +
  sp_shell :: "resolved_shell option"
  sp_management_origins :: "(string, string) jsmap option"
  sp_app_routes :: "route_mount list"
  sp_app_fragments :: "(string, fragment_assignment list) jsmap"

record scoped_config_app =
  gc_id :: string
  gc_tenant_id :: string
  gc_title :: string

record service_identity =
  si_id :: string
  si_public_key_pem :: "string option"
  si_key_id :: "string option"

record scoped_management =
  sm_admin_tenant_id :: "string option"
  sm_management_app_id :: "string option"
  sm_context :: "(scoped_tenant \<times> scoped_app) option"

record scoped_config =
  sf_service_identity :: "service_identity option"
  sf_m2m :: "m2m_policy option"
  sf_config_management :: "scoped_management option"
  sf_management_origins :: "string list"
  sf_tenants :: "scoped_tenant list"
  sf_config_apps :: "scoped_config_app list option"
  sf_apps :: "scoped_app list"

section \<open>Scoped records as platform records\<close>

definition plain_service :: "scoped_service \<Rightarrow> tenant_service" where
  "plain_service s = (tenant_service.truncate s)\<lparr>ts_api_key_hash := []\<rparr>"

definition plain_tenant :: "scoped_tenant \<Rightarrow> tenant" where
  "plain_tenant t =
     \<lparr>tn_id = sx_id t, tn_slug = sx_slug t, tn_title = sx_title t, tn_active = sx_active t,
      tn_services = map plain_service (sx_services t),
      tn_activated_platform_services = sx_activated_platform_services t\<rparr>"

definition plain_app :: "scoped_app \<Rightarrow> app" where
  "plain_app a = (app.truncate a)\<lparr>app_shell := map_option rs_service_id (sp_shell a)\<rparr>"

lemma plain_tenant_fields [simp]:
  "tn_id (plain_tenant t) = sx_id t" "tn_active (plain_tenant t) = sx_active t"
  "tn_services (plain_tenant t) = map plain_service (sx_services t)"
  by (simp_all add: plain_tenant_def)

lemma plain_app_fields [simp]:
  "app_id (plain_app a) = app_id a" "app_tenant_id (plain_app a) = app_tenant_id a"
  "app_hostnames (plain_app a) = app_hostnames a" "app_auth_config (plain_app a) = app_auth_config a"
  "app_routes (plain_app a) = app_routes a" "app_fragments (plain_app a) = app_fragments a"
  "app_slots (plain_app a) = app_slots a"
  by (simp_all add: plain_app_def app.defs)

lemma plain_service_fields [simp]:
  "ts_id (plain_service s) = ts_id s" "ts_service_id (plain_service s) = ts_service_id s"
  "ts_enabled (plain_service s) = ts_enabled s" "ts_api_key_hash (plain_service s) = []"
  by (simp_all add: plain_service_def tenant_service.defs)

end
