(* ===== verification/ServiceConfigRoutes.thy ===== *)
theory ServiceConfigRoutes
  imports ConfigStore ScopedConfig
begin

text \<open>
  \<open>runtime/serviceConfig.ts\<close>: the three HTTP routes through which the control plane reads
  and writes a service's configuration. A handler takes the store and returns it with the
  reply, so what an early return leaves behind is visible.

  The callbacks of \<open>ServiceConfigRouteOptions\<close> are fields of \<open>config_options\<close> and
  \<open>config_backend\<close>; the HTTP event is reduced to its two headers and the body that
  \<open>readBoundedJsonBody\<close> produced. The schema of the write request is the parameter
  \<open>request_schema\<close>.
\<close>

datatype callback_error = Config_write_error string nat | Thrown string

record config_options =
  co_service_id :: string
  co_schemas :: "config_schema list"
  co_supports_custom_ui :: "bool option"
  co_custom_ui_path :: "string option"
  co_validate_ticket :: "(string option \<Rightarrow> config_action \<Rightarrow> ticket_claims option) option"
  co_validate_scope :: "(string \<Rightarrow> string option \<Rightarrow> config_action \<Rightarrow> ticket_claims \<Rightarrow> bool) option"

type_synonym ('s, 'a) callback = "'s \<times> (callback_error + 'a)"

record 's config_backend =
  cb_read :: "('s \<Rightarrow> ticket_claims \<Rightarrow> ('s, bucket option) callback) option"
  cb_write :: "('s \<Rightarrow> string \<Rightarrow> string option \<Rightarrow> js_value \<Rightarrow> ticket_claims \<Rightarrow> ('s, bucket option) callback) option"
  cb_clear :: "('s \<Rightarrow> string \<Rightarrow> string option \<Rightarrow> string \<Rightarrow> ticket_claims \<Rightarrow> ('s, bucket option) callback) option"

record write_request =
  wq_tenant_id :: string
  wq_app_id :: "string option"
  wq_values :: js_value
  wq_clear_keys :: "string list"

record config_reply_values =
  cv_service_id :: string
  cv_tenant_id :: string
  cv_app_id :: "string option"
  cv_values :: config_values

record schema_reply =
  sy_service_id :: string
  sy_schemas :: "config_schema list"
  sy_supports_custom_ui :: bool
  sy_custom_ui_path :: "string option"
  sy_supports_write :: bool

text \<open>A \<open>Failure\<close> is an exception that leaves the handler.\<close>

datatype config_reply =
  Config_error nat string | Config_values config_reply_values | Write_rejected string nat
| Early_response nat | Failure string

section \<open>Tickets\<close>

definition ticket_schema :: "ticket_claims \<Rightarrow> bool" where
  "ticket_schema c \<longleftrightarrow> tk_iss c \<noteq> [] \<and> list_all (\<lambda>a. a \<noteq> []) (audience_list (tk_aud c)) \<and> tk_sub c \<noteq> [] \<and>
     1 \<le> tk_exp c \<and> 0 \<le> tk_iat c \<and> tk_jti c \<noteq> [] \<and> tk_tenant_id c \<noteq> [] \<and> tk_service_id c \<noteq> [] \<and>
     tk_binding_id c \<noteq> Some [] \<and> 1 \<le> length (tk_actions c)"

definition ticket_value :: "string option \<Rightarrow> string option" where
  "ticket_value bearer =
     (case bearer of None \<Rightarrow> None
      | Some b \<Rightarrow> if js_starts_with ''Bearer '' b then Some (List.drop (length ''Bearer '') b) else None)"

definition resolve_ticket ::
    "config_options \<Rightarrow> int \<Rightarrow> string option \<Rightarrow> config_action \<Rightarrow> ticket_claims option res" where
  "resolve_ticket opts now authorization action =
     (case co_validate_ticket opts of
        None \<Rightarrow> Inr None
      | Some validate \<Rightarrow>
          (case validate (ticket_value authorization) action of
             None \<Rightarrow> Inr None
           | Some c \<Rightarrow>
               ensure (ticket_schema c) ''ValidationError''
               (if tk_exp c \<le> now then Inr None
                else if tk_service_id c \<noteq> co_service_id opts \<or> action \<notin> set (tk_actions c) then Inr None
                else Inr (Some c))))"

section \<open>Values\<close>

definition redact_secret_values :: "config_schema list \<Rightarrow> config_values \<Rightarrow> config_values" where
  "redact_secret_values schemas vs =
     map (\<lambda>(k, v). (k, if k \<in> set (resolve_secret_keys schemas) then JStr ''__redacted__'' else v)) vs"

text \<open>The depth the JSON contract counts, on values that are JSON already.\<close>

fun json_depth :: "json \<Rightarrow> nat" where
  "json_depth (JArr xs) = foldr max (map (\<lambda>x. Suc (json_depth x)) xs) 0"
| "json_depth (JObj kvs) = foldr max (map (\<lambda>kv. Suc (json_depth (snd kv))) kvs) 0"
| "json_depth _ = 0"

definition parse_state :: "bucket \<Rightarrow> bucket res" where
  "parse_state b =
     ensure (list_all (list_all (\<lambda>(k, v). json_depth v \<le> max_json_depth)) (bucket_values b)) ''ValidationError'' (Inr b)"

definition selected_values :: "string option \<Rightarrow> bucket \<Rightarrow> config_values" where
  "selected_values aid b = (if truthy aid then or_empty (js_get (bk_app b) (the aid)) else bk_tenant b)"

definition given_app :: "string option \<Rightarrow> string option" where
  "given_app aid = (if truthy aid then aid else None)"

definition reply_values :: "config_options \<Rightarrow> ticket_claims \<Rightarrow> string option \<Rightarrow> bucket \<Rightarrow> config_reply_values" where
  "reply_values opts ticket aid b =
     \<lparr>cv_service_id = co_service_id opts, cv_tenant_id = tk_tenant_id ticket, cv_app_id = given_app aid,
      cv_values = redact_secret_values (co_schemas opts) (selected_values aid b)\<rparr>"

definition read_response_schema :: "config_reply_values \<Rightarrow> bool" where
  "read_response_schema r \<longleftrightarrow> cv_service_id r \<noteq> [] \<and> cv_tenant_id r \<noteq> [] \<and>
     list_all (\<lambda>(k, v). json_depth v + 1 \<le> max_json_depth) (cv_values r)"

definition allowed_scope :: "config_options \<Rightarrow> string \<Rightarrow> string option \<Rightarrow> config_action \<Rightarrow> ticket_claims \<Rightarrow> bool" where
  "allowed_scope opts tenant_id aid action ticket =
     (case co_validate_scope opts of None \<Rightarrow> True | Some f \<Rightarrow> f tenant_id (given_app aid) action ticket)"

definition state_or_empty :: "bucket option \<Rightarrow> bucket" where
  "state_or_empty b = (case b of None \<Rightarrow> empty_bucket | Some x \<Rightarrow> x)"

section \<open>The routes\<close>

definition handle_schema :: "config_options \<Rightarrow> 's config_backend \<Rightarrow> schema_reply" where
  "handle_schema opts be =
     \<lparr>sy_service_id = co_service_id opts, sy_schemas = co_schemas opts,
      sy_supports_custom_ui = (case co_supports_custom_ui opts of None \<Rightarrow> truthy (co_custom_ui_path opts) | Some b \<Rightarrow> b),
      sy_custom_ui_path = given_app (co_custom_ui_path opts), sy_supports_write = (cb_write be \<noteq> None)\<rparr>"

definition callback_reply :: "callback_error \<Rightarrow> config_reply" where
  "callback_reply e = Failure (case e of Config_write_error m st \<Rightarrow> m | Thrown m \<Rightarrow> m)"

definition handle_get ::
    "config_options \<Rightarrow> 's config_backend \<Rightarrow> int \<Rightarrow> string option \<Rightarrow> string option \<Rightarrow> 's \<Rightarrow> 's \<times> config_reply" where
  "handle_get opts be now authorization requested s =
     (case resolve_ticket opts now authorization Config_read of
        Inl e \<Rightarrow> (s, Failure e)
      | Inr None \<Rightarrow> (s, Config_error 401 ''config.ticket_invalid'')
      | Inr (Some ticket) \<Rightarrow>
          (case cb_read be of
             None \<Rightarrow> (s, Config_error 501 ''config.read_not_supported'')
           | Some read \<Rightarrow>
               if \<not> allowed_scope opts (tk_tenant_id ticket) requested Config_read ticket
               then (s, Config_error 403 ''config.read_scope_denied'')
               else (case read s ticket of
                       (s', Inl e) \<Rightarrow> (s', callback_reply e)
                     | (s', Inr b) \<Rightarrow>
                         (s', (case parse_state (state_or_empty b) of
                                 Inl e \<Rightarrow> Failure e
                               | Inr st \<Rightarrow>
                                   (let r = reply_values opts ticket requested st
                                    in if read_response_schema r then Config_values r else Failure ''ValidationError''))))))"

text \<open>The \<open>clearKeys\<close> loop: it stops at the first key whose callback throws.\<close>

fun clear_keys ::
    "('s \<Rightarrow> string \<Rightarrow> string option \<Rightarrow> string \<Rightarrow> ticket_claims \<Rightarrow> ('s, bucket option) callback) \<Rightarrow>
     string \<Rightarrow> string option \<Rightarrow> ticket_claims \<Rightarrow> string list \<Rightarrow> 's \<Rightarrow> ('s, unit) callback" where
  "clear_keys clear t aid ticket [] s = (s, Inr ())"
| "clear_keys clear t aid ticket (k # ks) s =
     (case clear s t aid k ticket of
        (s', Inl e) \<Rightarrow> (s', Inl e)
      | (s', Inr b) \<Rightarrow> clear_keys clear t aid ticket ks s')"

definition run_clears ::
    "'s config_backend \<Rightarrow> write_request \<Rightarrow> ticket_claims \<Rightarrow> 's \<Rightarrow> ('s, unit) callback" where
  "run_clears be w ticket s =
     (case cb_clear be of
        None \<Rightarrow> (s, Inr ())
      | Some clear \<Rightarrow> clear_keys clear (wq_tenant_id w) (wq_app_id w) ticket (wq_clear_keys w) s)"

definition rejected_reply :: "callback_error \<Rightarrow> config_reply" where
  "rejected_reply e = (case e of Config_write_error m st \<Rightarrow> Write_rejected m st | Thrown m \<Rightarrow> Failure m)"

definition handle_post ::
    "config_options \<Rightarrow> 's config_backend \<Rightarrow> (js_value \<Rightarrow> write_request option) \<Rightarrow> int \<Rightarrow> string option \<Rightarrow>
     nat + js_value \<Rightarrow> 's \<Rightarrow> 's \<times> config_reply" where
  "handle_post opts be request_schema now authorization body s =
     (case resolve_ticket opts now authorization Config_write of
        Inl e \<Rightarrow> (s, Failure e)
      | Inr None \<Rightarrow> (s, Config_error 401 ''config.ticket_invalid'')
      | Inr (Some ticket) \<Rightarrow>
          (case cb_write be of
             None \<Rightarrow> (s, Config_error 501 ''config.write_not_supported'')
           | Some write_values \<Rightarrow>
               (case body of
                  Inl status \<Rightarrow> (s, Early_response status)
                | Inr v \<Rightarrow>
                    (case request_schema v of
                       None \<Rightarrow> (s, Config_error 400 ''config.write_payload_invalid'')
                     | Some w \<Rightarrow>
                         if wq_tenant_id w \<noteq> tk_tenant_id ticket
                         then (s, Config_error 403 ''config.write_tenant_mismatch'')
                         else if \<not> allowed_scope opts (wq_tenant_id w) (wq_app_id w) Config_write ticket
                         then (s, Config_error 403 ''config.write_scope_denied'')
                         else
                           (case run_clears be w ticket s of
                              (s1, Inl e) \<Rightarrow> (s1, rejected_reply e)
                            | (s1, Inr u) \<Rightarrow>
                                (case write_values s1 (wq_tenant_id w) (wq_app_id w) (wq_values w) ticket of
                                   (s2, Inl e) \<Rightarrow> (s2, rejected_reply e)
                                 | (s2, Inr b) \<Rightarrow>
                                     (s2, (case parse_state (state_or_empty b) of
                                             Inl e \<Rightarrow> Failure e
                                           | Inr st \<Rightarrow> Config_values (reply_values opts ticket (wq_app_id w) st)))))))))"

section \<open>Wiring a store\<close>

text \<open>
  \<open>registerDefaultConfigRoutes\<close> of the BSB plugin's \<open>service.ts\<close> hands a
  \<open>ServiceConfigStore\<close> to the routes. A write or a clear goes through
  \<open>mutateServiceConfiguration\<close>, which a service may override to reject a change: \<open>fence\<close>
  is that decision.
\<close>

definition lift_result :: "'s \<times> bucket res \<Rightarrow> ('s, bucket option) callback" where
  "lift_result x = (case x of (s, Inl m) \<Rightarrow> (s, Inl (Thrown m)) | (s, Inr b) \<Rightarrow> (s, Inr (Some b)))"

type_synonym fence = "string \<Rightarrow> string option \<Rightarrow> js_value \<Rightarrow> callback_error option"

definition fenced :: "callback_error option \<Rightarrow> 's \<Rightarrow> 's \<times> bucket res \<Rightarrow> ('s, bucket option) callback" where
  "fenced rejection s x = (case rejection of Some e \<Rightarrow> (s, Inl e) | None \<Rightarrow> lift_result x)"

definition store_backend ::
    "('s \<Rightarrow> ticket_claims \<Rightarrow> 's \<times> bucket res) \<Rightarrow>
     ('s \<Rightarrow> string \<Rightarrow> string option \<Rightarrow> js_value \<Rightarrow> ticket_claims \<Rightarrow> 's \<times> bucket res) \<Rightarrow>
     ('s \<Rightarrow> string \<Rightarrow> string option \<Rightarrow> string \<Rightarrow> ticket_claims \<Rightarrow> 's \<times> bucket res) \<Rightarrow> fence \<Rightarrow> 's config_backend" where
  "store_backend fetch put forget fence =
     \<lparr>cb_read = Some (\<lambda>s tk. lift_result (fetch s tk)),
      cb_write = Some (\<lambda>s t a v tk. fenced (fence t a v) s (put s t a v tk)),
      cb_clear = Some (\<lambda>s t a k tk. fenced (fence t a (VObj True [(k, VUndefined)])) s (forget s t a k tk))\<rparr>"

text \<open>The base class fences nothing.\<close>

definition no_fence :: fence where
  "no_fence t a v = None"

definition active_tenant :: "('t \<Rightarrow> string) \<Rightarrow> ('t \<Rightarrow> bool) \<Rightarrow> 't list \<Rightarrow> string \<Rightarrow> bool" where
  "active_tenant ident act ts tenant_id = (case List.find (\<lambda>t. ident t = tenant_id) ts of None \<Rightarrow> False | Some t \<Rightarrow> act t)"

definition validate_config_scope :: "scoped_config option \<Rightarrow> platform_config option \<Rightarrow> string \<Rightarrow> string option \<Rightarrow> bool" where
  "validate_config_scope scoped provider tenant_id aid =
     (case scoped of
        Some sc \<Rightarrow>
          if \<not> active_tenant sx_id sx_active (sf_tenants sc) tenant_id then False
          else if \<not> truthy aid then True
          else (case sf_config_apps sc of
                  None \<Rightarrow> list_ex (\<lambda>a. Some (app_id a) = aid \<and> app_tenant_id a = tenant_id) (sf_apps sc)
                | Some as \<Rightarrow> list_ex (\<lambda>a. Some (gc_id a) = aid \<and> gc_tenant_id a = tenant_id) as)
      | None \<Rightarrow>
          (case provider of
             None \<Rightarrow> False
           | Some cfg \<Rightarrow>
               if \<not> active_tenant tn_id tn_active (pc_tenants cfg) tenant_id then False
               else if \<not> truthy aid then True
               else list_ex (\<lambda>a. Some (app_id a) = aid \<and> app_tenant_id a = tenant_id) (pc_apps cfg)))"

section \<open>What the routes need of a store\<close>

locale served_store = config_store ready contents put forget
  for ready :: "'s \<Rightarrow> bool"
    and contents :: "'s \<Rightarrow> string \<Rightarrow> bucket"
    and put :: "'s \<Rightarrow> string \<Rightarrow> string option \<Rightarrow> js_value \<Rightarrow> ticket_claims \<Rightarrow> 's \<times> bucket res"
    and forget :: "'s \<Rightarrow> string \<Rightarrow> string option \<Rightarrow> string \<Rightarrow> ticket_claims \<Rightarrow> 's \<times> bucket res" +
  fixes fetch :: "'s \<Rightarrow> ticket_claims \<Rightarrow> 's \<times> bucket res"
  assumes fetch_ready: "ready s \<Longrightarrow> ready (fst (fetch s tk))"
    and fetch_contents: "ready s \<Longrightarrow> contents (fst (fetch s tk)) u = contents s u"
    and fetch_result: "ready s \<Longrightarrow> snd (fetch s tk) = Inr (contents s (tk_tenant_id tk))"
    and put_error: "parse_json_object v = None \<Longrightarrow> \<exists>e. snd (put s t a v tk) = Inl e"
    and forget_result: "ready s \<Longrightarrow> snd (forget s t a k tk) = Inr (contents (fst (forget s t a k tk)) (tk_tenant_id tk))"
begin

lemma clear_keys_contents:
  assumes "ready s" "tk_tenant_id tk = t"
    "clear_keys (\<lambda>s t a k tk. fenced (f t a k) s (forget s t a k tk)) t a tk ks s = (s', r)"
  shows "ready s' \<and> (\<forall>u. u \<noteq> t \<longrightarrow> contents s' u = contents s u) \<and>
    (r = Inr () \<longrightarrow> contents s' t = fold (remove_key a) ks (contents s t))"
  using assms
proof (induction ks arbitrary: s)
  case (Cons k ks)
  show ?case
  proof (cases "f t a k")
    case None
    obtain s1 where s1: "forget s t a k tk = (s1, Inr (contents s1 t))"
      using forget_result [OF Cons.prems(1), of t a k tk] Cons.prems(2) by (cases "forget s t a k tk") auto
    have "ready s1" "\<forall>u. contents s1 u = (if u = t then remove_key a k (contents s u) else contents s u)"
      using forget_ready [OF Cons.prems(1), of t a k tk] forget_contents [OF Cons.prems(1), of t a k tk] Cons.prems(2) s1
      by auto
    with Cons.IH [of s1] Cons.prems(2,3) None s1 show ?thesis
      by (auto simp: fenced_def lift_result_def)
  next
    case (Some e)
    then show ?thesis using Cons.prems by (auto simp: fenced_def)
  qed
qed simp

text \<open>A write changes no tenant but the ticket's.\<close>

lemma post_other_tenants:
  assumes s: "ready s"
    and r: "handle_post opts (store_backend fetch put forget fence) schema now auth body s = (s', reply)"
    and u: "contents s' u \<noteq> contents s u"
  shows "\<exists>ticket v w. resolve_ticket opts now auth Config_write = Inr (Some ticket) \<and> body = Inr v \<and>
    schema v = Some w \<and> tk_tenant_id ticket = u \<and> wq_tenant_id w = u \<and>
    allowed_scope opts u (wq_app_id w) Config_write ticket"
proof -
  let ?be = "store_backend fetch put forget fence"
  have ne: "s' \<noteq> s" using u by auto
  obtain ticket v w where t: "resolve_ticket opts now auth Config_write = Inr (Some ticket)" "body = Inr v"
      "schema v = Some w" "wq_tenant_id w = tk_tenant_id ticket"
      "allowed_scope opts (wq_tenant_id w) (wq_app_id w) Config_write ticket"
    using r ne by (auto simp: handle_post_def store_backend_def split: sum.splits option.splits if_splits)
  have "u = wq_tenant_id w"
  proof (rule ccontr)
    assume nu: "u \<noteq> wq_tenant_id w"
    obtain s1 c where c: "run_clears ?be w ticket s = (s1, c)" by (cases "run_clears ?be w ticket s")
    then have s1: "ready s1" "contents s1 u = contents s u"
      using clear_keys_contents [OF s, of ticket "wq_tenant_id w" "\<lambda>t a k. fence t a (VObj True [(k, VUndefined)])"
          "wq_app_id w" "wq_clear_keys w" s1 c] t(4) nu
      by (auto simp: run_clears_def store_backend_def)
    have put: "contents (fst (put s1 (wq_tenant_id w) (wq_app_id w) (wq_values w) ticket)) u = contents s1 u"
      using put_contents [OF s1(1)] put_rejected [OF s1(1)] nu
      by (cases "parse_json_object (wq_values w)") auto
    have "contents s' u = contents s1 u"
      using r t c put
      by (auto simp: handle_post_def store_backend_def fenced_def lift_result_def split: sum.splits option.splits prod.splits)
    with s1(2) u show False by simp
  qed
  with t show ?thesis by auto
qed

lemma post_success:
  assumes s: "ready s"
    and r: "handle_post opts (store_backend fetch put forget fence) schema now auth (Inr v) s = (s', Config_values reply)"
  shows "\<exists>w ticket vs. schema v = Some w \<and> resolve_ticket opts now auth Config_write = Inr (Some ticket) \<and>
    (parse_json_object (wq_values w) = Some vs \<and>
     contents s' (wq_tenant_id w) = merge_values (wq_app_id w) vs
       (fold (remove_key (wq_app_id w)) (wq_clear_keys w) (contents s (wq_tenant_id w)))) \<and>
     cv_values reply = redact_secret_values (co_schemas opts) (selected_values (wq_app_id w) (contents s' (wq_tenant_id w)))"
proof -
  let ?be = "store_backend fetch put forget fence"
  obtain ticket w where t: "resolve_ticket opts now auth Config_write = Inr (Some ticket)"
      "schema v = Some w" "wq_tenant_id w = tk_tenant_id ticket"
    using r by (auto simp: handle_post_def store_backend_def split: sum.splits option.splits if_splits)
  let ?t = "wq_tenant_id w" and ?a = "wq_app_id w"
  obtain s1 c where c: "run_clears ?be w ticket s = (s1, c)" by (cases "run_clears ?be w ticket s")
  obtain s2 b where p: "put s1 ?t ?a (wq_values w) ticket = (s2, b)" by (cases "put s1 ?t ?a (wq_values w) ticket")
  have f: "fence ?t ?a (wq_values w) = None" "c = Inr ()" "s2 = s'"
    and b: "\<exists>st. b = Inr st \<and> parse_state st = Inr st \<and> reply = reply_values opts ticket ?a st"
    using r t c p
    by (auto simp: handle_post_def store_backend_def fenced_def lift_result_def rejected_reply_def state_or_empty_def
        parse_state_def guard_simps split: sum.splits option.splits if_splits callback_error.splits)
  have s1: "ready s1" "contents s1 ?t = fold (remove_key ?a) (wq_clear_keys w) (contents s ?t)"
    using clear_keys_contents [OF s, of ticket ?t "\<lambda>t a k. fence t a (VObj True [(k, VUndefined)])"
        ?a "wq_clear_keys w" s1 c] t(3) c f(2)
    by (auto simp: run_clears_def store_backend_def)
  obtain vs where vs: "parse_json_object (wq_values w) = Some vs"
    using put_error [of "wq_values w" s1 ?t ?a ticket] p b by (cases "parse_json_object (wq_values w)") auto
  show ?thesis
    using t vs s1 f p b put_contents [OF s1(1) vs, of ?t ?a ticket ?t] put_result [OF s1(1) vs, of ?t ?a ticket]
    by (auto simp: reply_values_def)
qed

end

section \<open>Both stores serve the routes\<close>

interpretation mem_served: served_store "\<lambda>_. True" bucket_of mem_write mem_clear_key "\<lambda>s tk. (s, Inr (mem_read s tk))"
  by unfold_locales (simp_all add: mem_read_def clone_bucket_eq mem_write_def mem_clear_key_def Let_def)

interpretation disk_served: served_store "file_ready o'" "file_contents o'" "file_write o'" "file_clear_key o'" "file_read o'" for o'
proof unfold_locales
  fix s t a k tk
  assume s: "file_ready o' s"
  show "snd (file_clear_key o' s t a k tk) = Inr (file_contents o' (fst (file_clear_key o' s t a k tk)) (tk_tenant_id tk))"
    by (rule file_clear_result [OF s])
qed (simp_all add: file_read_ready file_write_def)

section \<open>Properties\<close>

lemma resolve_ticket_schema:
  "resolve_ticket opts now auth action = Inr (Some c) \<Longrightarrow>
     \<exists>validate. co_validate_ticket opts = Some validate \<and> validate (ticket_value auth) action = Some c \<and>
       tk_service_id c = co_service_id opts \<and> action \<in> set (tk_actions c) \<and> now < tk_exp c"
  by (auto simp: resolve_ticket_def guard_simps split: option.splits if_splits)

text \<open>
  A configuration write touches nothing but what its ticket is for: if a POST to the
  config route of a service on the file store changes what some tenant reads, then the ticket
  validator accepted the bearer token for a write, the ticket is for this service, for that
  tenant and not expired, the request names the same tenant, and its app is in the scope that
  the service allows.
\<close>
theorem post_changes_ticket_tenant_only:
  assumes "file_ready o' s"
    and "handle_post opts (store_backend (file_read o') (file_write o') (file_clear_key o') fence) schema now auth body s = (s', reply)"
    and "file_contents o' s' u \<noteq> file_contents o' s u"
  shows "\<exists>validate ticket v w. co_validate_ticket opts = Some validate \<and>
    validate (ticket_value auth) Config_write = Some ticket \<and> tk_tenant_id ticket = u \<and>
    tk_service_id ticket = co_service_id opts \<and> Config_write \<in> set (tk_actions ticket) \<and> now < tk_exp ticket \<and>
    body = Inr v \<and> schema v = Some w \<and> wq_tenant_id w = u \<and> allowed_scope opts u (wq_app_id w) Config_write ticket"
  using disk_served.post_other_tenants [OF assms] resolve_ticket_schema by blast

definition sample_write :: write_request where
  "sample_write = \<lparr>wq_tenant_id = ''t1'', wq_app_id = None, wq_values = VObj True [(''token'', VStr ''abc'')],
     wq_clear_keys = [''old'']\<rparr>"

abbreviation sample_disk :: file_store where
  "sample_disk \<equiv> open_file_store sample_exact_options None"

abbreviation sample_backend :: "fence \<Rightarrow> file_store config_backend" where
  "sample_backend fence \<equiv> store_backend (file_read sample_exact_options) (file_write sample_exact_options)
     (file_clear_key sample_exact_options) fence"

text \<open>What the sample request does to the store: the clear, then the write.\<close>

lemma sample_clear:
  "\<exists>s1. file_clear_key sample_exact_options sample_disk ''t1'' None ''old'' sample_ticket = (s1, Inr empty_bucket) \<and>
     file_ready sample_exact_options s1 \<and> file_contents sample_exact_options s1 ''t1'' = empty_bucket"
proof -
  let ?c = "file_clear_key sample_exact_options sample_disk ''t1'' None ''old'' sample_ticket"
  have t: "tk_tenant_id sample_ticket = ''t1''" by (simp add: sample_ticket_def)
  have "file_contents sample_exact_options (fst ?c) ''t1'' = empty_bucket"
    using disk.forget_contents [OF sample_file_ready, of "''t1''" None "''old''" sample_ticket "''t1''"]
    by (simp add: t sample_file_empty remove_key_def empty_bucket_def js_del_def)
  moreover have "snd ?c = Inr (file_contents sample_exact_options (fst ?c) ''t1'')"
    using file_clear_result [OF sample_file_ready, of "''t1''" None "''old''" sample_ticket] by (simp add: t)
  ultimately show ?thesis
    using disk.forget_ready [OF sample_file_ready] by (intro exI [of _ "fst ?c"]) (auto intro: prod_eqI)
qed

lemma sample_values: "parse_json_object (wq_values sample_write) = Some [(''token'', JStr ''abc'')]"
  by code_simp

lemma sample_put:
  assumes "file_ready sample_exact_options s1" and "file_contents sample_exact_options s1 ''t1'' = empty_bucket"
  shows "\<exists>s2. file_write sample_exact_options s1 ''t1'' None (wq_values sample_write) sample_ticket =
      (s2, Inr \<lparr>bk_tenant = [(''token'', JStr ''abc'')], bk_app = []\<rparr>) \<and>
    file_contents sample_exact_options s2 ''t1'' = \<lparr>bk_tenant = [(''token'', JStr ''abc'')], bk_app = []\<rparr>"
proof -
  let ?w = "file_write sample_exact_options s1 ''t1'' None (wq_values sample_write) sample_ticket"
  have t: "tk_tenant_id sample_ticket = ''t1''" by (simp add: sample_ticket_def)
  have c: "file_contents sample_exact_options (fst ?w) ''t1'' = \<lparr>bk_tenant = [(''token'', JStr ''abc'')], bk_app = []\<rparr>"
    using disk.put_contents [OF assms(1) sample_values, of "''t1''" None sample_ticket "''t1''"] assms(2)
    by (simp add: t merge_values_def empty_bucket_def js_spread_def)
  moreover have "snd ?w = Inr (file_contents sample_exact_options (fst ?w) ''t1'')"
    using disk.put_result [OF assms(1) sample_values, of "''t1''" None sample_ticket] by (simp add: t)
  ultimately show ?thesis by (intro exI [of _ "fst ?w"]) (auto intro: prod_eqI)
qed

lemma sample_post_for:
  assumes "resolve_ticket opts 150 (Some ''Bearer h.p.s'') Config_write = Inr (Some sample_ticket)"
    and "allowed_scope opts ''t1'' None Config_write sample_ticket" and "co_schemas opts = fo_schemas sample_store_options"
  shows "\<exists>s' r. handle_post opts (sample_backend no_fence) (\<lambda>v. Some sample_write) 150 (Some ''Bearer h.p.s'')
      (Inr VNull) sample_disk = (s', Config_values r) \<and>
    file_contents sample_exact_options s' ''t1'' = \<lparr>bk_tenant = [(''token'', JStr ''abc'')], bk_app = []\<rparr> \<and>
    cv_values r = [(''token'', JStr ''__redacted__'')]"
proof -
  obtain s1 where s1: "file_clear_key sample_exact_options sample_disk ''t1'' None ''old'' sample_ticket = (s1, Inr empty_bucket)"
    "file_ready sample_exact_options s1" "file_contents sample_exact_options s1 ''t1'' = empty_bucket"
    using sample_clear by blast
  obtain s2 where s2: "file_write sample_exact_options s1 ''t1'' None (wq_values sample_write) sample_ticket =
      (s2, Inr \<lparr>bk_tenant = [(''token'', JStr ''abc'')], bk_app = []\<rparr>)"
    "file_contents sample_exact_options s2 ''t1'' = \<lparr>bk_tenant = [(''token'', JStr ''abc'')], bk_app = []\<rparr>"
    using sample_put [OF s1(2,3)] by blast
  have w: "wq_tenant_id sample_write = ''t1''" "wq_app_id sample_write = None" "wq_clear_keys sample_write = [''old'']"
    "tk_tenant_id sample_ticket = ''t1''"
    by (simp_all add: sample_write_def sample_ticket_def)
  have red: "redact_secret_values (fo_schemas sample_store_options) [(''token'', JStr ''abc'')] = [(''token'', JStr ''__redacted__'')]"
    by code_simp
  have ok: "parse_state \<lparr>bk_tenant = [(''token'', JStr ''abc'')], bk_app = []\<rparr> = Inr \<lparr>bk_tenant = [(''token'', JStr ''abc'')], bk_app = []\<rparr>"
    by code_simp
  show ?thesis
    using s1(1) s2
    by (simp add: handle_post_def assms store_backend_def w run_clears_def fenced_def no_fence_def lift_result_def
        state_or_empty_def ok reply_values_def selected_values_def red)
qed

text \<open>
  A successful write does what it says: the request's keys were removed and its values
  merged into the tenant's (or app's) configuration and nothing else, and the reply is the
  resulting configuration with its secrets redacted.
\<close>
theorem post_stores_request:
  assumes "file_ready o' s"
    and "handle_post opts (store_backend (file_read o') (file_write o') (file_clear_key o') fence) schema now auth (Inr v) s =
      (s', Config_values reply)"
  shows "\<exists>w vs. schema v = Some w \<and> parse_json_object (wq_values w) = Some vs \<and>
    file_contents o' s' (wq_tenant_id w) = merge_values (wq_app_id w) vs
      (fold (remove_key (wq_app_id w)) (wq_clear_keys w) (file_contents o' s (wq_tenant_id w))) \<and>
    cv_values reply = redact_secret_values (co_schemas opts) (selected_values (wq_app_id w) (file_contents o' s' (wq_tenant_id w)))"
  using disk_served.post_success [OF assms] by blast

text \<open>
  The config routes never hand out a secret: every reply with values, to a read or to a
  write and whatever the store returns, shows the placeholder for each key that any schema of
  the service marks secret, and is for the tenant of an accepted ticket.
\<close>
theorem config_replies_redacted:
  assumes "snd (handle_get opts be now auth requested s) = Config_values r \<or>
      snd (handle_post opts be schema now auth body s) = Config_values r"
    and "(k, v) \<in> set (cv_values r)" and "k \<in> set (resolve_secret_keys (co_schemas opts))"
  shows "v = JStr ''__redacted__'' \<and>
    (\<exists>action ticket. resolve_ticket opts now auth action = Inr (Some ticket) \<and> cv_tenant_id r = tk_tenant_id ticket)"
proof -
  have "\<exists>action ticket aid b. resolve_ticket opts now auth action = Inr (Some ticket) \<and> r = reply_values opts ticket aid b"
    using assms(1)
    by (elim disjE)
       (auto simp: handle_get_def handle_post_def rejected_reply_def callback_reply_def Let_def
          split: sum.splits option.splits if_splits prod.splits callback_error.splits)
  then obtain action ticket aid b where "resolve_ticket opts now auth action = Inr (Some ticket)"
      "r = reply_values opts ticket aid b" by blast
  with assms(2,3) show ?thesis by (auto simp: reply_values_def redact_secret_values_def)
qed

text \<open>
  A rejected write is not undone: when the fence of a service lets the clears through but
  rejects the new values, the client is told that the write was rejected while the keys of its
  request have already been cleared in the store.
\<close>
theorem rejected_write_keeps_clears:
  assumes "file_ready o' s" and "resolve_ticket opts now auth Config_write = Inr (Some ticket)"
    and "schema v = Some w" and "wq_tenant_id w = tk_tenant_id ticket"
    and "allowed_scope opts (wq_tenant_id w) (wq_app_id w) Config_write ticket"
    and "\<forall>k. fence (wq_tenant_id w) (wq_app_id w) (VObj True [(k, VUndefined)]) = None"
    and "fence (wq_tenant_id w) (wq_app_id w) (wq_values w) = Some (Config_write_error msg status)"
  shows "\<exists>s'. handle_post opts (store_backend (file_read o') (file_write o') (file_clear_key o') fence) schema now auth (Inr v) s =
      (s', Write_rejected msg status) \<and>
    file_contents o' s' (wq_tenant_id w) =
      fold (remove_key (wq_app_id w)) (wq_clear_keys w) (file_contents o' s (wq_tenant_id w))"
proof -
  let ?clear = "\<lambda>s t a k tk. fenced (fence t a (VObj True [(k, VUndefined)])) s (file_clear_key o' s t a k tk)"
  obtain s1 c where c: "clear_keys ?clear (wq_tenant_id w) (wq_app_id w) ticket (wq_clear_keys w) s = (s1, c)"
    by (cases "clear_keys ?clear (wq_tenant_id w) (wq_app_id w) ticket (wq_clear_keys w) s")
  have all: "snd (clear_keys ?clear (wq_tenant_id w) (wq_app_id w) ticket ks z) = Inr ()" if "file_ready o' z" for ks z
    using that
  proof (induction ks arbitrary: z)
    case (Cons k ks)
    obtain z1 where "file_clear_key o' z (wq_tenant_id w) (wq_app_id w) k ticket = (z1, Inr (file_contents o' z1 (wq_tenant_id w)))"
      using file_clear_result [OF Cons.prems, of "wq_tenant_id w" "wq_app_id w" k ticket] assms(4)
      by (cases "file_clear_key o' z (wq_tenant_id w) (wq_app_id w) k ticket") auto
    moreover from this have "file_ready o' z1"
      using disk.forget_ready [OF Cons.prems, of "wq_tenant_id w" "wq_app_id w" k ticket] by simp
    ultimately show ?case using assms(6) Cons.IH [of z1] by (simp add: fenced_def lift_result_def)
  qed simp
  have c_ok: "c = Inr ()" using all [OF assms(1), of "wq_clear_keys w"] unfolding c by simp
  have "file_contents o' s1 (wq_tenant_id w) =
      fold (remove_key (wq_app_id w)) (wq_clear_keys w) (file_contents o' s (wq_tenant_id w))"
    using disk_served.clear_keys_contents [OF assms(1) assms(4) [symmetric] c] c_ok by blast
  moreover have "handle_post opts (store_backend (file_read o') (file_write o') (file_clear_key o') fence) schema now auth (Inr v) s =
      (s1, Write_rejected msg status)"
    using assms(2-5,7) c c_ok
    by (simp add: handle_post_def store_backend_def run_clears_def fenced_def rejected_reply_def)
  ultimately show ?thesis by blast
qed

end
