(* ===== verification/Redirect.thy ===== *)
theory Redirect
  imports PlatformConfig
begin

text \<open>
  \<open>runtime/auth/redirect.ts\<close>: where a sign-in or sign-out sends the browser. The URL parser
  is the parameter \<open>origin_of\<close> (the origin of \<open>new URL(path, base)\<close>, None when it
  throws), the route resolver the parameter \<open>ui_path\<close>.
\<close>

datatype redirect_kind = After_login | After_logout

definition scheme_char :: "char \<Rightarrow> bool" where
  "scheme_char c \<longleftrightarrow> is_alnum c \<or> c \<in> set ''+.-''"

text \<open>\<open>/^[A-Za-z][A-Za-z0-9+.-]*:/\<close>\<close>

fun has_scheme :: "string \<Rightarrow> bool" where
  "has_scheme [] = False"
| "has_scheme (c # cs) = (is_alpha c \<and> js_starts_with '':'' (dropWhile scheme_char cs))"

definition backslash :: char where "backslash = CHR 0x5C"

definition redirect_base :: string where "redirect_base = ''https://betterportal.invalid''"

definition normalize_redirect :: "(string \<Rightarrow> string option) \<Rightarrow> string option \<Rightarrow> string option" where
  "normalize_redirect origin_of raw =
     (let redirect = map_option js_trim raw
      in if \<not> truthy redirect then None
         else if has_scheme (the redirect) then None
         else (let path = (if js_starts_with ''/'' (the redirect) then the redirect else CHR ''/'' # the redirect)
               in if js_starts_with ''//'' path \<or> backslash \<in> set path then None
                  else if list_ex is_control path then None
                  else (case origin_of path of
                          None \<Rightarrow> None
                        | Some origin \<Rightarrow> if origin \<noteq> redirect_base then None else Some path)))"

definition redirect_target :: "app_auth option \<Rightarrow> redirect_kind \<Rightarrow> view_reference option" where
  "redirect_target auth kind =
     (case auth of None \<Rightarrow> None
      | Some a \<Rightarrow> (case kind of After_login \<Rightarrow> aa_after_login a | After_logout \<Rightarrow> aa_after_logout a))"

definition resolve_app_auth_redirect ::
    "(string \<Rightarrow> string option) \<Rightarrow> (view_reference \<Rightarrow> string option) \<Rightarrow> app \<Rightarrow> redirect_kind \<Rightarrow> string option \<Rightarrow> string" where
  "resolve_app_auth_redirect origin_of ui_path a kind requested =
     (let explicit = normalize_redirect origin_of requested
      in if truthy explicit then the explicit
         else (case Option.bind (redirect_target (app_auth_config a) kind) ui_path of
                 Some p \<Rightarrow> p
               | None \<Rightarrow> (case normalize_redirect origin_of (Some (app_default_route a)) of
                            Some p \<Rightarrow> p | None \<Rightarrow> ''/'')))"

section \<open>Local destinations\<close>

definition local_path :: "string \<Rightarrow> bool" where
  "local_path p \<longleftrightarrow> (\<exists>rest. p = CHR ''/'' # rest \<and> \<not> js_starts_with ''/'' rest) \<and>
     backslash \<notin> set p \<and> (\<forall>c\<in>set p. \<not> is_control c)"

lemma local_root: "local_path ''/''"
  by (simp add: local_path_def js_starts_with_def backslash_def is_control_def)

lemma normalize_redirectD:
  assumes "normalize_redirect origin_of raw = Some p"
  shows "local_path p \<and> origin_of p = Some redirect_base"
proof -
  have start: "\<exists>rest. q = CHR ''/'' # rest \<and> \<not> js_starts_with ''/'' rest"
    if "js_starts_with ''/'' q" "\<not> js_starts_with ''//'' q" for q
    using that by (cases q) (auto simp: js_starts_with_def)
  have "js_starts_with ''/'' p" "\<not> js_starts_with ''//'' p" "backslash \<notin> set p" "\<not> list_ex is_control p"
      "origin_of p = Some redirect_base"
    using assms
    by (auto simp: normalize_redirect_def Let_def js_starts_with_def split: if_splits option.splits)
  with start [of p] show ?thesis by (simp add: local_path_def list_ex_iff)
qed

lemma redirect_local:
  assumes "\<forall>v p. ui_path v = Some p \<longrightarrow> local_path p"
  shows "local_path (resolve_app_auth_redirect origin_of ui_path a kind requested)"
  using assms normalize_redirectD
  by (auto simp: resolve_app_auth_redirect_def Let_def truthy_def local_root bind_eq_Some_conv split: option.splits)

section \<open>Properties\<close>

text \<open>
  A sign-in cannot send the browser to another site through the \<open>next\<close> parameter:
  as long as the route table only yields local paths, the answer is a path on this site (one
  leading slash, not two, no backslash, no control character) whatever was requested and
  whatever the app's default route is, and a requested value is followed only if the URL parser
  keeps it on the origin it is resolved against.
\<close>
theorem redirect_stays_local:
  assumes "\<forall>v p. ui_path v = Some p \<longrightarrow> local_path p"
  shows "local_path (resolve_app_auth_redirect origin_of ui_path a kind requested) \<and>
    (\<forall>p. normalize_redirect origin_of requested = Some p \<longrightarrow>
       resolve_app_auth_redirect origin_of ui_path a kind requested = p \<and> origin_of p = Some redirect_base)"
proof -
  have "resolve_app_auth_redirect origin_of ui_path a kind requested = p \<and> origin_of p = Some redirect_base"
    if "normalize_redirect origin_of requested = Some p" for p
    using normalize_redirectD [OF that] that
    by (auto simp: resolve_app_auth_redirect_def truthy_def local_path_def)
  with redirect_local [OF assms] show ?thesis by blast
qed

end
