(* ===== verification/RequestAuth.thy ===== *)
theory RequestAuth
  imports ServiceToken TokenIssuer RouteRegistry ThemeMenu Media
begin

text \<open>
  The admission of a request in \<open>adapters/h3.ts\<close>: reading and validating its inputs,
  the app's route allowlist, authentication and authorization, elevation and the tenant check,
  in the order \<open>handleRouteRequest\<close> has them before it calls a handler.

  The hooks of \<open>H3RouterObservabilityOptions\<close> are the fields of \<open>router_options\<close>; the
  event they write the resolved tenant and app to is passed along. A schema is named by a string
  and parsed by \<open>parse_with\<close>. \<open>lib\<close> reads token headers and \<open>now\<close> is the clock.
\<close>

section \<open>Callers and verifiers\<close>

record service_call =
  vc_tenant_id :: string
  vc_app_id :: string
  vc_view_id :: string
  vc_method :: http_method
  vc_mode :: m2m_mode
  vc_source_service_id :: string
  vc_required_permissions :: "string list"

type_synonym jwt_verifier = "string \<Rightarrow> string \<Rightarrow> string \<Rightarrow> token_error + jwt_claims"
type_synonym service_verifier = "string \<Rightarrow> service_call \<Rightarrow> service_error + service_token_claims"

record platform_root =
  pr_tenant_id :: "string option"
  pr_app_id :: "string option"

record auth_context =
  hx_verifier :: "jwt_verifier option"
  hx_service_verifier :: "service_verifier option"
  hx_tenant_id :: string
  hx_app_id :: string
  hx_app_auth :: "app_auth option"
  hx_aliases :: "(string, string) jsmap option"
  hx_platform_root :: "platform_root option"

record auth_result =
  as_user :: "jwt_claims option"
  as_service_caller :: "service_token_claims option"
  as_caller_mode :: "caller_mode option"
  as_error :: "string option"
  as_status :: nat
  as_required_permissions :: "permission_grant list option"

text \<open>A failure carries its code; the message that goes with it is not modelled.\<close>

definition anonymous_result :: auth_result where
  "anonymous_result = \<lparr>as_user = None, as_service_caller = None, as_caller_mode = None, as_error = None,
     as_status = 200, as_required_permissions = None\<rparr>"

definition auth_failure :: "nat \<Rightarrow> string \<Rightarrow> auth_result" where
  "auth_failure status code = anonymous_result\<lparr>as_error := Some code, as_status := status\<rparr>"

definition user_result :: "jwt_claims \<Rightarrow> auth_result" where
  "user_result c = anonymous_result\<lparr>as_user := Some c, as_caller_mode := Some User_caller\<rparr>"

text \<open>A failure counts only where authentication is required.\<close>

definition when_required :: "bool \<Rightarrow> auth_result \<Rightarrow> auth_result" where
  "when_required required r = (if required then r else anonymous_result)"

section \<open>Permissions\<close>

definition expand_roles_to_permissions :: "string list \<Rightarrow> app_auth option \<Rightarrow> permission_grant list" where
  "expand_roles_to_permissions role_ids auth =
     (case auth of None \<Rightarrow> []
      | Some a \<Rightarrow> concat (map (\<lambda>r. if role_id r \<notin> set role_ids then [] else role_grants r) (aa_roles a)))"

definition service_ids_match :: "(string, string) jsmap \<Rightarrow> string \<Rightarrow> string \<Rightarrow> bool" where
  "service_ids_match aliases granted required \<longleftrightarrow>
     granted = required \<or> js_get aliases granted = Some required \<or> js_get aliases required = Some granted"

definition permissions_granted ::
    "(string, string) jsmap \<Rightarrow> permission_grant list \<Rightarrow> permission_grant list \<Rightarrow> bool" where
  "permissions_granted aliases granted required \<longleftrightarrow>
     list_all (\<lambda>req. list_all (\<lambda>action. list_ex (\<lambda>g.
        service_ids_match aliases (pg_service_id g) (pg_service_id req) \<and>
        pg_view_id g = pg_view_id req \<and> action \<in> set (pg_permissions g)) granted)
       (pg_permissions req)) required"

definition aliases_of :: "auth_context \<Rightarrow> (string, string) jsmap" where
  "aliases_of ctx = (case hx_aliases ctx of None \<Rightarrow> [] | Some m \<Rightarrow> m)"

definition root_tenant :: "auth_context \<Rightarrow> string option" where
  "root_tenant ctx = Option.bind (hx_platform_root ctx) pr_tenant_id"

definition root_app :: "auth_context \<Rightarrow> string option" where
  "root_app ctx = Option.bind (hx_platform_root ctx) pr_app_id"

definition root_matches :: "auth_context \<Rightarrow> jwt_claims \<Rightarrow> bool" where
  "root_matches ctx c \<longleftrightarrow>
     root_tenant ctx = Some (hx_tenant_id ctx) \<and> root_app ctx = Some (hx_app_id ctx) \<and>
     Some (jc_tenant_id c) = root_tenant ctx \<and> Some (jc_app_id c) = root_app ctx"

definition platform_root_role :: string where "platform_root_role = ''*''"

section \<open>Resolving the caller\<close>

definition resolve_user_request_auth :: "string \<Rightarrow> auth_requirement \<Rightarrow> auth_context \<Rightarrow> auth_result" where
  "resolve_user_request_auth bearer req ctx =
     (let fail = (\<lambda>status code. when_required (ar_required req) (auth_failure status code))
      in case hx_verifier ctx of
           None \<Rightarrow> fail 503 ''auth.context_unavailable''
         | Some verify \<Rightarrow>
             (case verify bearer (hx_tenant_id ctx) (hx_app_id ctx) of
                Inl e \<Rightarrow> fail 401 ''auth.token_invalid''
              | Inr claims \<Rightarrow>
                  if jc_tenant_id claims \<noteq> hx_tenant_id ctx then fail 401 ''auth.token_tenant_mismatch''
                  else if jc_app_id claims \<noteq> hx_app_id ctx then fail 401 ''auth.token_app_mismatch''
                  else if length (ar_permissions req) > 0 then
                    (if platform_root_role \<in> set (jc_roles claims) \<and> root_matches ctx claims then user_result claims
                     else if \<not> permissions_granted (aliases_of ctx)
                               (expand_roles_to_permissions (jc_roles claims) (hx_app_auth ctx)) (ar_permissions req)
                     then when_required (ar_required req)
                       ((auth_failure 403 ''auth.permissions_insufficient'')\<lparr>as_required_permissions := Some (ar_permissions req)\<rparr>)
                     else user_result claims)
                  else user_result claims))"

definition callers_of :: "auth_requirement \<Rightarrow> caller_mode list" where
  "callers_of req = (case ar_callers req of None \<Rightarrow> [User_caller] | Some cs \<Rightarrow> cs)"

definition bearer_value :: "string option \<Rightarrow> string option" where
  "bearer_value header =
     (case header of None \<Rightarrow> None
      | Some h \<Rightarrow> if js_starts_with ''Bearer '' h then Some (List.drop 7 h) else None)"

definition caller_mode_of :: "jwt_library \<Rightarrow> string option \<Rightarrow> string option \<Rightarrow> caller_mode option" where
  "caller_mode_of lib primary secondary_header =
     (if secondary_header \<noteq> None then Some Delegated_caller
      else if truthy primary \<and> is_service_token lib (the primary) then Some Service_caller
      else if truthy primary then Some User_caller else None)"

definition service_failure :: "service_error \<Rightarrow> auth_result" where
  "service_failure e =
     (case e of Forbidden m \<Rightarrow> auth_failure 403 ''s2s.access_denied'' | _ \<Rightarrow> auth_failure 401 ''s2s.token_invalid'')"

definition verify_service ::
    "service_verifier \<Rightarrow> auth_requirement \<Rightarrow> auth_context \<Rightarrow> registered_route \<Rightarrow> http_method \<Rightarrow> string \<Rightarrow>
     string \<Rightarrow> m2m_mode \<Rightarrow> auth_result + service_token_claims" where
  "verify_service verify req ctx route meth source token mode =
     (case verify token \<lparr>vc_tenant_id = hx_tenant_id ctx, vc_app_id = hx_app_id ctx, vc_view_id = rt_view_id route,
            vc_method = meth, vc_mode = mode, vc_source_service_id = source,
            vc_required_permissions = concat (map pg_permissions (ar_permissions req))\<rparr> of
        Inl e \<Rightarrow> Inl (service_failure e)
      | Inr c \<Rightarrow> Inr c)"

text \<open>The verified call of a service, alone or for a user.\<close>

definition resolve_verified_call ::
    "jwt_library \<Rightarrow> service_verifier \<Rightarrow> auth_requirement \<Rightarrow> auth_context \<Rightarrow> registered_route \<Rightarrow> http_method \<Rightarrow>
     caller_mode \<Rightarrow> string \<Rightarrow> string \<Rightarrow> string option \<Rightarrow> auth_result" where
  "resolve_verified_call lib verify req ctx route meth caller source primary secondary =
     (if caller = Service_caller then
        (case verify_service verify req ctx route meth source primary Service_to_service of
           Inl r \<Rightarrow> when_required (ar_required req) r
         | Inr c \<Rightarrow> anonymous_result\<lparr>as_service_caller := Some c, as_caller_mode := Some Service_caller\<rparr>)
      else if \<not> truthy secondary \<or> is_service_token lib primary then auth_failure 401 ''s2s.delegated_token_invalid''
      else
        (let user = resolve_user_request_auth primary req ctx
         in if as_error user \<noteq> None then user
            else if as_user user = None then auth_failure 401 ''s2s.delegated_token_invalid''
            else
              (case verify_service verify req ctx route meth source (the secondary) On_behalf_of_user of
                 Inl r \<Rightarrow> when_required (ar_required req) r
               | Inr c \<Rightarrow> anonymous_result\<lparr>as_user := as_user user, as_service_caller := Some c,
                           as_caller_mode := Some Delegated_caller\<rparr>)))"

text \<open>The headers every call of a service needs.\<close>

definition resolve_service_auth ::
    "jwt_library \<Rightarrow> auth_requirement \<Rightarrow> (string, string) jsmap \<Rightarrow> auth_context \<Rightarrow> registered_route \<Rightarrow> http_method \<Rightarrow>
     caller_mode \<Rightarrow> string \<Rightarrow> string option \<Rightarrow> auth_result" where
  "resolve_service_auth lib req headers ctx route meth caller primary secondary =
     (let source = js_get headers ''x-bp-service-id''; tenant = js_get headers ''x-bp-tenant-id'';
          app = js_get headers ''x-bp-app-id''
      in if \<not> truthy source \<or> \<not> truthy tenant \<or> \<not> truthy app then auth_failure 401 ''s2s.headers_missing''
         else if the tenant \<noteq> hx_tenant_id ctx \<or> the app \<noteq> hx_app_id ctx then auth_failure 401 ''s2s.context_mismatch''
         else
           (case hx_service_verifier ctx of
              None \<Rightarrow> when_required (ar_required req) (auth_failure 503 ''s2s.verifier_unavailable'')
            | Some verify \<Rightarrow>
                resolve_verified_call lib verify req ctx route meth caller (the source) primary secondary))"

definition resolve_request_auth ::
    "jwt_library \<Rightarrow> auth_requirement \<Rightarrow> (string, string) jsmap \<Rightarrow> auth_context option \<Rightarrow> registered_route \<Rightarrow>
     http_method \<Rightarrow> auth_result" where
  "resolve_request_auth lib req headers auth_ctx route meth =
     (let fail = (\<lambda>status code. when_required (ar_required req) (auth_failure status code));
          primary = bearer_value (js_get headers ''authorization'');
          secondary = bearer_value (js_get headers ''x-bp-service-authorization'')
      in if \<not> truthy primary then fail 401 ''auth.required''
         else
           (case caller_mode_of lib primary (js_get headers ''x-bp-service-authorization'') of
              None \<Rightarrow> fail 401 ''auth.required''
            | Some caller \<Rightarrow>
                if caller \<notin> set (callers_of req) then fail 403 ''auth.caller_not_allowed''
                else
                  (case auth_ctx of
                     None \<Rightarrow> fail 503 ''auth.context_unavailable''
                   | Some ctx \<Rightarrow>
                       if caller = User_caller then resolve_user_request_auth (the primary) req ctx
                       else resolve_service_auth lib req headers ctx route meth caller (the primary) secondary)))"

datatype route_access = Route_ok | Route_unknown | Route_noauth | Route_noperm

definition presentation_route_access ::
    "int \<Rightarrow> auth_requirement \<Rightarrow> jwt_claims option \<Rightarrow> auth_context option \<Rightarrow> route_access" where
  "presentation_route_access now req user auth =
     (if \<not> ar_required req \<and> ar_elevation req = None then Route_ok
      else
        (case auth of
           None \<Rightarrow> Route_unknown
         | Some ctx \<Rightarrow>
             (case user of
                None \<Rightarrow> Route_noauth
              | Some u \<Rightarrow>
                  if ar_required req \<and> User_caller \<notin> set (callers_of req) then Route_noperm
                  else if \<not> (case ar_elevation req of None \<Rightarrow> True | Some e \<Rightarrow> is_ok (require_elevation user e now)) then Route_noperm
                  else if \<not> ar_required req then Route_ok
                  else if platform_root_role \<in> set (jc_roles u) \<and> root_tenant ctx = Some (jc_tenant_id u) \<and>
                          root_app ctx = Some (jc_app_id u) then Route_ok
                  else if length (ar_permissions req) \<noteq> 0 \<and> hx_app_auth ctx = None then Route_unknown
                  else if \<not> permissions_granted (aliases_of ctx)
                            (expand_roles_to_permissions (jc_roles u) (hx_app_auth ctx)) (ar_permissions req) then Route_noperm
                  else Route_ok)))"

section \<open>The routes of an app\<close>

fun collapse_slashes :: "string \<Rightarrow> string" where
  "collapse_slashes (a # b # s) =
     (if a = CHR ''/'' \<and> b = CHR ''/'' then collapse_slashes (b # s) else a # collapse_slashes (b # s))"
| "collapse_slashes s = s"

definition drop_last_slash :: "string \<Rightarrow> string" where
  "drop_last_slash s = (if s \<noteq> [] \<and> last s = CHR ''/'' then butlast s else s)"

definition normalize_route_path :: "string \<Rightarrow> string" where
  "normalize_route_path path =
     (let bare = hd (js_split (CHR ''#'') (hd (js_split (CHR ''?'') path)));
          normalized = drop_last_slash (collapse_slashes (CHR ''/'' # bare))
      in if normalized = [] then ''/'' else normalized)"

text \<open>\<open>pathParamName\<close> of the adapter is \<open>routeParamName\<close> of the config provider.\<close>

definition path_param_name :: "string \<Rightarrow> string option" where
  "path_param_name segment =
     (if js_starts_with '':'' segment \<and> length segment > 1 then Some (List.drop 1 segment) else None)"

definition segments_agree :: "string \<Rightarrow> string \<Rightarrow> bool" where
  "segments_agree s t \<longleftrightarrow>
     path_param_name s \<noteq> None \<or> path_param_name t \<noteq> None \<or>
     (decode_uri_component s \<noteq> None \<and> decode_uri_component s = decode_uri_component t)"

definition route_paths_match :: "string \<Rightarrow> string \<Rightarrow> bool" where
  "route_paths_match left right =
     (let a = filter (\<lambda>s. s \<noteq> []) (js_split (CHR ''/'') (normalize_route_path left));
          b = filter (\<lambda>s. s \<noteq> []) (js_split (CHR ''/'') (normalize_route_path right))
      in if length a \<noteq> length b then False else list_all (\<lambda>(s, t). segments_agree s t) (zip a b))"

definition is_bp_management_auth_route :: "registered_route \<Rightarrow> bool" where
  "is_bp_management_auth_route route \<longleftrightarrow>
     list_ex (\<lambda>op. case op of None \<Rightarrow> False | Some m \<Rightarrow> ar_required (op_auth m)) (js_values (rt_method_routes route)) \<and>
     (rt_path route = ''/.well-known/bp'' \<or> js_starts_with ''/.well-known/bp/'' (rt_path route))"

definition is_bp_management_auth_path :: "registered_route list \<Rightarrow> string \<Rightarrow> bool" where
  "is_bp_management_auth_path routes pathname \<longleftrightarrow>
     list_ex (\<lambda>r. is_bp_management_auth_route r \<and> route_paths_match (rt_path r) pathname) routes"

definition operation_of :: "registered_route \<Rightarrow> http_method \<Rightarrow> method_route option" where
  "operation_of route meth = Option.bind (js_get (rt_method_routes route) meth) id"

definition fragment_from_accept_header :: "string option \<Rightarrow> string option res" where
  "fragment_from_accept_header h =
     res_bind (parse_accept_header h) (\<lambda>entries.
     Inr (Option.bind (List.find (\<lambda>e. media_type e = ''text/html'' \<and> truthy (js_get (parameters e) ''fragment'')) entries)
            (\<lambda>e. js_get (parameters e) ''fragment'')))"

fun method_name :: "http_method \<Rightarrow> string" where
  "method_name GET = ''GET''"
| "method_name POST = ''POST''"
| "method_name PUT = ''PUT''"
| "method_name PATCH = ''PATCH''"
| "method_name DELETE = ''DELETE''"
| "method_name OPTIONS = ''OPTIONS''"

definition mount_serves :: "registered_route \<Rightarrow> string \<Rightarrow> string \<Rightarrow> route_mount \<Rightarrow> bool" where
  "mount_serves route operation_id legacy_id m \<longleftrightarrow>
     rm_enabled m \<and> rm_view_id m = rt_view_id route \<and>
     (operation_id \<in> set (rm_operations m) \<or> legacy_id \<in> set (rm_operations m)) \<and>
     (\<not> truthy (route_mount_service_path m) \<or> route_paths_match (the (route_mount_service_path m)) (rt_path route))"

text \<open>A fragment key names a location and a fragment (\<open>nav.profile\<close>), or a fragment only.\<close>

definition fragment_parts :: "string \<Rightarrow> string \<times> string" where
  "fragment_parts key =
     (case js_index_of (CHR ''.'') key of
        None \<Rightarrow> ([], key)
      | Some dot \<Rightarrow> if dot > 0 then (List.take dot key, List.drop (Suc dot) key) else ([], key))"

definition fragment_pool :: "app \<Rightarrow> string \<Rightarrow> fragment_assignment list" where
  "fragment_pool a location =
     (if location \<noteq> [] then (case js_get (app_fragments a) location of None \<Rightarrow> [] | Some fs \<Rightarrow> fs)
      else concat (js_values (app_fragments a)))"

definition fragment_serves :: "app \<Rightarrow> registered_route \<Rightarrow> string \<Rightarrow> bool" where
  "fragment_serves a route key =
     (let (location, fragment_id) = fragment_parts key
      in list_ex (\<lambda>c. fa_enabled c \<and> fa_fragment_id c = fragment_id \<and> route_paths_match (fa_target_path c) (rt_path route))
           (fragment_pool a location))"

text \<open>\<open>appAllowsRoute\<close>: the reason of a refusal, None when allowed. An Accept header may throw.\<close>

definition app_allows_route ::
    "app \<Rightarrow> registered_route \<Rightarrow> http_method \<Rightarrow> (string \<times> string) list \<Rightarrow> string option \<Rightarrow> string option res" where
  "app_allows_route a route meth search accept =
     (if js_starts_with ''/.well-known/'' (rt_path route) then Inr None
      else
        (case operation_of route meth of
           None \<Rightarrow> Inr (Some ''operation_not_registered'')
         | Some op \<Rightarrow>
             if op_operation_id op = [] then Inr (Some ''operation_not_registered'')
             else if list_ex (mount_serves route (op_operation_id op)
                       (''legacy:'' @ rt_view_id route @ '':'' @ method_name meth)) (app_routes a) then Inr None
             else
               res_bind (case js_get search ''_f'' of Some f \<Rightarrow> Inr (Some f) | None \<Rightarrow> fragment_from_accept_header accept) (\<lambda>key.
               Inr (if meth = GET \<and> truthy key \<and> fragment_serves a route (the key) then None
                    else if meth = GET \<and> list_ex (\<lambda>s. sl_enabled s \<and> sl_view_id s = rt_view_id route) (app_slots a) then None
                    else Some ''route_not_mounted_for_app''))))"

section \<open>The request\<close>

datatype request_body = Body_refused nat string | Form_body json json | Json_body "json option"

record event =
  ev_peer_ip :: "string option"
  ev_headers :: "(string, string) jsmap"
  ev_pathname :: string
  ev_search :: "(string \<times> string) list"
  ev_params :: "(string, string) jsmap"
  ev_body :: request_body
  ev_tenant_id :: "string option"
  ev_app_id :: "string option"
  ev_context :: "request_context option"

record 's router_options =
  ro_resolve_auth :: "(event \<Rightarrow> registered_route \<Rightarrow> string + auth_context option) option"
  ro_resolve_context :: "event \<Rightarrow> registered_route \<Rightarrow> event \<times> request_context option"
  ro_validate_tenant_app :: "('s \<Rightarrow> string \<Rightarrow> string \<Rightarrow> 's \<times> (string + bool)) option"

type_synonym schema_parser = "string \<Rightarrow> json \<Rightarrow> string + json"

definition string_object :: "(string, string) jsmap \<Rightarrow> json" where
  "string_object m = JObj (map (\<lambda>(k, v). (k, JStr v)) m)"

definition query_from_url :: "(string \<times> string) list \<Rightarrow> bool \<Rightarrow> (string, string) jsmap" where
  "query_from_url search application =
     foldl (\<lambda>m (k, v). if application \<and> (k = ''_f'' \<or> k = ''_c'') then m else js_set k v m) [] search"

text \<open>A refusal is a status and a code, or the error text where the response has no code.\<close>

datatype stop = Refused nat string | Thrown_out string

definition parse_request_value :: "schema_parser \<Rightarrow> string option \<Rightarrow> json \<Rightarrow> string \<Rightarrow> stop + json" where
  "parse_request_value parse_with schema v code =
     (case schema of None \<Rightarrow> Inr v
      | Some sc \<Rightarrow> (case parse_with sc v of Inl e \<Rightarrow> Inl (Refused 400 code) | Inr x \<Rightarrow> Inr x))"

definition parse_route_params :: "schema_parser \<Rightarrow> (string, string) jsmap \<Rightarrow> string option \<Rightarrow> stop + json" where
  "parse_route_params parse_with raw schema =
     (let invalid = Inl (Refused 400 ''request.params.invalid'')
      in if list_ex (\<lambda>(k, v). decode_uri_component v = None) raw then invalid
         else (let params = map (\<lambda>(k, v). (k, the (decode_uri_component v))) raw
               in if list_ex (\<lambda>(k, v). v = [] \<or> length v > 100) params then invalid
                  else parse_request_value parse_with schema (string_object params) ''request.params.invalid''))"

definition writes_body :: "http_method \<Rightarrow> bool" where
  "writes_body meth \<longleftrightarrow> meth \<in> set [POST, PUT, PATCH]"

definition read_body :: "http_method \<Rightarrow> event \<Rightarrow> stop + json \<times> json option" where
  "read_body meth ev =
     (if \<not> writes_body meth then Inr (JObj [], None)
      else (case ev_body ev of
              Body_refused status code \<Rightarrow> Inl (Refused status code)
            | Form_body body multipart \<Rightarrow> Inr (body, Some multipart)
            | Json_body (Some (JObj kvs)) \<Rightarrow> Inr (JObj kvs, None)
            | Json_body _ \<Rightarrow> Inr (JObj [], None)))"

text \<open>
  The object spread of the route's and the operation's schemas. A key that an operation declares
  with the value \<open>undefined\<close> is taken as not declared; a generated registry lists only schemas a module exports.
\<close>

definition merged_schemas :: "registered_route \<Rightarrow> method_route \<Rightarrow> route_schemas" where
  "merged_schemas route op =
     (let r = rt_schemas route; m = op_schemas op
      in \<lparr>sc_params = or_else (sc_params m) (sc_params r), sc_response = or_else (sc_response m) (sc_response r),
          sc_query = or_else (sc_query m) (sc_query r), sc_headers = or_else (sc_headers m) (sc_headers r),
          sc_request = or_else (sc_request m) (sc_request r), sc_multipart = or_else (sc_multipart m) (sc_multipart r),
          sc_item = or_else (sc_item m) (sc_item r), sc_summary = or_else (sc_summary m) (sc_summary r)\<rparr>)"

section \<open>Admission\<close>

record invocation =
  iv_params :: json
  iv_query :: json
  iv_headers :: json
  iv_request :: json
  iv_multipart :: "json option"
  iv_context :: request_context
  iv_auth :: auth_result

type_synonym admission = "stop + invocation"

definition load_auth_context :: "'s router_options \<Rightarrow> event \<Rightarrow> registered_route \<Rightarrow> auth_context option" where
  "load_auth_context opts ev route =
     (case ro_resolve_auth opts of None \<Rightarrow> None
      | Some resolve \<Rightarrow> (case resolve ev route of Inl e \<Rightarrow> None | Inr c \<Rightarrow> c))"

definition read_tenant_app_from_event :: "event \<Rightarrow> (string \<times> string) option" where
  "read_tenant_app_from_event ev =
     (if \<not> truthy (ev_tenant_id ev) \<or> \<not> truthy (ev_app_id ev) then None
      else Some (the (ev_tenant_id ev), the (ev_app_id ev)))"

text \<open>The tenant check; a validator that throws blocks the request.\<close>

definition check_tenant_app :: "'s router_options \<Rightarrow> registered_route \<Rightarrow> event \<Rightarrow> 's \<Rightarrow> 's \<times> bool" where
  "check_tenant_app opts route ev s =
     (case (read_tenant_app_from_event ev, ro_validate_tenant_app opts) of
        (Some (t, a), Some validate) \<Rightarrow>
          if is_bp_management_auth_route route then (s, True)
          else (case validate s t a of (s', Inl e) \<Rightarrow> (s', False) | (s', Inr ok) \<Rightarrow> (s', ok))
      | _ \<Rightarrow> (s, True))"

text \<open>The requirement the admission enforces: an elevation requires a signed-in caller.\<close>

definition effective_auth :: "method_route \<Rightarrow> auth_requirement" where
  "effective_auth op = (op_auth op)\<lparr>ar_required := ar_required (op_auth op) \<or> ar_elevation (op_auth op) \<noteq> None\<rparr>"

definition check_elevation :: "auth_requirement \<Rightarrow> auth_result \<Rightarrow> auth_context option \<Rightarrow> int \<Rightarrow> stop option" where
  "check_elevation req result auth_ctx now =
     (case ar_elevation req of
        None \<Rightarrow> None
      | Some e \<Rightarrow>
          if as_caller_mode result = Some Service_caller then Some (Refused 403 ''Human authentication is required for elevation'')
          else (case require_elevation (as_user result) e now of
                  Inr u \<Rightarrow> None
                | Inl (Elevation_required r) \<Rightarrow>
                    if \<not> Option.is_none auth_ctx then Some (Refused 401 ''insufficient_user_authentication'')
                    else Some (Thrown_out ''ElevationRequired'')
                | Inl Invalid_requirement \<Rightarrow> Some (Thrown_out ''ValidationError'')))"

definition parse_inputs ::
    "schema_parser \<Rightarrow> registered_route \<Rightarrow> method_route \<Rightarrow> http_method \<Rightarrow> event \<Rightarrow>
     stop + json \<times> json \<times> json \<times> json option \<times> json" where
  "parse_inputs parse_with route op meth ev =
     (let schemas = merged_schemas route op
      in res_bind (read_body meth ev) (\<lambda>(raw_body, raw_multipart).
         res_bind (parse_request_value parse_with (sc_query schemas)
                     (string_object (query_from_url (ev_search ev) True)) ''request.query.invalid'') (\<lambda>query.
         res_bind (parse_request_value parse_with (sc_headers schemas) (string_object (ev_headers ev))
                     ''request.headers.invalid'') (\<lambda>headers.
         res_bind (parse_request_value parse_with (if writes_body meth then sc_request schemas else None) raw_body
                     ''request.body.invalid'') (\<lambda>request.
         res_bind (case sc_multipart schemas of
                     None \<Rightarrow> Inr None
                   | Some sc \<Rightarrow>
                       res_bind (parse_request_value parse_with (Some sc)
                           (case raw_multipart of Some m \<Rightarrow> m | None \<Rightarrow> JObj [(''fields'', JObj []), (''files'', JObj [])])
                           ''request.multipart.invalid'') (\<lambda>m. Inr (Some m))) (\<lambda>multipart.
         res_bind (parse_route_params parse_with (ev_params ev) (sc_params schemas)) (\<lambda>params.
         Inr (params, query, headers, multipart, request))))))))"

text \<open>From the resolved context on: the allowlist, the caller, elevation and the tenant.\<close>

definition authorize_request ::
    "jwt_library \<Rightarrow> int \<Rightarrow> 's router_options \<Rightarrow> registered_route \<Rightarrow> auth_requirement \<Rightarrow> http_method \<Rightarrow> event \<Rightarrow>
     request_context \<Rightarrow> 's \<Rightarrow> 's \<times> (stop + auth_result)" where
  "authorize_request lib now opts route req meth ev ctx s =
     (case app_allows_route (ra_app (rc_app ctx)) route meth (ev_search ev) (js_get (ev_headers ev) ''accept'') of
        Inl e \<Rightarrow> (s, Inl (Thrown_out e))
      | Inr (Some reason) \<Rightarrow> (s, Inl (Refused 404 ''route.not_mounted''))
      | Inr None \<Rightarrow>
          (let auth_ctx = load_auth_context opts ev route;
               result = resolve_request_auth lib req (ev_headers ev) auth_ctx route meth
           in if as_error result \<noteq> None then (s, Inl (Refused (as_status result) (the (as_error result))))
              else (case check_elevation req result auth_ctx now of
                      Some stop \<Rightarrow> (s, Inl stop)
                    | None \<Rightarrow>
                        (case check_tenant_app opts route ev s of
                           (s', ok) \<Rightarrow> (s', if ok then Inr result else Inl (Refused 426 ''tenant_app.not_allowed''))))))"

definition admit_request ::
    "schema_parser \<Rightarrow> jwt_library \<Rightarrow> int \<Rightarrow> 's router_options \<Rightarrow> registered_route \<Rightarrow> http_method \<Rightarrow> event \<Rightarrow> 's \<Rightarrow>
     's \<times> admission" where
  "admit_request parse_with lib now opts route meth ev s =
     (case operation_of route meth of
        None \<Rightarrow> (s, Inl (Refused 405 ''route.handler_missing''))
      | Some op \<Rightarrow>
          (case parse_inputs parse_with route op meth ev of
             Inl r \<Rightarrow> (s, Inl r)
           | Inr (params, query, headers, multipart, request) \<Rightarrow>
               (case ro_resolve_context opts ev route of
                  (ev', None) \<Rightarrow> (s, Inl (Refused 400 ''route.context_unresolved''))
                | (ev', Some ctx) \<Rightarrow>
                    (case authorize_request lib now opts route (effective_auth op) meth ev' ctx s of
                       (s', Inl stop) \<Rightarrow> (s', Inl stop)
                     | (s', Inr result) \<Rightarrow>
                         (s', Inr \<lparr>iv_params = params, iv_query = query, iv_headers = headers, iv_request = request,
                                iv_multipart = multipart, iv_context = ctx, iv_auth = result\<rparr>)))))"

text \<open>
  \<open>prepareSseContext\<close>: the admission of the event stream of a GET operation. It has no
  elevation step, takes the schemas of the operation only and validates no headers.
\<close>

definition prepare_sse_context ::
    "schema_parser \<Rightarrow> jwt_library \<Rightarrow> int \<Rightarrow> 's router_options \<Rightarrow> registered_route \<Rightarrow> event \<Rightarrow> 's \<Rightarrow> 's \<times> admission" where
  "prepare_sse_context parse_with lib now opts route ev s =
     (case operation_of route GET of
        None \<Rightarrow> (s, Inl (Refused 500 ''route.operation_missing''))
      | Some op \<Rightarrow>
          (case parse_request_value parse_with (sc_query (op_schemas op))
                  (string_object (query_from_url (ev_search ev) True)) ''request.query.invalid'' of
             Inl r \<Rightarrow> (s, Inl r)
           | Inr query \<Rightarrow>
               (case parse_route_params parse_with (ev_params ev) (or_else (sc_params (op_schemas op)) (sc_params (rt_schemas route))) of
                  Inl r \<Rightarrow> (s, Inl r)
                | Inr params \<Rightarrow>
                    (case ro_resolve_context opts ev route of
                       (ev', None) \<Rightarrow> (s, Inl (Refused 400 ''sse.context_unresolved''))
                     | (ev', Some ctx) \<Rightarrow>
                         (case authorize_request lib now opts route ((op_auth op)\<lparr>ar_elevation := None\<rparr>) GET ev' ctx s of
                            (s', Inl stop) \<Rightarrow> (s', Inl stop)
                          | (s', Inr result) \<Rightarrow>
                              (s', Inr \<lparr>iv_params = params, iv_query = query, iv_headers = string_object (ev_headers ev'),
                                     iv_request = JObj [], iv_multipart = None, iv_context = ctx, iv_auth = result\<rparr>))))))"

section \<open>What an admitted caller has proved\<close>

definition user_authorized :: "auth_context \<Rightarrow> permission_grant list \<Rightarrow> jwt_claims \<Rightarrow> bool" where
  "user_authorized ctx reqs c \<longleftrightarrow>
     jc_tenant_id c = hx_tenant_id ctx \<and> jc_app_id c = hx_app_id ctx \<and>
     (permissions_granted (aliases_of ctx) (expand_roles_to_permissions (jc_roles c) (hx_app_auth ctx)) reqs \<or>
      ''*'' \<in> set (jc_roles c) \<and> root_tenant ctx = Some (jc_tenant_id c) \<and> root_app ctx = Some (jc_app_id c))"

definition user_proved ::
    "auth_requirement \<Rightarrow> (string, string) jsmap \<Rightarrow> auth_context option \<Rightarrow> jwt_claims \<Rightarrow> bool" where
  "user_proved req headers auth_ctx c \<longleftrightarrow>
     (\<exists>ctx token verify. auth_ctx = Some ctx \<and> js_get headers ''authorization'' = Some (''Bearer '' @ token) \<and>
        hx_verifier ctx = Some verify \<and> verify token (hx_tenant_id ctx) (hx_app_id ctx) = Inr c \<and>
        user_authorized ctx (ar_permissions req) c)"

definition service_proved ::
    "auth_requirement \<Rightarrow> (string, string) jsmap \<Rightarrow> auth_context option \<Rightarrow> registered_route \<Rightarrow> http_method \<Rightarrow> m2m_mode \<Rightarrow>
     service_token_claims \<Rightarrow> bool" where
  "service_proved req headers auth_ctx route meth mode c \<longleftrightarrow>
     (\<exists>ctx token verify source. auth_ctx = Some ctx \<and> hx_service_verifier ctx = Some verify \<and>
        js_get headers (if mode = Service_to_service then ''authorization'' else ''x-bp-service-authorization'') =
          Some (''Bearer '' @ token) \<and>
        js_get headers ''x-bp-service-id'' = Some source \<and> js_get headers ''x-bp-tenant-id'' = Some (hx_tenant_id ctx) \<and>
        js_get headers ''x-bp-app-id'' = Some (hx_app_id ctx) \<and>
        verify token \<lparr>vc_tenant_id = hx_tenant_id ctx, vc_app_id = hx_app_id ctx, vc_view_id = rt_view_id route,
          vc_method = meth, vc_mode = mode, vc_source_service_id = source,
          vc_required_permissions = concat (map pg_permissions (ar_permissions req))\<rparr> = Inr c)"

lemma result_simps [simp]:
  "as_error anonymous_result = None" "as_user anonymous_result = None" "as_caller_mode anonymous_result = None"
  "as_service_caller anonymous_result = None" "as_status anonymous_result = 200"
  "as_error (user_result c) = None" "as_user (user_result c) = Some c" "as_caller_mode (user_result c) = Some User_caller"
  "as_service_caller (user_result c) = None"
  "as_error (auth_failure n code) = Some code" "as_user (auth_failure n code) = None"
  "as_caller_mode (auth_failure n code) = None" "as_service_caller (auth_failure n code) = None"
  "as_status (auth_failure n code) = n"
  by (simp_all add: anonymous_result_def user_result_def auth_failure_def)

lemma when_required_simps:
  "as_error (when_required b r) = (if b then as_error r else None)"
  "as_user (when_required b r) = (if b then as_user r else None)"
  "as_caller_mode (when_required b r) = (if b then as_caller_mode r else None)"
  "as_service_caller (when_required b r) = (if b then as_service_caller r else None)"
  by (simp_all add: when_required_def)

lemma when_required_error:
  "as_error r \<noteq> None \<Longrightarrow> as_error (when_required b r) = None \<Longrightarrow> when_required b r = anonymous_result \<and> \<not> b"
  by (simp add: when_required_def split: if_splits)

lemma service_failure_error: "as_error (service_failure e) \<noteq> None"
  by (cases e) (simp_all add: service_failure_def)

lemma bearer_value_Some: "bearer_value h = Some t \<longleftrightarrow> h = Some (''Bearer '' @ t)"
  by (auto simp: bearer_value_def js_starts_with_def prefix_def split: option.splits)

text \<open>A verified token of the right tenant and app decides by its authority alone.\<close>

lemma resolve_user_bound:
  assumes "hx_verifier ctx = Some verify" "verify bearer (hx_tenant_id ctx) (hx_app_id ctx) = Inr c"
    "jc_tenant_id c = hx_tenant_id ctx" "jc_app_id c = hx_app_id ctx"
  shows "resolve_user_request_auth bearer req ctx =
    (if user_authorized ctx (ar_permissions req) c then user_result c
     else when_required (ar_required req)
       ((auth_failure 403 ''auth.permissions_insufficient'')\<lparr>as_required_permissions := Some (ar_permissions req)\<rparr>))"
proof (cases "user_authorized ctx (ar_permissions req) c")
  case True
  with assms show ?thesis
    by (cases "ar_permissions req = []")
      (auto simp: resolve_user_request_auth_def user_authorized_def root_matches_def platform_root_role_def)
next
  case False
  then have "ar_permissions req \<noteq> []" "\<not> (platform_root_role \<in> set (jc_roles c) \<and> root_matches ctx c)"
    "\<not> permissions_granted (aliases_of ctx) (expand_roles_to_permissions (jc_roles c) (hx_app_auth ctx)) (ar_permissions req)"
    using assms by (auto simp: user_authorized_def root_matches_def platform_root_role_def permissions_granted_def)
  with False assms show ?thesis by (auto simp: resolve_user_request_auth_def)
qed

text \<open>The three ways a user's authentication ends.\<close>

lemma resolve_user_cases:
  obtains (user) verify c where "hx_verifier ctx = Some verify" "verify bearer (hx_tenant_id ctx) (hx_app_id ctx) = Inr c"
      "user_authorized ctx (ar_permissions req) c" "resolve_user_request_auth bearer req ctx = user_result c"
  | (anonymous) "\<not> ar_required req" "resolve_user_request_auth bearer req ctx = anonymous_result"
  | (failure) code where "ar_required req" "as_error (resolve_user_request_auth bearer req ctx) = Some code"
      "as_user (resolve_user_request_auth bearer req ctx) = None"
proof (cases "hx_verifier ctx")
  case None
  with anonymous failure show ?thesis
    by (cases "ar_required req") (simp_all add: resolve_user_request_auth_def when_required_def)
next
  case (Some verify)
  show ?thesis
  proof (cases "verify bearer (hx_tenant_id ctx) (hx_app_id ctx)")
    case (Inl e)
    with Some anonymous failure show ?thesis
      by (cases "ar_required req") (simp_all add: resolve_user_request_auth_def when_required_def)
  next
    case (Inr c)
    consider (mismatch) "jc_tenant_id c \<noteq> hx_tenant_id ctx \<or> jc_app_id c \<noteq> hx_app_id ctx"
      | (bound) "jc_tenant_id c = hx_tenant_id ctx" "jc_app_id c = hx_app_id ctx" by blast
    then show ?thesis
    proof cases
      case mismatch
      with Some Inr anonymous failure show ?thesis
        by (cases "ar_required req"; cases "jc_tenant_id c = hx_tenant_id ctx")
          (simp_all add: resolve_user_request_auth_def when_required_def)
    next
      case bound
      note eq = resolve_user_bound [OF Some Inr bound, of req]
      show ?thesis
      proof (cases "user_authorized ctx (ar_permissions req) c")
        case True
        with Some Inr eq user show ?thesis by simp
      next
        case False
        with eq anonymous failure show ?thesis
          by (cases "ar_required req") (simp_all add: when_required_def)
      qed
    qed
  qed
qed

text \<open>The ways a request's authentication ends.\<close>

lemma verify_service_Inr:
  "verify_service verify req ctx route meth source token mode = Inr c \<longleftrightarrow>
     verify token \<lparr>vc_tenant_id = hx_tenant_id ctx, vc_app_id = hx_app_id ctx, vc_view_id = rt_view_id route,
       vc_method = meth, vc_mode = mode, vc_source_service_id = source,
       vc_required_permissions = concat (map pg_permissions (ar_permissions req))\<rparr> = Inr c"
  by (simp add: verify_service_def split: sum.splits)

lemma verify_service_Inl: "verify_service verify req ctx route meth source token mode = Inl r \<Longrightarrow> as_error r \<noteq> None"
  using service_failure_error by (auto simp: verify_service_def simp del: not_None_eq split: sum.splits)

definition admitted_caller ::
    "auth_requirement \<Rightarrow> (string, string) jsmap \<Rightarrow> auth_context option \<Rightarrow> registered_route \<Rightarrow> http_method \<Rightarrow> auth_result \<Rightarrow> bool" where
  "admitted_caller req headers auth_ctx route meth r \<longleftrightarrow>
     (case as_caller_mode r of
        None \<Rightarrow> r = anonymous_result \<and> \<not> ar_required req
      | Some m \<Rightarrow>
          m \<in> set (callers_of req) \<and>
          (case (m, as_user r, as_service_caller r) of
             (User_caller, Some c, None) \<Rightarrow> user_proved req headers auth_ctx c
           | (Service_caller, None, Some s) \<Rightarrow> service_proved req headers auth_ctx route meth Service_to_service s
           | (Delegated_caller, Some c, Some s) \<Rightarrow>
               user_proved req headers auth_ctx c \<and> service_proved req headers auth_ctx route meth On_behalf_of_user s
           | _ \<Rightarrow> False))"

lemma admitted_anonymous: "\<not> ar_required req \<Longrightarrow> admitted_caller req headers auth_ctx route meth anonymous_result"
  by (simp add: admitted_caller_def)

lemma admitted_when_required:
  "as_error r \<noteq> None \<Longrightarrow> as_error (when_required (ar_required req) r) = None \<Longrightarrow>
     admitted_caller req headers auth_ctx route meth (when_required (ar_required req) r)"
  using when_required_error admitted_anonymous by metis

lemma truthy_bearer:
  assumes "truthy (bearer_value h)"
  shows "h = Some (''Bearer '' @ the (bearer_value h))"
proof -
  obtain t where t: "bearer_value h = Some t" using assms by (auto simp: truthy_iff)
  then have "h = Some (''Bearer '' @ t)" by (simp only: bearer_value_Some)
  with t show ?thesis by (metis option.sel)
qed

lemma bearer_prefix: "truthy (bearer_value h) \<Longrightarrow> \<exists>t. h = Some (''Bearer '' @ t) \<and> bearer_value h = Some t"
  by (auto simp: truthy_iff bearer_value_Some)


lemma verified_call_admitted:
  assumes "as_error (resolve_verified_call lib verify req ctx route meth caller source primary secondary) = None"
    and "caller \<in> set (callers_of req)" "caller \<noteq> User_caller"
    and "js_get headers ''authorization'' = Some (''Bearer '' @ primary)"
    and "secondary = bearer_value (js_get headers ''x-bp-service-authorization'')"
    and "js_get headers ''x-bp-service-id'' = Some source" "js_get headers ''x-bp-tenant-id'' = Some (hx_tenant_id ctx)"
      "js_get headers ''x-bp-app-id'' = Some (hx_app_id ctx)" "hx_service_verifier ctx = Some verify"
  shows "admitted_caller req headers (Some ctx) route meth
    (resolve_verified_call lib verify req ctx route meth caller source primary secondary)"
proof (cases "caller = Service_caller")
  case True
  show ?thesis
  proof (cases "verify_service verify req ctx route meth source primary Service_to_service")
    case (Inl r)
    with True assms(1) admitted_when_required [OF verify_service_Inl] show ?thesis
      by (simp add: resolve_verified_call_def)
  next
    case (Inr c)
    with assms(4,6-9) have "service_proved req headers (Some ctx) route meth Service_to_service c"
      unfolding service_proved_def verify_service_Inr by simp
    with True Inr assms(2) show ?thesis by (simp add: resolve_verified_call_def admitted_caller_def)
  qed
next
  case False
  with assms(3) have caller: "caller = Delegated_caller" by (cases caller) simp_all
  let ?user = "resolve_user_request_auth primary req ctx"
  from False assms(1) have t: "truthy secondary" "as_error ?user = None" "as_user ?user \<noteq> None"
    by (auto simp: resolve_verified_call_def Let_def split: if_splits)
  obtain c where c: "?user = user_result c" "user_proved req headers (Some ctx) c"
    by (rule resolve_user_cases [of ctx primary req]) (use t assms(4) in \<open>auto simp: user_proved_def\<close>)
  obtain second where second: "secondary = Some second" using t(1) by (auto simp: truthy_iff)
  show ?thesis
  proof (cases "verify_service verify req ctx route meth source second On_behalf_of_user")
    case (Inl r)
    with False t c second assms(1) admitted_when_required [OF verify_service_Inl] show ?thesis
      by (simp add: resolve_verified_call_def Let_def split: if_splits)
  next
    case (Inr s)
    have "js_get headers ''x-bp-service-authorization'' = Some (''Bearer '' @ second)"
      using assms(5) second by (simp only: bearer_value_Some [symmetric])
    with Inr assms(6-9) have "service_proved req headers (Some ctx) route meth On_behalf_of_user s"
      unfolding service_proved_def verify_service_Inr by simp
    with False t c second Inr assms(1,2) caller show ?thesis
      by (simp add: resolve_verified_call_def Let_def admitted_caller_def split: if_splits)
  qed
qed

lemma service_auth_admitted:
  assumes "as_error (resolve_service_auth lib req headers ctx route meth caller primary secondary) = None"
    and "caller \<in> set (callers_of req)" "caller \<noteq> User_caller"
    and "js_get headers ''authorization'' = Some (''Bearer '' @ primary)"
    and "secondary = bearer_value (js_get headers ''x-bp-service-authorization'')"
  shows "admitted_caller req headers (Some ctx) route meth
    (resolve_service_auth lib req headers ctx route meth caller primary secondary)"
proof -
  from assms(1) obtain source where h: "js_get headers ''x-bp-service-id'' = Some source" "source \<noteq> []"
    "js_get headers ''x-bp-tenant-id'' = Some (hx_tenant_id ctx)" "hx_tenant_id ctx \<noteq> []"
    "js_get headers ''x-bp-app-id'' = Some (hx_app_id ctx)" "hx_app_id ctx \<noteq> []"
    by (auto simp: resolve_service_auth_def Let_def truthy_iff split: if_splits)
  show ?thesis
  proof (cases "hx_service_verifier ctx")
    case None
    with h assms(1) admitted_when_required [of "auth_failure 503 ''s2s.verifier_unavailable''"] show ?thesis
      by (simp add: resolve_service_auth_def)
  next
    case (Some verify)
    with h have eq: "resolve_service_auth lib req headers ctx route meth caller primary secondary =
        resolve_verified_call lib verify req ctx route meth caller source primary secondary"
      by (simp add: resolve_service_auth_def)
    show ?thesis
      unfolding eq by (rule verified_call_admitted) (use assms h Some eq in simp_all)
  qed
qed

lemma caller_mode_given: "p \<noteq> [] \<Longrightarrow> \<exists>m. caller_mode_of lib (Some p) h = Some m"
  by (simp add: caller_mode_of_def)

lemma request_auth_admitted:
  assumes "as_error (resolve_request_auth lib req headers auth_ctx route meth) = None"
  shows "admitted_caller req headers auth_ctx route meth (resolve_request_auth lib req headers auth_ctx route meth)"
proof (cases "truthy (bearer_value (js_get headers ''authorization''))")
  case False
  with assms admitted_when_required [of "auth_failure 401 ''auth.required''"] show ?thesis
    by (simp add: resolve_request_auth_def)
next
  case True
  obtain p where p: "js_get headers ''authorization'' = Some (''Bearer '' @ p)"
    "bearer_value (js_get headers ''authorization'') = Some p" "p \<noteq> []"
    using bearer_prefix [OF True] True by auto
  obtain caller where m: "caller_mode_of lib (Some p) (js_get headers ''x-bp-service-authorization'') = Some caller"
    using caller_mode_given [OF p(3)] by blast
  show ?thesis
  proof (cases "caller \<in> set (callers_of req)")
    case False
    with p m assms admitted_when_required [of "auth_failure 403 ''auth.caller_not_allowed''"] show ?thesis
      by (simp add: resolve_request_auth_def)
  next
    case allowed: True
    show ?thesis
    proof (cases auth_ctx)
      case None
      with p m allowed assms admitted_when_required [of "auth_failure 503 ''auth.context_unavailable''"] show ?thesis
        by (simp add: resolve_request_auth_def)
    next
      case ctx: (Some ctx)
      show ?thesis
      proof (cases "caller = User_caller")
        case True
        with p m allowed ctx have eq: "resolve_request_auth lib req headers auth_ctx route meth = resolve_user_request_auth p req ctx"
          by (simp add: resolve_request_auth_def)
        show ?thesis
          unfolding eq
        proof (rule resolve_user_cases [of ctx p req])
          fix verify c
          assume u: "hx_verifier ctx = Some verify" "verify p (hx_tenant_id ctx) (hx_app_id ctx) = Inr c"
            "user_authorized ctx (ar_permissions req) c" "resolve_user_request_auth p req ctx = user_result c"
          then have "user_proved req headers auth_ctx c" using p ctx by (simp add: user_proved_def)
          with u(4) allowed True show "admitted_caller req headers auth_ctx route meth (resolve_user_request_auth p req ctx)"
            by (simp add: admitted_caller_def)
        qed (use assms eq admitted_anonymous in auto)
      next
        case False
        with p m allowed ctx have eq: "resolve_request_auth lib req headers auth_ctx route meth =
            resolve_service_auth lib req headers ctx route meth caller p (bearer_value (js_get headers ''x-bp-service-authorization''))"
          by (simp add: resolve_request_auth_def)
        show ?thesis
          using service_auth_admitted [of lib req headers ctx route meth caller p] assms eq ctx p allowed False by simp
      qed
    qed
  qed
qed


section \<open>What an invocation went through\<close>

lemma check_elevation_None:
  "check_elevation req result auth_ctx now = None \<longleftrightarrow>
     (\<forall>e. ar_elevation req = Some e \<longrightarrow> as_caller_mode result \<noteq> Some Service_caller \<and>
        require_elevation (as_user result) e now = Inr ())"
  by (auto simp: check_elevation_def split: option.splits sum.splits elevation_failure.splits)

lemma require_elevation_Inr:
  "require_elevation claims e now = Inr u \<longleftrightarrow> elevation_requirement_schema e \<and> satisfies_elevation claims e now"
  by (simp add: require_elevation_def guard_simps)

lemma authorize_request_Inr:
  "authorize_request lib now opts route req meth ev ctx s = (s', Inr result) \<longleftrightarrow>
     app_allows_route (ra_app (rc_app ctx)) route meth (ev_search ev) (js_get (ev_headers ev) ''accept'') = Inr None \<and>
     result = resolve_request_auth lib req (ev_headers ev) (load_auth_context opts ev route) route meth \<and>
     as_error result = None \<and> check_elevation req result (load_auth_context opts ev route) now = None \<and>
     check_tenant_app opts route ev s = (s', True)"
  by (auto simp: authorize_request_def Let_def split: sum.splits option.splits prod.splits if_splits)

lemma admit_requestD:
  assumes "admit_request parse_with lib now opts route meth ev s = (s', Inr iv)"
  obtains op ev' where "operation_of route meth = Some op"
    "ro_resolve_context opts ev route = (ev', Some (iv_context iv))"
    "authorize_request lib now opts route (effective_auth op) meth ev' (iv_context iv) s = (s', Inr (iv_auth iv))"
  using assms unfolding admit_request_def
  by (auto split: option.splits sum.splits prod.splits)

lemma effective_auth_fields [simp]:
  "ar_required (effective_auth op) \<longleftrightarrow> ar_required (op_auth op) \<or> ar_elevation (op_auth op) \<noteq> None"
  "ar_elevation (effective_auth op) = ar_elevation (op_auth op)"
  "callers_of (effective_auth op) = callers_of (op_auth op)"
  "ar_permissions (effective_auth op) = ar_permissions (op_auth op)"
  by (simp_all add: effective_auth_def callers_of_def)

lemma admitted_callerD:
  assumes "admitted_caller req headers auth_ctx route meth r"
  shows "as_user r = Some c \<Longrightarrow> user_proved req headers auth_ctx c"
    "as_service_caller r = Some sc \<Longrightarrow>
       service_proved req headers auth_ctx route meth
         (if as_caller_mode r = Some Service_caller then Service_to_service else On_behalf_of_user) sc"
    "ar_required req \<Longrightarrow> \<exists>m. as_caller_mode r = Some m \<and> m \<in> set (callers_of req)"
    "as_caller_mode r = Some m \<Longrightarrow> (as_user r \<noteq> None \<longleftrightarrow> m \<noteq> Service_caller) \<and> (as_service_caller r \<noteq> None \<longleftrightarrow> m \<noteq> User_caller)"
  using assms by (auto simp: admitted_caller_def split: option.splits caller_mode.splits)

lemma fragment_pool_subset: "set (fragment_pool a location) \<subseteq> set (concat (map snd (app_fragments a)))"
proof (cases "location \<noteq> []")
  case True
  then show ?thesis
    by (cases "js_get (app_fragments a) location") (auto simp: fragment_pool_def dest!: map_of_SomeD)
next
  case False
  then show ?thesis by (simp add: fragment_pool_def js_values_def)
qed

lemma fragment_servesD:
  "fragment_serves a route key \<Longrightarrow>
     \<exists>f\<in>set (concat (map snd (app_fragments a))). fa_enabled f \<and> route_paths_match (fa_target_path f) (rt_path route)"
  using fragment_pool_subset [of a "fst (fragment_parts key)"]
  by (auto simp only: fragment_serves_def list_ex_iff split_beta Let_def)

section \<open>A sample service\<close>

definition sample_guarded :: method_route where
  "sample_guarded = \<lparr>op_method = GET, op_operation_id = ''items.get'', op_title = '''', op_description = '''',
     op_schemas = no_schemas, op_raw = False,
     op_auth = \<lparr>ar_required = True, ar_elevation = Some \<lparr>eq_minimum = Minimum_confirm, eq_max_age = Some 60\<rparr>, ar_callers = None,
       ar_permissions = [\<lparr>pg_service_id = ''s1'', pg_view_id = ''items.view'', pg_permissions = [''read'']\<rparr>]\<rparr>,
     op_sitemap = No_sitemap, op_robots = [], op_role = None, op_dependencies = [], op_menu = None, op_chrome = None,
     op_api_contracts = [], op_cache_hints = '''', op_demo_scenarios = []\<rparr>"

definition sample_items :: registered_route where
  "sample_items = sample_route\<lparr>rt_method_routes := [(GET, Some sample_guarded)]\<rparr>"

definition sample_items_context :: request_context where
  "sample_items_context = sample_context\<lparr>rc_app := \<lparr>ra_app = sample_app\<lparr>app_routes :=
     [sample_mount\<lparr>rm_view_id := ''items'', rm_operations := [''items.get''], rm_target_path := None\<rparr>]\<rparr>,
     ra_shell = None, ra_management_origins = None\<rparr>\<rparr>"

definition sample_elevated_claims :: jwt_claims where
  "sample_elevated_claims = sample_claims\<lparr>jc_elevation :=
     Some \<lparr>el_assurance = Confirmed, el_verified_at = 120, el_expires_at = 180\<rparr>\<rparr>"

definition sample_verify :: jwt_verifier where
  "sample_verify token t a = (if token = ''tok'' then Inr sample_elevated_claims else Inl Token_empty)"

definition sample_auth :: auth_context where
  "sample_auth = \<lparr>hx_verifier = Some sample_verify, hx_service_verifier = None, hx_tenant_id = ''t1'', hx_app_id = ''a1'',
     hx_app_auth = Some sample_app_auth, hx_aliases = None, hx_platform_root = None\<rparr>"

definition sample_event :: event where
  "sample_event = \<lparr>ev_peer_ip = None, ev_headers = [(''authorization'', ''Bearer tok'')], ev_pathname = ''/items/7'', ev_search = [],
     ev_params = [(''id'', ''7'')], ev_body = Json_body None, ev_tenant_id = Some ''t1'', ev_app_id = Some ''a1'',
     ev_context = Some sample_items_context\<rparr>"

definition sample_router :: "unit router_options" where
  "sample_router = \<lparr>ro_resolve_auth = Some (\<lambda>ev route. Inr (Some sample_auth)),
     ro_resolve_context = (\<lambda>ev route. (ev, ev_context ev)), ro_validate_tenant_app = None\<rparr>"

lemmas sample_router_defs = sample_guarded_def sample_items_def sample_items_context_def sample_elevated_claims_def
  sample_auth_def sample_event_def sample_router_def sample_route_def sample_context_def sample_claims_def
  sample_app_def sample_app_auth_def sample_mount_def

lemma sample_bearer: "bearer_value (Some ''Bearer tok'') = Some ''tok''" "is_service_token sample_library ''tok'' = False"
  by code_simp+

lemma sample_allowed: "app_allows_route (ra_app (rc_app sample_items_context)) sample_items GET [] None = Inr None"
  by code_simp

lemma sample_inputs: "parse_inputs (\<lambda>sc v. Inr v) sample_items sample_guarded GET sample_event =
    Inr (JObj [(''id'', JStr ''7'')], JObj [], JObj [(''authorization'', JStr ''Bearer tok'')], None, JObj [])"
  by code_simp

lemma sample_authenticated_as:
  assumes "ar_permissions req = ar_permissions (op_auth sample_guarded)" "callers_of req = [User_caller]"
  shows "resolve_request_auth sample_library req [(''authorization'', ''Bearer tok'')] (Some sample_auth) route meth =
    user_result sample_elevated_claims"
proof -
  have "user_authorized sample_auth (ar_permissions (op_auth sample_guarded)) sample_elevated_claims"
    by code_simp
  moreover have "hx_verifier sample_auth = Some sample_verify" "jc_tenant_id sample_elevated_claims = hx_tenant_id sample_auth"
    "jc_app_id sample_elevated_claims = hx_app_id sample_auth"
    "sample_verify ''tok'' (hx_tenant_id sample_auth) (hx_app_id sample_auth) = Inr sample_elevated_claims"
    by (simp_all add: sample_verify_def sample_router_defs)
  ultimately show ?thesis
    using assms resolve_user_bound [of sample_auth sample_verify "''tok''" sample_elevated_claims]
    by (simp add: resolve_request_auth_def sample_bearer caller_mode_of_def)
qed

lemma sample_authenticated:
  "resolve_request_auth sample_library (effective_auth sample_guarded) [(''authorization'', ''Bearer tok'')] (Some sample_auth)
     sample_items GET = user_result sample_elevated_claims"
  by (rule sample_authenticated_as) (simp_all add: sample_guarded_def effective_auth_def callers_of_def)

lemma sample_admitted:
  "admit_request (\<lambda>sc v. Inr v) sample_library 150 sample_router sample_items GET sample_event () =
     ((), Inr \<lparr>iv_params = JObj [(''id'', JStr ''7'')], iv_query = JObj [], iv_headers = JObj [(''authorization'', JStr ''Bearer tok'')],
       iv_request = JObj [], iv_multipart = None, iv_context = sample_items_context, iv_auth = user_result sample_elevated_claims\<rparr>)"
proof -
  have "operation_of sample_items GET = Some sample_guarded" by (simp add: operation_of_def sample_items_def)
  moreover have "satisfies_elevation (Some sample_elevated_claims) \<lparr>eq_minimum = Minimum_confirm, eq_max_age = Some 60\<rparr> 150"
    by code_simp
  then have "check_elevation (effective_auth sample_guarded) (user_result sample_elevated_claims) (Some sample_auth) 150 = None"
    by (simp add: check_elevation_None require_elevation_Inr elevation_requirement_schema_def sample_guarded_def)
  moreover have "load_auth_context sample_router sample_event sample_items = Some sample_auth"
    by (simp add: load_auth_context_def sample_router_def)
  moreover have "check_tenant_app sample_router sample_items sample_event () = ((), True)"
    by (simp add: check_tenant_app_def sample_router_def split: option.splits)
  moreover have "ro_resolve_context sample_router sample_event sample_items = (sample_event, Some sample_items_context)"
    "ev_search sample_event = []" "js_get (ev_headers sample_event) ''accept'' = None"
    "ev_headers sample_event = [(''authorization'', ''Bearer tok'')]"
    by (simp_all add: sample_router_def sample_event_def)
  ultimately show ?thesis
    using sample_authenticated sample_allowed sample_inputs by (simp add: admit_request_def authorize_request_def)
qed

text \<open>The same operation without an elevation.\<close>

definition sample_plain_items :: registered_route where
  "sample_plain_items = sample_route\<lparr>rt_method_routes := [(GET, Some (sample_guarded\<lparr>op_auth :=
     (op_auth sample_guarded)\<lparr>ar_elevation := None\<rparr>\<rparr>))]\<rparr>"

lemma sample_plain_admitted:
  "\<exists>iv. admit_request (\<lambda>sc v. Inr v) sample_library 150 sample_router sample_plain_items GET sample_event () = ((), Inr iv)"
proof -
  let ?op = "sample_guarded\<lparr>op_auth := (op_auth sample_guarded)\<lparr>ar_elevation := None\<rparr>\<rparr>"
  have "operation_of sample_plain_items GET = Some ?op" by (simp add: operation_of_def sample_plain_items_def)
  moreover have "parse_inputs (\<lambda>sc v. Inr v) sample_plain_items ?op GET sample_event =
      Inr (JObj [(''id'', JStr ''7'')], JObj [], JObj [(''authorization'', JStr ''Bearer tok'')], None, JObj [])"
    "app_allows_route (ra_app (rc_app sample_items_context)) sample_plain_items GET [] None = Inr None"
    by code_simp+
  moreover have "resolve_request_auth sample_library (effective_auth ?op) [(''authorization'', ''Bearer tok'')] (Some sample_auth)
      sample_plain_items GET = user_result sample_elevated_claims"
    by (rule sample_authenticated_as) (simp_all add: sample_guarded_def effective_auth_def callers_of_def)
  moreover have "load_auth_context sample_router sample_event sample_plain_items = Some sample_auth"
    "check_tenant_app sample_router sample_plain_items sample_event () = ((), True)"
    "ro_resolve_context sample_router sample_event sample_plain_items = (sample_event, Some sample_items_context)"
    "ev_search sample_event = []" "js_get (ev_headers sample_event) ''accept'' = None"
    "ev_headers sample_event = [(''authorization'', ''Bearer tok'')]"
    by (simp_all add: load_auth_context_def check_tenant_app_def sample_router_def sample_event_def split: option.splits)
  moreover have "check_elevation (effective_auth ?op) (user_result sample_elevated_claims) (Some sample_auth) 150 = None"
    by (simp add: check_elevation_None)
  ultimately show ?thesis by (simp add: admit_request_def authorize_request_def)
qed

section \<open>Properties\<close>

text \<open>
  C3: a handler only ever sees callers that proved who they are. Whatever the operation, the
  user in an invocation comes from the bearer token of this very request, verified for the
  resolved tenant and app, with grants for every permission of the operation (or the root role
  inside the management app); a service in it was verified for this tenant, app, view, method
  and permissions. And where the operation requires authentication or elevation, there is such a
  caller, of a mode the operation allows.
\<close>
theorem admitted_caller_proved:
  assumes "admit_request parse_with lib now opts route meth ev s = (s', Inr iv)"
  shows "\<exists>op ev'. operation_of route meth = Some op \<and> ro_resolve_context opts ev route = (ev', Some (iv_context iv)) \<and>
    (\<forall>c. as_user (iv_auth iv) = Some c \<longrightarrow>
       user_proved (op_auth op) (ev_headers ev') (load_auth_context opts ev' route) c) \<and>
    (\<forall>c. as_service_caller (iv_auth iv) = Some c \<longrightarrow>
       (\<exists>mode. service_proved (op_auth op) (ev_headers ev') (load_auth_context opts ev' route) route meth mode c)) \<and>
    (ar_required (op_auth op) \<or> ar_elevation (op_auth op) \<noteq> None \<longrightarrow>
       (\<exists>m. as_caller_mode (iv_auth iv) = Some m \<and> m \<in> set (callers_of (op_auth op)) \<and>
          (as_user (iv_auth iv) \<noteq> None \<longleftrightarrow> m \<noteq> Service_caller) \<and>
          (as_service_caller (iv_auth iv) \<noteq> None \<longleftrightarrow> m \<noteq> User_caller)))"
proof -
  obtain op ev' where op: "operation_of route meth = Some op"
    "ro_resolve_context opts ev route = (ev', Some (iv_context iv))"
    "authorize_request lib now opts route (effective_auth op) meth ev' (iv_context iv) s = (s', Inr (iv_auth iv))"
    using assms by (rule admit_requestD)
  from op(3) have a: "admitted_caller (effective_auth op) (ev_headers ev') (load_auth_context opts ev' route) route meth (iv_auth iv)"
    unfolding authorize_request_Inr by (metis request_auth_admitted)
  note d = admitted_callerD [OF a]
  have "\<forall>c. as_user (iv_auth iv) = Some c \<longrightarrow>
      user_proved (op_auth op) (ev_headers ev') (load_auth_context opts ev' route) c"
    using d(1) by (simp add: user_proved_def)
  moreover have "\<forall>c. as_service_caller (iv_auth iv) = Some c \<longrightarrow>
      (\<exists>mode. service_proved (op_auth op) (ev_headers ev') (load_auth_context opts ev' route) route meth mode c)"
    using d(2) by (fastforce simp: service_proved_def)
  moreover have "ar_required (op_auth op) \<or> ar_elevation (op_auth op) \<noteq> None \<longrightarrow>
      (\<exists>m. as_caller_mode (iv_auth iv) = Some m \<and> m \<in> set (callers_of (op_auth op)) \<and>
         (as_user (iv_auth iv) \<noteq> None \<longleftrightarrow> m \<noteq> Service_caller) \<and>
         (as_service_caller (iv_auth iv) \<noteq> None \<longleftrightarrow> m \<noteq> User_caller))"
    using d(3,4) unfolding effective_auth_fields by blast
  ultimately show ?thesis using op(1,2) by blast
qed

theorem admitted_caller_proved_witness:
  "user_proved (op_auth sample_guarded) [(''authorization'', ''Bearer tok'')] (Some sample_auth) sample_elevated_claims"
  using admitted_caller_proved [OF sample_admitted]
  by (auto simp: operation_of_def sample_items_def sample_router_def sample_event_def load_auth_context_def)



text \<open>
  C9: outside the well-known paths a service only serves what the app mounted: an admitted
  operation has an enabled mount of its view and operation whose service path is the route's,
  or it is a GET for an enabled fragment or slot of the app.
\<close>
theorem admitted_route_mounted:
  assumes "admit_request parse_with lib now opts route meth ev s = (s', Inr iv)"
    and "\<not> js_starts_with ''/.well-known/'' (rt_path route)"
  shows "\<exists>op. operation_of route meth = Some op \<and>
    ((\<exists>m\<in>set (app_routes (ra_app (rc_app (iv_context iv)))). rm_enabled m \<and> rm_view_id m = rt_view_id route \<and>
        (op_operation_id op \<in> set (rm_operations m) \<or>
         ''legacy:'' @ rt_view_id route @ '':'' @ method_name meth \<in> set (rm_operations m)) \<and>
        (\<forall>p. route_mount_service_path m = Some p \<and> p \<noteq> [] \<longrightarrow> route_paths_match p (rt_path route))) \<or>
     meth = GET \<and>
       ((\<exists>f\<in>set (concat (map snd (app_fragments (ra_app (rc_app (iv_context iv)))))).
           fa_enabled f \<and> route_paths_match (fa_target_path f) (rt_path route)) \<or>
        (\<exists>sl\<in>set (app_slots (ra_app (rc_app (iv_context iv)))). sl_enabled sl \<and> sl_view_id sl = rt_view_id route)))"
proof -
  let ?a = "ra_app (rc_app (iv_context iv))"
  obtain op ev' where op: "operation_of route meth = Some op"
    "authorize_request lib now opts route (effective_auth op) meth ev' (iv_context iv) s = (s', Inr (iv_auth iv))"
    using assms(1) by (rule admit_requestD)
  then have allowed: "app_allows_route ?a route meth (ev_search ev') (js_get (ev_headers ev') ''accept'') = Inr None"
    by (simp add: authorize_request_Inr)
  have m: "mount_serves route i l m \<Longrightarrow> rm_enabled m \<and> rm_view_id m = rt_view_id route \<and>
      (i \<in> set (rm_operations m) \<or> l \<in> set (rm_operations m)) \<and>
      (\<forall>p. route_mount_service_path m = Some p \<and> p \<noteq> [] \<longrightarrow> route_paths_match p (rt_path route))" for i l m
    by (auto simp: mount_serves_def)
  let ?l = "''legacy:'' @ rt_view_id route @ '':'' @ method_name meth"
  from allowed assms(2) consider "list_ex (mount_serves route (op_operation_id op) ?l) (app_routes ?a)"
    | key where "meth = GET" "fragment_serves ?a route key"
    | "meth = GET" "list_ex (\<lambda>s. sl_enabled s \<and> sl_view_id s = rt_view_id route) (app_slots ?a)"
    unfolding app_allows_route_def op(1) by (auto simp: guard_simps simp del: append.simps split: if_splits)
  then show ?thesis
  proof cases
    case 1
    then obtain mount where "mount \<in> set (app_routes ?a)" "mount_serves route (op_operation_id op) ?l mount"
      by (auto simp only: list_ex_iff)
    with op(1) m show ?thesis by blast
  next
    case 2
    with op(1) fragment_servesD show ?thesis by blast
  next
    case 3
    with op(1) show ?thesis by (auto simp only: list_ex_iff)
  qed
qed

theorem admitted_route_mounted_witness:
  "\<exists>m\<in>set (app_routes (ra_app (rc_app sample_items_context))). rm_view_id m = ''items'' \<and> ''items.get'' \<in> set (rm_operations m)"
proof -
  have "\<not> js_starts_with ''/.well-known/'' (rt_path sample_items)" by code_simp
  then show ?thesis
    using admitted_route_mounted [OF sample_admitted]
    by (auto simp: sample_router_defs operation_of_def)
qed

text \<open>
  C11: for an operation that requires authentication, what the page shows agrees with what the
  service enforces: when a link is presented as usable for the user whose bearer token verified for
  the app of the request (and no service token is sent along), a request of that user with the token
  is let through, and when it is presented as forbidden the request is refused.
\<close>
theorem presentation_agrees_with_enforcement:
  assumes "hx_verifier ctx = Some verify" "verify token (hx_tenant_id ctx) (hx_app_id ctx) = Inr u"
    and "jc_tenant_id u = hx_tenant_id ctx" "jc_app_id u = hx_app_id ctx"
    and "js_get headers ''authorization'' = Some (''Bearer '' @ token)" "token \<noteq> []" "\<not> is_service_token lib token"
    and "js_get headers ''x-bp-service-authorization'' = None"
    and "ar_required (op_auth op)"
    and "result = resolve_request_auth lib (effective_auth op) headers (Some ctx) route meth"
  shows "(presentation_route_access now (op_auth op) (Some u) (Some ctx) = Route_ok \<longrightarrow>
       result = user_result u \<and> check_elevation (effective_auth op) result (Some ctx) now = None) \<and>
    (presentation_route_access now (op_auth op) (Some u) (Some ctx) = Route_noperm \<longrightarrow>
       as_error result \<noteq> None \<or> check_elevation (effective_auth op) result (Some ctx) now \<noteq> None)"
proof -
  have bearer: "bearer_value (js_get headers ''authorization'') = Some token" using assms(5) by (simp only: bearer_value_Some)
  let ?allowed = "User_caller \<in> set (callers_of (op_auth op))"
  have result: "result = (if \<not> ?allowed then auth_failure 403 ''auth.caller_not_allowed''
      else if user_authorized ctx (ar_permissions (op_auth op)) u then user_result u
      else (auth_failure 403 ''auth.permissions_insufficient'')\<lparr>as_required_permissions := Some (ar_permissions (op_auth op))\<rparr>)"
    using assms(6-9) resolve_user_bound [OF assms(1-4), of "effective_auth op"]
    by (simp add: assms(10) resolve_request_auth_def bearer caller_mode_of_def when_required_def Let_def)
  have authority: "user_authorized ctx reqs u \<longleftrightarrow>
      platform_root_role \<in> set (jc_roles u) \<and> root_tenant ctx = Some (jc_tenant_id u) \<and> root_app ctx = Some (jc_app_id u) \<or>
      permissions_granted (aliases_of ctx) (expand_roles_to_permissions (jc_roles u) (hx_app_auth ctx)) reqs" for reqs
    using assms(3,4) by (auto simp: user_authorized_def platform_root_role_def)
  have elevated: "check_elevation (effective_auth op) (user_result u) (Some ctx) now = None \<longleftrightarrow>
      (case ar_elevation (op_auth op) of None \<Rightarrow> True | Some e \<Rightarrow> is_ok (require_elevation (Some u) e now))"
    by (auto simp: check_elevation_None is_ok_iff split: option.splits)
  show ?thesis
    using assms(9) unfolding presentation_route_access_def result authority
    by (auto simp: elevated [symmetric] split: if_splits)
qed

theorem presentation_agrees_with_enforcement_witness:
  "presentation_route_access 150 (op_auth sample_guarded) (Some sample_elevated_claims) (Some sample_auth) = Route_ok \<and>
   resolve_request_auth sample_library (effective_auth sample_guarded) [(''authorization'', ''Bearer tok'')] (Some sample_auth)
     sample_items GET = user_result sample_elevated_claims"
proof -
  have "presentation_route_access 150 (op_auth sample_guarded) (Some sample_elevated_claims) (Some sample_auth) = Route_ok"
  proof -
    have "permissions_granted (aliases_of sample_auth) (expand_roles_to_permissions (jc_roles sample_elevated_claims) (hx_app_auth sample_auth))
        (ar_permissions (op_auth sample_guarded))" "hx_app_auth sample_auth \<noteq> None"
      by (code_simp, simp add: sample_auth_def)
    moreover have "require_elevation (Some sample_elevated_claims) \<lparr>eq_minimum = Minimum_confirm, eq_max_age = Some 60\<rparr> 150 = Inr ()"
      by code_simp
    moreover have "ar_elevation (op_auth sample_guarded) = Some \<lparr>eq_minimum = Minimum_confirm, eq_max_age = Some 60\<rparr>"
      "User_caller \<in> set (callers_of (op_auth sample_guarded))"
      by (simp_all add: sample_guarded_def callers_of_def)
    ultimately show ?thesis by (auto simp: presentation_route_access_def)
  qed
  then show ?thesis
    using presentation_agrees_with_enforcement [of sample_auth sample_verify "''tok''" sample_elevated_claims
        "[(''authorization'', ''Bearer tok'')]" sample_library sample_guarded _ sample_items GET 150]
    by (simp add: sample_bearer sample_verify_def sample_router_defs)
qed

text \<open>
  C10: the event stream of an operation is no side door. For a GET operation that declares no
  elevation, has no schema for headers or multipart bodies (a stream reads neither) and whose query
  schema is its own rather than inherited from the route, the stream's request is admitted exactly
  when the operation's own request is, with the same parameters, query, context and caller. With an
  elevation the two differ (see \<open>stream_skips_elevation\<close>).
\<close>
theorem stream_admission_matches_get:
  assumes "operation_of route GET = Some op" "ar_elevation (op_auth op) = None"
    and "sc_headers (merged_schemas route op) = None" "sc_multipart (merged_schemas route op) = None"
    and "sc_query (op_schemas op) = None \<longrightarrow> sc_query (rt_schemas route) = None"
  shows "prepare_sse_context parse_with lib now opts route ev s = (s', Inr iv) \<longleftrightarrow>
    (\<exists>iv'. admit_request parse_with lib now opts route GET ev s = (s', Inr iv') \<and>
       iv = iv'\<lparr>iv_headers := string_object (ev_headers (fst (ro_resolve_context opts ev route)))\<rparr>)"
proof -
  have query: "sc_query (merged_schemas route op) = sc_query (op_schemas op)"
    using assms(5) by (cases "sc_query (op_schemas op)") (simp_all add: merged_schemas_def Let_def)
  have params: "sc_params (merged_schemas route op) = or_else (sc_params (op_schemas op)) (sc_params (rt_schemas route))"
    by (simp add: merged_schemas_def Let_def)
  have auth: "effective_auth op = (op_auth op)\<lparr>ar_elevation := None\<rparr>"
    using assms(2) by (simp add: effective_auth_def)
  have inputs: "parse_inputs parse_with route op GET ev =
      res_bind (parse_request_value parse_with (sc_query (op_schemas op))
          (string_object (query_from_url (ev_search ev) True)) ''request.query.invalid'') (\<lambda>query.
      res_bind (parse_route_params parse_with (ev_params ev)
          (or_else (sc_params (op_schemas op)) (sc_params (rt_schemas route)))) (\<lambda>params.
      Inr (params, query, string_object (ev_headers ev), None, JObj [])))"
    using assms(3,4) by (simp add: parse_inputs_def read_body_def writes_body_def query params parse_request_value_def)
  show ?thesis
    unfolding prepare_sse_context_def admit_request_def assms(1) option.case inputs auth
    by (auto split: sum.splits prod.splits option.splits)
qed

theorem stream_admission_matches_get_witness:
  "\<exists>iv. prepare_sse_context (\<lambda>sc v. Inr v) sample_library 150 sample_router sample_plain_items sample_event () = ((), Inr iv)"
proof -
  let ?op = "sample_guarded\<lparr>op_auth := (op_auth sample_guarded)\<lparr>ar_elevation := None\<rparr>\<rparr>"
  have "operation_of sample_plain_items GET = Some ?op" "ar_elevation (op_auth ?op) = None"
    "sc_headers (merged_schemas sample_plain_items ?op) = None" "sc_multipart (merged_schemas sample_plain_items ?op) = None"
    "sc_query (op_schemas ?op) = None \<longrightarrow> sc_query (rt_schemas sample_plain_items) = None"
    by (simp_all add: operation_of_def sample_plain_items_def merged_schemas_def sample_guarded_def sample_route_def no_schemas_def)
  from stream_admission_matches_get [OF this] sample_plain_admitted show ?thesis by metis
qed

text \<open>
  With an elevation the two differ: the operation is refused to an anonymous caller, and its
  event stream is not.
\<close>

definition sample_confirmed_items :: registered_route where
  "sample_confirmed_items = sample_route\<lparr>rt_method_routes := [(GET, Some (sample_guarded\<lparr>op_auth :=
     (op_auth sample_guarded)\<lparr>ar_required := False\<rparr>\<rparr>))]\<rparr>"

lemma stream_skips_elevation:
  fixes opts :: "unit router_options"
  defines "opts \<equiv> \<lparr>ro_resolve_auth = None, ro_resolve_context = (\<lambda>ev route. (ev, ev_context ev)), ro_validate_tenant_app = None\<rparr>"
    and "ev \<equiv> sample_event\<lparr>ev_headers := []\<rparr>"
  shows "snd (admit_request (\<lambda>sc v. Inr v) sample_library 150 opts sample_confirmed_items GET ev ()) = Inl (Refused 401 ''auth.required'')"
    and "\<exists>iv. snd (prepare_sse_context (\<lambda>sc v. Inr v) sample_library 150 opts sample_confirmed_items ev ()) = Inr iv"
proof -
  let ?op = "sample_guarded\<lparr>op_auth := (op_auth sample_guarded)\<lparr>ar_required := False\<rparr>\<rparr>"
  have op: "operation_of sample_confirmed_items GET = Some ?op" by (simp add: operation_of_def sample_confirmed_items_def)
  have allowed: "app_allows_route (ra_app (rc_app sample_items_context)) sample_confirmed_items GET [] None = Inr None"
    by code_simp
  have inputs: "parse_inputs (\<lambda>sc v. Inr v) sample_confirmed_items ?op GET (sample_event\<lparr>ev_headers := []\<rparr>) =
      Inr (JObj [(''id'', JStr ''7'')], JObj [], JObj [], None, JObj [])" by code_simp
  have params: "parse_route_params (\<lambda>sc v. Inr v) (ev_params sample_event)
      (or_else (sc_params (op_schemas ?op)) (sc_params (rt_schemas sample_confirmed_items))) = Inr (JObj [(''id'', JStr ''7'')])"
    by code_simp
  have ev: "ro_resolve_context opts ev sample_confirmed_items = (ev, Some sample_items_context)" "ev_search ev = []" "ev_headers ev = []"
    "ev_params ev = ev_params sample_event" "load_auth_context opts ev sample_confirmed_items = None"
    "check_tenant_app opts sample_confirmed_items ev () = ((), True)"
    by (simp_all add: opts_def ev_def sample_event_def load_auth_context_def check_tenant_app_def split: option.splits)
  have refused: "resolve_request_auth sample_library (effective_auth ?op) [] None sample_confirmed_items GET = auth_failure 401 ''auth.required''"
    "resolve_request_auth sample_library ((op_auth ?op)\<lparr>ar_elevation := None\<rparr>) [] None sample_confirmed_items GET = anonymous_result"
    by (simp_all add: resolve_request_auth_def bearer_value_def when_required_def effective_auth_def sample_guarded_def)
  show "snd (admit_request (\<lambda>sc v. Inr v) sample_library 150 opts sample_confirmed_items GET ev ()) = Inl (Refused 401 ''auth.required'')"
    using op allowed inputs ev refused(1) by (simp add: admit_request_def authorize_request_def ev_def)
  show "\<exists>iv. snd (prepare_sse_context (\<lambda>sc v. Inr v) sample_library 150 opts sample_confirmed_items ev ()) = Inr iv"
    using op allowed params ev refused(2)
    by (simp add: prepare_sse_context_def authorize_request_def check_elevation_def parse_request_value_def sample_guarded_def no_schemas_def)
qed

end
