(* ===== verification/ServiceEndpoint.thy ===== *)
theory ServiceEndpoint
  imports RequestAuth ServiceConfigRoutes
begin

text \<open>
  The base class of every service, \<open>BPService\<close> of
  \<open>plugins/nodejs/betterportal-bsb/src/service.ts\<close>: which tenant and app a request is for,
  who may call it, the cross-origin gate in front of all routes, the tenant lock, config tickets
  and the calls to other services. The methods a service may override are the base class's own.

  What the platform and third-party libraries do is collected in \<open>environment\<close>: the URL
  parser, the JWT library, key import and key download, schema validation, the clock, and
  whether the HTTP library's CORS helper answers a request itself (a preflight).
\<close>

section \<open>State\<close>

record bp_settings =
  bs_trusted_proxy_ips :: "string list"
  bs_trusted_proxy_headers :: bool
  bs_cf_proxy :: bool
  bs_allow_dev_config_token :: bool
  bs_config_api_token :: "string option"

record installation =
  il_instance_id :: string
  il_service_url :: string
  il_cp_url :: string
  il_scope :: "(string \<times> string option) option"
  il_jti :: string
  il_cp_jwks_uri :: string

record bootstrap_state =
  bo_api_key :: "string option"
  bo_cp_url :: "string option"
  bo_cp_id :: "string option"
  bo_cp_jwks_uri :: "string option"
  bo_config_encryption_key :: "string option"
  bo_tenant_lock :: "string option"
  bo_installed_at :: "string option"
  bo_installation :: "installation option"

record service =
  sn_plugin_id :: string
  sn_settings :: bp_settings
  sn_scoped :: "scoped_config option"
  sn_provider :: "platform_config option"
  sn_routes :: "registered_route list"
  sn_requires_config_source :: bool
  sn_setup_mode :: bool
  sn_key :: "(string \<times> string) option"

record cors_options =
  cq_origins :: "string list"
  cq_allow_headers :: "string list"
  cq_exposes :: bool
  cq_preflight_status :: nat

record environment =
  en_parse_url :: "string \<Rightarrow> url option"
  en_valid_url :: "string \<Rightarrow> bool"
  en_jwt :: jwt_library
  en_pem_of :: "public_jwk \<Rightarrow> string option"
  en_jwks :: "string \<Rightarrow> string \<Rightarrow> string + string"
  en_service_schema :: "json \<Rightarrow> service_token_claims option"
  en_ticket_schema :: "json \<Rightarrow> ticket_claims option"
  en_now :: int
  en_preflight :: "event \<Rightarrow> cors_options \<Rightarrow> bool"

section \<open>The context of a request\<close>

definition header_trust_options :: "bp_settings \<Rightarrow> event \<Rightarrow> header_trust" where
  "header_trust_options st ev =
     (if \<not> (case ev_peer_ip ev of None \<Rightarrow> False | Some ip \<Rightarrow> ip \<noteq> [] \<and> ip \<in> set (bs_trusted_proxy_ips st))
      then \<lparr>trusted_proxy_headers = False, cf_proxy = False\<rparr>
      else \<lparr>trusted_proxy_headers = bs_trusted_proxy_headers st, cf_proxy = bs_cf_proxy st\<rparr>)"

definition shell_manifest :: "resolved_shell \<Rightarrow> manifest_entry" where
  "shell_manifest sh = \<lparr>me_service_id = rs_service_id sh, me_manifest_version = [], me_fetched_at = 0, me_title = None, me_auth_provider = None,
     me_capabilities = [], me_m2m_requests = [], me_api_contracts = [],
     me_shell = Some \<lparr>ms_service = Some (rs_service sh), ms_renderer = Some (rs_renderer sh)\<rparr>, me_view_index = []\<rparr>"

definition get_portal_config :: "scoped_config \<Rightarrow> platform_config" where
  "get_portal_config s =
     \<lparr>pc_management = \<lparr>cm_admin_tenant_id = Option.bind (sf_config_management s) sm_admin_tenant_id,
                       cm_management_app_id = Option.bind (sf_config_management s) sm_management_app_id\<rparr>,
      pc_platform_services = [], pc_tenants = map plain_tenant (sf_tenants s), pc_apps = map plain_app (sf_apps s),
      pc_shared_catalog = [], pc_shared_activations = [],
      pc_manifest_cache = js_values (foldl (\<lambda>m sh. js_set (rs_service_id sh) (shell_manifest sh) m) []
        (List.map_filter sp_shell (sf_apps s)))\<rparr>"

definition resolve_scoped_request_context :: "scoped_tenant \<Rightarrow> scoped_app \<Rightarrow> request_context" where
  "resolve_scoped_request_context t a =
     \<lparr>rc_tenant = plain_tenant t,
      rc_app = \<lparr>ra_app = plain_app a, ra_shell = sp_shell a, ra_management_origins = sp_management_origins a\<rparr>\<rparr>"

definition resolve_scoped_context_by_id :: "service \<Rightarrow> string \<Rightarrow> string \<Rightarrow> request_context option" where
  "resolve_scoped_context_by_id svc tenant_id aid =
     (case sn_scoped svc of
        None \<Rightarrow> None
      | Some sc \<Rightarrow>
          (case (List.find (\<lambda>t. sx_active t \<and> sx_id t = tenant_id) (sf_tenants sc),
                 List.find (\<lambda>a. app_tenant_id a = tenant_id \<and> app_id a = aid) (sf_apps sc)) of
             (Some t, Some a) \<Rightarrow> Some (resolve_scoped_request_context t a)
           | _ \<Rightarrow> None))"

definition management_context :: "service \<Rightarrow> (scoped_tenant \<times> scoped_app) option" where
  "management_context svc =
     Option.bind (sn_scoped svc) (\<lambda>sc. Option.bind (sf_config_management sc) sm_context)"

definition management_request_context :: "service \<Rightarrow> request_context option" where
  "management_request_context svc =
     map_option (\<lambda>(t, a). resolve_scoped_request_context t a) (management_context svc)"

definition resolve_request_context :: "environment \<Rightarrow> service \<Rightarrow> event \<Rightarrow> request_context option" where
  "resolve_request_context env svc ev =
     (case sn_scoped svc of
        Some sc \<Rightarrow>
          (case resolve_embedded_request_context (en_parse_url env) (get_portal_config sc) (Headers_object (ev_headers ev))
                  (header_trust_options (sn_settings svc) ev) of
             None \<Rightarrow> None
           | Some ctx \<Rightarrow> resolve_scoped_context_by_id svc (tn_id (rc_tenant ctx)) (app_id (ra_app (rc_app ctx))))
      | None \<Rightarrow>
          (case sn_provider svc of
             None \<Rightarrow> None
           | Some cfg \<Rightarrow>
               resolve_embedded_request_context (en_parse_url env) cfg (Headers_object (ev_headers ev))
                 (header_trust_options (sn_settings svc) ev)))"

definition apply_request_context :: "event \<Rightarrow> request_context \<Rightarrow> event" where
  "apply_request_context ev ctx =
     ev\<lparr>ev_tenant_id := Some (tn_id (rc_tenant ctx)), ev_app_id := Some (app_id (ra_app (rc_app ctx))),
        ev_context := Some ctx\<rparr>"

definition apply_optional :: "event \<Rightarrow> request_context option \<Rightarrow> event" where
  "apply_optional ev ctx = (case ctx of None \<Rightarrow> ev | Some c \<Rightarrow> apply_request_context ev c)"

section \<open>Authentication material\<close>

definition get_app_auth_config :: "service \<Rightarrow> string \<Rightarrow> string \<Rightarrow> app_auth option" where
  "get_app_auth_config svc tenant_id aid =
     (case sn_scoped svc of
        None \<Rightarrow> None
      | Some sc \<Rightarrow>
          (case management_context svc of
             Some (t, a) \<Rightarrow>
               if app_id a = aid \<and> app_tenant_id a = tenant_id then app_auth_config a
               else Option.bind (List.find (\<lambda>c. app_id c = aid \<and> app_tenant_id c = tenant_id) (sf_apps sc)) app_auth_config
           | None \<Rightarrow>
               Option.bind (List.find (\<lambda>c. app_id c = aid \<and> app_tenant_id c = tenant_id) (sf_apps sc)) app_auth_config))"

definition app_verify_options :: "environment \<Rightarrow> app_auth \<Rightarrow> verify_options" where
  "app_verify_options env auth =
     \<lparr>vj_source = (case aa_public_keys auth of
                     Some keys \<Rightarrow> Resolver (static_jwks_resolver (en_pem_of env) keys)
                   | None \<Rightarrow> Jwks (en_jwks env (aa_jwks_uri auth))),
      vj_issuer = aa_expected_issuer auth, vj_audience = aa_expected_audience auth,
      vj_token_type = Some Access, vj_tolerance = None\<rparr>"

definition get_configured_jwt_verifier :: "environment \<Rightarrow> service \<Rightarrow> string \<Rightarrow> string \<Rightarrow> jwt_verifier option" where
  "get_configured_jwt_verifier env svc tenant_id aid =
     map_option (\<lambda>auth token t a. verify_jwt (en_jwt env) (app_verify_options env auth) (en_now env) token)
       (get_app_auth_config svc tenant_id aid)"

definition service_policy :: "service \<Rightarrow> m2m_policy option" where
  "service_policy svc = Option.bind (sn_scoped svc) sf_m2m"

definition call_options :: "m2m_policy \<Rightarrow> service_call \<Rightarrow> authorize_options" where
  "call_options policy call =
     \<lparr>ao_policy = policy, ao_tenant_id = vc_tenant_id call, ao_app_id = vc_app_id call, ao_view_id = vc_view_id call,
      ao_method = vc_method call, ao_mode = vc_mode call, ao_source_service_id = vc_source_service_id call,
      ao_required_permissions = vc_required_permissions call, ao_tolerance = None\<rparr>"

definition get_service_token_verifier :: "environment \<Rightarrow> service \<Rightarrow> service_verifier option" where
  "get_service_token_verifier env svc =
     map_option (\<lambda>policy token call.
        res_bind (authorize_service_token (en_jwt env) (en_service_schema env) (call_options policy call) token)
          (\<lambda>(claims, permissions). Inr claims)) (service_policy svc)"

definition get_service_id_aliases :: "service \<Rightarrow> string \<Rightarrow> (string, string) jsmap option" where
  "get_service_id_aliases svc tenant_id =
     (let tenant = (case management_context svc of
                      Some (t, a) \<Rightarrow>
                        if sx_id t = tenant_id then Some t
                        else Option.bind (sn_scoped svc) (\<lambda>sc. List.find (\<lambda>c. sx_id c = tenant_id) (sf_tenants sc))
                    | None \<Rightarrow> Option.bind (sn_scoped svc) (\<lambda>sc. List.find (\<lambda>c. sx_id c = tenant_id) (sf_tenants sc)))
      in map_option (\<lambda>t. foldl (\<lambda>m s. if truthy (ts_service_id s) then js_set (ts_id s) (the (ts_service_id s)) m else m) []
           (sx_services t)) tenant)"

definition get_platform_root_auth_scope :: "service \<Rightarrow> platform_root" where
  "get_platform_root_auth_scope svc =
     (let m = Option.bind (sn_scoped svc) sf_config_management
      in \<lparr>pr_tenant_id = Option.bind m sm_admin_tenant_id, pr_app_id = Option.bind m sm_management_app_id\<rparr>)"

definition request_scope :: "service \<Rightarrow> event \<Rightarrow> registered_route \<Rightarrow> (string \<times> string) option" where
  "request_scope svc ev route =
     (let management = (if is_bp_management_auth_route route then management_request_context svc else None);
          tenant_id = (case management of Some c \<Rightarrow> Some (tn_id (rc_tenant c)) | None \<Rightarrow> ev_tenant_id ev);
          aid = (case management of Some c \<Rightarrow> Some (app_id (ra_app (rc_app c))) | None \<Rightarrow> ev_app_id ev)
      in if \<not> truthy tenant_id \<or> \<not> truthy aid then None else Some (the tenant_id, the aid))"

definition resolve_auth_for_request :: "environment \<Rightarrow> service \<Rightarrow> event \<Rightarrow> registered_route \<Rightarrow> auth_context option" where
  "resolve_auth_for_request env svc ev route =
     (case request_scope svc ev route of
        None \<Rightarrow> None
      | Some (tenant_id, aid) \<Rightarrow>
          (let verifier = get_configured_jwt_verifier env svc tenant_id aid;
               service_verifier = get_service_token_verifier env svc
           in case (verifier, service_verifier) of
                (None, None) \<Rightarrow> None
              | _ \<Rightarrow> Some \<lparr>hx_verifier = verifier, hx_service_verifier = service_verifier, hx_tenant_id = tenant_id,
                       hx_app_id = aid, hx_app_auth = get_app_auth_config svc tenant_id aid,
                       hx_aliases = get_service_id_aliases svc tenant_id,
                       hx_platform_root = Some (get_platform_root_auth_scope svc)\<rparr>))"

section \<open>The cross-origin gate\<close>

definition public_discovery_paths :: "string list" where
  "public_discovery_paths =
     [''/.well-known/bp/health'', ''/.well-known/bp/manifest'', ''/.well-known/bp/schema.json'',
      ''/.well-known/bp/config/schema'', ''/.well-known/bp/install'', ''/.well-known/bp/hostname-change'',
      ''/.well-known/bp/services/redeem'', ''/.well-known/bp/bootstrap'', ''/.well-known/bp/bootstrap/commit'',
      ''/.well-known/bp/admin/services/begin-install'', ''/.well-known/jwks.json'', ''/login'', ''/logout'', ''/refresh'',
      ''/register'']"

definition is_public_bp_discovery_path :: "string \<Rightarrow> bool" where
  "is_public_bp_discovery_path pathname \<longleftrightarrow> pathname \<in> set public_discovery_paths"

definition is_config_management_path :: "service \<Rightarrow> string \<Rightarrow> bool" where
  "is_config_management_path svc pathname \<longleftrightarrow>
     pathname = ''/.well-known/bp/config'' \<or> js_starts_with ''/.well-known/bp/config/'' pathname \<or>
     is_bp_management_auth_path (sn_routes svc) pathname"

definition hostname_origins :: "string \<Rightarrow> string list" where
  "hostname_origins h =
     (if js_starts_with ''http://'' h \<or> js_starts_with ''https://'' h then [service_base_url h]
      else [''https://'' @ h, ''http://'' @ h])"

definition management_origin_list :: "service \<Rightarrow> string list" where
  "management_origin_list svc =
     (case sn_scoped svc of
        Some sc \<Rightarrow> uniq (sf_management_origins sc)
      | None \<Rightarrow>
          (case sn_provider svc of
             None \<Rightarrow> []
           | Some cfg \<Rightarrow>
               if \<not> truthy (cm_admin_tenant_id (pc_management cfg)) then []
               else uniq (concat (map (\<lambda>a. concat (map hostname_origins (app_hostnames a)) @
                                          map service_base_url (app_origin_overrides a))
                      (filter (\<lambda>a. Some (app_tenant_id a) = cm_admin_tenant_id (pc_management cfg)) (pc_apps cfg))))))"

text \<open>
  What the gate does with a request: answer it, let the CORS helper answer it, or pass it on,
  with the CORS headers of the options.
\<close>

datatype cors_outcome = Answered nat string | Preflight cors_options | Passed "cors_options option" | Crashed string

definition health_path :: string where "health_path = ''/.well-known/bp/health''"

definition default_allow_headers :: "string list" where
  "default_allow_headers =
     [''Accept'', ''Authorization'', ''Content-Type'', ''HX-Current-URL'', ''HX-Request'', ''HX-Target'', ''HX-Trigger'',
      ''HX-Trigger-Name'', ''X-BP-App-Id'', ''X-BP-Tenant-Id'', ''X-BP-Service-Id'', ''X-BP-Service-Authorization'',
      ''BP-SetHeader'', ''BP-RemoveHeader'', ''traceparent'', ''tracestate'', ''baggage'']"

definition allow_headers_of :: "event \<Rightarrow> string list" where
  "allow_headers_of ev =
     (case js_get (ev_headers ev) ''access-control-request-headers'' of
        None \<Rightarrow> default_allow_headers
      | Some v \<Rightarrow> if js_trim v = [] then default_allow_headers else map js_trim (js_split (CHR '','') v))"

definition open_cors :: "event \<Rightarrow> string list \<Rightarrow> cors_options" where
  "open_cors ev origins = \<lparr>cq_origins = origins, cq_allow_headers = allow_headers_of ev, cq_exposes = True, cq_preflight_status = 204\<rparr>"

definition closed_cors :: "event \<Rightarrow> cors_options" where
  "closed_cors ev = \<lparr>cq_origins = [], cq_allow_headers = allow_headers_of ev, cq_exposes = False, cq_preflight_status = 403\<rparr>"

text \<open>\<open>rejectCors\<close>: an ordinary request goes on, without permission for its origin to read the answer.\<close>

definition cors_result :: "environment \<Rightarrow> event \<Rightarrow> cors_options \<Rightarrow> cors_outcome" where
  "cors_result env ev opts = (if en_preflight env ev opts then Preflight opts else Passed (Some opts))"

definition primary_token :: "event \<Rightarrow> string" where
  "primary_token ev = (case bearer_value (js_get (ev_headers ev) ''authorization'') of None \<Rightarrow> [] | Some t \<Rightarrow> t)"

definition secondary_token :: "event \<Rightarrow> string" where
  "secondary_token ev = (case bearer_value (js_get (ev_headers ev) ''x-bp-service-authorization'') of None \<Rightarrow> [] | Some t \<Rightarrow> t)"

definition is_service_envelope :: "environment \<Rightarrow> event \<Rightarrow> bool" where
  "is_service_envelope env ev \<longleftrightarrow>
     js_get (ev_headers ev) ''x-bp-service-authorization'' \<noteq> None \<or> js_get (ev_headers ev) ''x-bp-service-id'' \<noteq> None \<or>
     is_service_token (en_jwt env) (primary_token ev)"

definition handle_service_envelope :: "environment \<Rightarrow> service \<Rightarrow> event \<Rightarrow> event \<times> cors_outcome" where
  "handle_service_envelope env svc ev =
     (let hs = ev_headers ev; delegated = (js_get hs ''x-bp-service-authorization'' \<noteq> None);
          service_primary = is_service_token (en_jwt env) (primary_token ev)
      in if (if delegated then secondary_token ev = [] \<or> primary_token ev = [] \<or> service_primary else \<not> service_primary)
         then (ev, Answered 401 ''s2s.envelope_invalid'')
         else if \<not> truthy (js_get hs ''x-bp-service-id'') \<or> \<not> truthy (js_get hs ''x-bp-tenant-id'')
                 \<or> \<not> truthy (js_get hs ''x-bp-app-id'')
         then (ev, Answered 401 ''s2s.headers_missing'')
         else (case resolve_scoped_context_by_id svc (the (js_get hs ''x-bp-tenant-id'')) (the (js_get hs ''x-bp-app-id'')) of
                 None \<Rightarrow> (ev, Answered 401 ''s2s.context_unavailable'')
               | Some ctx \<Rightarrow> (apply_request_context ev ctx, Passed None)))"

definition handle_with_cors :: "environment \<Rightarrow> service \<Rightarrow> event \<Rightarrow> event \<times> cors_outcome" where
  "handle_with_cors env svc ev =
     (let origin = js_get (ev_headers ev) ''origin'';
          resolved = resolve_request_context env svc ev
      in if is_service_envelope env ev then handle_service_envelope env svc ev
         else if truthy origin \<and> is_public_bp_discovery_path (ev_pathname ev) then
           (let opts = open_cors ev [the origin]
            in if en_preflight env ev opts then (ev, Preflight opts)
               else (if ev_pathname ev \<noteq> health_path then apply_optional ev resolved else ev, Passed (Some opts)))
         else if truthy origin \<and> is_config_management_path svc (ev_pathname ev) then
           (if the origin \<notin> set (management_origin_list svc) then (ev, cors_result env ev (closed_cors ev))
            else (let opts = open_cors ev (management_origin_list svc)
                  in if en_preflight env ev opts then (ev, Preflight opts)
                     else (apply_optional ev (case management_request_context svc of Some c \<Rightarrow> Some c | None \<Rightarrow> resolved),
                           Passed (Some opts))))
         else if \<not> truthy origin then
           (if ev_pathname ev = health_path then ev else apply_optional ev resolved, cors_result env ev (closed_cors ev))
         else
           (case resolved of
              None \<Rightarrow> (ev, cors_result env ev (closed_cors ev))
            | Some ctx \<Rightarrow>
                (case build_origin_policy (en_valid_url env) ctx of
                   Inl e \<Rightarrow> (ev, Crashed e)
                 | Inr policy \<Rightarrow>
                     (let ev' = apply_request_context ev ctx
                      in if the origin \<notin> set (op_origins policy) then (ev', cors_result env ev (closed_cors ev))
                         else (ev', cors_result env ev (open_cors ev (op_origins policy)))))))"

definition pre_sync_core_paths :: "string list" where
  "pre_sync_core_paths =
     [''/.well-known/bp/health'', ''/.well-known/bp/manifest'', ''/.well-known/bp/schema.json'', ''/.well-known/bp/install'',
      ''/.well-known/bp/hostname-change'', ''/.well-known/jwks.json'', ''/.well-known/bp/bootstrap'',
      ''/.well-known/bp/bootstrap/commit'', ''/.well-known/bp/services/redeem'', ''/.well-known/bp/admin/services/begin-install'']"

definition require_tenant_config_source :: "service \<Rightarrow> event \<Rightarrow> (nat \<times> string) option" where
  "require_tenant_config_source svc ev =
     (if \<not> sn_requires_config_source svc then None
      else if sn_scoped svc \<noteq> None \<or> sn_provider svc \<noteq> None then None
      else if ev_pathname ev \<in> set pre_sync_core_paths then None
      else Some (503, if sn_setup_mode svc then ''service.setup_required'' else ''service.config_not_synced''))"

section \<open>The hooks of the router\<close>

text \<open>A management route works on the tenant and app its query names, or else in the management app.\<close>

definition management_target :: "service \<Rightarrow> event \<Rightarrow> request_context option" where
  "management_target svc ev =
     (let tenant_id = js_get (ev_search ev) ''tenantId''; aid = js_get (ev_search ev) ''appId''
      in if truthy tenant_id \<and> truthy aid then resolve_scoped_context_by_id svc (the tenant_id) (the aid)
         else management_request_context svc)"

definition resolve_handler_context :: "service \<Rightarrow> event \<Rightarrow> registered_route \<Rightarrow> event \<times> request_context option" where
  "resolve_handler_context svc ev route =
     (if \<not> is_bp_management_auth_route route then (ev, ev_context ev)
      else (apply_optional ev (management_target svc ev), management_target svc ev))"

definition validate_tenant_app :: "bootstrap_state \<Rightarrow> string \<Rightarrow> string \<Rightarrow> bootstrap_state \<times> (string + bool)" where
  "validate_tenant_app st tenant_id aid =
     (if \<not> truthy (bo_tenant_lock st) then (st\<lparr>bo_tenant_lock := Some tenant_id\<rparr>, Inr True)
      else (st, Inr (bo_tenant_lock st = Some tenant_id)))"

definition service_router :: "environment \<Rightarrow> service \<Rightarrow> bootstrap_state router_options" where
  "service_router env svc =
     \<lparr>ro_resolve_auth = Some (\<lambda>ev route. Inr (resolve_auth_for_request env svc ev route)),
      ro_resolve_context = resolve_handler_context svc,
      ro_validate_tenant_app = Some validate_tenant_app\<rparr>"

text \<open>A request through the gate, the configuration check and the router.\<close>

definition serve_request ::
    "environment \<Rightarrow> schema_parser \<Rightarrow> service \<Rightarrow> registered_route \<Rightarrow> http_method \<Rightarrow> event \<Rightarrow> bootstrap_state \<Rightarrow>
     bootstrap_state \<times> admission" where
  "serve_request env parse_with svc route meth ev st =
     (case handle_with_cors env svc ev of
        (ev', Answered status code) \<Rightarrow> (st, Inl (Refused status code))
      | (ev', Preflight opts) \<Rightarrow> (st, Inl (Refused (cq_preflight_status opts) []))
      | (ev', Crashed e) \<Rightarrow> (st, Inl (Thrown_out e))
      | (ev', Passed opts) \<Rightarrow>
          (case require_tenant_config_source svc ev' of
             Some (status, code) \<Rightarrow> (st, Inl (Refused status code))
           | None \<Rightarrow> admit_request parse_with (en_jwt env) (en_now env) (service_router env svc) route meth ev' st))"

section \<open>Health\<close>

text \<open>\<open>/^Bearer\s+(\S+)$/i\<close>\<close>

definition health_bearer :: "string option \<Rightarrow> string option" where
  "health_bearer header =
     (let v = (case header of None \<Rightarrow> [] | Some h \<Rightarrow> h); rest = dropWhile is_js_space (List.drop 6 v)
      in if js_lower (List.take 6 v) = ''bearer'' \<and> length rest < length (List.drop 6 v) \<and> rest \<noteq> [] \<and>
            \<not> list_ex is_js_space rest then Some rest else None)"

definition management_user_verified :: "environment \<Rightarrow> service \<Rightarrow> request_context \<Rightarrow> string \<Rightarrow> bool" where
  "management_user_verified env svc ctx bearer =
     (let t = tn_id (rc_tenant ctx); a = app_id (ra_app (rc_app ctx)); root = get_platform_root_auth_scope svc
      in if \<not> tn_active (rc_tenant ctx) \<or> pr_tenant_id root \<noteq> Some t \<or> pr_app_id root \<noteq> Some a then False
         else (case get_configured_jwt_verifier env svc t a of
                 None \<Rightarrow> False
               | Some verify \<Rightarrow>
                   (case verify bearer t a of
                      Inl e \<Rightarrow> False
                    | Inr c \<Rightarrow> jc_token_type c = Access \<and> jc_sub c \<noteq> [] \<and> jc_tenant_id c = t \<and> jc_app_id c = a)))"

definition can_read_health_diagnostics :: "environment \<Rightarrow> service \<Rightarrow> event \<Rightarrow> bool" where
  "can_read_health_diagnostics env svc ev =
     (case health_bearer (js_get (ev_headers ev) ''authorization'') of
        None \<Rightarrow> False
      | Some bearer \<Rightarrow>
          (case (case management_request_context svc of Some c \<Rightarrow> Some c | None \<Rightarrow> resolve_request_context env svc ev) of
             None \<Rightarrow> False
           | Some ctx \<Rightarrow> management_user_verified env svc ctx bearer))"

section \<open>Config tickets\<close>

text \<open>The tokens are compared as bytes, which strings share exactly when they are equal; \<open>jti\<close> is
  the text \<open>bp-config-\<close> followed by the time.\<close>

definition validate_dev_config_token ::
    "environment \<Rightarrow> service \<Rightarrow> (string, string) jsmap \<Rightarrow> string \<Rightarrow> config_action \<Rightarrow> string \<Rightarrow> ticket_claims option" where
  "validate_dev_config_token env svc headers ticket action jti =
     (if \<not> bs_allow_dev_config_token (sn_settings svc) then None
      else if \<not> truthy (bs_config_api_token (sn_settings svc)) then None
      else if Some ticket \<noteq> bs_config_api_token (sn_settings svc) then None
      else Some \<lparr>tk_iss = ''betterportal-dev'', tk_aud = Audiences [config_ticket_audience], tk_sub = ''admin.dev'',
             tk_exp = en_now env + 300, tk_iat = en_now env, tk_jti = jti,
             tk_tenant_id = (case js_get headers ''x-bp-tenant-id'' of None \<Rightarrow> ''tenant-main'' | Some t \<Rightarrow> t),
             tk_service_id = sn_plugin_id svc, tk_binding_id = None, tk_actions = [action]\<rparr>)"

definition validate_config_ticket ::
    "environment \<Rightarrow> service \<Rightarrow> bootstrap_state \<Rightarrow> (string, string) jsmap \<Rightarrow> string \<Rightarrow> string option \<Rightarrow> config_action \<Rightarrow>
     ticket_claims option" where
  "validate_config_ticket env svc st headers jti ticket action =
     (if \<not> truthy ticket then None
      else
        (let dev = validate_dev_config_token env svc headers (the ticket) action jti
         in if truthy (bo_cp_url st) \<and> truthy (bo_cp_jwks_uri st) then
              (case verify_service_config_ticket (en_jwt env) (en_ticket_schema env)
                      \<lparr>to_source = Jwks (en_jwks env (the (bo_cp_jwks_uri st))), to_issuer = the (bo_cp_url st),
                       to_service_id = sn_plugin_id svc, to_tolerance = None\<rparr> (en_now env) (the ticket) of
                 Inr c \<Rightarrow> Some c
               | Inl e \<Rightarrow> dev)
            else dev))"

definition service_config_options ::
    "environment \<Rightarrow> service \<Rightarrow> config_schema list \<Rightarrow> bootstrap_state \<Rightarrow> (string, string) jsmap \<Rightarrow> string \<Rightarrow> config_options" where
  "service_config_options env svc schemas st headers jti =
     \<lparr>co_service_id = sn_plugin_id svc, co_schemas = schemas, co_supports_custom_ui = None, co_custom_ui_path = None,
      co_validate_ticket = Some (validate_config_ticket env svc st headers jti),
      co_validate_scope = Some (\<lambda>tenant_id aid action ticket. validate_config_scope (sn_scoped svc) (sn_provider svc) tenant_id aid)\<rparr>"

section \<open>Calling other services\<close>

definition identity_ready :: "service \<Rightarrow> bool" where
  "identity_ready svc =
     (case (sn_key svc, Option.bind (sn_scoped svc) sf_service_identity) of
        (Some (pem, kid), Some registered) \<Rightarrow> si_public_key_pem registered = Some pem \<and> si_key_id registered = Some kid
      | _ \<Rightarrow> False)"

definition resolve_m2m_client ::
    "service \<Rightarrow> string \<Rightarrow> string \<Rightarrow> string \<Rightarrow> m2m_mode \<Rightarrow> (m2m_binding \<times> m2m_service) res" where
  "resolve_m2m_client svc request_id tenant_id aid mode =
     (case service_policy svc of
        None \<Rightarrow> Inl ''BetterPortal S2S identity is not registered in the current config snapshot''
      | Some policy \<Rightarrow>
          if sn_key svc = None \<or> \<not> identity_ready svc
          then Inl ''BetterPortal S2S identity is not registered in the current config snapshot''
          else
            (case List.find (\<lambda>b. mbd_enabled b \<and> mbd_mode b = mode \<and> mbd_request_id b = request_id \<and> mbd_tenant_id b = tenant_id
                    \<and> same_app (mbd_app_id b) aid \<and> mbd_source_service_id b \<in> set (po_local_service_ids policy)) (po_bindings policy) of
               None \<Rightarrow> Inl ''No enabled S2S binding for the request''
             | Some b \<Rightarrow>
                 (case List.find (\<lambda>g. mg_enabled g \<and> mg_binding_id g = mbd_id b \<and> mg_tenant_id g = tenant_id
                         \<and> same_app (mg_app_id g) aid) (po_grants policy) of
                    None \<Rightarrow> Inl ''No enabled S2S grant for the request''
                  | Some g \<Rightarrow>
                      (case List.find (\<lambda>s. m2_id s = mbd_target_service_id b) (po_services policy) of
                         None \<Rightarrow> Inl ''S2S target service is missing from the current config snapshot''
                       | Some target \<Rightarrow> Inr (b, target)))))"

record m2m_call =
  mk_base_url :: string
  mk_headers :: "(string, string) jsmap"
  mk_token :: service_token_claims

definition m2m_client :: "service \<Rightarrow> string \<Rightarrow> string \<Rightarrow> string \<Rightarrow> int \<Rightarrow> string \<Rightarrow> string + m2m_call" where
  "m2m_client svc request_id tenant_id aid now jti =
     ensure (aid \<noteq> []) ''BetterPortal app id is required for S2S calls''
     (res_bind (resolve_m2m_client svc request_id tenant_id aid Service_to_service) (\<lambda>(b, target).
      (case service_claims \<lparr>so_source_service_id = mbd_source_service_id b, so_target_service_id = mbd_target_service_id b,
               so_tenant_id = tenant_id, so_app_id = aid, so_binding_id = mbd_id b, so_expires_in = None\<rparr> now jti of
         Inl e \<Rightarrow> Inl (case e of Unauthorized m \<Rightarrow> m | Forbidden m \<Rightarrow> m | Malformed m \<Rightarrow> m)
       | Inr c \<Rightarrow>
           Inr \<lparr>mk_base_url = service_base_url (m2_hostname target),
                 mk_headers = [(''X-BP-Service-Id'', mbd_source_service_id b), (''X-BP-Tenant-Id'', tenant_id), (''X-BP-App-Id'', aid)],
                 mk_token = c\<rparr>)))"

datatype authoritative_type = Auth_service | Theme_service

definition is_authoritative_service :: "service \<Rightarrow> string \<Rightarrow> string \<Rightarrow> authoritative_type \<Rightarrow> bool" where
  "is_authoritative_service svc tenant_id aid kind =
     (case sn_scoped svc of
        None \<Rightarrow> False
      | Some sc \<Rightarrow>
          (case (List.find (\<lambda>t. sx_id t = tenant_id \<and> sx_active t) (sf_tenants sc),
                 List.find (\<lambda>a. app_id a = aid \<and> app_tenant_id a = tenant_id) (sf_apps sc)) of
             (Some t, Some a) \<Rightarrow>
               (let mounted = (case kind of Auth_service \<Rightarrow> map_option aa_service_id (app_auth_config a)
                               | Theme_service \<Rightarrow> map_option rs_service_id (sp_shell a));
                    identity = map_option si_id (sf_service_identity sc)
                in if \<not> truthy mounted then False
                   else list_ex (\<lambda>s. ts_enabled s \<and> Some (ts_id s) = mounted \<and>
                          (ts_service_id s = Some (sn_plugin_id svc) \<or> sv_shared_service_id s = Some (sn_plugin_id svc) \<or>
                           (identity \<noteq> None \<and> (Some (ts_id s) = identity \<or> sv_shared_service_id s = identity))))
                        (sx_services t))
           | _ \<Rightarrow> False))"

section \<open>Which contexts a service works in\<close>

text \<open>Of an active tenant and one of its apps, or the management context.\<close>

definition known_context :: "scoped_config \<Rightarrow> request_context \<Rightarrow> bool" where
  "known_context sc ctx \<longleftrightarrow>
     (\<exists>t\<in>set (sf_tenants sc). \<exists>a\<in>set (sf_apps sc).
        sx_active t \<and> app_tenant_id a = sx_id t \<and> ctx = resolve_scoped_request_context t a) \<or>
     (\<exists>m t a. sf_config_management sc = Some m \<and> sm_context m = Some (t, a) \<and> ctx = resolve_scoped_request_context t a)"

text \<open>The event names the tenant and app of the context it carries.\<close>

definition event_consistent :: "scoped_config \<Rightarrow> event \<Rightarrow> bool" where
  "event_consistent sc ev \<longleftrightarrow>
     (case ev_context ev of
        None \<Rightarrow> ev_tenant_id ev = None \<and> ev_app_id ev = None
      | Some ctx \<Rightarrow> known_context sc ctx \<and> ev_tenant_id ev = Some (tn_id (rc_tenant ctx)) \<and>
          ev_app_id ev = Some (app_id (ra_app (rc_app ctx))))"

definition fresh_event :: "event \<Rightarrow> bool" where
  "fresh_event ev \<longleftrightarrow> ev_context ev = None \<and> ev_tenant_id ev = None \<and> ev_app_id ev = None"

lemma fresh_consistent: "fresh_event ev \<Longrightarrow> event_consistent sc ev"
  by (simp add: fresh_event_def event_consistent_def)

lemma apply_consistent: "known_context sc ctx \<Longrightarrow> event_consistent sc (apply_request_context ev ctx)"
  by (simp add: event_consistent_def apply_request_context_def)

lemma apply_optional_consistent:
  "event_consistent sc ev \<Longrightarrow> \<forall>c. ctx = Some c \<longrightarrow> known_context sc c \<Longrightarrow> event_consistent sc (apply_optional ev ctx)"
  by (cases ctx) (simp_all add: apply_optional_def apply_consistent)

lemma scoped_by_id_known:
  "sn_scoped svc = Some sc \<Longrightarrow> resolve_scoped_context_by_id svc t a = Some ctx \<Longrightarrow>
     known_context sc ctx \<and> tn_id (rc_tenant ctx) = t \<and> app_id (ra_app (rc_app ctx)) = a"
  by (auto simp: resolve_scoped_context_by_id_def known_context_def resolve_scoped_request_context_def
      split: option.splits dest!: find_SomeD)

lemma management_known:
  "sn_scoped svc = Some sc \<Longrightarrow> management_request_context svc = Some ctx \<Longrightarrow> known_context sc ctx"
  by (auto simp: management_request_context_def management_context_def known_context_def bind_eq_Some_conv)

lemma resolved_known:
  "sn_scoped svc = Some sc \<Longrightarrow> resolve_request_context env svc ev = Some ctx \<Longrightarrow> known_context sc ctx"
  using scoped_by_id_known by (fastforce simp: resolve_request_context_def split: option.splits)

lemma gate_consistent:
  assumes "sn_scoped svc = Some sc" "fresh_event ev"
  shows "event_consistent sc (fst (handle_with_cors env svc ev))"
proof -
  note fresh = fresh_consistent [OF assms(2), of sc]
  have envelope: "event_consistent sc (fst (handle_service_envelope env svc ev))"
    using fresh scoped_by_id_known [OF assms(1)]
    by (auto simp: handle_service_envelope_def Let_def apply_consistent split: option.splits)
  have resolved: "event_consistent sc (apply_optional ev (resolve_request_context env svc ev))"
    using fresh resolved_known [OF assms(1)] by (simp add: apply_optional_consistent)
  have managed: "event_consistent sc (apply_optional ev
      (case management_request_context svc of None \<Rightarrow> resolve_request_context env svc ev | Some c \<Rightarrow> Some c))"
    using fresh resolved_known [OF assms(1)] management_known [OF assms(1)]
    by (intro apply_optional_consistent) (auto split: option.splits)
  show ?thesis
    using fresh envelope resolved managed resolved_known [OF assms(1)]
    by (auto simp: handle_with_cors_def Let_def apply_consistent split: option.splits sum.splits)
qed

lemma management_target_known:
  "sn_scoped svc = Some sc \<Longrightarrow> management_target svc ev = Some ctx \<Longrightarrow> known_context sc ctx"
  using scoped_by_id_known management_known by (fastforce simp: management_target_def Let_def split: if_splits)

lemma handler_context_known:
  assumes "sn_scoped svc = Some sc" "event_consistent sc ev" "resolve_handler_context svc ev route = (ev', Some ctx)"
  shows "known_context sc ctx \<and> event_consistent sc ev' \<and> (\<not> is_bp_management_auth_route route \<longrightarrow> ev' = ev \<and> ev_context ev = Some ctx)"
proof (cases "is_bp_management_auth_route route")
  case True
  with assms(3) have "ev' = apply_optional ev (Some ctx)" "management_target svc ev = Some ctx"
    by (auto simp: resolve_handler_context_def)
  with True assms management_target_known apply_optional_consistent show ?thesis by blast
next
  case False
  with assms(3) have "ev' = ev" "ev_context ev = Some ctx" by (auto simp: resolve_handler_context_def)
  with assms(2) show ?thesis by (simp add: event_consistent_def)
qed

section \<open>What the hooks give the router\<close>

lemma service_router_fields [simp]:
  "load_auth_context (service_router env svc) ev route = resolve_auth_for_request env svc ev route"
  "ro_resolve_context (service_router env svc) = resolve_handler_context svc"
  "ro_validate_tenant_app (service_router env svc) = Some validate_tenant_app"
  by (simp_all add: load_auth_context_def service_router_def)

lemma resolve_authD:
  assumes "resolve_auth_for_request env svc ev route = Some ax"
  shows "request_scope svc ev route = Some (hx_tenant_id ax, hx_app_id ax)"
    and "hx_verifier ax = get_configured_jwt_verifier env svc (hx_tenant_id ax) (hx_app_id ax)"
    and "hx_service_verifier ax = get_service_token_verifier env svc"
    and "hx_app_auth ax = get_app_auth_config svc (hx_tenant_id ax) (hx_app_id ax)"
  using assms by (auto simp: resolve_auth_for_request_def Let_def split: option.splits)

lemma configured_verifierD:
  "get_configured_jwt_verifier env svc t a = Some verify \<Longrightarrow> verify token t' a' = Inr c \<Longrightarrow>
     \<exists>auth. get_app_auth_config svc t a = Some auth \<and> verify_jwt (en_jwt env) (app_verify_options env auth) (en_now env) token = Inr c"
  by (auto simp: get_configured_jwt_verifier_def)

lemma ordinary_scope:
  assumes "event_consistent sc ev" "ev_context ev = Some ctx" "\<not> is_bp_management_auth_route route"
    and "request_scope svc ev route = Some (t, a)"
  shows "t = tn_id (rc_tenant ctx) \<and> a = app_id (ra_app (rc_app ctx))"
  using assms by (auto simp: event_consistent_def request_scope_def split: if_splits)

lemma service_verifierD:
  assumes "get_service_token_verifier env svc = Some verify" "verify token call = Inr c"
  obtains policy perms where "service_policy svc = Some policy"
    "authorize_service_token (en_jwt env) (en_service_schema env) (call_options policy call) token = Inr (c, perms)"
    "authorizes (call_options policy call) c perms"
proof -
  from assms obtain policy perms where p: "service_policy svc = Some policy"
    "authorize_service_token (en_jwt env) (en_service_schema env) (call_options policy call) token = Inr (c, perms)"
    by (auto simp: get_service_token_verifier_def guard_simps)
  moreover have "authorizes (call_options policy call) c perms"
    by (rule authorize_service_tokenD [OF p(2)])
  ultimately show ?thesis by (rule that)
qed

lemma serve_requestD:
  assumes "serve_request env parse_with svc route meth ev st = (st', Inr iv)"
  obtains ev1 where "fst (handle_with_cors env svc ev) = ev1"
    "admit_request parse_with (en_jwt env) (en_now env) (service_router env svc) route meth ev1 st = (st', Inr iv)"
  using assms by (auto simp: serve_request_def split: prod.splits cors_outcome.splits option.splits)

text \<open>What is known of an ordinary operation that was admitted.\<close>

lemma served_ordinary:
  assumes "sn_scoped svc = Some sc" "fresh_event ev" "\<not> is_bp_management_auth_route route"
    and "serve_request env parse_with svc route meth ev st = (st', Inr iv)"
  obtains op ev1 where "operation_of route meth = Some op" "event_consistent sc ev1" "ev_context ev1 = Some (iv_context iv)"
    "known_context sc (iv_context iv)"
    "authorize_request (en_jwt env) (en_now env) (service_router env svc) route (effective_auth op) meth ev1 (iv_context iv) st =
       (st', Inr (iv_auth iv))"
proof -
  obtain ev1 where ev1: "fst (handle_with_cors env svc ev) = ev1"
    "admit_request parse_with (en_jwt env) (en_now env) (service_router env svc) route meth ev1 st = (st', Inr iv)"
    using assms(4) by (rule serve_requestD)
  obtain op ev2 where op: "operation_of route meth = Some op"
    "ro_resolve_context (service_router env svc) ev1 route = (ev2, Some (iv_context iv))"
    "authorize_request (en_jwt env) (en_now env) (service_router env svc) route (effective_auth op) meth ev2 (iv_context iv) st =
       (st', Inr (iv_auth iv))"
    using ev1(2) by (rule admit_requestD)
  have c: "event_consistent sc ev1" using gate_consistent [OF assms(1,2), of env] ev1(1) by simp
  have "known_context sc (iv_context iv) \<and> ev2 = ev1 \<and> ev_context ev1 = Some (iv_context iv)"
    using handler_context_known [OF assms(1) c, of route ev2 "iv_context iv"] op(2) assms(3) by simp
  with op c show ?thesis by (intro that) simp_all
qed

section \<open>Properties\<close>

text \<open>
  C12: outside the management routes a service acts only for the tenant its caller belongs to.
  Whatever headers a request for such an operation carries: the context its handler works in is
  an active tenant with one of that tenant's apps from the service's own configuration (or the
  management context), a user in it was verified by the issuer that this very app configures,
  and both a user and a calling service were authorized for exactly this tenant and app.
\<close>
theorem served_request_tenant_bound:
  assumes "sn_scoped svc = Some sc" "fresh_event ev" "\<not> is_bp_management_auth_route route"
    and "serve_request env parse_with svc route meth ev st = (st', Inr iv)"
  shows "((\<exists>t\<in>set (sf_tenants sc). \<exists>a\<in>set (sf_apps sc). sx_active t \<and> app_tenant_id a = sx_id t \<and>
        iv_context iv = resolve_scoped_request_context t a) \<or> management_request_context svc = Some (iv_context iv)) \<and>
    (\<forall>c. as_user (iv_auth iv) = Some c \<longrightarrow>
       jc_tenant_id c = tn_id (rc_tenant (iv_context iv)) \<and> jc_app_id c = app_id (ra_app (rc_app (iv_context iv))) \<and>
       (\<exists>auth token. get_app_auth_config svc (jc_tenant_id c) (jc_app_id c) = Some auth \<and>
          verify_jwt (en_jwt env) (app_verify_options env auth) (en_now env) token = Inr c)) \<and>
    (\<forall>c. as_service_caller (iv_auth iv) = Some c \<longrightarrow>
       stc_tenant_id c = tn_id (rc_tenant (iv_context iv)) \<and> stc_app_id c = app_id (ra_app (rc_app (iv_context iv))) \<and>
       (\<exists>policy. service_policy svc = Some policy \<and> stc_aud c \<in> set (po_local_service_ids policy) \<and>
          (\<exists>b\<in>set (po_bindings policy). mbd_enabled b \<and> mbd_id b = stc_binding_id c \<and>
             mbd_target_view_id b = rt_view_id route \<and> mbd_tenant_id b = stc_tenant_id c)))"
proof -
  obtain op ev1 where op: "operation_of route meth = Some op" "event_consistent sc ev1" "ev_context ev1 = Some (iv_context iv)"
    "known_context sc (iv_context iv)"
    "authorize_request (en_jwt env) (en_now env) (service_router env svc) route (effective_auth op) meth ev1 (iv_context iv) st =
       (st', Inr (iv_auth iv))"
    using assms by (rule served_ordinary)
  let ?ax = "resolve_auth_for_request env svc ev1 route"
  have a: "admitted_caller (effective_auth op) (ev_headers ev1) ?ax route meth (iv_auth iv)"
    using op(5) unfolding authorize_request_Inr service_router_fields by (metis request_auth_admitted)
  have scope: "hx_tenant_id ax = tn_id (rc_tenant (iv_context iv)) \<and> hx_app_id ax = app_id (ra_app (rc_app (iv_context iv)))"
    if "?ax = Some ax" for ax
    using ordinary_scope [OF op(2,3) assms(3) resolve_authD(1) [OF that]] .
  have ctx: "(\<exists>t\<in>set (sf_tenants sc). \<exists>a\<in>set (sf_apps sc). sx_active t \<and> app_tenant_id a = sx_id t \<and>
        iv_context iv = resolve_scoped_request_context t a) \<or> management_request_context svc = Some (iv_context iv)"
    using op(4) assms(1) by (auto simp: known_context_def management_request_context_def management_context_def)
  have user: "jc_tenant_id c = tn_id (rc_tenant (iv_context iv)) \<and> jc_app_id c = app_id (ra_app (rc_app (iv_context iv))) \<and>
      (\<exists>auth token. get_app_auth_config svc (jc_tenant_id c) (jc_app_id c) = Some auth \<and>
         verify_jwt (en_jwt env) (app_verify_options env auth) (en_now env) token = Inr c)"
    if "as_user (iv_auth iv) = Some c" for c
  proof -
    from admitted_callerD(1) [OF a that] obtain ax token verify where ax: "?ax = Some ax" "hx_verifier ax = Some verify"
      "verify token (hx_tenant_id ax) (hx_app_id ax) = Inr c" "jc_tenant_id c = hx_tenant_id ax" "jc_app_id c = hx_app_id ax"
      by (auto simp: user_proved_def user_authorized_def)
    have "get_configured_jwt_verifier env svc (jc_tenant_id c) (jc_app_id c) = Some verify"
      using ax(2,4,5) resolve_authD(2) [OF ax(1)] by simp
    from configured_verifierD [OF this ax(3)] ax(4,5) scope [OF ax(1)] show ?thesis by auto
  qed
  have service: "stc_tenant_id c = tn_id (rc_tenant (iv_context iv)) \<and> stc_app_id c = app_id (ra_app (rc_app (iv_context iv))) \<and>
      (\<exists>policy. service_policy svc = Some policy \<and> stc_aud c \<in> set (po_local_service_ids policy) \<and>
         (\<exists>b\<in>set (po_bindings policy). mbd_enabled b \<and> mbd_id b = stc_binding_id c \<and>
            mbd_target_view_id b = rt_view_id route \<and> mbd_tenant_id b = stc_tenant_id c))"
    if "as_service_caller (iv_auth iv) = Some c" for c
  proof -
    from admitted_callerD(2) [OF a that] obtain ax token verify call where ax: "?ax = Some ax"
      "hx_service_verifier ax = Some verify" "verify token call = Inr c" "vc_tenant_id call = hx_tenant_id ax"
      "vc_app_id call = hx_app_id ax" "vc_view_id call = rt_view_id route"
      by (fastforce simp: service_proved_def)
    from ax(2,3) resolve_authD(3) [OF ax(1)] obtain policy perms where p: "service_policy svc = Some policy"
      "authorizes (call_options policy call) c perms"
      by (metis service_verifierD)
    with scope [OF ax(1)] ax(4-6) show ?thesis
      by (auto simp: authorizes_def call_options_def binding_matches_def)
  qed
  show ?thesis using ctx user service by blast
qed

section \<open>The tenant lock\<close>

lemma validate_tenant_app_lock:
  "validate_tenant_app st t a = (st', Inr ok) \<Longrightarrow> t \<noteq> [] \<Longrightarrow>
     truthy (bo_tenant_lock st') \<and> (truthy (bo_tenant_lock st) \<longrightarrow> bo_tenant_lock st' = bo_tenant_lock st) \<and>
     (ok \<longrightarrow> bo_tenant_lock st' = Some t)"
  by (auto simp: validate_tenant_app_def truthy_iff split: if_splits)

lemma check_tenant_app_lock:
  assumes "check_tenant_app (service_router env svc) route ev st = (st', ok)"
  shows "truthy (bo_tenant_lock st) \<longrightarrow> bo_tenant_lock st' = bo_tenant_lock st"
    and "ok \<Longrightarrow> \<not> is_bp_management_auth_route route \<Longrightarrow> read_tenant_app_from_event ev = Some (t, a) \<Longrightarrow>
      bo_tenant_lock st' = Some t"
  using assms by (auto simp: check_tenant_app_def validate_tenant_app_def split: option.splits if_splits prod.splits)

lemma authorize_keeps_lock:
  "authorize_request lib now (service_router env svc) route req meth ev ctx st = (st', r) \<Longrightarrow>
     truthy (bo_tenant_lock st) \<Longrightarrow> bo_tenant_lock st' = bo_tenant_lock st"
  using check_tenant_app_lock(1)
  by (fastforce simp: authorize_request_def Let_def split: sum.splits option.splits if_splits prod.splits)

lemma serve_keeps_lock:
  assumes "serve_request env parse_with svc route meth ev st = (st', r)" "truthy (bo_tenant_lock st)"
  shows "bo_tenant_lock st' = bo_tenant_lock st"
proof -
  have "admit_request parse_with lib now (service_router env svc) route meth ev1 st = (st', r) \<Longrightarrow>
      bo_tenant_lock st' = bo_tenant_lock st" for lib now ev1 r
    using authorize_keeps_lock [OF _ assms(2)]
    by (auto simp: admit_request_def split: option.splits sum.splits prod.splits)
  with assms(1) show ?thesis
    by (auto simp: serve_request_def split: prod.splits cors_outcome.splits option.splits)
qed

lemma served_sets_lock:
  assumes "sn_scoped svc = Some sc" "fresh_event ev" "\<not> is_bp_management_auth_route route"
    and "serve_request env parse_with svc route meth ev st = (st', Inr iv)"
    and "tn_id (rc_tenant (iv_context iv)) \<noteq> []" "app_id (ra_app (rc_app (iv_context iv))) \<noteq> []"
  shows "bo_tenant_lock st' = Some (tn_id (rc_tenant (iv_context iv)))"
proof -
  obtain op ev1 where op: "operation_of route meth = Some op" "event_consistent sc ev1" "ev_context ev1 = Some (iv_context iv)"
    "known_context sc (iv_context iv)"
    "authorize_request (en_jwt env) (en_now env) (service_router env svc) route (effective_auth op) meth ev1 (iv_context iv) st =
       (st', Inr (iv_auth iv))"
    using assms(1-4) by (rule served_ordinary)
  have "read_tenant_app_from_event ev1 = Some (tn_id (rc_tenant (iv_context iv)), app_id (ra_app (rc_app (iv_context iv))))"
    using op(2,3) assms(5,6) by (simp add: read_tenant_app_from_event_def event_consistent_def)
  with op(5) assms(3) show ?thesis
    unfolding authorize_request_Inr by (metis check_tenant_app_lock(2))
qed

text \<open>A sequence of requests, one after the other.\<close>

fun serve_all ::
    "environment \<Rightarrow> schema_parser \<Rightarrow> service \<Rightarrow> (registered_route \<times> http_method \<times> event) list \<Rightarrow> bootstrap_state \<Rightarrow>
     bootstrap_state \<times> admission list" where
  "serve_all env parse_with svc [] st = (st, [])"
| "serve_all env parse_with svc ((route, meth, ev) # rs) st =
     (case serve_request env parse_with svc route meth ev st of
        (st1, r) \<Rightarrow> (case serve_all env parse_with svc rs st1 of (st2, results) \<Rightarrow> (st2, r # results)))"

definition admitted_for :: "registered_route \<times> http_method \<times> event \<Rightarrow> admission \<Rightarrow> string option" where
  "admitted_for req r =
     (case r of Inl e \<Rightarrow> None
      | Inr iv \<Rightarrow> if is_bp_management_auth_route (fst req) then None else Some (tn_id (rc_tenant (iv_context iv))))"

lemma serve_all_lock:
  assumes "sn_scoped svc = Some sc" "\<forall>ctx. known_context sc ctx \<longrightarrow> tn_id (rc_tenant ctx) \<noteq> [] \<and> app_id (ra_app (rc_app ctx)) \<noteq> []"
    and "serve_all env parse_with svc reqs st = (st', results)" "\<forall>(route, meth, ev)\<in>set reqs. fresh_event ev"
  shows "(truthy (bo_tenant_lock st) \<longrightarrow> bo_tenant_lock st' = bo_tenant_lock st) \<and>
    (\<forall>(q, r)\<in>set (zip reqs results). \<forall>t. admitted_for q r = Some t \<longrightarrow> bo_tenant_lock st' = Some t)"
  using assms(3,4)
proof (induction reqs arbitrary: st st' results)
  case (Cons req reqs)
  obtain route meth ev where req: "req = (route, meth, ev)" by (cases req)
  obtain st1 r where first: "serve_request env parse_with svc route meth ev st = (st1, r)" by (cases "serve_request env parse_with svc route meth ev st")
  obtain rs where rest: "serve_all env parse_with svc reqs st1 = (st', rs)" "results = r # rs"
    using Cons.prems(1) first by (auto simp: req split: prod.splits)
  have keep: "truthy (bo_tenant_lock st) \<longrightarrow> bo_tenant_lock st1 = bo_tenant_lock st"
    using serve_keeps_lock [OF first] by blast
  have here: "bo_tenant_lock st1 = Some t \<and> t \<noteq> []" if "admitted_for req r = Some t" for t
  proof -
    from that obtain iv where iv: "r = Inr iv" "\<not> is_bp_management_auth_route route" "t = tn_id (rc_tenant (iv_context iv))"
      by (auto simp: admitted_for_def req split: sum.splits if_splits)
    have fresh: "fresh_event ev" using Cons.prems(2) by (simp add: req)
    obtain op ev1 where "known_context sc (iv_context iv)"
      using served_ordinary [OF assms(1) fresh iv(2) first [unfolded iv(1)]] by metis
    with assms(2) served_sets_lock [OF assms(1) fresh iv(2) first [unfolded iv(1)]] iv(3) show ?thesis by simp
  qed
  have IH: "truthy (bo_tenant_lock st1) \<longrightarrow> bo_tenant_lock st' = bo_tenant_lock st1"
    "\<forall>(q, r)\<in>set (zip reqs rs). \<forall>t. admitted_for q r = Some t \<longrightarrow> bo_tenant_lock st' = Some t"
    using Cons.IH [OF rest(1)] Cons.prems(2) by auto
  have "bo_tenant_lock st' = Some t" if "admitted_for req r = Some t" for t
    using here [OF that] IH(1) by simp
  with IH keep show ?case by (auto simp: rest(2))
qed simp

text \<open>
  C13: outside the management routes a service serves one tenant only. Over any sequence of
  requests (the order decides who comes first), with a configuration whose tenants and apps have
  non-empty ids, all operations outside the management routes that were admitted were for one and
  the same tenant, which is the one the service is locked to.
\<close>
theorem tenant_lock_exclusive:
  assumes "sn_scoped svc = Some sc" "\<forall>ctx. known_context sc ctx \<longrightarrow> tn_id (rc_tenant ctx) \<noteq> [] \<and> app_id (ra_app (rc_app ctx)) \<noteq> []"
    and "serve_all env parse_with svc reqs st = (st', results)" "\<forall>(route, meth, ev)\<in>set reqs. fresh_event ev"
  shows "\<forall>(q, r)\<in>set (zip reqs results). \<forall>t. admitted_for q r = Some t \<longrightarrow>
    bo_tenant_lock st' = Some t \<and> (truthy (bo_tenant_lock st) \<longrightarrow> bo_tenant_lock st = Some t)"
  using serve_all_lock [OF assms] by fastforce

section \<open>Origins\<close>

text \<open>
  Another site never gets to read an answer: the gate offers a page of some origin access to
  a response only on the public discovery endpoints, on the management endpoints for the
  management console's own origins, and otherwise only when the app that the request resolves
  to allows this origin.
\<close>
theorem cors_access_granted:
  assumes "handle_with_cors env svc ev = (ev', outcome)"
    and "outcome = Preflight opts \<or> outcome = Passed (Some opts)" "o' \<in> set (cq_origins opts)"
    and "js_get (ev_headers ev) ''origin'' = Some o'"
  shows "is_public_bp_discovery_path (ev_pathname ev) \<or>
    (is_config_management_path svc (ev_pathname ev) \<and> o' \<in> set (management_origin_list svc)) \<or>
    (\<exists>ctx policy. resolve_request_context env svc ev = Some ctx \<and> build_origin_policy (en_valid_url env) ctx = Inr policy \<and>
       o' \<in> set (op_origins policy) \<and> o' \<in> set (ensure_allowed_origins (ra_app (rc_app ctx))))"
proof -
  have closed: "cq_origins (closed_cors ev) = []" by (simp add: closed_cors_def)
  have envelope: "snd (handle_service_envelope env svc ev) \<noteq> Preflight opts \<and> snd (handle_service_envelope env svc ev) \<noteq> Passed (Some opts)"
    by (auto simp: handle_service_envelope_def Let_def split: option.splits)
  have policy: "build_origin_policy (en_valid_url env) ctx = Inr policy \<Longrightarrow> op_origins policy = ensure_allowed_origins (ra_app (rc_app ctx))"
    for ctx policy by (auto simp: build_origin_policy_def guard_simps Let_def)
  show ?thesis
    using assms envelope closed policy
    by (auto simp: handle_with_cors_def Let_def cors_result_def open_cors_def split: if_splits option.splits sum.splits)
qed

section \<open>Health\<close>

text \<open>
  Live diagnostics are disclosed only to a user of the platform's management app, with an
  access token that app's issuer signed.
\<close>
theorem health_diagnostics_private:
  assumes "can_read_health_diagnostics env svc ev"
  shows "\<exists>bearer auth c t a. health_bearer (js_get (ev_headers ev) ''authorization'') = Some bearer \<and>
    pr_tenant_id (get_platform_root_auth_scope svc) = Some t \<and> pr_app_id (get_platform_root_auth_scope svc) = Some a \<and>
    get_app_auth_config svc t a = Some auth \<and>
    verify_jwt (en_jwt env) (app_verify_options env auth) (en_now env) bearer = Inr c \<and>
    jc_token_type c = Access \<and> jc_tenant_id c = t \<and> jc_app_id c = a"
proof -
  from assms obtain bearer ctx where b: "health_bearer (js_get (ev_headers ev) ''authorization'') = Some bearer"
    "management_user_verified env svc ctx bearer"
    by (auto simp: can_read_health_diagnostics_def split: option.splits)
  let ?t = "tn_id (rc_tenant ctx)" and ?a = "app_id (ra_app (rc_app ctx))"
  from b(2) obtain verify c where c: "get_configured_jwt_verifier env svc ?t ?a = Some verify" "verify bearer ?t ?a = Inr c"
    "jc_token_type c = Access" "jc_tenant_id c = ?t" "jc_app_id c = ?a"
    "pr_tenant_id (get_platform_root_auth_scope svc) = Some ?t" "pr_app_id (get_platform_root_auth_scope svc) = Some ?a"
    by (auto simp: management_user_verified_def Let_def split: option.splits if_splits sum.splits)
  from configured_verifierD [OF c(1,2)] b(1) c show ?thesis by blast
qed

section \<open>A sample installation\<close>

definition sample_scoped_app :: scoped_app where
  "sample_scoped_app = app.extend (ra_app (rc_app sample_items_context)
     \<lparr>app_auth_config := Some (sample_app_auth\<lparr>aa_public_keys := Some [\<lparr>jwk_kid = ''k1'', jwk_n = '''', jwk_e = ''''\<rparr>]\<rparr>)\<rparr>)
     \<lparr>sp_shell = None, sp_management_origins = None, sp_app_routes = [], sp_app_fragments = []\<rparr>"

definition sample_scoped_tenant :: scoped_tenant where
  "sample_scoped_tenant = \<lparr>sx_id = ''t1'', sx_slug = ''t'', sx_title = ''T'', sx_active = True, sx_services = [],
     sx_activated_platform_services = []\<rparr>"

definition sample_scoped :: scoped_config where
  "sample_scoped = \<lparr>sf_service_identity = None, sf_m2m = None,
     sf_config_management = Some \<lparr>sm_admin_tenant_id = Some ''t1'', sm_management_app_id = Some ''a1'',
       sm_context = Some (sample_scoped_tenant, sample_scoped_app)\<rparr>,
     sf_management_origins = [], sf_tenants = [sample_scoped_tenant], sf_config_apps = None, sf_apps = [sample_scoped_app]\<rparr>"

definition sample_svc :: service where
  "sample_svc = \<lparr>sn_plugin_id = ''s1'', sn_settings = \<lparr>bs_trusted_proxy_ips = [], bs_trusted_proxy_headers = False, bs_cf_proxy = False,
       bs_allow_dev_config_token = False, bs_config_api_token = None\<rparr>,
     sn_scoped = Some sample_scoped, sn_provider = None, sn_routes = [sample_plain_items], sn_requires_config_source = True,
     sn_setup_mode = False, sn_key = None\<rparr>"

definition sample_env :: environment where
  "sample_env = \<lparr>en_parse_url = sample_parse_url, en_valid_url = (\<lambda>_. True), en_jwt = sample_library,
     en_pem_of = (\<lambda>_. Some ''pem''), en_jwks = (\<lambda>uri kid. Inl ''offline''), en_service_schema = (\<lambda>_. None),
     en_ticket_schema = (\<lambda>_. None), en_now = 150, en_preflight = (\<lambda>ev opts. False)\<rparr>"

definition sample_visit :: event where
  "sample_visit = sample_event\<lparr>ev_headers := [(''authorization'', ''Bearer h.p.s''), (''referer'', ''https://a.test'')],
     ev_tenant_id := None, ev_app_id := None, ev_context := None\<rparr>"

definition empty_bootstrap :: bootstrap_state where
  "empty_bootstrap = \<lparr>bo_api_key = None, bo_cp_url = None, bo_cp_id = None, bo_cp_jwks_uri = None,
     bo_config_encryption_key = None, bo_tenant_lock = None, bo_installed_at = None, bo_installation = None\<rparr>"

lemma sample_serve_lock:
  "bo_tenant_lock (fst (serve_request sample_env (\<lambda>sc v. Inr v) sample_svc sample_plain_items GET sample_visit empty_bootstrap)) = Some ''t1''"
  by code_simp

lemma sample_serve_user:
  "map_sum (\<lambda>_. ()) (\<lambda>iv. as_user (iv_auth iv)) (snd (serve_request sample_env (\<lambda>sc v. Inr v) sample_svc sample_plain_items GET sample_visit empty_bootstrap)) = Inr (Some sample_claims)"
  by code_simp

lemma sample_served:
  "\<exists>st' iv. serve_request sample_env (\<lambda>sc v. Inr v) sample_svc sample_plain_items GET sample_visit empty_bootstrap = (st', Inr iv) \<and>
     as_user (iv_auth iv) = Some sample_claims \<and> bo_tenant_lock st' = Some ''t1''"
  using sample_serve_user sample_serve_lock
  by (cases "serve_request sample_env (\<lambda>sc v. Inr v) sample_svc sample_plain_items GET sample_visit empty_bootstrap")
    (auto simp: map_sum_def split: sum.splits)

lemma sample_svc_facts:
  "sn_scoped sample_svc = Some sample_scoped" "fresh_event sample_visit" "\<not> is_bp_management_auth_route sample_plain_items"
proof -
  show "sn_scoped sample_svc = Some sample_scoped" by (simp add: sample_svc_def)
  show "fresh_event sample_visit" by (simp add: fresh_event_def sample_visit_def)
  show "\<not> is_bp_management_auth_route sample_plain_items" by code_simp
qed

theorem served_request_tenant_bound_witness:
  "\<exists>st' iv. serve_request sample_env (\<lambda>sc v. Inr v) sample_svc sample_plain_items GET sample_visit empty_bootstrap = (st', Inr iv) \<and>
     tn_id (rc_tenant (iv_context iv)) = ''t1''"
proof -
  obtain st' iv where s: "serve_request sample_env (\<lambda>sc v. Inr v) sample_svc sample_plain_items GET sample_visit empty_bootstrap = (st', Inr iv)"
    "as_user (iv_auth iv) = Some sample_claims"
    using sample_served by blast
  from served_request_tenant_bound [OF sample_svc_facts s(1)] s(2) have "jc_tenant_id sample_claims = tn_id (rc_tenant (iv_context iv))"
    by blast
  with s(1) show ?thesis by (auto simp: sample_claims_def)
qed

lemma sample_known: "known_context sample_scoped ctx \<Longrightarrow> tn_id (rc_tenant ctx) = ''t1'' \<and> app_id (ra_app (rc_app ctx)) = ''a1''"
proof -
  have "tn_id (rc_tenant (resolve_scoped_request_context sample_scoped_tenant sample_scoped_app)) = ''t1''"
    "app_id (ra_app (rc_app (resolve_scoped_request_context sample_scoped_tenant sample_scoped_app))) = ''a1''"
    by code_simp+
  then show "known_context sample_scoped ctx \<Longrightarrow> ?thesis"
    by (auto simp: known_context_def sample_scoped_def)
qed

theorem tenant_lock_exclusive_witness:
  "\<exists>st' results. serve_all sample_env (\<lambda>sc v. Inr v) sample_svc [(sample_plain_items, GET, sample_visit)] empty_bootstrap = (st', results) \<and>
     bo_tenant_lock st' = Some ''t1''"
proof -
  let ?req = "(sample_plain_items, GET, sample_visit)"
  obtain st' iv where s: "serve_request sample_env (\<lambda>sc v. Inr v) sample_svc sample_plain_items GET sample_visit empty_bootstrap = (st', Inr iv)"
    "as_user (iv_auth iv) = Some sample_claims"
    using sample_served by blast
  have known: "\<forall>ctx. known_context sample_scoped ctx \<longrightarrow> tn_id (rc_tenant ctx) \<noteq> [] \<and> app_id (ra_app (rc_app ctx)) \<noteq> []"
    using sample_known by fastforce
  have all: "serve_all sample_env (\<lambda>sc v. Inr v) sample_svc [?req] empty_bootstrap = (st', [Inr iv])" using s(1) by simp
  have fresh: "\<forall>(route, meth, ev)\<in>set [?req]. fresh_event ev" using sample_svc_facts(2) by simp
  obtain op ev1 where "known_context sample_scoped (iv_context iv)"
    using served_ordinary [OF sample_svc_facts s(1)] by metis
  with sample_known have "admitted_for ?req (Inr iv) = Some ''t1''"
    using sample_svc_facts(3) by (simp add: admitted_for_def)
  with tenant_lock_exclusive [OF sample_svc_facts(1) known all fresh] all show ?thesis by simp
qed

section \<open>Configuration changes and calls between services\<close>

text \<open>
  C14: a service that does not allow the development config token changes the configuration
  that a tenant reads only on a ticket of its control plane: the service is paired (a control plane
  and its key set are stored), the bearer token verified under that key set as a ticket issued by
  that control plane, for this service and that tenant and for writing, and the tenant is an active
  one of the service.
\<close>
theorem config_change_needs_cp_ticket:
  assumes "file_ready o' s" and "\<not> bs_allow_dev_config_token (sn_settings svc)"
    and "handle_post (service_config_options env svc schemas st headers jti)
      (store_backend (file_read o') (file_write o') (file_clear_key o') fence) schema now auth body s = (s', reply)"
    and "file_contents o' s' u \<noteq> file_contents o' s u"
  shows "\<exists>token url uri ticket. ticket_value auth = Some token \<and> bo_cp_url st = Some url \<and> bo_cp_jwks_uri st = Some uri \<and>
    verify_service_config_ticket (en_jwt env) (en_ticket_schema env)
      \<lparr>to_source = Jwks (en_jwks env uri), to_issuer = url, to_service_id = sn_plugin_id svc, to_tolerance = None\<rparr>
      (en_now env) token = Inr ticket \<and>
    tk_tenant_id ticket = u \<and> tk_service_id ticket = sn_plugin_id svc \<and> Config_write \<in> set (tk_actions ticket) \<and>
    now < tk_exp ticket \<and> (\<exists>aid. validate_config_scope (sn_scoped svc) (sn_provider svc) u aid)"
proof -
  let ?opts = "service_config_options env svc schemas st headers jti"
  from disk_served.post_other_tenants [OF assms(1,3,4)] obtain ticket and w :: write_request
    where t: "resolve_ticket ?opts now auth Config_write = Inr (Some ticket)" "tk_tenant_id ticket = u"
      and scope: "allowed_scope ?opts u (wq_app_id w) Config_write ticket" by blast
  from resolve_ticket_schema [OF t(1)]
  have v: "validate_config_ticket env svc st headers jti (ticket_value auth) Config_write = Some ticket"
      "tk_service_id ticket = sn_plugin_id svc" "Config_write \<in> set (tk_actions ticket)" "now < tk_exp ticket"
    by (auto simp: service_config_options_def)
  have dev: "validate_dev_config_token env svc headers x Config_write jti = None" for x
    using assms(2) by (simp add: validate_dev_config_token_def)
  from v(1) have ok: "truthy (ticket_value auth)" "truthy (bo_cp_url st)" "truthy (bo_cp_jwks_uri st)"
      "verify_service_config_ticket (en_jwt env) (en_ticket_schema env)
         \<lparr>to_source = Jwks (en_jwks env (the (bo_cp_jwks_uri st))), to_issuer = the (bo_cp_url st),
          to_service_id = sn_plugin_id svc, to_tolerance = None\<rparr> (en_now env) (the (ticket_value auth)) = Inr ticket"
    by (auto simp: validate_config_ticket_def Let_def dev split: if_splits sum.splits)
  from ok(1-3) obtain token url uri
    where e: "ticket_value auth = Some token" "bo_cp_url st = Some url" "bo_cp_jwks_uri st = Some uri"
    by (cases "ticket_value auth"; cases "bo_cp_url st"; cases "bo_cp_jwks_uri st") auto
  from scope have "validate_config_scope (sn_scoped svc) (sn_provider svc) u (given_app (wq_app_id w))"
    by (simp add: allowed_scope_def service_config_options_def)
  then show ?thesis using ok(4) e t(2) v by auto
qed

definition paired_bootstrap :: bootstrap_state where
  "paired_bootstrap = empty_bootstrap\<lparr>bo_cp_url := Some ''iss'', bo_cp_jwks_uri := Some ''uri''\<rparr>"

definition ticket_env :: environment where
  "ticket_env = sample_env\<lparr>en_jwks := (\<lambda>uri kid. Inr ''pem''), en_ticket_schema := (\<lambda>j. Some sample_ticket)\<rparr>"

abbreviation sample_service_options :: config_options where
  "sample_service_options \<equiv> service_config_options ticket_env sample_svc (fo_schemas sample_store_options) paired_bootstrap [] ''j''"

lemma sample_service_ticket:
  "resolve_ticket sample_service_options 150 (Some ''Bearer h.p.s'') Config_write = Inr (Some sample_ticket)"
  by code_simp

lemma sample_service_scope: "allowed_scope sample_service_options ''t1'' None Config_write sample_ticket"
  by code_simp

theorem config_change_needs_cp_ticket_witness:
  "\<exists>ticket. verify_service_config_ticket sample_library (\<lambda>j. Some sample_ticket)
      \<lparr>to_source = Jwks (\<lambda>kid. Inr ''pem''), to_issuer = ''iss'', to_service_id = ''s1'', to_tolerance = None\<rparr> 150 ''h.p.s'' =
      Inr ticket \<and> tk_tenant_id ticket = ''t1''"
proof -
  obtain s' r where p: "handle_post sample_service_options (sample_backend no_fence) (\<lambda>v. Some sample_write) 150
      (Some ''Bearer h.p.s'') (Inr VNull) sample_disk = (s', Config_values r)"
    "file_contents sample_exact_options s' ''t1'' \<noteq> file_contents sample_exact_options sample_disk ''t1''"
    using sample_post_for [OF sample_service_ticket sample_service_scope]
    by (force simp: sample_file_empty empty_bucket_def service_config_options_def)
  have "\<not> bs_allow_dev_config_token (sn_settings sample_svc)" by (simp add: sample_svc_def)
  from config_change_needs_cp_ticket [OF sample_file_ready this p]
  have "\<exists>ticket. verify_service_config_ticket (en_jwt ticket_env) (en_ticket_schema ticket_env)
      \<lparr>to_source = Jwks (en_jwks ticket_env ''uri''), to_issuer = ''iss'', to_service_id = sn_plugin_id sample_svc,
       to_tolerance = None\<rparr> (en_now ticket_env) ''h.p.s'' = Inr ticket \<and> tk_tenant_id ticket = ''t1''"
    by (auto simp: ticket_value_def js_starts_with_def paired_bootstrap_def)
  then show ?thesis by (simp add: ticket_env_def sample_env_def sample_svc_def)
qed


text \<open>
  A call that \<open>m2mClient\<close> prepares is one its target accepts: when the target's policy holds
  the caller's binding (binding ids being unique there), names the target among its own
  services and has a grant for the binding with the method, every such grant has the required
  permissions, the caller's registered key is the trusted one, and the signature of the
  prepared claims verifies under it, then \<open>authorizeServiceToken\<close> returns exactly those claims.
\<close>
theorem m2m_call_accepted:
  assumes "m2m_client svc request_id tenant_id aid now jti = Inr call"
    and "resolve_m2m_client svc request_id tenant_id aid Service_to_service = Inr (b, target)"
    and "sn_key svc = Some (pem, kid)"
    and "js_get (mk_headers call) ''X-BP-Service-Id'' = Some (ao_source_service_id opts)"
    and "ao_tenant_id opts = tenant_id" and "ao_app_id opts = aid" and "ao_view_id opts = mbd_target_view_id b"
    and "ao_mode opts = Service_to_service"
    and "mbd_target_service_id b \<in> set (po_local_service_ids (ao_policy opts))"
    and "b \<in> set (po_bindings (ao_policy opts))"
    and "\<forall>b'\<in>set (po_bindings (ao_policy opts)). mbd_id b' = mbd_id b \<longrightarrow> b' = b"
    and "\<exists>g\<in>set (po_grants (ao_policy opts)). grant_matches opts (mk_token call) b g"
    and "\<forall>g\<in>set (po_grants (ao_policy opts)). grant_matches opts (mk_token call) b g \<longrightarrow>
      set (ao_required_permissions opts) \<subseteq> set (mg_permissions g)"
    and "trusted_key (ao_policy opts) (mbd_source_service_id b) kid = Some pem"
    and "service_token_part lib 0 ''header'' token = Inr h" and "gate_service_header h = Inr kid"
    and "service_token_part lib 1 ''payload'' token = Inr p" and "untrusted_issuer p = mbd_source_service_id b"
    and "lib_verify lib token pem
      \<lparr>ck_issuer = None, ck_audience = None, ck_tolerance = (case ao_tolerance opts of None \<Rightarrow> 5 | Some t \<Rightarrow> t)\<rparr> = Inr v"
    and "schema v = Some (mk_token call)"
  shows "\<exists>perms. authorize_service_token lib schema opts token = Inr (mk_token call, perms) \<and>
    set (ao_required_permissions opts) \<subseteq> set perms \<and> mk_base_url call = service_base_url (m2_hostname target)"
proof -
  have b: "mbd_enabled b" "mbd_mode b = Service_to_service" "mbd_tenant_id b = tenant_id" "same_app (mbd_app_id b) aid"
    using assms(2) by (auto simp: resolve_m2m_client_def split: option.splits if_splits dest!: find_SomeD)
  have c: "mk_token call = \<lparr>stc_iss = mbd_source_service_id b, stc_sub = mbd_source_service_id b,
      stc_aud = mbd_target_service_id b, stc_tenant_id = tenant_id, stc_app_id = aid, stc_binding_id = mbd_id b,
      stc_iat = now, stc_nbf = Some now, stc_exp = now + max_lifetime, stc_jti = jti\<rparr>"
    and u: "mk_base_url call = service_base_url (m2_hostname target)"
    and s: "js_get (mk_headers call) ''X-BP-Service-Id'' = Some (mbd_source_service_id b)"
    using assms(1,2)
    by (auto simp: m2m_client_def service_claims_def service_lifetime_def guard_simps Let_def split: sum.splits)
  have src: "ao_source_service_id opts = mbd_source_service_id b" using s assms(4) by simp
  have bm: "binding_matches opts (mk_token call) b"
    using b assms(5-8) by (simp add: binding_matches_def c)
  have fb: "List.find (binding_matches opts (mk_token call)) (po_bindings (ao_policy opts)) = Some b"
  proof (cases "List.find (binding_matches opts (mk_token call)) (po_bindings (ao_policy opts))")
    case None
    with bm assms(10) show ?thesis by (simp add: find_None_iff)
  next
    case (Some b')
    with assms(11) show ?thesis by (auto dest!: find_SomeD simp: binding_matches_def c)
  qed
  obtain g where fg: "List.find (grant_matches opts (mk_token call) b) (po_grants (ao_policy opts)) = Some g"
    using assms(12) by (cases "List.find (grant_matches opts (mk_token call) b) (po_grants (ao_policy opts))")
      (auto simp: find_None_iff)
  have perms: "set (ao_required_permissions opts) \<subseteq> set (mg_permissions g)"
    using find_SomeD [OF fg] assms(13) by auto
  have "check_service_claims opts (mk_token call) = Inr (mk_token call, mg_permissions g)"
    using src assms(5,6,9) perms unfolding check_service_claims_def fb option.case fg
    by (simp add: c ensure_def list_all_iff subset_iff)
  then have "authorize_service_token lib schema opts token = Inr (mk_token call, mg_permissions g)"
    using assms(14-20) by (simp add: authorize_service_token_def)
  with perms u show ?thesis by blast
qed

definition sample_binding :: m2m_binding where
  "sample_binding = hd (po_bindings sample_policy)"

lemma sample_token_parts:
  "service_token_part sample_service_library 0 ''header'' ''h.p.s'' =
     Inr (JObj [(''alg'', JStr ''RS256''), (''typ'', JStr ''BP-S2S-JWT''), (''kid'', JStr ''k1'')])"
  "gate_service_header (JObj [(''alg'', JStr ''RS256''), (''typ'', JStr ''BP-S2S-JWT''), (''kid'', JStr ''k1'')]) = Inr ''k1''"
  "service_token_part sample_service_library 1 ''payload'' ''h.p.s'' = Inr sample_payload"
  by code_simp+

end
