(* ===== verification/PlatformStore.thy ===== *)
theory PlatformStore
  imports ServiceEndpoint
begin

text \<open>
  The control plane's storage, \<open>storage/core.ts\<close> of the config manager: who an API key
  belongs to, which part of the platform configuration a service receives, and which
  references a configuration must keep before it is saved.

  A loaded configuration extends the platform's record by the parts only the control plane
  uses. The key hash and the URL parser are parameters; objects of different kinds that the
  code tells apart by their fields are a datatype.
\<close>

section \<open>The stored configuration\<close>

record preview_group =
  pvg_id :: string
  pvg_source_tenant_id :: string
  pvg_source_app_id :: string

record preview_deployment =
  pvd_id :: string
  pvd_group_id :: string
  pvd_tenant_id :: string
  pvd_app_id :: string
  pvd_elevated_role_ids :: "string list option"
  pvd_instance_ids :: "string list"

record webhook_target =
  wt_id :: string
  wt_tenant_id :: string
  wt_app_id :: "string option"
  wt_service_id :: string

record stored_config = platform_config +
  st_bindings :: "m2m_binding list"
  st_grants :: "m2m_grant list"
  st_preview_groups :: "preview_group list"
  st_preview_deployments :: "preview_deployment list"
  st_webhook_targets :: "webhook_target list"

definition plain_config :: "stored_config \<Rightarrow> platform_config" where
  "plain_config cfg = platform_config.truncate cfg"

lemma plain_config_fields [simp]:
  "pc_management (plain_config cfg) = pc_management cfg" "pc_tenants (plain_config cfg) = pc_tenants cfg"
  "pc_apps (plain_config cfg) = pc_apps cfg" "pc_platform_services (plain_config cfg) = pc_platform_services cfg"
  "pc_shared_catalog (plain_config cfg) = pc_shared_catalog cfg"
  "pc_shared_activations (plain_config cfg) = pc_shared_activations cfg"
  "pc_manifest_cache (plain_config cfg) = pc_manifest_cache cfg"
  by (simp_all add: plain_config_def platform_config.defs)

section \<open>Service instances\<close>

definition active_tenant_id :: "stored_config \<Rightarrow> string \<Rightarrow> bool" where
  "active_tenant_id cfg tenant_id \<longleftrightarrow> list_ex (\<lambda>t. tn_active t \<and> tn_id t = tenant_id) (pc_tenants cfg)"

definition active_platform_ids :: "stored_config \<Rightarrow> string list" where
  "active_platform_ids cfg = map ps_id (filter ps_enabled (pc_platform_services cfg))"

definition active_shared_ids :: "stored_config \<Rightarrow> string list" where
  "active_shared_ids cfg = map ss_id (filter ss_enabled (pc_shared_catalog cfg))"

definition get_available_service_instance_ids_for_app :: "stored_config \<Rightarrow> app \<Rightarrow> string list" where
  "get_available_service_instance_ids_for_app cfg a =
     (case List.find (\<lambda>t. tn_id t = app_tenant_id a) (pc_tenants cfg) of
        None \<Rightarrow> []
      | Some t \<Rightarrow>
          uniq (map ts_id (filter ts_enabled (tn_services t)) @
                filter (\<lambda>i. i \<in> set (active_platform_ids cfg)) (tn_activated_platform_services t) @
                map sa_id (filter (\<lambda>x. sa_enabled x \<and> sa_tenant_id x = app_tenant_id a \<and> same_app (sa_app_id x) (app_id a)
                                     \<and> sa_shared_service_id x \<in> set (active_shared_ids cfg)) (pc_shared_activations cfg))))"

definition tenant_services :: "stored_config \<Rightarrow> (tenant \<times> tenant_service) list" where
  "tenant_services cfg = concat (map (\<lambda>t. map (Pair t) (tn_services t)) (pc_tenants cfg))"

definition or_id :: "string option \<Rightarrow> string \<Rightarrow> string" where
  "or_id o' i = (case o' of None \<Rightarrow> i | Some s \<Rightarrow> s)"

definition get_service_plugin_id :: "stored_config \<Rightarrow> string \<Rightarrow> string option" where
  "get_service_plugin_id cfg i =
     (case List.find (\<lambda>(t, s). ts_id s = i) (tenant_services cfg) of
        Some (t, s) \<Rightarrow> Some (or_id (ts_service_id s) (ts_id s))
      | None \<Rightarrow>
          (case List.find (\<lambda>s. ps_id s = i) (pc_platform_services cfg) of
             Some s \<Rightarrow> Some (or_id (ps_service_id s) (ps_id s))
           | None \<Rightarrow>
               (let shared_id = (case List.find (\<lambda>x. sa_id x = i) (pc_shared_activations cfg) of
                                   None \<Rightarrow> i | Some x \<Rightarrow> sa_shared_service_id x)
                in map_option (\<lambda>s. or_id (ss_service_id s) (ss_id s))
                     (List.find (\<lambda>s. ss_id s = shared_id) (pc_shared_catalog cfg)))))"

text \<open>A registration the control plane knows by its instance id, a tenant's with its tenant.\<close>

datatype registration = Platform_reg platform_service | Shared_reg shared_service | Tenant_reg tenant tenant_service

definition registered_service :: "stored_config \<Rightarrow> string \<Rightarrow> registration option" where
  "registered_service cfg i =
     (case List.find (\<lambda>s. ps_id s = i) (pc_platform_services cfg) of
        Some s \<Rightarrow> Some (Platform_reg s)
      | None \<Rightarrow>
          (case List.find (\<lambda>s. ss_id s = i) (pc_shared_catalog cfg) of
             Some s \<Rightarrow> Some (Shared_reg s)
           | None \<Rightarrow> map_option (\<lambda>(t, s). Tenant_reg t s) (List.find (\<lambda>(t, s). ts_id s = i) (tenant_services cfg))))"

fun reg_plugin_id :: "registration \<Rightarrow> string option" where
  "reg_plugin_id (Platform_reg s) = ps_service_id s"
| "reg_plugin_id (Shared_reg s) = ss_service_id s"
| "reg_plugin_id (Tenant_reg t s) = ts_service_id s"

fun reg_hostname :: "registration \<Rightarrow> string" where
  "reg_hostname (Platform_reg s) = ps_hostname s"
| "reg_hostname (Shared_reg s) = ss_base_url s"
| "reg_hostname (Tenant_reg t s) = ts_hostname s"

fun reg_public_key_pem :: "registration \<Rightarrow> string option" where
  "reg_public_key_pem (Platform_reg s) = ps_public_key_pem s"
| "reg_public_key_pem (Shared_reg s) = ss_public_key_pem s"
| "reg_public_key_pem (Tenant_reg t s) = ts_public_key_pem s"

fun reg_key_id :: "registration \<Rightarrow> string option" where
  "reg_key_id (Platform_reg s) = ps_key_id s"
| "reg_key_id (Shared_reg s) = ss_key_id s"
| "reg_key_id (Tenant_reg t s) = ts_key_id s"

fun reg_enabled :: "registration \<Rightarrow> bool" where
  "reg_enabled (Platform_reg s) = ps_enabled s"
| "reg_enabled (Shared_reg s) = ss_enabled s"
| "reg_enabled (Tenant_reg t s) = (ts_enabled s \<and> tn_active t)"

definition only_truthy :: "string option \<Rightarrow> string option" where
  "only_truthy o' = (if truthy o' then o' else None)"

definition resolve_m2m_service :: "stored_config \<Rightarrow> string \<Rightarrow> m2m_service option" where
  "resolve_m2m_service cfg i =
     (let direct = registered_service cfg i
      in case (case direct of Some d \<Rightarrow> if reg_enabled d then Some d else None | None \<Rightarrow> None) of
           Some d \<Rightarrow>
             Some \<lparr>m2_id = i, m2_service_id = only_truthy (reg_plugin_id d), m2_hostname = reg_hostname d,
                   m2_public_key_pem = only_truthy (reg_public_key_pem d), m2_key_id = only_truthy (reg_key_id d)\<rparr>
         | None \<Rightarrow>
             (case List.find (\<lambda>x. sa_enabled x \<and> sa_id x = i) (pc_shared_activations cfg) of
                None \<Rightarrow> None
              | Some x \<Rightarrow>
                  map_option (\<lambda>s. \<lparr>m2_id = i, m2_service_id = Some (or_id (ss_service_id s) (ss_id s)), m2_hostname = ss_base_url s,
                       m2_public_key_pem = only_truthy (ss_public_key_pem s), m2_key_id = only_truthy (ss_key_id s)\<rparr>)
                    (List.find (\<lambda>s. ss_enabled s \<and> ss_id s = sa_shared_service_id x) (pc_shared_catalog cfg))))"

section \<open>API keys\<close>

datatype key_scope = Tenant_key | Platform_key

record key_owner =
  ko_scope :: key_scope
  ko_service_id :: string
  ko_tenant_id :: "string option"

definition validate_api_key :: "(string \<Rightarrow> string) \<Rightarrow> stored_config \<Rightarrow> string \<Rightarrow> key_owner option" where
  "validate_api_key hash_key cfg api_key =
     (let h = hash_key api_key
      in case List.find (\<lambda>s. ps_enabled s \<and> ps_api_key_hash s = h) (pc_platform_services cfg) of
           Some s \<Rightarrow> Some \<lparr>ko_scope = Platform_key, ko_service_id = ps_id s, ko_tenant_id = None\<rparr>
         | None \<Rightarrow>
             (case List.find (\<lambda>s. ss_enabled s \<and> ss_api_key_hash s = h) (pc_shared_catalog cfg) of
                Some s \<Rightarrow> Some \<lparr>ko_scope = Platform_key, ko_service_id = ss_id s, ko_tenant_id = None\<rparr>
              | None \<Rightarrow>
                  map_option (\<lambda>(t, s). \<lparr>ko_scope = Tenant_key, ko_service_id = ts_id s, ko_tenant_id = Some (tn_id t)\<rparr>)
                    (List.find (\<lambda>(t, s). tn_active t \<and> ts_enabled s \<and> ts_api_key_hash s = h) (tenant_services cfg))))"

datatype key_registration = Registered | Matched | Mismatch | Not_found

fun update_first :: "('a \<Rightarrow> bool) \<Rightarrow> ('a \<Rightarrow> 'a) \<Rightarrow> 'a list \<Rightarrow> 'a list" where
  "update_first P f [] = []"
| "update_first P f (x # xs) = (if P x then f x # xs else x # update_first P f xs)"

text \<open>The decision on a presented key, from what is registered.\<close>

definition key_decision :: "string option \<Rightarrow> string option \<Rightarrow> string \<Rightarrow> string \<Rightarrow> bool \<Rightarrow> key_registration" where
  "key_decision pem kid new_pem new_kid replace =
     (if pem = Some new_pem \<and> kid = Some new_kid then Matched
      else if (truthy pem \<or> truthy kid) \<and> \<not> replace then Mismatch
      else Registered)"

definition owned_service :: "stored_config \<Rightarrow> string \<Rightarrow> key_scope \<Rightarrow> string option \<Rightarrow> registration option" where
  "owned_service cfg i scope tenant_id =
     (case scope of
        Tenant_key \<Rightarrow>
          (case List.find (\<lambda>t. Some (tn_id t) = tenant_id) (pc_tenants cfg) of
             None \<Rightarrow> None
           | Some t \<Rightarrow> map_option (Tenant_reg t) (List.find (\<lambda>s. ts_id s = i) (tn_services t)))
      | Platform_key \<Rightarrow>
          (case List.find (\<lambda>s. ps_id s = i) (pc_platform_services cfg) of
             Some s \<Rightarrow> Some (Platform_reg s)
           | None \<Rightarrow> map_option Shared_reg (List.find (\<lambda>s. ss_id s = i) (pc_shared_catalog cfg))))"

definition store_key :: "stored_config \<Rightarrow> string \<Rightarrow> string option \<Rightarrow> registration \<Rightarrow> string \<Rightarrow> string \<Rightarrow> stored_config" where
  "store_key cfg i tenant_id reg pem kid =
     (case reg of
        Platform_reg s \<Rightarrow>
          cfg\<lparr>pc_platform_services := update_first (\<lambda>s. ps_id s = i)
                (\<lambda>s. s\<lparr>ps_public_key_pem := Some pem, ps_key_id := Some kid\<rparr>) (pc_platform_services cfg)\<rparr>
      | Shared_reg s \<Rightarrow>
          cfg\<lparr>pc_shared_catalog := update_first (\<lambda>s. ss_id s = i)
                (\<lambda>s. s\<lparr>ss_public_key_pem := Some pem, ss_key_id := Some kid\<rparr>) (pc_shared_catalog cfg)\<rparr>
      | Tenant_reg t s \<Rightarrow>
          cfg\<lparr>pc_tenants := update_first (\<lambda>t. Some (tn_id t) = tenant_id)
                (\<lambda>t. t\<lparr>tn_services := update_first (\<lambda>s. ts_id s = i)
                   (\<lambda>s. s\<lparr>ts_public_key_pem := Some pem, ts_key_id := Some kid\<rparr>) (tn_services t)\<rparr>) (pc_tenants cfg)\<rparr>)"

definition apply_service_public_key ::
    "stored_config \<Rightarrow> string \<Rightarrow> key_scope \<Rightarrow> string option \<Rightarrow> string \<Rightarrow> string \<Rightarrow> bool \<Rightarrow> stored_config \<times> key_registration" where
  "apply_service_public_key cfg i scope tenant_id pem kid replace =
     (case owned_service cfg i scope tenant_id of
        None \<Rightarrow> (cfg, Not_found)
      | Some reg \<Rightarrow>
          (case key_decision (reg_public_key_pem reg) (reg_key_id reg) pem kid replace of
             Registered \<Rightarrow> (store_key cfg i tenant_id reg pem kid, Registered)
           | d \<Rightarrow> (cfg, d)))"

section \<open>Scoped tenants and apps\<close>

definition no_key :: "tenant_service \<Rightarrow> string option \<Rightarrow> scoped_service" where
  "no_key s shared = tenant_service.extend (s\<lparr>ts_api_key_hash := []\<rparr>) \<lparr>sv_shared_service_id = shared\<rparr>"

definition scope_shared_service :: "stored_config \<Rightarrow> shared_activation \<Rightarrow> scoped_service option" where
  "scope_shared_service cfg x =
     map_option (\<lambda>s. no_key \<lparr>ts_id = sa_id x, ts_hostname = ss_base_url s, ts_api_key_hash = [], ts_public_key_pem = None,
          ts_key_id = None, ts_service_id = Some (or_id (ss_service_id s) (ss_id s)), ts_auth_provider = None,
          ts_capabilities = ss_tags s, ts_title = Some (ss_title s), ts_description = ss_description s,
          ts_deployment_mode = Bp_hosted, ts_created_at = sa_activated_at x, ts_last_seen_at = None,
          ts_last_sync_at = None, ts_enabled = sa_enabled x\<rparr> (Some (ss_id s)))
       (List.find (\<lambda>s. ss_id s = sa_shared_service_id x \<and> ss_enabled s) (pc_shared_catalog cfg))"

definition scope_platform_service :: "platform_service \<Rightarrow> scoped_service" where
  "scope_platform_service s =
     no_key \<lparr>ts_id = ps_id s, ts_hostname = ps_hostname s, ts_api_key_hash = [], ts_public_key_pem = ps_public_key_pem s,
       ts_key_id = ps_key_id s, ts_service_id = ps_service_id s, ts_auth_provider = ps_auth_provider s,
       ts_capabilities = ps_capabilities s, ts_title = Some (ps_title s), ts_description = ps_description s,
       ts_deployment_mode = Bp_hosted, ts_created_at = ps_created_at s, ts_last_seen_at = None, ts_last_sync_at = None,
       ts_enabled = ps_enabled s\<rparr> None"

definition scope_tenant :: "stored_config \<Rightarrow> tenant \<Rightarrow> scoped_tenant" where
  "scope_tenant cfg t =
     \<lparr>sx_id = tn_id t, sx_slug = tn_slug t, sx_title = tn_title t, sx_active = tn_active t,
      sx_services =
        map (\<lambda>s. no_key s None) (tn_services t) @
        List.map_filter (scope_shared_service cfg)
          (filter (\<lambda>x. sa_enabled x \<and> sa_tenant_id x = tn_id t) (pc_shared_activations cfg)) @
        map scope_platform_service
          (filter (\<lambda>s. ps_enabled s \<and> ps_id s \<in> set (tn_activated_platform_services t)) (pc_platform_services cfg)),
      sx_activated_platform_services = tn_activated_platform_services t\<rparr>"

definition all_actions :: "string list" where
  "all_actions = [''read'', ''create'', ''update'', ''delete'']"

definition grant_key :: "string \<Rightarrow> string \<Rightarrow> string" where
  "grant_key service_id view_id = service_id @ '':'' @ view_id"

text \<open>The grants an elevated preview role gets: every mounted view and what its operations require.\<close>

definition add_grant :: "string list \<Rightarrow> string \<Rightarrow> string \<Rightarrow> (string, permission_grant) jsmap \<Rightarrow> (string, permission_grant) jsmap" where
  "add_grant available service_id view_id m =
     (if service_id \<in> set available
      then js_set (grant_key service_id view_id)
             \<lparr>pg_service_id = service_id, pg_view_id = view_id, pg_permissions = all_actions\<rparr> m
      else m)"

definition required_targets :: "stored_config \<Rightarrow> string list \<Rightarrow> string \<Rightarrow> string list" where
  "required_targets cfg available service_id =
     (if service_id \<in> set available then [service_id]
      else filter (\<lambda>i. get_service_plugin_id cfg i = Some service_id) available)"

definition mounted_operations :: "stored_config \<Rightarrow> route_mount \<Rightarrow> manifest_operation list" where
  "mounted_operations cfg r =
     (case List.find (\<lambda>e. me_service_id e = rm_service_id r) (pc_manifest_cache cfg) of
        None \<Rightarrow> []
      | Some e \<Rightarrow>
          (case js_get (me_view_index e) (rm_view_id r) of
             None \<Rightarrow> []
           | Some v \<Rightarrow> filter (\<lambda>op'. mo_operation_id op' \<in> set (rm_operations r)) (mv_operations v)))"

definition route_grants :: "stored_config \<Rightarrow> string list \<Rightarrow> route_mount \<Rightarrow> (string, permission_grant) jsmap \<Rightarrow>
    (string, permission_grant) jsmap" where
  "route_grants cfg available r m =
     fold (\<lambda>req. fold (\<lambda>i. add_grant available i (pg_view_id req)) (required_targets cfg available (pg_service_id req)))
       (concat (map mo_permissions (mounted_operations cfg r)))
       (add_grant available (rm_service_id r) (rm_view_id r) m)"

definition preview_grants :: "stored_config \<Rightarrow> app \<Rightarrow> (string, permission_grant) jsmap" where
  "preview_grants cfg a =
     (let available = get_available_service_instance_ids_for_app cfg a
      in fold (route_grants cfg available)
           (filter (\<lambda>r. rm_enabled r \<and> rm_service_id r \<in> set available) (app_routes a)) [])"

definition elevate_role :: "(string, permission_grant) jsmap \<Rightarrow> app_role list \<Rightarrow> string \<Rightarrow> app_role" where
  "elevate_role grants roles i =
     (let role = (case List.find (\<lambda>r. role_id r = i) roles of
                    None \<Rightarrow> \<lparr>role_id = i, role_title = i, role_grants = []\<rparr> | Some r \<Rightarrow> r);
          own = fold (\<lambda>g. js_set (grant_key (pg_service_id g) (pg_view_id g)) g) (role_grants role) []
      in role\<lparr>role_grants := js_values (fold (\<lambda>(k, g). js_set k g) grants own)\<rparr>)"

text \<open>The deployment and template of an app whose roles a preview elevates.\<close>

definition elevated_roles :: "stored_config \<Rightarrow> app \<Rightarrow> string list" where
  "elevated_roles cfg a =
     (if Some (app_tenant_id a) = cm_admin_tenant_id (pc_management cfg) then []
      else (case List.find (\<lambda>d. pvd_app_id d = app_id a \<and> pvd_tenant_id d = app_tenant_id a) (st_preview_deployments cfg) of
              None \<Rightarrow> []
            | Some d \<Rightarrow>
                (case List.find (\<lambda>g. pvg_id g = pvd_group_id d) (st_preview_groups cfg) of
                   None \<Rightarrow> []
                 | Some g \<Rightarrow>
                     if pvg_source_app_id g = app_id a \<or> pvg_source_tenant_id g = app_tenant_id a then []
                     else (case pvd_elevated_role_ids d of None \<Rightarrow> [] | Some ids \<Rightarrow> ids))))"

definition preview_auth :: "stored_config \<Rightarrow> app \<Rightarrow> app_auth option" where
  "preview_auth cfg a =
     (case app_auth_config a of
        None \<Rightarrow> None
      | Some auth \<Rightarrow>
          (let ids = elevated_roles cfg a
           in if ids = [] then Some auth
              else Some (auth\<lparr>aa_roles := filter (\<lambda>r. role_id r \<notin> set ids) (aa_roles auth) @
                     map (elevate_role (preview_grants cfg a) (aa_roles auth)) ids\<rparr>)))"

text \<open>Where the management shell may send a user's credentials: the auth services of all apps.\<close>

definition auth_destination :: "(string \<Rightarrow> url option) \<Rightarrow> stored_config \<Rightarrow> app \<Rightarrow> (string \<times> string) option" where
  "auth_destination parse_url cfg a =
     (case Option.bind (app_auth_config a) (\<lambda>auth. only_truthy (Some (aa_service_id auth))) of
        None \<Rightarrow> None
      | Some i \<Rightarrow>
          (case List.find (\<lambda>t. tn_active t \<and> tn_id t = app_tenant_id a) (pc_tenants cfg) of
             None \<Rightarrow> None
           | Some t \<Rightarrow>
               (case resolve_service_for_tenant (plain_config cfg) i
                       \<lparr>rc_tenant = t, rc_app = \<lparr>ra_app = a, ra_shell = resolve_app_shell (plain_config cfg) a,
                          ra_management_origins = None\<rparr>\<rparr> of
                  None \<Rightarrow> None
                | Some b \<Rightarrow>
                    (case parse_url (ts_hostname (sb_service b)) of
                       None \<Rightarrow> None
                     | Some u \<Rightarrow> if credential_free u then Some (i, u_origin u) else None))))"

definition management_app :: "stored_config \<Rightarrow> app \<Rightarrow> bool" where
  "management_app cfg a \<longleftrightarrow>
     Some (app_id a) = cm_management_app_id (pc_management cfg) \<and> Some (app_tenant_id a) = cm_admin_tenant_id (pc_management cfg)"

definition scope_app ::
    "(string \<Rightarrow> url option) \<Rightarrow> stored_config \<Rightarrow> app \<Rightarrow> string list \<Rightarrow> bool \<Rightarrow> bool \<Rightarrow> scoped_app" where
  "scope_app parse_url cfg a keys shell_caller auth_caller =
     app.extend
       (a\<lparr>app_routes := (if shell_caller \<or> auth_caller then app_routes a
                        else filter (\<lambda>r. rm_service_id r \<in> set keys) (app_routes a)),
          app_slots := (if shell_caller then app_slots a else filter (\<lambda>s. sl_service_id s \<in> set keys) (app_slots a)),
          app_fragments := (if shell_caller then app_fragments a
             else filter (\<lambda>(loc, fs). 0 < length fs)
                    (map_values (filter (\<lambda>f. fa_service_id f \<in> set keys)) (app_fragments a))),
          app_shell_fragments := (if shell_caller then app_shell_fragments a else []),
          app_auth_config := preview_auth cfg a\<rparr>)
       \<lparr>sp_shell = resolve_app_shell (plain_config cfg) a,
        sp_management_origins =
          (if shell_caller \<and> management_app cfg a
           then Some (foldl (\<lambda>m (i, origin). js_set i origin m) [] (List.map_filter (auth_destination parse_url cfg) (pc_apps cfg)))
           else None),
        sp_app_routes = app_routes a, sp_app_fragments = app_fragments a\<rparr>"

definition scoped_management_app :: "scoped_app \<Rightarrow> scoped_app" where
  "scoped_management_app a =
     a\<lparr>app_routes := [], sp_app_routes := [], app_menu := [], app_slots := [], app_fragments := [],
       sp_app_fragments := [], app_shell_fragments := []\<rparr>"

definition scoped_config_management :: "(string \<Rightarrow> url option) \<Rightarrow> stored_config \<Rightarrow> scoped_management" where
  "scoped_config_management parse_url cfg =
     (let m = pc_management cfg;
          t = List.find (\<lambda>t. Some (tn_id t) = cm_admin_tenant_id m) (pc_tenants cfg);
          a = List.find (\<lambda>a. Some (app_id a) = cm_management_app_id m \<and> Some (app_tenant_id a) = map_option tn_id t) (pc_apps cfg)
      in \<lparr>sm_admin_tenant_id = cm_admin_tenant_id m, sm_management_app_id = cm_management_app_id m,
          sm_context = (case (t, a) of
             (Some t', Some a') \<Rightarrow> Some (scope_tenant cfg t', scoped_management_app (scope_app parse_url cfg a' [] False False))
           | _ \<Rightarrow> None)\<rparr>)"

definition stored_management_origins :: "stored_config \<Rightarrow> string list" where
  "stored_management_origins cfg =
     (if \<not> truthy (cm_admin_tenant_id (pc_management cfg)) then []
      else uniq (concat (map (\<lambda>a. concat (map hostname_origins (app_hostnames a)) @
                              map service_base_url (app_origin_overrides a))
             (filter (\<lambda>a. Some (app_tenant_id a) = cm_admin_tenant_id (pc_management cfg)) (pc_apps cfg)))))"

definition config_apps_for_tenant :: "stored_config \<Rightarrow> string \<Rightarrow> scoped_config_app list" where
  "config_apps_for_tenant cfg tenant_id =
     map (\<lambda>a. \<lparr>gc_id = app_id a, gc_tenant_id = app_tenant_id a, gc_title = app_title a\<rparr>)
       (filter (\<lambda>a. app_tenant_id a = tenant_id) (pc_apps cfg))"

section \<open>The scope of a service\<close>

text \<open>The two listings of a service that only shells and only auth services may see in full.\<close>

definition shell_is :: "string list \<Rightarrow> app \<Rightarrow> bool" where
  "shell_is ids a \<longleftrightarrow> (case app_shell a of None \<Rightarrow> False | Some s \<Rightarrow> s \<in> set ids)"

definition caller_activations :: "stored_config \<Rightarrow> string \<Rightarrow> string list" where
  "caller_activations cfg i = map sa_id (filter (\<lambda>x. sa_enabled x \<and> sa_shared_service_id x = i) (pc_shared_activations cfg))"

definition is_shell_caller :: "stored_config \<Rightarrow> string \<Rightarrow> bool" where
  "is_shell_caller cfg i \<longleftrightarrow>
     list_ex (\<lambda>a. app_shell a = Some i \<or> (truthy (app_shell a) \<and> shell_is (caller_activations cfg i) a)) (pc_apps cfg)"

definition is_auth_caller :: "stored_config \<Rightarrow> string \<Rightarrow> bool" where
  "is_auth_caller cfg i \<longleftrightarrow>
     list_ex (\<lambda>a. case app_auth_config a of
         None \<Rightarrow> False
       | Some auth \<Rightarrow> aa_service_id auth = i \<or> (aa_service_id auth \<noteq> [] \<and> aa_service_id auth \<in> set (caller_activations cfg i)))
       (pc_apps cfg)"

definition scoped_base :: "(string \<Rightarrow> url option) \<Rightarrow> stored_config \<Rightarrow> scoped_config" where
  "scoped_base parse_url cfg =
     \<lparr>sf_service_identity = None, sf_m2m = None, sf_config_management = Some (scoped_config_management parse_url cfg),
      sf_management_origins = stored_management_origins cfg, sf_tenants = [], sf_config_apps = None, sf_apps = []\<rparr>"

definition has_content :: "scoped_app \<Rightarrow> bool" where
  "has_content a \<longleftrightarrow> 0 < length (app_routes a) \<or> 0 < length (js_keys (app_fragments a))"

text \<open>The ids a caller of a tenant goes by, when the tenant knows him.\<close>

definition tenant_caller_keys :: "stored_config \<Rightarrow> string \<Rightarrow> tenant \<Rightarrow> string list option" where
  "tenant_caller_keys cfg i t =
     (case List.find (\<lambda>s. ts_enabled s \<and> (ts_id s = i \<or> ts_service_id s = Some i)) (tn_services t) of
        Some s \<Rightarrow> Some (List.map_filter only_truthy [Some (ts_id s), ts_service_id s])
      | None \<Rightarrow>
          map_option (\<lambda>x. [sa_id x, sa_shared_service_id x])
            (List.find (\<lambda>x. sa_enabled x \<and> sa_tenant_id x = tn_id t \<and> (sa_id x = i \<or> sa_shared_service_id x = i))
               (pc_shared_activations cfg)))"

definition scope_for_tenant_service ::
    "(string \<Rightarrow> url option) \<Rightarrow> stored_config \<Rightarrow> string \<Rightarrow> string \<Rightarrow> bool \<Rightarrow> bool \<Rightarrow> scoped_config" where
  "scope_for_tenant_service parse_url cfg i tenant_id shell_caller auth_caller =
     (case List.find (\<lambda>t. tn_active t \<and> tn_id t = tenant_id) (pc_tenants cfg) of
        None \<Rightarrow> scoped_base parse_url cfg
      | Some t \<Rightarrow>
          if tenant_caller_keys cfg i t = None \<and> \<not> shell_caller then scoped_base parse_url cfg
          else (let keys = (case tenant_caller_keys cfg i t of None \<Rightarrow> [] | Some ks \<Rightarrow> ks)
                in (scoped_base parse_url cfg)
                  \<lparr>sf_tenants := [scope_tenant cfg t], sf_config_apps := Some (config_apps_for_tenant cfg tenant_id),
                   sf_apps :=
                     filter (\<lambda>a. shell_caller \<or> has_content a)
                       (map (\<lambda>a. scope_app parse_url cfg a keys shell_caller auth_caller)
                         (filter (\<lambda>a. app_tenant_id a = tenant_id \<and> (shell_caller \<longrightarrow> app_shell a = Some i)) (pc_apps cfg)))\<rparr>))"

text \<open>What one active tenant contributes to the scope of a platform or shared service.\<close>

definition platform_contribution ::
    "(string \<Rightarrow> url option) \<Rightarrow> stored_config \<Rightarrow> string \<Rightarrow> bool \<Rightarrow> bool \<Rightarrow> tenant \<Rightarrow> (scoped_tenant \<times> scoped_app list) option" where
  "platform_contribution parse_url cfg i shell_caller auth_caller t =
     (let own_apps = filter (\<lambda>a. app_tenant_id a = tn_id t) (pc_apps cfg)
      in if shell_caller then
           (let ids = map sa_id (filter (\<lambda>x. sa_enabled x \<and> sa_tenant_id x = tn_id t \<and> sa_shared_service_id x = i)
                                   (pc_shared_activations cfg));
                shown = map (\<lambda>a. scope_app parse_url cfg a [] True auth_caller)
                          (filter (\<lambda>a. app_shell a = Some i \<or> (truthy (app_shell a) \<and> shell_is ids a)) own_apps)
            in if length shown = 0 then None else Some (scope_tenant cfg t, shown))
         else
           (case List.find (\<lambda>s. ss_enabled s \<and> ss_id s = i) (pc_shared_catalog cfg) of
              Some shared \<Rightarrow>
                (let acts = filter (\<lambda>x. sa_enabled x \<and> sa_tenant_id x = tn_id t \<and> sa_shared_service_id x = ss_id shared)
                              (pc_shared_activations cfg)
                 in if acts = [] then None
                    else Some (scope_tenant cfg t,
                      filter has_content
                        (map (\<lambda>a. scope_app parse_url cfg a (ss_id shared # uniq (map sa_id acts)) False auth_caller)
                          (filter (\<lambda>a. list_ex (\<lambda>x. same_app (sa_app_id x) (app_id a)) acts) own_apps))))
            | None \<Rightarrow>
                (case List.find (\<lambda>s. ps_enabled s \<and> (ps_id s = i \<or> ps_service_id s = Some i)) (pc_platform_services cfg) of
                   None \<Rightarrow> None
                 | Some s \<Rightarrow>
                     if ps_id s \<notin> set (tn_activated_platform_services t) \<and>
                        (\<not> truthy (ps_service_id s) \<or> the (ps_service_id s) \<notin> set (tn_activated_platform_services t)) then None
                     else Some (scope_tenant cfg t,
                       filter has_content
                         (map (\<lambda>a. scope_app parse_url cfg a (List.map_filter only_truthy [Some (ps_id s), ps_service_id s])
                                 False auth_caller) own_apps)))))"

definition scope_for_platform_service ::
    "(string \<Rightarrow> url option) \<Rightarrow> stored_config \<Rightarrow> string \<Rightarrow> bool \<Rightarrow> bool \<Rightarrow> scoped_config" where
  "scope_for_platform_service parse_url cfg i shell_caller auth_caller =
     (let parts = List.map_filter (platform_contribution parse_url cfg i shell_caller auth_caller) (filter tn_active (pc_tenants cfg))
      in (scoped_base parse_url cfg)
           \<lparr>sf_tenants := map fst parts,
            sf_config_apps := Some (concat (map (\<lambda>t. config_apps_for_tenant cfg (sx_id t)) (map fst parts))),
            sf_apps := concat (map snd parts)\<rparr>)"

definition local_service_ids :: "stored_config \<Rightarrow> string \<Rightarrow> string list" where
  "local_service_ids cfg i =
     uniq (i # (case List.find (\<lambda>s. ss_id s = i) (pc_shared_catalog cfg) of
                  None \<Rightarrow> []
                | Some s \<Rightarrow> map sa_id (filter (\<lambda>x. sa_enabled x \<and> active_tenant_id cfg (sa_tenant_id x) \<and>
                                  sa_shared_service_id x = ss_id s) (pc_shared_activations cfg))))"

definition usable_binding :: "stored_config \<Rightarrow> m2m_binding \<Rightarrow> bool" where
  "usable_binding cfg b \<longleftrightarrow>
     mbd_enabled b \<and> active_tenant_id cfg (mbd_tenant_id b) \<and>
     (\<not> truthy (mbd_app_id b) \<or>
        list_ex (\<lambda>a. Some (app_id a) = mbd_app_id b \<and> app_tenant_id a = mbd_tenant_id b) (pc_apps cfg)) \<and>
     resolve_m2m_service cfg (mbd_source_service_id b) \<noteq> None \<and> resolve_m2m_service cfg (mbd_target_service_id b) \<noteq> None"

definition m2m_policy_for :: "stored_config \<Rightarrow> string \<Rightarrow> m2m_policy" where
  "m2m_policy_for cfg i =
     (let ids = local_service_ids cfg i;
          bindings = filter (\<lambda>b. usable_binding cfg b \<and>
                       (mbd_source_service_id b \<in> set ids \<or> mbd_target_service_id b \<in> set ids)) (st_bindings cfg);
          grants = filter (\<lambda>g. mg_enabled g \<and> mg_binding_id g \<in> set (map mbd_id bindings)) (st_grants cfg);
          related = uniq (concat (map (\<lambda>b. [mbd_source_service_id b, mbd_target_service_id b]) bindings))
      in \<lparr>po_local_service_ids = ids, po_services = List.map_filter (resolve_m2m_service cfg) related,
          po_bindings = bindings, po_grants = grants\<rparr>)"

definition with_m2m_policy :: "stored_config \<Rightarrow> string \<Rightarrow> scoped_config \<Rightarrow> scoped_config" where
  "with_m2m_policy cfg i scoped =
     scoped\<lparr>sf_service_identity :=
         (case registered_service cfg i of
            None \<Rightarrow> sf_service_identity scoped
          | Some r \<Rightarrow> Some \<lparr>si_id = i, si_public_key_pem = only_truthy (reg_public_key_pem r),
                          si_key_id = only_truthy (reg_key_id r)\<rparr>),
       sf_m2m := Some (m2m_policy_for cfg i)\<rparr>"

definition get_scoped_config ::
    "(string \<Rightarrow> url option) \<Rightarrow> stored_config \<Rightarrow> string \<Rightarrow> key_scope \<Rightarrow> string option \<Rightarrow> scoped_config" where
  "get_scoped_config parse_url cfg i scope tenant_id =
     (let shell_caller = is_shell_caller cfg i; auth_caller = is_auth_caller cfg i
      in with_m2m_policy cfg i
           (if scope = Tenant_key \<and> truthy tenant_id
            then scope_for_tenant_service parse_url cfg i (the tenant_id) shell_caller auth_caller
            else scope_for_platform_service parse_url cfg i shell_caller auth_caller))"

text \<open>What the sync endpoint sends to the holder of a key, before it fills in the paths of the routes.\<close>

definition sync_config :: "(string \<Rightarrow> url option) \<Rightarrow> (string \<Rightarrow> string) \<Rightarrow> stored_config \<Rightarrow> string \<Rightarrow> scoped_config option" where
  "sync_config parse_url hash_key cfg api_key =
     map_option (\<lambda>k. get_scoped_config parse_url cfg (ko_service_id k) (ko_scope k) (ko_tenant_id k))
       (validate_api_key hash_key cfg api_key)"

section \<open>References a configuration must keep\<close>

datatype reference_error =
  Duplicated_id string string
| Admin_tenant_missing string | Management_app_missing string | Management_app_foreign string
| Inactive_platform_service string string
| Activation_tenant_missing string | Activation_service_missing string | Activation_app_missing string
| Activation_app_foreign string string
| Webhook_tenant_missing string | Webhook_service_missing string | Webhook_app_missing string | Webhook_app_foreign string
| Binding_duplicated string
| Binding_tenant_missing string | Binding_app_missing string | Binding_app_foreign string
| Binding_source_unavailable string string | Binding_target_unavailable string string
| Grant_duplicated string | Grant_binding_missing string | Grant_tenant_mismatch string | Grant_app_mismatch string
| App_tenant_missing string | Shell_unavailable string | Route_syntax string string | Fixed_param_invalid string string
| Route_service_unavailable string string | Menu_route_missing string string | Slot_service_unavailable string string
| Fragment_service_unavailable string string | Auth_service_unavailable string
| Redirect_unavailable string string | Role_service_unavailable string string

fun duplicates :: "string \<Rightarrow> string list \<Rightarrow> string list \<Rightarrow> reference_error list" where
  "duplicates label [] seen = []"
| "duplicates label (v # vs) seen =
     (if v \<in> set seen then [Duplicated_id label v] else []) @ duplicates label vs (v # seen)"

definition complain :: "bool \<Rightarrow> reference_error \<Rightarrow> reference_error list" where
  "complain ok e = (if ok then [] else [e])"

definition app_by_id :: "stored_config \<Rightarrow> string \<Rightarrow> app option" where
  "app_by_id cfg i = map_of (rev (map (\<lambda>a. (app_id a, a)) (pc_apps cfg))) i"

definition tenant_by_id :: "stored_config \<Rightarrow> string \<Rightarrow> tenant option" where
  "tenant_by_id cfg i = map_of (rev (map (\<lambda>t. (tn_id t, t)) (pc_tenants cfg))) i"

definition app_reference_errors ::
    "stored_config \<Rightarrow> string \<Rightarrow> string option \<Rightarrow> reference_error \<Rightarrow> reference_error \<Rightarrow> reference_error list" where
  "app_reference_errors cfg tenant_id aid missing foreign_app =
     (if \<not> truthy aid then []
      else (case app_by_id cfg (the aid) of
              None \<Rightarrow> [missing]
            | Some a \<Rightarrow> complain (app_tenant_id a = tenant_id) foreign_app))"

definition management_errors :: "stored_config \<Rightarrow> reference_error list" where
  "management_errors cfg =
     (let m = pc_management cfg; t = cm_admin_tenant_id m
      in complain (\<not> truthy t \<or> tenant_by_id cfg (the t) \<noteq> None) (Admin_tenant_missing (the t)) @
         (case cm_management_app_id m of
            None \<Rightarrow> []
          | Some aid \<Rightarrow>
              if aid = [] then []
              else (case app_by_id cfg aid of
                      None \<Rightarrow> [Management_app_missing aid]
                    | Some a \<Rightarrow> complain (\<not> truthy t \<or> Some (app_tenant_id a) = t) (Management_app_foreign aid))))"

definition tenant_errors :: "stored_config \<Rightarrow> tenant \<Rightarrow> reference_error list" where
  "tenant_errors cfg t =
     duplicates (''tenant '' @ tn_id t @ '' service'') (map ts_id (tn_services t)) [] @
     concat (map (\<lambda>i. complain (i \<in> set (active_platform_ids cfg)) (Inactive_platform_service (tn_id t) i))
       (tn_activated_platform_services t))"

definition activation_errors :: "stored_config \<Rightarrow> shared_activation \<Rightarrow> reference_error list" where
  "activation_errors cfg x =
     complain (tenant_by_id cfg (sa_tenant_id x) \<noteq> None) (Activation_tenant_missing (sa_tenant_id x)) @
     complain (sa_shared_service_id x \<in> set (active_shared_ids cfg)) (Activation_service_missing (sa_shared_service_id x)) @
     app_reference_errors cfg (sa_tenant_id x) (sa_app_id x) (Activation_app_missing (the (sa_app_id x)))
       (Activation_app_foreign (sa_shared_service_id x) (the (sa_app_id x)))"

definition webhook_service_exists :: "stored_config \<Rightarrow> webhook_target \<Rightarrow> bool" where
  "webhook_service_exists cfg w \<longleftrightarrow>
     (case tenant_by_id cfg (wt_tenant_id w) of None \<Rightarrow> False | Some t \<Rightarrow> list_ex (\<lambda>s. ts_id s = wt_service_id w) (tn_services t)) \<or>
     list_ex (\<lambda>s. ps_id s = wt_service_id w) (pc_platform_services cfg) \<or>
     list_ex (\<lambda>s. ss_id s = wt_service_id w) (pc_shared_catalog cfg) \<or>
     list_ex (\<lambda>x. sa_id x = wt_service_id w \<and> sa_tenant_id x = wt_tenant_id w \<and>
       (\<not> truthy (sa_app_id x) \<or> sa_app_id x = wt_app_id w)) (pc_shared_activations cfg)"

definition active_tenant_found :: "stored_config \<Rightarrow> string \<Rightarrow> bool" where
  "active_tenant_found cfg i \<longleftrightarrow> (case tenant_by_id cfg i of None \<Rightarrow> False | Some t \<Rightarrow> tn_active t)"

definition webhook_errors :: "stored_config \<Rightarrow> webhook_target \<Rightarrow> reference_error list" where
  "webhook_errors cfg w =
     complain (active_tenant_found cfg (wt_tenant_id w)) (Webhook_tenant_missing (wt_id w)) @
     complain (webhook_service_exists cfg w) (Webhook_service_missing (wt_id w)) @
     app_reference_errors cfg (wt_tenant_id w) (wt_app_id w) (Webhook_app_missing (wt_id w)) (Webhook_app_foreign (wt_id w))"

definition service_ids_for_tenant :: "stored_config \<Rightarrow> string \<Rightarrow> string option \<Rightarrow> string list" where
  "service_ids_for_tenant cfg tenant_id aid =
     (case tenant_by_id cfg tenant_id of
        None \<Rightarrow> []
      | Some t \<Rightarrow>
          map ts_id (filter ts_enabled (tn_services t)) @
          filter (\<lambda>i. i \<in> set (active_platform_ids cfg)) (tn_activated_platform_services t)) @
     map sa_id (filter (\<lambda>x. sa_enabled x \<and> sa_tenant_id x = tenant_id \<and>
         (\<not> truthy (sa_app_id x) \<or> \<not> truthy aid \<or> sa_app_id x = aid) \<and>
         sa_shared_service_id x \<in> set (active_shared_ids cfg)) (pc_shared_activations cfg))"

text \<open>The key of an active connection, a text of five lines.\<close>

definition connection_key :: "m2m_binding \<Rightarrow> string" where
  "connection_key b =
     js_join [CHR 0x0A] [mbd_tenant_id b, or_id (mbd_app_id b) [], mbd_source_service_id b, mbd_request_id b,
       (case mbd_mode b of Service_to_service \<Rightarrow> ''service'' | On_behalf_of_user \<Rightarrow> ''delegated'')]"

fun connection_duplicates :: "m2m_binding list \<Rightarrow> string list \<Rightarrow> reference_error list" where
  "connection_duplicates [] seen = []"
| "connection_duplicates (b # bs) seen =
     (if connection_key b \<in> set seen then [Binding_duplicated (mbd_request_id b)] else []) @
     connection_duplicates bs (connection_key b # seen)"

definition binding_errors :: "stored_config \<Rightarrow> m2m_binding \<Rightarrow> reference_error list" where
  "binding_errors cfg b =
     (if \<not> active_tenant_found cfg (mbd_tenant_id b) then [Binding_tenant_missing (mbd_id b)]
      else app_reference_errors cfg (mbd_tenant_id b) (mbd_app_id b) (Binding_app_missing (mbd_id b)) (Binding_app_foreign (mbd_id b)) @
           (let ids = service_ids_for_tenant cfg (mbd_tenant_id b) (mbd_app_id b)
            in complain (mbd_source_service_id b \<in> set ids) (Binding_source_unavailable (mbd_id b) (mbd_source_service_id b)) @
               complain (mbd_target_service_id b \<in> set ids) (Binding_target_unavailable (mbd_id b) (mbd_target_service_id b))))"

fun grant_duplicates :: "m2m_grant list \<Rightarrow> string list \<Rightarrow> reference_error list" where
  "grant_duplicates [] seen = []"
| "grant_duplicates (g # gs) seen =
     (if mg_binding_id g \<in> set seen then [Grant_duplicated (mg_binding_id g)] else []) @
     grant_duplicates gs (mg_binding_id g # seen)"

definition grant_errors :: "stored_config \<Rightarrow> m2m_grant \<Rightarrow> reference_error list" where
  "grant_errors cfg g =
     (case map_of (rev (map (\<lambda>b. (mbd_id b, b)) (st_bindings cfg))) (mg_binding_id g) of
        None \<Rightarrow> [Grant_binding_missing (mg_id g)]
      | Some b \<Rightarrow>
          complain (mbd_tenant_id b = mg_tenant_id g) (Grant_tenant_mismatch (mg_id g)) @
          complain (\<not> (truthy (mg_app_id g) \<and> truthy (mbd_app_id b) \<and> mg_app_id g \<noteq> mbd_app_id b)) (Grant_app_mismatch (mg_id g)))"

fun has_braced :: "string \<Rightarrow> bool" where
  "has_braced [] = False"
| "has_braced (c # cs) \<longleftrightarrow>
     (c = CHR ''{'' \<and> takeWhile (\<lambda>d. d \<noteq> CHR ''}'') cs \<noteq> [] \<and> CHR ''}'' \<in> set cs) \<or> has_braced cs"

definition param_name :: "string \<Rightarrow> bool" where
  "param_name s \<longleftrightarrow> s \<noteq> [] \<and> ident_start (hd s) \<and> list_all ident_char (tl s)"

definition route_errors :: "string list \<Rightarrow> string \<Rightarrow> route_mount \<Rightarrow> reference_error list" where
  "route_errors available aid r =
     concat (map (\<lambda>p. case p of None \<Rightarrow> [] | Some s \<Rightarrow> complain (\<not> has_braced s) (Route_syntax aid (rm_id r)))
       [Some (rm_path r), rm_service_path_variant r, rm_target_path r, rm_resolved_service_path r]) @
     concat (map (\<lambda>(name, v). complain (param_name name \<and> 1 \<le> length v \<and> length v \<le> 100) (Fixed_param_invalid (rm_id r) name))
       (rm_fixed_params r)) @
     complain (rm_service_id r \<in> set available) (Route_service_unavailable aid (rm_id r))"

fun menu_errors :: "string \<Rightarrow> string list \<Rightarrow> menu_item \<Rightarrow> reference_error list" where
  "menu_errors aid route_ids (Menu_item i t ti ic r h e sv a ro d children) =
     (if truthy r \<and> the r \<notin> set route_ids then [Menu_route_missing aid i] else []) @
     duplicates (''app '' @ aid @ '' menu'') (map mi_id children) [] @
     concat (map (menu_errors aid route_ids) children)"

definition auth_errors :: "string list \<Rightarrow> string \<Rightarrow> app_auth \<Rightarrow> reference_error list" where
  "auth_errors available aid auth =
     complain (aa_service_id auth = [] \<or> aa_service_id auth \<in> set available) (Auth_service_unavailable aid) @
     concat (map (\<lambda>(kind, target). case target of None \<Rightarrow> []
         | Some v \<Rightarrow> complain (vref_service_id v \<in> set available) (Redirect_unavailable aid kind))
       [(''afterLogin'', aa_after_login auth), (''afterLogout'', aa_after_logout auth)]) @
     concat (map (\<lambda>r. concat (map (\<lambda>g. complain (pg_service_id g \<in> set available) (Role_service_unavailable aid (role_id r)))
       (role_grants r))) (aa_roles auth))"

definition app_errors :: "stored_config \<Rightarrow> app \<Rightarrow> reference_error list" where
  "app_errors cfg a =
     (if tenant_by_id cfg (app_tenant_id a) = None then [App_tenant_missing (app_id a)]
      else (let available = get_available_service_instance_ids_for_app cfg a; aid = app_id a in
        complain (\<not> truthy (app_shell a) \<or> the (app_shell a) \<in> set available) (Shell_unavailable aid) @
        duplicates (''app '' @ aid @ '' route'') (map rm_id (app_routes a)) [] @
        concat (map (route_errors available aid) (app_routes a)) @
        duplicates (''app '' @ aid @ '' menu'') (map mi_id (app_menu a)) [] @
        concat (map (menu_errors aid (map rm_id (app_routes a))) (app_menu a)) @
        concat (map (\<lambda>s. complain (sl_service_id s \<in> set available) (Slot_service_unavailable aid (sl_slot_id s))) (app_slots a)) @
        concat (map (\<lambda>(loc, fs). concat (map (\<lambda>f. complain (fa_service_id f \<in> set available)
            (Fragment_service_unavailable aid (fa_fragment_id f))) fs)) (app_fragments a)) @
        (case app_auth_config a of None \<Rightarrow> [] | Some auth \<Rightarrow> auth_errors available aid auth)))"

definition config_reference_errors :: "stored_config \<Rightarrow> reference_error list" where
  "config_reference_errors cfg =
     duplicates ''tenant'' (map tn_id (pc_tenants cfg)) [] @
     duplicates ''app'' (map app_id (pc_apps cfg)) [] @
     duplicates ''platform service'' (map ps_id (pc_platform_services cfg)) [] @
     duplicates ''shared service'' (map ss_id (pc_shared_catalog cfg)) [] @
     management_errors cfg @
     concat (map (tenant_errors cfg) (pc_tenants cfg)) @
     duplicates ''shared service activation'' (map sa_id (pc_shared_activations cfg)) [] @
     concat (map (activation_errors cfg) (pc_shared_activations cfg)) @
     duplicates ''webhook target'' (map wt_id (st_webhook_targets cfg)) [] @
     concat (map (webhook_errors cfg) (st_webhook_targets cfg)) @
     duplicates ''m2m binding'' (map mbd_id (st_bindings cfg)) [] @
     connection_duplicates (filter mbd_enabled (st_bindings cfg)) [] @
     concat (map (binding_errors cfg) (st_bindings cfg)) @
     duplicates ''m2m grant'' (map mg_id (st_grants cfg)) [] @
     grant_duplicates (filter mg_enabled (st_grants cfg)) [] @
     concat (map (grant_errors cfg) (st_grants cfg)) @
     concat (map (app_errors cfg) (pc_apps cfg))"

definition validate_config_references :: "stored_config \<Rightarrow> bool" where
  "validate_config_references cfg \<longleftrightarrow> config_reference_errors cfg = []"

section \<open>Scoped records\<close>

lemma no_key_fields [simp]:
  "ts_api_key_hash (no_key s x) = []" "ts_id (no_key s x) = ts_id s" "ts_enabled (no_key s x) = ts_enabled s"
  "ts_service_id (no_key s x) = ts_service_id s" "ts_hostname (no_key s x) = ts_hostname s"
  "sv_shared_service_id (no_key s x) = x"
  by (simp_all add: no_key_def tenant_service.defs)

lemma scope_tenant_fields [simp]:
  "sx_id (scope_tenant cfg t) = tn_id t" "sx_active (scope_tenant cfg t) = tn_active t"
  by (simp_all add: scope_tenant_def)

lemma scope_tenant_keyless:
  assumes "s \<in> set (sx_services (scope_tenant cfg t))"
  shows "ts_api_key_hash s = []"
proof -
  have shared: "ts_api_key_hash z = []" if "scope_shared_service cfg x = Some z" for x z
    using that by (auto simp: scope_shared_service_def)
  have "\<And>z. ts_api_key_hash (scope_platform_service z) = []" by (simp add: scope_platform_service_def)
  with assms shared show ?thesis
    by (auto simp: scope_tenant_def List.map_filter_def)
qed

lemma scope_app_fields [simp]:
  "app_id (scope_app p cfg a ks sh au) = app_id a" "app_tenant_id (scope_app p cfg a ks sh au) = app_tenant_id a"
  "app_routes (scope_app p cfg a ks sh au) =
     (if sh \<or> au then app_routes a else filter (\<lambda>r. rm_service_id r \<in> set ks) (app_routes a))"
  "app_auth_config (scope_app p cfg a ks sh au) = preview_auth cfg a"
  "sp_management_origins (scope_app p cfg a ks sh au) \<noteq> None \<longleftrightarrow> sh \<and> management_app cfg a"
  by (simp_all add: scope_app_def app.defs)

lemma scoped_management_app_fields [simp]:
  "app_id (scoped_management_app a) = app_id a" "app_tenant_id (scoped_management_app a) = app_tenant_id a"
  "app_routes (scoped_management_app a) = []" "sp_management_origins (scoped_management_app a) = sp_management_origins a"
  by (simp_all add: scoped_management_app_def)

lemma scoped_base_fields [simp]:
  "sf_tenants (scoped_base p cfg) = []" "sf_apps (scoped_base p cfg) = []" "sf_config_apps (scoped_base p cfg) = None"
  "sf_config_management (scoped_base p cfg) = Some (scoped_config_management p cfg)"
  "sf_management_origins (scoped_base p cfg) = stored_management_origins cfg"
  by (simp_all add: scoped_base_def)

lemma with_m2m_policy_fields [simp]:
  "sf_tenants (with_m2m_policy cfg i s) = sf_tenants s" "sf_apps (with_m2m_policy cfg i s) = sf_apps s"
  "sf_config_apps (with_m2m_policy cfg i s) = sf_config_apps s"
  "sf_config_management (with_m2m_policy cfg i s) = sf_config_management s"
  "sf_m2m (with_m2m_policy cfg i s) = Some (m2m_policy_for cfg i)"
  by (simp_all add: with_m2m_policy_def)

lemma management_context_scope:
  assumes "sm_context (scoped_config_management p cfg) = Some (t, a)"
  shows "Some (sx_id t) = cm_admin_tenant_id (pc_management cfg) \<and> app_tenant_id a = sx_id t \<and>
    Some (app_id a) = cm_management_app_id (pc_management cfg) \<and> app_routes a = [] \<and>
    (\<forall>s\<in>set (sx_services t). ts_api_key_hash s = [])"
  using assms
  by (auto simp: scoped_config_management_def Let_def scope_tenant_keyless split: option.splits dest!: find_SomeD)

section \<open>Who is entitled to which tenant\<close>

definition uses_shell :: "stored_config \<Rightarrow> string \<Rightarrow> tenant \<Rightarrow> bool" where
  "uses_shell cfg i t \<longleftrightarrow>
     (\<exists>a\<in>set (pc_apps cfg). app_tenant_id a = tn_id t \<and>
        (app_shell a = Some i \<or>
         (\<exists>x\<in>set (pc_shared_activations cfg). sa_enabled x \<and> sa_tenant_id x = tn_id t \<and> sa_shared_service_id x = i \<and>
            app_shell a = Some (sa_id x))))"

definition activated_shared :: "stored_config \<Rightarrow> string \<Rightarrow> tenant \<Rightarrow> bool" where
  "activated_shared cfg i t \<longleftrightarrow>
     i \<in> set (active_shared_ids cfg) \<and>
     (\<exists>x\<in>set (pc_shared_activations cfg). sa_enabled x \<and> sa_tenant_id x = tn_id t \<and> sa_shared_service_id x = i)"

definition activated_platform :: "stored_config \<Rightarrow> string \<Rightarrow> tenant \<Rightarrow> bool" where
  "activated_platform cfg i t \<longleftrightarrow>
     (\<exists>s\<in>set (pc_platform_services cfg). ps_enabled s \<and> (ps_id s = i \<or> ps_service_id s = Some i) \<and>
        (ps_id s \<in> set (tn_activated_platform_services t) \<or>
         (\<exists>p. ps_service_id s = Some p \<and> p \<in> set (tn_activated_platform_services t))))"

definition entitled :: "stored_config \<Rightarrow> key_owner \<Rightarrow> tenant \<Rightarrow> bool" where
  "entitled cfg k t \<longleftrightarrow>
     t \<in> set (pc_tenants cfg) \<and> tn_active t \<and>
     (case ko_scope k of
        Tenant_key \<Rightarrow> ko_tenant_id k = Some (tn_id t)
      | Platform_key \<Rightarrow>
          uses_shell cfg (ko_service_id k) t \<or> activated_shared cfg (ko_service_id k) t \<or>
          activated_platform cfg (ko_service_id k) t)"

lemma contribution_apps:
  assumes "platform_contribution p cfg i sh au t = Some (st, as)" and "a \<in> set as"
  shows "app_tenant_id a = sx_id st"
  using assms by (auto simp: platform_contribution_def Let_def split: if_splits option.splits)

lemma contribution_tenant:
  assumes "platform_contribution p cfg i sh au t = Some (st, as)"
  shows "st = scope_tenant cfg t \<and> (uses_shell cfg i t \<or> activated_shared cfg i t \<or> activated_platform cfg i t)"
proof (cases sh)
  case True
  let ?P = "\<lambda>a. app_shell a = Some i \<or> (truthy (app_shell a) \<and>
      shell_is (map sa_id (filter (\<lambda>x. sa_enabled x \<and> sa_tenant_id x = tn_id t \<and> sa_shared_service_id x = i) (pc_shared_activations cfg))) a)"
  from assms True have st: "st = scope_tenant cfg t"
    and ne: "filter ?P (filter (\<lambda>a. app_tenant_id a = tn_id t) (pc_apps cfg)) \<noteq> []"
    by (auto simp: platform_contribution_def Let_def split: if_splits)
  from ne obtain a where "a \<in> set (pc_apps cfg)" "app_tenant_id a = tn_id t" "?P a"
    by (auto simp: filter_empty_conv)
  then have "uses_shell cfg i t"
    by (auto simp: uses_shell_def shell_is_def split: option.splits)
  with st show ?thesis by blast
next
  case False
  show ?thesis
  proof (cases "List.find (\<lambda>s. ss_enabled s \<and> ss_id s = i) (pc_shared_catalog cfg)")
    case (Some s)
    have s: "s \<in> set (pc_shared_catalog cfg)" "ss_enabled s" "ss_id s = i" using find_SomeD [OF Some] by auto
    let ?acts = "filter (\<lambda>x. sa_enabled x \<and> sa_tenant_id x = tn_id t \<and> sa_shared_service_id x = i) (pc_shared_activations cfg)"
    from assms False Some s(3) have st: "st = scope_tenant cfg t" "?acts \<noteq> []"
      by (auto simp: platform_contribution_def Let_def split: if_splits)
    then have "activated_shared cfg i t"
      using s by (auto simp: activated_shared_def active_shared_ids_def filter_empty_conv)
    with st show ?thesis by blast
  next
    case None
    with assms False obtain s where f: "List.find (\<lambda>s. ps_enabled s \<and> (ps_id s = i \<or> ps_service_id s = Some i)) (pc_platform_services cfg) = Some s"
      and "st = scope_tenant cfg t" "ps_id s \<in> set (tn_activated_platform_services t) \<or>
        (truthy (ps_service_id s) \<and> the (ps_service_id s) \<in> set (tn_activated_platform_services t))"
      by (auto simp: platform_contribution_def Let_def split: if_splits option.splits)
    moreover have "s \<in> set (pc_platform_services cfg)" "ps_enabled s" "ps_id s = i \<or> ps_service_id s = Some i"
      using find_SomeD [OF f] by auto
    ultimately show ?thesis by (cases "ps_service_id s") (auto simp: activated_platform_def)
  qed
qed

lemma validate_api_keyD:
  assumes "validate_api_key h cfg key = Some k"
  shows "(ko_scope k = Platform_key \<and> ko_tenant_id k = None \<and>
      ((\<exists>s\<in>set (pc_platform_services cfg). ps_enabled s \<and> ps_id s = ko_service_id k \<and> ps_api_key_hash s = h key) \<or>
       (\<exists>s\<in>set (pc_shared_catalog cfg). ss_enabled s \<and> ss_id s = ko_service_id k \<and> ss_api_key_hash s = h key))) \<or>
    (ko_scope k = Tenant_key \<and>
      (\<exists>t\<in>set (pc_tenants cfg). tn_active t \<and> ko_tenant_id k = Some (tn_id t) \<and>
         (\<exists>s\<in>set (tn_services t). ts_enabled s \<and> ts_id s = ko_service_id k \<and> ts_api_key_hash s = h key)))"
  using assms
  by (auto simp: validate_api_key_def Let_def tenant_services_def split: option.splits dest!: find_SomeD)

lemma tenant_scope_cases:
  "scope_for_tenant_service p cfg i tid sh au = scoped_base p cfg \<or>
   (\<exists>t ks. List.find (\<lambda>t. tn_active t \<and> tn_id t = tid) (pc_tenants cfg) = Some t \<and>
      scope_for_tenant_service p cfg i tid sh au = (scoped_base p cfg)
        \<lparr>sf_tenants := [scope_tenant cfg t], sf_config_apps := Some (config_apps_for_tenant cfg tid),
         sf_apps := filter (\<lambda>a. sh \<or> has_content a) (map (\<lambda>a. scope_app p cfg a ks sh au)
            (filter (\<lambda>a. app_tenant_id a = tid \<and> (sh \<longrightarrow> app_shell a = Some i)) (pc_apps cfg)))\<rparr>)"
proof (cases "List.find (\<lambda>t. tn_active t \<and> tn_id t = tid) (pc_tenants cfg)")
  case None
  then show ?thesis by (simp add: scope_for_tenant_service_def)
next
  case (Some t)
  then show ?thesis by (auto simp: scope_for_tenant_service_def Let_def)
qed

lemma tenant_scope_contents:
  assumes "sc = scope_for_tenant_service p cfg i tid sh au"
  shows "(\<forall>st\<in>set (sf_tenants sc). \<exists>t\<in>set (pc_tenants cfg). tn_active t \<and> tn_id t = tid \<and> st = scope_tenant cfg t) \<and>
    (\<forall>a\<in>set (sf_apps sc). app_tenant_id a = tid \<and> sf_tenants sc \<noteq> [])"
  using tenant_scope_cases [of p cfg i tid sh au] assms
  by (elim disjE exE conjE) (auto dest!: find_SomeD)

lemma platform_scope_contents:
  assumes "sc = scope_for_platform_service p cfg i sh au"
  shows "(\<forall>st\<in>set (sf_tenants sc). \<exists>t\<in>set (pc_tenants cfg). tn_active t \<and> st = scope_tenant cfg t \<and>
      (uses_shell cfg i t \<or> activated_shared cfg i t \<or> activated_platform cfg i t)) \<and>
    (\<forall>a\<in>set (sf_apps sc). \<exists>st\<in>set (sf_tenants sc). app_tenant_id a = sx_id st)"
proof -
  let ?parts = "List.map_filter (platform_contribution p cfg i sh au) (filter tn_active (pc_tenants cfg))"
  have parts: "\<exists>t\<in>set (pc_tenants cfg). tn_active t \<and> platform_contribution p cfg i sh au t = Some (st, as)"
    if "(st, as) \<in> set ?parts" for st as
    using that by (auto simp: List.map_filter_def)
  have f: "sf_tenants sc = map fst ?parts" "sf_apps sc = concat (map snd ?parts)"
    using assms by (simp_all add: scope_for_platform_service_def Let_def)
  show ?thesis
  proof (intro conjI ballI)
    fix st assume "st \<in> set (sf_tenants sc)"
    then obtain as where "(st, as) \<in> set ?parts" by (auto simp: f)
    from parts [OF this] contribution_tenant show "\<exists>t\<in>set (pc_tenants cfg). tn_active t \<and> st = scope_tenant cfg t \<and>
        (uses_shell cfg i t \<or> activated_shared cfg i t \<or> activated_platform cfg i t)" by blast
  next
    fix a assume "a \<in> set (sf_apps sc)"
    then obtain st as where "(st, as) \<in> set ?parts" "a \<in> set as" by (auto simp: f)
    moreover from this parts have "app_tenant_id a = sx_id st" by (blast dest: contribution_apps)
    ultimately show "\<exists>st\<in>set (sf_tenants sc). app_tenant_id a = sx_id st" by (force simp: f)
  qed
qed

lemma scoped_tenants_entitled:
  assumes k: "validate_api_key h cfg key = Some k" and "\<forall>t\<in>set (pc_tenants cfg). tn_id t \<noteq> []"
    and sc: "sc = get_scoped_config p cfg (ko_service_id k) (ko_scope k) (ko_tenant_id k)"
  shows "(\<forall>st\<in>set (sf_tenants sc). \<exists>t. entitled cfg k t \<and> st = scope_tenant cfg t) \<and>
    (\<forall>a\<in>set (sf_apps sc). \<exists>st\<in>set (sf_tenants sc). app_tenant_id a = sx_id st)"
proof (cases "ko_scope k")
  case Tenant_key
  with validate_api_keyD [OF k] assms(2) obtain t where t: "t \<in> set (pc_tenants cfg)" "tn_active t"
      "ko_tenant_id k = Some (tn_id t)" "truthy (ko_tenant_id k)" by auto
  with Tenant_key have f: "sf_tenants sc = sf_tenants (scope_for_tenant_service p cfg (ko_service_id k) (tn_id t)
        (is_shell_caller cfg (ko_service_id k)) (is_auth_caller cfg (ko_service_id k)))"
      "sf_apps sc = sf_apps (scope_for_tenant_service p cfg (ko_service_id k) (tn_id t)
        (is_shell_caller cfg (ko_service_id k)) (is_auth_caller cfg (ko_service_id k)))"
    by (simp_all add: sc get_scoped_config_def Let_def)
  show ?thesis
    using tenant_scope_contents [OF refl, of p cfg "ko_service_id k" "tn_id t" "is_shell_caller cfg (ko_service_id k)"
        "is_auth_caller cfg (ko_service_id k)"] Tenant_key t(3)
    unfolding f entitled_def by (fastforce simp: neq_Nil_conv)
next
  case Platform_key
  then have f: "sf_tenants sc = sf_tenants (scope_for_platform_service p cfg (ko_service_id k)
        (is_shell_caller cfg (ko_service_id k)) (is_auth_caller cfg (ko_service_id k)))"
      "sf_apps sc = sf_apps (scope_for_platform_service p cfg (ko_service_id k)
        (is_shell_caller cfg (ko_service_id k)) (is_auth_caller cfg (ko_service_id k)))"
    by (simp_all add: sc get_scoped_config_def Let_def)
  show ?thesis
    using platform_scope_contents [OF refl, of p cfg "ko_service_id k" "is_shell_caller cfg (ko_service_id k)"
        "is_auth_caller cfg (ko_service_id k)"] Platform_key
    unfolding f entitled_def by auto
qed

lemma scoped_management:
  "sf_config_management (get_scoped_config p cfg i scope tid) = Some (scoped_config_management p cfg)"
  by (auto simp: get_scoped_config_def Let_def scope_for_tenant_service_def scope_for_platform_service_def split: option.splits)

text \<open>
  C16: a service receives no one else's configuration: whoever holds an API key is sent, with the
  tenants he is entitled to (his own, or for a platform service those that activated it or use
  it as their shell), only the apps of these tenants and, of the management console, its
  tenant and its app without routes; no service entry among all this carries a key hash; and
  every call binding he learns about has one of his own instances as its source or target.
\<close>
theorem scoped_config_entitled:
  assumes k: "validate_api_key h cfg key = Some k" and n: "\<forall>t\<in>set (pc_tenants cfg). tn_id t \<noteq> []"
    and s: "sync_config p h cfg key = Some sc"
  shows "(\<forall>st\<in>set (sf_tenants sc). (\<exists>t. entitled cfg k t \<and> st = scope_tenant cfg t) \<and>
      (\<forall>x\<in>set (sx_services st). ts_api_key_hash x = [])) \<and>
    (\<forall>a\<in>set (sf_apps sc). \<exists>st\<in>set (sf_tenants sc). app_tenant_id a = sx_id st) \<and>
    (\<forall>m st a. sf_config_management sc = Some m \<and> sm_context m = Some (st, a) \<longrightarrow>
       Some (sx_id st) = cm_admin_tenant_id (pc_management cfg) \<and> app_tenant_id a = sx_id st \<and> app_routes a = [] \<and>
       (\<forall>x\<in>set (sx_services st). ts_api_key_hash x = [])) \<and>
    (\<exists>pol. sf_m2m sc = Some pol \<and> (\<forall>b\<in>set (po_bindings pol). b \<in> set (st_bindings cfg) \<and> mbd_enabled b \<and>
       (\<exists>i\<in>set (local_service_ids cfg (ko_service_id k)). mbd_source_service_id b = i \<or> mbd_target_service_id b = i)))"
proof -
  have sc: "sc = get_scoped_config p cfg (ko_service_id k) (ko_scope k) (ko_tenant_id k)"
    using s k by (simp add: sync_config_def)
  note t = scoped_tenants_entitled [OF k n sc]
  have m: "sf_config_management sc = Some (scoped_config_management p cfg)" by (simp add: sc scoped_management)
  have pol: "sf_m2m sc = Some (m2m_policy_for cfg (ko_service_id k))" by (simp add: sc get_scoped_config_def Let_def)
  have "\<forall>b\<in>set (po_bindings (m2m_policy_for cfg (ko_service_id k))). b \<in> set (st_bindings cfg) \<and> mbd_enabled b \<and>
       (\<exists>i\<in>set (local_service_ids cfg (ko_service_id k)). mbd_source_service_id b = i \<or> mbd_target_service_id b = i)"
    by (auto simp: m2m_policy_for_def Let_def usable_binding_def)
  with t m pol scope_tenant_keyless management_context_scope show ?thesis by fastforce
qed

section \<open>What valid references give\<close>

lemma duplicates_iff: "duplicates l vs seen = [] \<longleftrightarrow> distinct vs \<and> set vs \<inter> set seen = {}"
  by (induction vs arbitrary: seen) auto

lemma grant_duplicates_iff:
  "grant_duplicates gs seen = [] \<longleftrightarrow> distinct (map mg_binding_id gs) \<and> mg_binding_id ` set gs \<inter> set seen = {}"
  by (induction gs arbitrary: seen) auto

lemma complain_iff [simp]: "complain ok e = [] \<longleftrightarrow> ok"
  by (simp add: complain_def)

lemma valid_references:
  assumes "validate_config_references cfg"
  shows "distinct (map mbd_id (st_bindings cfg))" "distinct (map ss_id (pc_shared_catalog cfg))"
    "distinct (map mg_binding_id (filter mg_enabled (st_grants cfg)))" "distinct (map sa_id (pc_shared_activations cfg))"
    "distinct (map tn_id (pc_tenants cfg))" "distinct (map app_id (pc_apps cfg))"
  using assms
  by (simp_all add: validate_config_references_def config_reference_errors_def duplicates_iff grant_duplicates_iff)

lemma distinct_map_eq: "distinct (map f xs) \<Longrightarrow> x \<in> set xs \<Longrightarrow> y \<in> set xs \<Longrightarrow> f x = f y \<Longrightarrow> x = y"
  by (simp add: distinct_map inj_on_def)

text \<open>No two instances of the platform share an id, of whatever kind they are.\<close>

definition unique_instances :: "stored_config \<Rightarrow> bool" where
  "unique_instances cfg \<longleftrightarrow>
     distinct (map ps_id (pc_platform_services cfg) @ map ss_id (pc_shared_catalog cfg) @
       map (\<lambda>(t, s). ts_id s) (tenant_services cfg) @ map sa_id (pc_shared_activations cfg))"

lemma find_unique:
  assumes "distinct (map f xs)" "x \<in> set xs" "P x" "\<And>y. P y \<Longrightarrow> f y = f x"
  shows "List.find P xs = Some x"
proof (cases "List.find P xs")
  case None
  with assms(2,3) show ?thesis by (simp add: find_None_iff)
next
  case (Some y)
  with assms find_SomeD [OF Some] show ?thesis by (auto dest: distinct_map_eq)
qed

lemma registered_none:
  assumes "unique_instances cfg" "x \<in> set (pc_shared_activations cfg)"
  shows "registered_service cfg (sa_id x) = None"
proof -
  have "List.find (\<lambda>s. ps_id s = sa_id x) (pc_platform_services cfg) = None"
    "List.find (\<lambda>s. ss_id s = sa_id x) (pc_shared_catalog cfg) = None"
    "List.find (\<lambda>(t, s). ts_id s = sa_id x) (tenant_services cfg) = None"
    using assms by (auto simp: unique_instances_def find_None_iff image_iff)
  then show ?thesis by (simp add: registered_service_def)
qed

lemma resolve_m2m_id: "resolve_m2m_service cfg i = Some s \<Longrightarrow> m2_id s = i"
  by (auto simp: resolve_m2m_service_def Let_def split: option.splits if_splits)

text \<open>Whatever instance id a service acts under, the platform publishes its registered key.\<close>

lemma local_instance_key:
  assumes v: "validate_config_references cfg" and u: "unique_instances cfg"
    and l: "j \<in> set (local_service_ids cfg i)" and r: "registered_service cfg i = Some reg"
    and s: "resolve_m2m_service cfg j = Some s"
  shows "m2_public_key_pem s = only_truthy (reg_public_key_pem reg) \<and> m2_key_id s = only_truthy (reg_key_id reg)"
proof (cases "j = i")
  case True
  show ?thesis
  proof (cases "reg_enabled reg")
    case True
    with \<open>j = i\<close> r s show ?thesis by (auto simp: resolve_m2m_service_def Let_def)
  next
    case False
    have "List.find (\<lambda>x. sa_enabled x \<and> sa_id x = i) (pc_shared_activations cfg) = None"
      using registered_none [OF u] r by (fastforce simp: find_None_iff)
    with False \<open>j = i\<close> r s show ?thesis by (auto simp: resolve_m2m_service_def Let_def)
  qed
next
  case False
  with l obtain sh x where sh: "List.find (\<lambda>s. ss_id s = i) (pc_shared_catalog cfg) = Some sh"
      and x: "x \<in> set (pc_shared_activations cfg)" "sa_enabled x" "sa_shared_service_id x = ss_id sh" "sa_id x = j"
    by (cases "List.find (\<lambda>s. ss_id s = i) (pc_shared_catalog cfg)") (auto simp: local_service_ids_def)
  have si: "sh \<in> set (pc_shared_catalog cfg)" "ss_id sh = i" using find_SomeD [OF sh] by auto
  have np: "List.find (\<lambda>s. ps_id s = i) (pc_platform_services cfg) = None"
    using u si by (force simp: unique_instances_def find_None_iff)
  have reg: "reg = Shared_reg sh" using r sh np by (simp add: registered_service_def)
  have fx: "List.find (\<lambda>x. sa_enabled x \<and> sa_id x = j) (pc_shared_activations cfg) = Some x"
    by (rule find_unique [OF valid_references(4) [OF v] x(1)]) (use x in auto)
  obtain sh' where sh': "List.find (\<lambda>s. ss_enabled s \<and> ss_id s = sa_shared_service_id x) (pc_shared_catalog cfg) = Some sh'"
    using s fx registered_none [OF u x(1)] x(4) by (auto simp: resolve_m2m_service_def Let_def)
  have "sh' = sh" using find_SomeD [OF sh'] si x(3) valid_references(2) [OF v] by (auto dest: distinct_map_eq)
  with s fx sh' registered_none [OF u x(1)] x(4) reg show ?thesis by (auto simp: resolve_m2m_service_def Let_def)
qed

lemma policy_binding:
  "b \<in> set (po_bindings (m2m_policy_for cfg i)) \<longleftrightarrow> b \<in> set (st_bindings cfg) \<and> usable_binding cfg b \<and>
     (mbd_source_service_id b \<in> set (local_service_ids cfg i) \<or> mbd_target_service_id b \<in> set (local_service_ids cfg i))"
  by (auto simp: m2m_policy_for_def Let_def)

lemma policy_grant:
  "g \<in> set (po_grants (m2m_policy_for cfg i)) \<longleftrightarrow> g \<in> set (st_grants cfg) \<and> mg_enabled g \<and>
     (\<exists>b\<in>set (po_bindings (m2m_policy_for cfg i)). mg_binding_id g = mbd_id b)"
  by (auto simp: m2m_policy_for_def Let_def)

lemma policy_local [simp]: "po_local_service_ids (m2m_policy_for cfg i) = local_service_ids cfg i"
  by (simp add: m2m_policy_for_def Let_def)

lemma policy_services:
  "set (po_services (m2m_policy_for cfg i)) =
     {s. \<exists>b\<in>set (po_bindings (m2m_policy_for cfg i)). resolve_m2m_service cfg (mbd_source_service_id b) = Some s \<or>
        resolve_m2m_service cfg (mbd_target_service_id b) = Some s}" (is "?S = ?T")
proof -
  let ?B = "po_bindings (m2m_policy_for cfg i)"
  have "po_services (m2m_policy_for cfg i) = List.map_filter (resolve_m2m_service cfg)
      (uniq (concat (map (\<lambda>b. [mbd_source_service_id b, mbd_target_service_id b]) ?B)))"
    by (simp add: m2m_policy_for_def Let_def)
  moreover have "set (List.map_filter f xs) = {y. \<exists>x\<in>set xs. f x = Some y}" for f :: "string \<Rightarrow> m2m_service option" and xs
    by (induction xs) (auto simp: List.map_filter_def)
  ultimately show ?thesis by auto
qed

lemma policy_service:
  "b \<in> set (po_bindings (m2m_policy_for cfg i)) \<Longrightarrow> resolve_m2m_service cfg (mbd_source_service_id b) = Some s \<Longrightarrow>
   s \<in> set (po_services (m2m_policy_for cfg i))"
  unfolding policy_services by blast

lemma policy_services_resolve: "s \<in> set (po_services (m2m_policy_for cfg i)) \<Longrightarrow> resolve_m2m_service cfg (m2_id s) = Some s"
  unfolding policy_services using resolve_m2m_id by fastforce

lemma policy_services_unique:
  "s \<in> set (po_services (m2m_policy_for cfg i)) \<Longrightarrow> s' \<in> set (po_services (m2m_policy_for cfg i)) \<Longrightarrow> m2_id s = m2_id s' \<Longrightarrow> s = s'"
  by (metis policy_services_resolve option.inject)

lemma published_key_trusted:
  assumes v: "validate_config_references cfg" and u: "unique_instances cfg"
    and b: "b \<in> set (po_bindings (m2m_policy_for cfg j))"
    and src: "mbd_source_service_id b \<in> set (local_service_ids cfg i)"
    and r: "registered_service cfg i = Some reg" "only_truthy (reg_public_key_pem reg) = Some pem" "only_truthy (reg_key_id reg) = Some kid"
  shows "trusted_key (m2m_policy_for cfg j) (mbd_source_service_id b) kid = Some pem"
proof -
  obtain s where s: "resolve_m2m_service cfg (mbd_source_service_id b) = Some s"
    using b by (auto simp: policy_binding usable_binding_def)
  have k: "m2_id s = mbd_source_service_id b" "m2_public_key_pem s = Some pem" "m2_key_id s = Some kid"
    using resolve_m2m_id [OF s] local_instance_key [OF v u src r(1) s] r(2,3) by simp_all
  have m: "s \<in> set (po_services (m2m_policy_for cfg j))" by (rule policy_service [OF b s])
  have t: "truthy (Some pem)" using r(2) by (auto simp: only_truthy_def split: if_splits)
  let ?P = "\<lambda>x. m2_id x = mbd_source_service_id b \<and> m2_key_id x = Some kid \<and> m2_public_key_pem x \<noteq> None"
  have "List.find ?P (po_services (m2m_policy_for cfg j)) = Some s"
  proof (cases "List.find ?P (po_services (m2m_policy_for cfg j))")
    case None
    with m k show ?thesis by (auto simp: find_None_iff)
  next
    case (Some x)
    with find_SomeD [OF Some] m k show ?thesis by (auto intro: policy_services_unique)
  qed
  with k t show ?thesis by (simp add: trusted_key_def)
qed

lemma scoped_identity:
  "sf_service_identity (get_scoped_config p cfg i scope tid) =
     map_option (\<lambda>r. \<lparr>si_id = i, si_public_key_pem = only_truthy (reg_public_key_pem r), si_key_id = only_truthy (reg_key_id r)\<rparr>)
       (registered_service cfg i)"
proof -
  have "sf_service_identity (scope_for_tenant_service p cfg i t sh au) = None" for t sh au
    by (auto simp: scope_for_tenant_service_def scoped_base_def Let_def split: option.splits)
  moreover have "sf_service_identity (scope_for_platform_service p cfg i sh au) = None" for sh au
    by (simp add: scope_for_platform_service_def scoped_base_def Let_def)
  ultimately show ?thesis
    by (simp add: get_scoped_config_def Let_def with_m2m_policy_def split: option.splits)
qed

lemma m2m_client_resolved:
  "m2m_client svc req tid aid now jti = Inr call \<Longrightarrow>
     \<exists>b target. resolve_m2m_client svc req tid aid Service_to_service = Inr (b, target)"
  by (auto simp: m2m_client_def guard_simps)

lemma m2m_client_headers:
  "m2m_client svc req tid aid now jti = Inr call \<Longrightarrow> resolve_m2m_client svc req tid aid Service_to_service = Inr (b, target) \<Longrightarrow>
     js_get (mk_headers call) ''X-BP-Service-Id'' = Some (mbd_source_service_id b) \<and> stc_iss (mk_token call) = mbd_source_service_id b \<and>
     stc_aud (mk_token call) = mbd_target_service_id b \<and> stc_binding_id (mk_token call) = mbd_id b \<and>
     stc_tenant_id (mk_token call) = tid \<and> stc_app_id (mk_token call) = aid"
  by (auto simp: m2m_client_def service_claims_def guard_simps split: sum.splits)

lemma resolve_m2m_clientD:
  assumes "resolve_m2m_client svc req tid aid mode = Inr (b, target)"
  obtains pol g where "service_policy svc = Some pol" "identity_ready svc" "b \<in> set (po_bindings pol)"
    "mbd_source_service_id b \<in> set (po_local_service_ids pol)" "g \<in> set (po_grants pol)" "mg_enabled g"
    "mg_binding_id g = mbd_id b" "mg_tenant_id g = tid" "same_app (mg_app_id g) aid"
    "target \<in> set (po_services pol)" "m2_id target = mbd_target_service_id b"
  using assms
  by (auto simp: resolve_m2m_client_def split: option.splits if_splits dest!: find_SomeD)

text \<open>
  C15: the two halves of a call between services fit together. When a saved configuration has
  valid references and no instance id is used twice, a service that holds its registered key
  and whose scoped configuration lets \<open>m2mClient\<close> prepare a call, is let in by the service
  that the call goes to, working from its own scoped configuration: whenever the token
  carries the prepared claims under the caller's signature, \<open>authorizeServiceToken\<close> returns
  exactly these claims, for the bound view and every method and permission that the grants of
  the binding allow.
\<close>
theorem federated_call_accepted:
  assumes v: "validate_config_references cfg" and u: "unique_instances cfg"
    and caller: "sn_scoped caller = Some (get_scoped_config p cfg i scope owner)" and key: "sn_key caller = Some (pem, kid)"
    and call: "m2m_client caller request_id tenant_id aid now jti = Inr call"
    and target: "ao_policy opts = m2m_policy_for cfg j" "stc_aud (mk_token call) \<in> set (local_service_ids cfg j)"
    and opts: "js_get (mk_headers call) ''X-BP-Service-Id'' = Some (ao_source_service_id opts)" "ao_tenant_id opts = tenant_id"
      "ao_app_id opts = aid" "ao_mode opts = Service_to_service"
    and view: "\<forall>b\<in>set (st_bindings cfg). mbd_id b = stc_binding_id (mk_token call) \<longrightarrow> ao_view_id opts = mbd_target_view_id b"
    and grant: "\<forall>g\<in>set (st_grants cfg). mg_enabled g \<and> mg_binding_id g = stc_binding_id (mk_token call) \<longrightarrow>
      ao_method opts \<in> set (mg_methods g) \<and> set (ao_required_permissions opts) \<subseteq> set (mg_permissions g)"
    and token: "service_token_part lib 0 ''header'' token = Inr hd'" "gate_service_header hd' = Inr kid"
      "service_token_part lib 1 ''payload'' token = Inr pl" "untrusted_issuer pl = stc_iss (mk_token call)"
      "lib_verify lib token pem
        \<lparr>ck_issuer = None, ck_audience = None, ck_tolerance = (case ao_tolerance opts of None \<Rightarrow> 5 | Some t \<Rightarrow> t)\<rparr> = Inr verified"
      "schema verified = Some (mk_token call)"
  shows "\<exists>perms. authorize_service_token lib schema opts token = Inr (mk_token call, perms) \<and>
    set (ao_required_permissions opts) \<subseteq> set perms"
proof -
  obtain b tgt where res: "resolve_m2m_client caller request_id tenant_id aid Service_to_service = Inr (b, tgt)"
    using m2m_client_resolved [OF call] by blast
  note h = m2m_client_headers [OF call res]
  obtain pol g where pol: "service_policy caller = Some pol" "identity_ready caller" "b \<in> set (po_bindings pol)"
    "mbd_source_service_id b \<in> set (po_local_service_ids pol)" "g \<in> set (po_grants pol)" "mg_enabled g"
    "mg_binding_id g = mbd_id b" "mg_tenant_id g = tenant_id" "same_app (mg_app_id g) aid"
    by (rule resolve_m2m_clientD [OF res])
  have pe: "pol = m2m_policy_for cfg i"
    using pol(1) caller by (simp add: service_policy_def get_scoped_config_def Let_def)
  obtain reg where reg: "registered_service cfg i = Some reg" "only_truthy (reg_public_key_pem reg) = Some pem"
      "only_truthy (reg_key_id reg) = Some kid"
    using pol(2) caller key by (auto simp: identity_ready_def scoped_identity split: option.splits)
  have b: "b \<in> set (st_bindings cfg)" "b \<in> set (po_bindings (m2m_policy_for cfg j))"
    using pol(3) h target(2) by (auto simp: pe policy_binding)
  have g: "g \<in> set (st_grants cfg)" "g \<in> set (po_grants (m2m_policy_for cfg j))"
    using pol(5,6,7) b(2) by (auto simp: pe policy_grant)
  have uniq: "\<forall>b'\<in>set (po_bindings (ao_policy opts)). mbd_id b' = mbd_id b \<longrightarrow> b' = b"
    using valid_references(1) [OF v] b(1) unfolding target(1) by (auto simp: policy_binding dest: distinct_map_eq)
  have gm: "grant_matches opts (mk_token call) b g"
    using pol(6-9) h grant g(1) by (auto simp: grant_matches_def)
  have gp: "\<forall>g\<in>set (po_grants (ao_policy opts)). grant_matches opts (mk_token call) b g \<longrightarrow>
      set (ao_required_permissions opts) \<subseteq> set (mg_permissions g)"
    using grant h unfolding target(1) by (auto simp: policy_grant grant_matches_def)
  have tk: "trusted_key (ao_policy opts) (mbd_source_service_id b) kid = Some pem"
    unfolding target(1) by (rule published_key_trusted [OF v u b(2) _ reg]) (use pol(4) pe in simp)
  have "\<exists>perms. authorize_service_token lib schema opts token = Inr (mk_token call, perms) \<and>
      set (ao_required_permissions opts) \<subseteq> set perms \<and> mk_base_url call = service_base_url (m2_hostname tgt)"
    by (rule m2m_call_accepted [OF call res key opts(1-3) _ opts(4)])
       (use h b g uniq gm gp tk token view target in \<open>auto simp del: One_nat_def\<close>)
  then show ?thesis by blast
qed

section \<open>Saved configurations resolve\<close>

lemma available_cases:
  assumes "List.find (\<lambda>x. tn_id x = app_tenant_id a) (pc_tenants cfg) = Some t"
    and "i \<in> set (get_available_service_instance_ids_for_app cfg a)"
  obtains (own) s where "s \<in> set (tn_services t)" "ts_enabled s" "ts_id s = i"
    | (platform) s where "i \<in> set (tn_activated_platform_services t)" "s \<in> set (pc_platform_services cfg)" "ps_enabled s" "ps_id s = i"
    | (shared) x s where "x \<in> set (pc_shared_activations cfg)" "sa_enabled x" "sa_tenant_id x = app_tenant_id a"
        "same_app (sa_app_id x) (app_id a)" "sa_id x = i" "s \<in> set (pc_shared_catalog cfg)" "ss_enabled s"
        "ss_id s = sa_shared_service_id x"
proof -
  have "i \<in> ts_id ` set (filter ts_enabled (tn_services t)) \<or>
      i \<in> set (filter (\<lambda>i. i \<in> set (active_platform_ids cfg)) (tn_activated_platform_services t)) \<or>
      i \<in> sa_id ` set (filter (\<lambda>x. sa_enabled x \<and> sa_tenant_id x = app_tenant_id a \<and> same_app (sa_app_id x) (app_id a)
        \<and> sa_shared_service_id x \<in> set (active_shared_ids cfg)) (pc_shared_activations cfg))"
    using assms by (auto simp: get_available_service_instance_ids_for_app_def)
  then show thesis
  proof (elim disjE)
    assume "i \<in> ts_id ` set (filter ts_enabled (tn_services t))"
    then show thesis using own by auto
  next
    assume "i \<in> set (filter (\<lambda>i. i \<in> set (active_platform_ids cfg)) (tn_activated_platform_services t))"
    then show thesis using platform by (auto simp: active_platform_ids_def)
  next
    assume "i \<in> sa_id ` set (filter (\<lambda>x. sa_enabled x \<and> sa_tenant_id x = app_tenant_id a \<and> same_app (sa_app_id x) (app_id a)
        \<and> sa_shared_service_id x \<in> set (active_shared_ids cfg)) (pc_shared_activations cfg))"
    then obtain x where x: "x \<in> set (pc_shared_activations cfg)" "sa_enabled x" "sa_tenant_id x = app_tenant_id a"
      "same_app (sa_app_id x) (app_id a)" "sa_id x = i" "sa_shared_service_id x \<in> set (active_shared_ids cfg)" by auto
    from x(6) obtain s where "s \<in> set (pc_shared_catalog cfg)" "ss_enabled s" "ss_id s = sa_shared_service_id x"
      by (auto simp: active_shared_ids_def)
    with x(1-5) show thesis by (rule shared)
  qed
qed

lemma registered_not_activation:
  assumes "unique_instances cfg" "registered_service cfg i \<noteq> None"
  shows "List.find (\<lambda>x. sa_id x = i) (pc_shared_activations cfg) = None"
proof (cases "List.find (\<lambda>x. sa_id x = i) (pc_shared_activations cfg)")
  case (Some x)
  from find_SomeD [OF Some] have "registered_service cfg i = None" using registered_none [OF assms(1)] by auto
  with assms(2) show ?thesis by simp
qed

lemma registered_tenant:
  assumes "(t, s) \<in> set (tenant_services cfg)"
  shows "registered_service cfg (ts_id s) \<noteq> None"
proof -
  have "List.find (\<lambda>(t, x). ts_id x = ts_id s) (tenant_services cfg) \<noteq> None"
    using assms by (auto simp: find_None_iff)
  then show ?thesis by (auto simp: registered_service_def split: option.splits)
qed

lemma registered_platform: "s \<in> set (pc_platform_services cfg) \<Longrightarrow> registered_service cfg (ps_id s) \<noteq> None"
  by (auto simp: registered_service_def find_None_iff split: option.splits)

lemma available_resolves:
  assumes v: "validate_config_references cfg" and u: "unique_instances cfg"
    and a: "a \<in> set (pc_apps cfg)" and t: "t \<in> set (pc_tenants cfg)" "app_tenant_id a = tn_id t"
    and i: "i \<in> set (get_available_service_instance_ids_for_app cfg a)"
    and ctx: "rc_tenant ctx = t" "app_id (ra_app (rc_app ctx)) = app_id a"
  shows "resolve_service_for_tenant (plain_config cfg) i ctx \<noteq> None"
proof -
  have f: "List.find (\<lambda>x. tn_id x = app_tenant_id a) (pc_tenants cfg) = Some t"
    by (rule find_unique [OF valid_references(5) [OF v] t(1)]) (use t in auto)
  from f i show ?thesis
  proof (cases rule: available_cases)
    case (own s)
    then have "(t, s) \<in> set (tenant_services cfg)" using t by (auto simp: tenant_services_def)
    from registered_not_activation [OF u registered_tenant [OF this]] own(3)
    have "List.find (\<lambda>x. sa_id x = i) (pc_shared_activations cfg) = None" by simp
    moreover have "List.find (\<lambda>s. ts_enabled s \<and> (ts_id s = i \<or> ts_service_id s = Some i)) (tn_services t) \<noteq> None"
      using own by (auto simp: find_None_iff)
    ultimately show ?thesis using ctx by (auto simp: resolve_service_for_tenant_def)
  next
    case (platform s)
    from registered_not_activation [OF u registered_platform [OF platform(2)]] platform(4)
    have "List.find (\<lambda>x. sa_id x = i) (pc_shared_activations cfg) = None" by simp
    moreover have "List.find (\<lambda>s. ps_enabled s \<and> (ps_id s = i \<or> ps_service_id s = Some i)) (pc_platform_services cfg) \<noteq> None"
      using platform by (auto simp: find_None_iff)
    ultimately show ?thesis using ctx platform(1) by (auto simp: resolve_service_for_tenant_def split: option.splits)
  next
    case (shared x s)
    have "List.find (\<lambda>x. sa_id x = i) (pc_shared_activations cfg) = Some x"
      by (rule find_unique [OF valid_references(4) [OF v] shared(1)]) (use shared in auto)
    moreover have "List.find (\<lambda>s. ss_enabled s \<and> ss_id s = sa_shared_service_id x) (pc_shared_catalog cfg) \<noteq> None"
      using shared by (auto simp: find_None_iff)
    ultimately show ?thesis using ctx shared(2,3,4) t(2) by (auto simp: resolve_service_for_tenant_def same_app_def)
  qed
qed

lemma valid_app:
  assumes "validate_config_references cfg" "a \<in> set (pc_apps cfg)"
  shows "app_errors cfg a = []"
  using assms by (auto simp: validate_config_references_def config_reference_errors_def)

lemma tenant_by_id_Some: "tenant_by_id cfg i = Some t \<Longrightarrow> t \<in> set (pc_tenants cfg) \<and> tn_id t = i"
  by (auto simp: tenant_by_id_def dest!: map_of_SomeD)

lemma valid_app_tenant:
  assumes "validate_config_references cfg" "a \<in> set (pc_apps cfg)"
  shows "\<exists>t\<in>set (pc_tenants cfg). tn_id t = app_tenant_id a"
  using valid_app [OF assms] tenant_by_id_Some [of cfg "app_tenant_id a"]
  by (auto simp: app_errors_def split: if_splits)

text \<open>The services that an app names in its routes, fragments, slots, shell, sign-in and roles.\<close>

definition auth_services :: "app_auth \<Rightarrow> string list" where
  "auth_services auth =
     (if aa_service_id auth = [] then [] else [aa_service_id auth]) @
     concat (map (\<lambda>r. map pg_service_id (role_grants r)) (aa_roles auth))"

definition named_services :: "app \<Rightarrow> string list" where
  "named_services a =
     map rm_service_id (app_routes a) @ map sl_service_id (app_slots a) @
     concat (map (\<lambda>(loc, fs). map fa_service_id fs) (app_fragments a)) @
     (case app_shell a of Some s \<Rightarrow> if s = [] then [] else [s] | None \<Rightarrow> []) @
     (case app_auth_config a of None \<Rightarrow> [] | Some auth \<Rightarrow> auth_services auth)"

lemma valid_app_parts:
  assumes "app_errors cfg a = []" and "av = get_available_service_instance_ids_for_app cfg a"
  shows "\<forall>r\<in>set (app_routes a). rm_service_id r \<in> set av" "\<forall>s\<in>set (app_slots a). sl_service_id s \<in> set av"
    "\<forall>(loc, fs)\<in>set (app_fragments a). \<forall>f\<in>set fs. fa_service_id f \<in> set av"
    "truthy (app_shell a) \<Longrightarrow> the (app_shell a) \<in> set av"
    "app_auth_config a = Some auth \<Longrightarrow> auth_errors av (app_id a) auth = []"
proof -
  have parts: "concat (map (route_errors av (app_id a)) (app_routes a)) = []"
    "concat (map (\<lambda>s. complain (sl_service_id s \<in> set av) (Slot_service_unavailable (app_id a) (sl_slot_id s))) (app_slots a)) = []"
    "concat (map (\<lambda>(loc, fs). concat (map (\<lambda>f. complain (fa_service_id f \<in> set av)
       (Fragment_service_unavailable (app_id a) (fa_fragment_id f))) fs)) (app_fragments a)) = []"
    "complain (\<not> truthy (app_shell a) \<or> the (app_shell a) \<in> set av) (Shell_unavailable (app_id a)) = []"
    "(case app_auth_config a of None \<Rightarrow> [] | Some auth \<Rightarrow> auth_errors av (app_id a) auth) = []"
    using assms(1) unfolding assms(2) app_errors_def Let_def by (simp_all only: append_is_Nil_conv list.distinct split: if_splits)
  show "\<forall>r\<in>set (app_routes a). rm_service_id r \<in> set av"
    using parts(1) by (auto simp: route_errors_def)
  show "\<forall>s\<in>set (app_slots a). sl_service_id s \<in> set av" using parts(2) by auto
  show "\<forall>(loc, fs)\<in>set (app_fragments a). \<forall>f\<in>set fs. fa_service_id f \<in> set av" using parts(3) by auto
  show "truthy (app_shell a) \<Longrightarrow> the (app_shell a) \<in> set av" using parts(4) by simp
  show "app_auth_config a = Some auth \<Longrightarrow> auth_errors av (app_id a) auth = []" using parts(5) by simp
qed

lemma valid_auth:
  assumes "auth_errors av aid auth = []"
  shows "aa_service_id auth = [] \<or> aa_service_id auth \<in> set av"
    "\<forall>r\<in>set (aa_roles auth). \<forall>g\<in>set (role_grants r). pg_service_id g \<in> set av"
  using assms by (auto simp: auth_errors_def)

lemma named_services_available:
  assumes "validate_config_references cfg" "a \<in> set (pc_apps cfg)" "i \<in> set (named_services a)"
  shows "i \<in> set (get_available_service_instance_ids_for_app cfg a)"
proof -
  note e = valid_app_parts [OF valid_app [OF assms(1,2)] refl]
  from assms(3) consider "i \<in> rm_service_id ` set (app_routes a)" | "i \<in> sl_service_id ` set (app_slots a)"
    | loc fs where "(loc, fs) \<in> set (app_fragments a)" "i \<in> fa_service_id ` set fs"
    | "app_shell a = Some i" "i \<noteq> []"
    | auth where "app_auth_config a = Some auth" "i \<in> set (auth_services auth)"
    unfolding named_services_def
    by (cases "app_auth_config a"; cases "app_shell a") (auto split: if_splits)
  then show ?thesis
  proof cases
    case 5
    with valid_auth [OF e(5) [OF 5(1)]] show ?thesis by (auto simp: auth_services_def split: if_splits)
  qed (use e in auto)
qed

text \<open>
  A configuration that was saved can be served: every service that one of its apps names (in
  a route, slot, fragment, as shell, for sign-in or in a role) resolves to a service of the
  app's own tenant.
\<close>
theorem saved_config_resolves:
  assumes "validate_config_references cfg" and "unique_instances cfg"
    and "a \<in> set (pc_apps cfg)" and "i \<in> set (named_services a)"
  shows "\<exists>t\<in>set (pc_tenants cfg). tn_id t = app_tenant_id a \<and>
    (\<forall>ctx. rc_tenant ctx = t \<and> app_id (ra_app (rc_app ctx)) = app_id a \<longrightarrow>
       (\<exists>b. resolve_service_for_tenant (plain_config cfg) i ctx = Some b))"
proof -
  obtain t where t: "t \<in> set (pc_tenants cfg)" "tn_id t = app_tenant_id a"
    using valid_app_tenant [OF assms(1,3)] by blast
  show ?thesis
    using available_resolves [OF assms(1-3) t(1) t(2) [symmetric] named_services_available [OF assms(1,3,4)]] t by blast
qed

section \<open>Preview roles\<close>

definition grants_within :: "string list \<Rightarrow> (string, permission_grant) jsmap \<Rightarrow> bool" where
  "grants_within available m \<longleftrightarrow> (\<forall>(k, g)\<in>set m. pg_service_id g \<in> set available)"

lemma grants_within_nil [simp]: "grants_within av []"
  by (simp add: grants_within_def)

lemma js_set_member: "x \<in> set (js_set k v m) \<Longrightarrow> x = (k, v) \<or> x \<in> set m"
  by (induction m) (auto split: if_splits)

lemma grants_within_add: "grants_within av m \<Longrightarrow> grants_within av (add_grant av i v m)"
  by (auto simp: grants_within_def add_grant_def dest!: js_set_member)

lemma grants_within_fold: "(\<And>x m. grants_within av m \<Longrightarrow> grants_within av (f x m)) \<Longrightarrow> grants_within av m \<Longrightarrow> grants_within av (fold f xs m)"
  by (induction xs arbitrary: m) auto

lemma preview_grants_within: "grants_within (get_available_service_instance_ids_for_app cfg a) (preview_grants cfg a)"
  unfolding preview_grants_def Let_def route_grants_def
  by (intro grants_within_fold grants_within_add grants_within_nil)

lemma fold_js_set_member: "x \<in> set (fold (\<lambda>y. js_set (kf y) (vf y)) ys m) \<Longrightarrow> (\<exists>y\<in>set ys. x = (kf y, vf y)) \<or> x \<in> set m"
  by (induction ys arbitrary: m) (auto dest!: js_set_member)

lemma elevate_role_grants:
  assumes "g \<in> set (role_grants (elevate_role grants roles i))"
  shows "(\<exists>k. (k, g) \<in> set grants) \<or> (\<exists>r\<in>set roles. role_id r = i \<and> g \<in> set (role_grants r))"
proof -
  let ?role = "case List.find (\<lambda>r. role_id r = i) roles of None \<Rightarrow> \<lparr>role_id = i, role_title = i, role_grants = []\<rparr> | Some r \<Rightarrow> r"
  let ?own = "fold (\<lambda>g. js_set (grant_key (pg_service_id g) (pg_view_id g)) g) (role_grants ?role) []"
  have "g \<in> snd ` set (fold (\<lambda>y. js_set (fst y) (snd y)) grants ?own)"
    using assms by (simp add: elevate_role_def Let_def js_values_def case_prod_beta')
  then obtain k where "(k, g) \<in> set (fold (\<lambda>y. js_set (fst y) (snd y)) grants ?own)" by auto
  from fold_js_set_member [OF this] have "(k, g) \<in> set grants \<or> (k, g) \<in> set ?own" by auto
  moreover have "\<exists>r\<in>set roles. role_id r = i \<and> g \<in> set (role_grants r)" if "(k, g) \<in> set ?own"
  proof -
    from that have g: "g \<in> set (role_grants ?role)" by (auto dest!: fold_js_set_member)
    then show ?thesis by (cases "List.find (\<lambda>r. role_id r = i) roles") (auto dest!: find_SomeD)
  qed
  ultimately show ?thesis by blast
qed

text \<open>
  A preview never raises anyone's rights outside itself: roles change only in an app of a
  preview deployment that is neither in the management tenant nor in the tenant, nor the app,
  that its template was taken from; roles that the template does not elevate stay as they are;
  and whatever an elevated role holds beyond the role's own grants is for a service that is
  available to this very app.
\<close>
theorem preview_elevation_contained:
  assumes "app_auth_config a = Some auth" and "preview_auth cfg a = Some auth'"
  shows "(auth' \<noteq> auth \<longrightarrow> Some (app_tenant_id a) \<noteq> cm_admin_tenant_id (pc_management cfg) \<and>
      (\<exists>d\<in>set (st_preview_deployments cfg). \<exists>g\<in>set (st_preview_groups cfg). pvd_app_id d = app_id a \<and> pvd_tenant_id d = app_tenant_id a \<and>
         pvg_id g = pvd_group_id d \<and> pvg_source_app_id g \<noteq> app_id a \<and> pvg_source_tenant_id g \<noteq> app_tenant_id a)) \<and>
    (\<forall>r. role_id r \<notin> set (elevated_roles cfg a) \<longrightarrow> (r \<in> set (aa_roles auth') \<longleftrightarrow> r \<in> set (aa_roles auth))) \<and>
    (\<forall>r\<in>set (aa_roles auth'). \<forall>g\<in>set (role_grants r).
       (\<exists>r'\<in>set (aa_roles auth). role_id r' = role_id r \<and> g \<in> set (role_grants r')) \<or>
       (role_id r \<in> set (elevated_roles cfg a) \<and> pg_service_id g \<in> set (get_available_service_instance_ids_for_app cfg a)))"
proof (cases "elevated_roles cfg a = []")
  case True
  with assms have "auth' = auth" by (simp add: preview_auth_def Let_def)
  then show ?thesis by auto
next
  case False
  with assms have a': "auth' = auth\<lparr>aa_roles := filter (\<lambda>r. role_id r \<notin> set (elevated_roles cfg a)) (aa_roles auth) @
      map (elevate_role (preview_grants cfg a) (aa_roles auth)) (elevated_roles cfg a)\<rparr>"
    by (simp add: preview_auth_def Let_def)
  have id: "role_id (elevate_role gs rs i) = i" for gs rs i
    by (auto simp: elevate_role_def Let_def split: option.splits dest!: find_SomeD)
  have "Some (app_tenant_id a) \<noteq> cm_admin_tenant_id (pc_management cfg) \<and>
      (\<exists>d\<in>set (st_preview_deployments cfg). \<exists>g\<in>set (st_preview_groups cfg). pvd_app_id d = app_id a \<and> pvd_tenant_id d = app_tenant_id a \<and>
         pvg_id g = pvd_group_id d \<and> pvg_source_app_id g \<noteq> app_id a \<and> pvg_source_tenant_id g \<noteq> app_tenant_id a)"
    using False unfolding elevated_roles_def by (auto split: if_splits option.splits dest!: find_SomeD)
  moreover have "(\<exists>r'\<in>set (aa_roles auth). role_id r' = role_id r \<and> g \<in> set (role_grants r')) \<or>
       (role_id r \<in> set (elevated_roles cfg a) \<and> pg_service_id g \<in> set (get_available_service_instance_ids_for_app cfg a))"
    if "r \<in> set (aa_roles auth')" "g \<in> set (role_grants r)" for r g
  proof (cases "role_id r \<in> set (elevated_roles cfg a)")
    case False
    with that show ?thesis by (auto simp: a' id)
  next
    case True
    with that obtain i where "r = elevate_role (preview_grants cfg a) (aa_roles auth) i" "i \<in> set (elevated_roles cfg a)"
      by (auto simp: a')
    with that(2) elevate_role_grants [of g] True preview_grants_within [of cfg a] show ?thesis
      unfolding grants_within_def by (metis (no_types, lifting) case_prodD id)
  qed
  moreover have "r \<in> set (aa_roles auth') \<longleftrightarrow> r \<in> set (aa_roles auth)" if "role_id r \<notin> set (elevated_roles cfg a)" for r
    using that by (auto simp: a' id)
  ultimately show ?thesis by blast
qed

section \<open>Key registration\<close>

lemma find_update_first:
  assumes "\<And>x. P (f x) = P x"
  shows "List.find P (update_first P f xs) = map_option f (List.find P xs)"
  using assms by (induction xs) auto

fun with_key :: "registration \<Rightarrow> string \<Rightarrow> string \<Rightarrow> registration" where
  "with_key (Platform_reg s) pem kid = Platform_reg (s\<lparr>ps_public_key_pem := Some pem, ps_key_id := Some kid\<rparr>)"
| "with_key (Shared_reg s) pem kid = Shared_reg (s\<lparr>ss_public_key_pem := Some pem, ss_key_id := Some kid\<rparr>)"
| "with_key (Tenant_reg t s) pem kid = Tenant_reg t (s\<lparr>ts_public_key_pem := Some pem, ts_key_id := Some kid\<rparr>)"

lemma with_key_fields [simp]:
  "reg_public_key_pem (with_key r pem kid) = Some pem" "reg_key_id (with_key r pem kid) = Some kid"
  by (cases r; simp)+

lemma store_key_owned:
  assumes "owned_service cfg i scope tid = Some reg"
  shows "\<exists>reg'. owned_service (store_key cfg i tid reg pem kid) i scope tid = Some reg' \<and>
    reg_public_key_pem reg' = Some pem \<and> reg_key_id reg' = Some kid"
  using assms
  by (cases scope) (auto simp: owned_service_def store_key_def find_update_first split: option.splits)

text \<open>
  Trust on first use: a service's key is registered only when it has none (or the
  administrator asked for the replacement), and from then on the same key matches, while any
  other key is turned down and leaves the configuration alone.
\<close>
theorem first_key_stays:
  assumes "apply_service_public_key cfg i scope tid pem kid replace = (cfg', Registered)"
  shows "(\<exists>reg. owned_service cfg i scope tid = Some reg \<and>
      (replace \<or> (\<not> truthy (reg_public_key_pem reg) \<and> \<not> truthy (reg_key_id reg)))) \<and>
    apply_service_public_key cfg' i scope tid pem kid r = (cfg', Matched) \<and>
    (pem' \<noteq> pem \<or> kid' \<noteq> kid \<longrightarrow> pem \<noteq> [] \<longrightarrow> apply_service_public_key cfg' i scope tid pem' kid' False = (cfg', Mismatch))"
proof -
  from assms obtain reg where reg: "owned_service cfg i scope tid = Some reg"
      "key_decision (reg_public_key_pem reg) (reg_key_id reg) pem kid replace = Registered"
      "cfg' = store_key cfg i tid reg pem kid"
    by (auto simp: apply_service_public_key_def split: option.splits key_registration.splits)
  obtain reg' where reg': "owned_service cfg' i scope tid = Some reg'" "reg_public_key_pem reg' = Some pem" "reg_key_id reg' = Some kid"
    using store_key_owned [OF reg(1)] unfolding reg(3) by blast
  from reg(2) have "replace \<or> (\<not> truthy (reg_public_key_pem reg) \<and> \<not> truthy (reg_key_id reg))"
    by (auto simp: key_decision_def split: if_splits)
  with reg(1) reg' show ?thesis
    by (auto simp: apply_service_public_key_def key_decision_def)
qed

section \<open>A sample installation\<close>

definition sample_member :: "string \<Rightarrow> string \<Rightarrow> string option \<Rightarrow> string option \<Rightarrow> tenant_service" where
  "sample_member i h pem kid = PlatformConfig.sample_service\<lparr>ts_id := i, ts_api_key_hash := h, ts_public_key_pem := pem, ts_key_id := kid\<rparr>"

definition sample_stored_tenant :: tenant where
  "sample_stored_tenant = sample_tenant\<lparr>tn_id := ''t'',
     tn_services := [sample_member ''src'' ''h1'' (Some ''pem'') (Some ''k1''), sample_member ''dst'' ''h2'' None None]\<rparr>"

definition sample_stored_app :: app where
  "sample_stored_app = sample_app\<lparr>app_id := ''a'', app_tenant_id := ''t'', app_routes := [sample_mount\<lparr>rm_service_id := ''src''\<rparr>],
     app_auth_config := Some (sample_app_auth\<lparr>aa_service_id := ''src'',
       aa_roles := [\<lparr>role_id = ''editor'', role_title = ''Editor'', role_grants = []\<rparr>]\<rparr>)\<rparr>"

definition sample_stored :: stored_config where
  "sample_stored = platform_config.extend
     (sample_config\<lparr>pc_tenants := [sample_stored_tenant], pc_apps := [sample_stored_app]\<rparr>)
     \<lparr>st_bindings = [sample_binding], st_grants = po_grants sample_policy,
      st_preview_groups = [\<lparr>pvg_id = ''gr'', pvg_source_tenant_id = ''t0'', pvg_source_app_id = ''a0''\<rparr>],
      st_preview_deployments = [\<lparr>pvd_id = ''d'', pvd_group_id = ''gr'', pvd_tenant_id = ''t'', pvd_app_id = ''a'',
        pvd_elevated_role_ids = Some [''editor''], pvd_instance_ids = []\<rparr>],
      st_webhook_targets = []\<rparr>"

definition sample_hash :: "string \<Rightarrow> string" where
  "sample_hash k = (if k = ''key'' then ''h1'' else ''?'')"

definition sample_source :: service where
  "sample_source = sample_svc\<lparr>sn_key := Some (''pem'', ''k1''),
     sn_scoped := Some (get_scoped_config sample_parse_url sample_stored ''src'' Tenant_key (Some ''t''))\<rparr>"

definition sample_call_options :: authorize_options where
  "sample_call_options = sample_authorize\<lparr>ao_policy := m2m_policy_for sample_stored ''dst''\<rparr>"

lemma sample_stored_facts:
  "validate_config_references sample_stored" "unique_instances sample_stored" "\<forall>t\<in>set (pc_tenants sample_stored). tn_id t \<noteq> []"
  "''dst'' \<in> set (local_service_ids sample_stored ''dst'')" "sample_stored_app \<in> set (pc_apps sample_stored)"
  "''src'' \<in> set (named_services sample_stored_app)"
  by code_simp+

lemma sample_owner:
  "validate_api_key sample_hash sample_stored ''key'' =
     Some \<lparr>ko_scope = Tenant_key, ko_service_id = ''src'', ko_tenant_id = Some ''t''\<rparr>"
  by code_simp

theorem scoped_config_entitled_witness:
  "\<exists>sc. sync_config sample_parse_url sample_hash sample_stored ''key'' = Some sc \<and> list_all (\<lambda>a. app_tenant_id a = ''t'') (sf_apps sc)"
proof -
  obtain sc where sc: "sync_config sample_parse_url sample_hash sample_stored ''key'' = Some sc"
    by (simp add: sync_config_def sample_owner)
  have "app_tenant_id a = ''t''" if a: "a \<in> set (sf_apps sc)" for a
  proof -
    note e = scoped_config_entitled [OF sample_owner sample_stored_facts(3) sc]
    from e a obtain st where "st \<in> set (sf_tenants sc)" "app_tenant_id a = sx_id st" by blast
    with e show ?thesis by (auto simp: entitled_def)
  qed
  with sc show ?thesis by (auto simp: list_all_iff)
qed

lemma sample_source_call:
  "m2m_client sample_source ''req'' ''t'' ''a'' 100 ''j'' =
     Inr \<lparr>mk_base_url = ''https://svc.test'',
       mk_headers = [(''X-BP-Service-Id'', ''src''), (''X-BP-Tenant-Id'', ''t''), (''X-BP-App-Id'', ''a'')],
       mk_token = sample_service_claims\<rparr>"
  by code_simp

theorem federated_call_accepted_witness:
  "\<exists>perms. authorize_service_token sample_service_library sample_service_schema sample_call_options ''h.p.s'' =
     Inr (sample_service_claims, perms)"
proof -
  have s: "sn_scoped sample_source = Some (get_scoped_config sample_parse_url sample_stored ''src'' Tenant_key (Some ''t''))"
    "sn_key sample_source = Some (''pem'', ''k1'')"
    by (simp_all add: sample_source_def)
  have o': "ao_policy sample_call_options = m2m_policy_for sample_stored ''dst''" "ao_source_service_id sample_call_options = ''src''"
    "ao_tenant_id sample_call_options = ''t''" "ao_app_id sample_call_options = ''a''" "ao_mode sample_call_options = Service_to_service"
    "ao_view_id sample_call_options = ''view''" "ao_tolerance sample_call_options = None"
    "ao_method sample_call_options = GET" "ao_required_permissions sample_call_options = [''read'']"
    by (simp_all add: sample_call_options_def sample_authorize_def)
  have c: "stc_aud sample_service_claims = ''dst''" "stc_iss sample_service_claims = ''src''" "stc_binding_id sample_service_claims = ''b''"
    by (simp_all add: sample_service_claims_def)
  have b: "st_bindings sample_stored = [sample_binding]" "st_grants sample_stored = po_grants sample_policy"
    by (simp_all add: sample_stored_def platform_config.defs)
  have g: "mbd_target_view_id sample_binding = ''view''"
    "\<forall>g\<in>set (po_grants sample_policy). GET \<in> set (mg_methods g) \<and> ''read'' \<in> set (mg_permissions g)"
    by (simp_all add: sample_binding_def sample_policy_def)
  have t: "untrusted_issuer sample_payload = ''src''" "sample_service_schema sample_payload = Some sample_service_claims"
    "lib_verify sample_service_library ''h.p.s'' ''pem'' ck = Inr sample_payload" for ck
    by (simp_all add: untrusted_issuer_def sample_payload_def sample_service_schema_def sample_service_library_def)
  show ?thesis
    using federated_call_accepted [OF sample_stored_facts(1,2) s sample_source_call o'(1), where lib = sample_service_library
        and schema = sample_service_schema and token = "''h.p.s''" and verified = sample_payload and pl = sample_payload
        and hd' = "JObj [(''alg'', JStr ''RS256''), (''typ'', JStr ''BP-S2S-JWT''), (''kid'', JStr ''k1'')]"]
      sample_stored_facts(4) g
    by (auto simp: o' c b t sample_token_parts simp del: One_nat_def)
qed

lemma sample_registration:
  "snd (apply_service_public_key sample_stored ''dst'' Tenant_key (Some ''t'') ''pem2'' ''k2'' False) = Registered"
  by code_simp

end
