(* ===== verification/Install.thy ===== *)
theory Install
  imports PlatformStore
begin

text \<open>
  Pairing a service with its control plane: \<open>registerInstallEndpoint\<close>, \<open>resolveCredentials\<close> and
  \<open>normalizeControlPlaneUrl\<close> of \<open>service.ts\<close> in \<open>plugins/nodejs/betterportal-bsb\<close>, over the
  pairing that \<open>bootstrapState.ts\<close> keeps. The handler awaits three times (the token's
  verification, the redeem call, the first sync); what stands between two awaits runs without
  interruption and is one function here, and \<open>install_step\<close> interleaves those sections of any
  number of requests. URL parsing, key download, the JWT library, the redeem answer, the disk and
  the first sync answer as they like.
\<close>

section \<open>Control-plane URLs\<close>

fun break_at :: "string \<Rightarrow> string \<Rightarrow> (string \<times> string) option" where
  "break_at sep [] = (if sep = [] then Some ([], []) else None)"
| "break_at sep (c # cs) =
     (if prefix sep (c # cs) then Some ([], drop (length sep) (c # cs))
      else map_option (\<lambda>(a, b). (c # a, b)) (break_at sep cs))"

text \<open>\<open>value.split("://")[1] ?? ""\<close>: what stands between the first and the second separator.\<close>

definition second_part :: "string \<Rightarrow> string" where
  "second_part v =
     (case break_at ''://'' v of
        None \<Rightarrow> []
      | Some (_, rest) \<Rightarrow> (case break_at ''://'' rest of None \<Rightarrow> rest | Some (a, _) \<Rightarrow> a))"

definition raw_authority :: "string \<Rightarrow> string" where
  "raw_authority v = takeWhile (\<lambda>c. c \<notin> set ''/?#'') (second_part v)"

definition raw_host :: "string \<Rightarrow> string" where
  "raw_host v =
     (let a = raw_authority v
      in if js_starts_with ''['' a
         then (case js_index_of (CHR '']'') a of None \<Rightarrow> [] | Some i \<Rightarrow> take (Suc i) a)
         else takeWhile (\<lambda>c. c \<noteq> CHR '':'') a)"

definition loopback_host :: "string \<Rightarrow> bool" where
  "loopback_host h \<longleftrightarrow> js_lower h \<in> set [''localhost'', ''127.0.0.1'', ''[::1]'']"

definition drop_slashes :: "string \<Rightarrow> string" where
  "drop_slashes s = rev (dropWhile ((=) (CHR ''/'')) (rev s))"

definition normalize_control_plane_url :: "(string \<Rightarrow> url option) \<Rightarrow> string \<Rightarrow> string res" where
  "normalize_control_plane_url parse v =
     (case parse v of
        None \<Rightarrow> Inl ''Control-plane URL must be an absolute HTTPS URL (HTTP is allowed only on loopback)''
      | Some u \<Rightarrow>
          if u_username u \<noteq> [] \<or> u_password u \<noteq> [] \<or> u_search u \<noteq> [] \<or> u_hash u \<noteq> [] \<or>
             (u_protocol u \<noteq> ''https:'' \<and> \<not> (u_protocol u = ''http:'' \<and> loopback_host (raw_host v)))
          then Inl ''Control-plane URL must use HTTPS without userinfo, query or fragment (HTTP is allowed only on loopback)''
          else Inr (drop_slashes (js_trim v)))"

section \<open>Stored pairing\<close>

text \<open>\<open>BootstrapStateStore\<close>: \<open>read\<close> answers from its copy of the file, \<open>write\<close> spreads a patch over it.\<close>

definition has_api_key :: "bootstrap_state \<Rightarrow> bool" where
  "has_api_key st \<longleftrightarrow> truthy (bo_api_key st) \<and> truthy (bo_cp_url st)"

definition clear_pairing :: "bootstrap_state \<Rightarrow> bootstrap_state" where
  "clear_pairing st = st\<lparr>bo_api_key := None, bo_cp_url := None, bo_cp_id := None, bo_cp_jwks_uri := None,
     bo_installed_at := None, bo_installation := None\<rparr>"

definition clear_bootstrap :: "bootstrap_state \<Rightarrow> bootstrap_state" where
  "clear_bootstrap st = \<lparr>bo_api_key = None, bo_cp_url = None, bo_cp_id = None, bo_cp_jwks_uri = None,
     bo_config_encryption_key = None, bo_tenant_lock = None, bo_installed_at = None, bo_installation = None\<rparr>"

section \<open>State of the installer\<close>

record setup_claims =
  su_iss :: string
  su_exp :: int
  su_iat :: int
  su_jti :: string
  su_instance_id :: string
  su_service_url :: string
  su_cp_url :: string
  su_cp_jwks_uri :: string
  su_scope :: "(string \<times> string option) option"

record install_request =
  iq_token :: string
  iq_cp_url :: string
  iq_own_url :: string

record redeem_body =
  rb_api_key :: "string option"
  rb_cp_id :: "string option"
  rb_cp_jwks_uri :: "string option"

datatype redeem_outcome = Redeem_throws string | Redeem_refused string | Redeem_answer redeem_body

datatype sync_outcome = Synced bool | Sync_throws

datatype install_reply =
    Payload_invalid string
  | Control_plane_mismatch
  | Install_busy
  | Token_invalid
  | Token_mismatch
  | Already_in_progress
  | Redeem_failed
  | Sync_failed
  | Activation_failed
  | Install_failed string
  | Install_ok (ok_api_key: string) (ok_cp_url: string)

fun reply_status :: "install_reply \<Rightarrow> nat" where
  "reply_status (Payload_invalid e) = 400"
| "reply_status Control_plane_mismatch = 403"
| "reply_status Install_busy = 429"
| "reply_status Token_invalid = 400"
| "reply_status Token_mismatch = 400"
| "reply_status Already_in_progress = 409"
| "reply_status Redeem_failed = 502"
| "reply_status Sync_failed = 503"
| "reply_status Activation_failed = 503"
| "reply_status (Install_failed e) = 400"
| "reply_status (Install_ok k u) = 200"

text \<open>Where one request stands: between two awaits of the handler, or answered.\<close>

datatype phase =
    Idle
  | Verifying install_request string
  | Redeeming install_request string setup_claims
  | Connecting string string
  | Done install_reply

record install_state =
  in_stored :: bootstrap_state
  in_cp_url :: "string option"
  in_api_key :: "string option"
  in_setup_mode :: bool
  in_verifications :: nat
  in_busy :: bool
  in_phases :: "nat \<Rightarrow> phase"

record install_settings =
  ip_requires_source :: bool
  ip_control_plane_url :: "string option"
  ip_service_api_key :: "string option"
  ip_host :: string
  ip_port :: string

text \<open>What one atomic section learns from outside: the clock, the random source, whether the disk
  takes the write, and whether starting the service identity throws.\<close>

record install_host =
  ho_timestamp :: string
  ho_random_key :: string
  ho_disk_ok :: bool
  ho_identity_ok :: bool

definition set_phase :: "nat \<Rightarrow> phase \<Rightarrow> install_state \<Rightarrow> install_state" where
  "set_phase i p s = s\<lparr>in_phases := (in_phases s)(i := p)\<rparr>"

definition resolve_credentials :: "install_settings \<Rightarrow> install_state \<Rightarrow> install_state" where
  "resolve_credentials cfg s =
     (if \<not> ip_requires_source cfg then s\<lparr>in_setup_mode := False, in_api_key := None, in_cp_url := None\<rparr>
      else
        (let key = or_else (bo_api_key (in_stored s)) (ip_service_api_key cfg);
             url = or_else (bo_cp_url (in_stored s)) (ip_control_plane_url cfg)
         in s\<lparr>in_api_key := key, in_cp_url := url, in_setup_mode := \<not> (truthy key \<and> truthy url)\<rparr>))"

definition control_plane_credentials :: "(string \<Rightarrow> url option) \<Rightarrow> install_state \<Rightarrow> (string \<times> string) option res" where
  "control_plane_credentials parse s =
     (if \<not> truthy (in_cp_url s) \<or> \<not> truthy (in_api_key s) then Inr None
      else res_bind (normalize_control_plane_url parse (the (in_cp_url s))) (\<lambda>u. Inr (Some (u, the (in_api_key s)))))"

definition derive_own_url :: "install_settings \<Rightarrow> (string, string) jsmap \<Rightarrow> string" where
  "derive_own_url cfg headers =
     (let host = (case js_get headers ''host'' of Some h \<Rightarrow> h | None \<Rightarrow> ip_host cfg @ '':'' @ ip_port cfg);
          proto = (case js_get headers ''x-forwarded-proto'' of Some p \<Rightarrow> p | None \<Rightarrow> ''http'')
      in proto @ ''://'' @ host)"

section \<open>The handler, section by section\<close>

text \<open>Whether the request names another control plane than the one already trusted; \<open>Inl\<close> when
  the trusted URL itself does not pass.\<close>

definition foreign_control_plane :: "(string \<Rightarrow> url option) \<Rightarrow> string option \<Rightarrow> string \<Rightarrow> bool res" where
  "foreign_control_plane parse trusted cp =
     (if \<not> truthy trusted then Inr False
      else res_bind (normalize_control_plane_url parse (the trusted)) (\<lambda>t. Inr (cp \<noteq> t)))"

definition string_field :: "json \<Rightarrow> string \<Rightarrow> string option" where
  "string_field v k = (case header_field v k of Some (JStr s) \<Rightarrow> if s = [] then None else Some s | _ \<Rightarrow> None)"

definition install_payload :: "json option \<Rightarrow> install_reply + string \<times> string" where
  "install_payload body =
     (case body of
        None \<Rightarrow> Inl (Payload_invalid ''Request body must be JSON object'')
      | Some v \<Rightarrow>
          if \<not> is_object v then Inl (Payload_invalid ''Request body must be JSON object'')
          else (case string_field v ''setupToken'' of
                  None \<Rightarrow> Inl (Payload_invalid ''Missing setupToken'')
                | Some token \<Rightarrow>
                    (case string_field v ''cpUrl'' of
                       None \<Rightarrow> Inl (Payload_invalid ''Missing cpUrl'')
                     | Some u \<Rightarrow> Inr (token, u))))"

definition max_verifications :: nat where "max_verifications = 4"

definition admit_install :: "(string \<Rightarrow> url option) \<Rightarrow> install_state \<Rightarrow> install_request \<Rightarrow> install_reply + string" where
  "admit_install parse s rq =
     (case normalize_control_plane_url parse (iq_cp_url rq) of
        Inl e \<Rightarrow> Inl (Install_failed e)
      | Inr cp \<Rightarrow>
          (case foreign_control_plane parse (in_cp_url s) cp of
             Inl e \<Rightarrow> Inl (Install_failed e)
           | Inr True \<Rightarrow> Inl Control_plane_mismatch
           | Inr False \<Rightarrow> if in_verifications s \<ge> max_verifications then Inl Install_busy else Inr cp))"

definition accept_install ::
    "environment \<Rightarrow> install_settings \<Rightarrow> nat \<Rightarrow> (string, string) jsmap \<Rightarrow> json option \<Rightarrow> install_state \<Rightarrow> install_state" where
  "accept_install env cfg i headers body s =
     (case install_payload body of
        Inl r \<Rightarrow> set_phase i (Done r) s
      | Inr (token, url) \<Rightarrow>
          (let rq = \<lparr>iq_token = token, iq_cp_url = url, iq_own_url = derive_own_url cfg headers\<rparr>
           in case admit_install (en_parse_url env) s rq of
                Inl r \<Rightarrow> set_phase i (Done r) s
              | Inr cp \<Rightarrow> set_phase i (Verifying rq cp) (s\<lparr>in_verifications := in_verifications s + 1\<rparr>)))"

definition jwks_uri_of :: "string \<Rightarrow> string" where
  "jwks_uri_of cp = cp @ ''/.well-known/jwks.json''"

definition setup_options :: "environment \<Rightarrow> string \<Rightarrow> envelope_options" where
  "setup_options env cp = \<lparr>ve_source = Jwks (en_jwks env (jwks_uri_of cp)), ve_issuer = cp, ve_audience = None, ve_tolerance = None\<rparr>"

text \<open>Whether a token's service address is the origin the request arrived at.\<close>

definition addressed_to :: "(string \<Rightarrow> url option) \<Rightarrow> string \<Rightarrow> string \<Rightarrow> bool" where
  "addressed_to parse service_url own_url \<longleftrightarrow>
     (case (parse own_url, normalize_control_plane_url parse service_url) of
        (Some own, Inr addr) \<Rightarrow>
          (case parse addr of
             None \<Rightarrow> False
           | Some a \<Rightarrow> u_pathname a = ''/'' \<and> CHR ''?'' \<notin> set service_url \<and> CHR ''#'' \<notin> set service_url \<and>
               u_origin a = u_origin own)
      | _ \<Rightarrow> False)"

definition verify_install ::
    "environment \<Rightarrow> (json \<Rightarrow> setup_claims option) \<Rightarrow> install_request \<Rightarrow> string \<Rightarrow> setup_claims option" where
  "verify_install env schema rq cp =
     (case verify_setup_token schema (en_jwt env) (setup_options env cp) (iq_token rq) of
        Inl e \<Rightarrow> None
      | Inr c \<Rightarrow> if addressed_to (en_parse_url env) (su_service_url c) (iq_own_url rq) then Some c else None)"

text \<open>A request whose token was already redeemed here: the stored pairing names the same control
  plane, token, instance and address.\<close>

definition is_replay :: "bootstrap_state \<Rightarrow> string \<Rightarrow> setup_claims \<Rightarrow> bool" where
  "is_replay st cp c \<longleftrightarrow>
     truthy (bo_api_key st) \<and> bo_cp_url st = Some cp \<and>
     (case bo_installation st of
        None \<Rightarrow> False
      | Some il \<Rightarrow> il_jti il = su_jti c \<and> il_instance_id il = su_instance_id c \<and> il_service_url il = su_service_url c)"

definition stored_body :: "bootstrap_state \<Rightarrow> redeem_body" where
  "stored_body st = \<lparr>rb_api_key = bo_api_key st, rb_cp_id = bo_cp_id st, rb_cp_jwks_uri = bo_cp_jwks_uri st\<rparr>"

definition installation_of :: "string \<Rightarrow> setup_claims \<Rightarrow> installation" where
  "installation_of cp c =
     \<lparr>il_instance_id = su_instance_id c, il_service_url = su_service_url c, il_cp_url = cp, il_scope = su_scope c,
      il_jti = su_jti c, il_cp_jwks_uri = jwks_uri_of cp\<rparr>"

definition encryption_key :: "install_host \<Rightarrow> bootstrap_state \<Rightarrow> string" where
  "encryption_key h st = (case bo_config_encryption_key st of Some k \<Rightarrow> k | None \<Rightarrow> ''bp_cek_'' @ ho_random_key h)"

definition paired_state :: "install_host \<Rightarrow> string \<Rightarrow> setup_claims \<Rightarrow> redeem_body \<Rightarrow> bootstrap_state \<Rightarrow> bootstrap_state" where
  "paired_state h cp c b st =
     st\<lparr>bo_api_key := rb_api_key b, bo_cp_url := Some cp, bo_cp_id := rb_cp_id b,
        bo_cp_jwks_uri := or_else (rb_cp_jwks_uri b) (Some (jwks_uri_of cp)),
        bo_config_encryption_key := Some (encryption_key h st), bo_installed_at := Some (ho_timestamp h),
        bo_installation := Some (installation_of cp c)\<rparr>"

definition answer :: "nat \<Rightarrow> install_reply \<Rightarrow> install_state \<Rightarrow> install_state" where
  "answer i r s = set_phase i (Done r) s"

definition release :: "nat \<Rightarrow> install_reply \<Rightarrow> install_state \<Rightarrow> install_state" where
  "release i r s = answer i r (s\<lparr>in_busy := False\<rparr>)"

text \<open>From a redeem answer (or the stored one) to the await of the first sync.\<close>

definition commit_install ::
    "install_host \<Rightarrow> nat \<Rightarrow> bool \<Rightarrow> string \<Rightarrow> setup_claims \<Rightarrow> redeem_body \<Rightarrow> install_state \<Rightarrow> install_state" where
  "commit_install h i replay cp c b s =
     (if \<not> truthy (rb_api_key b) then release i Redeem_failed s
      else if \<not> replay \<and> \<not> ho_disk_ok h then release i (Install_failed ''bootstrap state not written'') s
      else
        (let s' = s\<lparr>in_stored := (if replay then in_stored s else paired_state h cp c b (in_stored s)),
                    in_api_key := rb_api_key b, in_cp_url := Some cp, in_setup_mode := False\<rparr>
         in if ho_identity_ok h then set_phase i (Connecting cp (the (rb_api_key b))) s'
            else release i Activation_failed s'))"

definition finish_verification ::
    "environment \<Rightarrow> (json \<Rightarrow> setup_claims option) \<Rightarrow> install_host \<Rightarrow> nat \<Rightarrow> install_state \<Rightarrow> install_state" where
  "finish_verification env schema h i s =
     (case in_phases s i of
        Verifying rq cp \<Rightarrow>
          (let s1 = s\<lparr>in_verifications := in_verifications s - 1\<rparr>
           in case verify_install env schema rq cp of
                None \<Rightarrow> answer i Token_invalid s1
              | Some c \<Rightarrow>
                  if su_cp_jwks_uri c \<noteq> [] \<and> su_cp_jwks_uri c \<noteq> jwks_uri_of cp then answer i Token_mismatch s1
                  else
                    (case foreign_control_plane (en_parse_url env) (in_cp_url s1) cp of
                       Inl e \<Rightarrow> answer i (Install_failed e) s1
                     | Inr True \<Rightarrow> answer i Control_plane_mismatch s1
                     | Inr False \<Rightarrow>
                         if in_busy s1 then answer i Already_in_progress s1
                         else
                           (let s2 = s1\<lparr>in_busy := True\<rparr>
                            in if is_replay (in_stored s2) cp c
                               then commit_install h i True cp c (stored_body (in_stored s2)) s2
                               else set_phase i (Redeeming rq cp c) s2)))
      | _ \<Rightarrow> s)"

definition finish_redeem :: "install_host \<Rightarrow> nat \<Rightarrow> redeem_outcome \<Rightarrow> install_state \<Rightarrow> install_state" where
  "finish_redeem h i out s =
     (case in_phases s i of
        Redeeming rq cp c \<Rightarrow>
          (case out of
             Redeem_throws e \<Rightarrow> release i (Install_failed e) s
           | Redeem_refused t \<Rightarrow> release i Redeem_failed s
           | Redeem_answer b \<Rightarrow> commit_install h i False cp c b s)
      | _ \<Rightarrow> s)"

definition finish_connect :: "nat \<Rightarrow> sync_outcome \<Rightarrow> install_state \<Rightarrow> install_state" where
  "finish_connect i out s =
     (case in_phases s i of
        Connecting cp key \<Rightarrow>
          (case out of
             Synced True \<Rightarrow> release i (Install_ok key cp) s
           | Synced False \<Rightarrow> release i Sync_failed s
           | Sync_throws \<Rightarrow> release i Activation_failed s)
      | _ \<Rightarrow> s)"

text \<open>A process that stops loses everything but the stored pairing, and resolves its credentials again.\<close>

definition restart_install :: "install_settings \<Rightarrow> bootstrap_state \<Rightarrow> install_state" where
  "restart_install cfg st =
     resolve_credentials cfg
       \<lparr>in_stored = st, in_cp_url = None, in_api_key = None, in_setup_mode = False, in_verifications = 0,
        in_busy = False, in_phases = (\<lambda>i. Idle)\<rparr>"

section \<open>Interleaved requests\<close>

text \<open>Any number of requests, each advancing one section at a time in any order. The world fixes which
  requests (headers and body) clients send and which keys each key set address has ever served.
  Key downloads and the clock answer afresh at each verification, a download with keys that address
  serves; a configured service never changes its settings.\<close>

record install_world =
  iw_sent :: "(string, string) jsmap \<Rightarrow> json option \<Rightarrow> bool"
  iw_served :: "string \<Rightarrow> string \<Rightarrow> string \<Rightarrow> bool"

definition served_keys :: "install_world \<Rightarrow> (string \<Rightarrow> string \<Rightarrow> string + string) \<Rightarrow> bool" where
  "served_keys w keys \<longleftrightarrow> (\<forall>uri kid pem. keys uri kid = Inr pem \<longrightarrow> iw_served w uri kid pem)"

inductive install_step ::
    "environment \<Rightarrow> (json \<Rightarrow> setup_claims option) \<Rightarrow> install_settings \<Rightarrow> install_world \<Rightarrow> install_state \<Rightarrow> install_state \<Rightarrow> bool"
  for env schema cfg w where
  Accept: "in_phases s i = Idle \<Longrightarrow> iw_sent w headers body \<Longrightarrow> install_step env schema cfg w s (accept_install env cfg i headers body s)"
| Verified: "in_phases s i = Verifying rq cp \<Longrightarrow> served_keys w keys \<Longrightarrow>
    install_step env schema cfg w s (finish_verification (env\<lparr>en_jwks := keys, en_now := now\<rparr>) schema h i s)"
| Redeemed: "in_phases s i = Redeeming rq cp c \<Longrightarrow> install_step env schema cfg w s (finish_redeem h i out s)"
| Connected: "in_phases s i = Connecting cp key \<Longrightarrow> install_step env schema cfg w s (finish_connect i result s)"
| Restart: "install_step env schema cfg w s (restart_install cfg (in_stored s))"

inductive_cases install_stepE: "install_step env schema cfg w s s'"

abbreviation install_steps ::
    "environment \<Rightarrow> (json \<Rightarrow> setup_claims option) \<Rightarrow> install_settings \<Rightarrow> install_world \<Rightarrow> install_state \<Rightarrow> install_state \<Rightarrow> bool" where
  "install_steps env schema cfg w \<equiv> (install_step env schema cfg w)\<^sup>*\<^sup>*"

section \<open>Lemmas\<close>

definition is_verifying :: "phase \<Rightarrow> bool" where
  "is_verifying p \<longleftrightarrow> (case p of Verifying rq cp \<Rightarrow> True | _ \<Rightarrow> False)"

definition is_owner :: "phase \<Rightarrow> bool" where
  "is_owner p \<longleftrightarrow> (case p of Redeeming rq cp c \<Rightarrow> True | Connecting cp k \<Rightarrow> True | _ \<Rightarrow> False)"

lemma verifying_iff: "is_verifying p \<longleftrightarrow> (\<exists>rq cp. p = Verifying rq cp)"
  by (cases p) (simp_all add: is_verifying_def)

definition verifying :: "install_state \<Rightarrow> nat set" where
  "verifying s = {i. is_verifying (in_phases s i)}"

definition owners :: "install_state \<Rightarrow> nat set" where
  "owners s = {i. is_owner (in_phases s i)}"

lemma phase_kind [simp]:
  "is_verifying (Verifying rq cp)" "\<not> is_verifying Idle" "\<not> is_verifying (Redeeming rq cp c)"
  "\<not> is_verifying (Connecting cp k)" "\<not> is_verifying (Done r)"
  "\<not> is_owner (Verifying rq cp)" "\<not> is_owner Idle" "is_owner (Redeeming rq cp c)"
  "is_owner (Connecting cp k)" "\<not> is_owner (Done r)"
  by (simp_all add: is_verifying_def is_owner_def)

lemma set_phase_sel [simp]:
  "in_phases (set_phase i p s) = (in_phases s)(i := p)" "in_stored (set_phase i p s) = in_stored s"
  "in_cp_url (set_phase i p s) = in_cp_url s" "in_api_key (set_phase i p s) = in_api_key s"
  "in_setup_mode (set_phase i p s) = in_setup_mode s" "in_verifications (set_phase i p s) = in_verifications s"
  "in_busy (set_phase i p s) = in_busy s"
  by (simp_all add: set_phase_def)

lemma answer_sel [simp]:
  "in_phases (answer i r s) = (in_phases s)(i := Done r)" "in_stored (answer i r s) = in_stored s"
  "in_cp_url (answer i r s) = in_cp_url s" "in_api_key (answer i r s) = in_api_key s"
  "in_verifications (answer i r s) = in_verifications s" "in_busy (answer i r s) = in_busy s"
  by (simp_all add: answer_def)

lemma release_sel [simp]:
  "in_phases (release i r s) = (in_phases s)(i := Done r)" "in_stored (release i r s) = in_stored s"
  "in_cp_url (release i r s) = in_cp_url s" "in_api_key (release i r s) = in_api_key s"
  "in_verifications (release i r s) = in_verifications s" "in_busy (release i r s) = False"
  by (simp_all add: release_def)

text \<open>The sections read as: a new phase for request \<open>i\<close>, a change of the verification count, and a
  change of the trusted state by the owner only.\<close>

lemma commit_install_shape:
  obtains p where
    "in_phases (commit_install h i replay cp c b s) = (in_phases s)(i := p)" "\<not> is_verifying p"
    "\<forall>rq cp' c'. p \<noteq> Redeeming rq cp' c'"
    "in_verifications (commit_install h i replay cp c b s) = in_verifications s"
    "in_busy (commit_install h i replay cp c b s) = (in_busy s \<and> is_owner p)"
    "in_stored (commit_install h i replay cp c b s) = in_stored s \<and> in_cp_url (commit_install h i replay cp c b s) = in_cp_url s \<or>
     truthy (rb_api_key b) \<and> in_cp_url (commit_install h i replay cp c b s) = Some cp \<and>
     in_stored (commit_install h i replay cp c b s) = (if replay then in_stored s else paired_state h cp c b (in_stored s))"
  by (rule that [of "in_phases (commit_install h i replay cp c b s) i"])
     (auto simp: commit_install_def Let_def)

lemma admit_install_room:
  "admit_install parse s rq = Inr cp \<Longrightarrow> in_verifications s < 4 \<and> normalize_control_plane_url parse (iq_cp_url rq) = Inr cp"
  by (auto simp: admit_install_def max_verifications_def split: sum.splits if_splits bool.splits)

text \<open>The request that headers and body make: its token, the control plane it names in canonical
  form, and the address it was sent to.\<close>

definition install_request_of ::
    "(string \<Rightarrow> url option) \<Rightarrow> install_settings \<Rightarrow> (string, string) jsmap \<Rightarrow> json option \<Rightarrow> install_request \<Rightarrow> string \<Rightarrow> bool" where
  "install_request_of parse cfg headers body rq cp \<longleftrightarrow>
     install_payload body = Inr (iq_token rq, iq_cp_url rq) \<and> iq_own_url rq = derive_own_url cfg headers \<and>
     normalize_control_plane_url parse (iq_cp_url rq) = Inr cp"

lemma accept_install_shape:
  obtains p where
    "in_phases (accept_install env cfg i headers body s) = (in_phases s)(i := p)" "\<not> is_owner p"
    "in_stored (accept_install env cfg i headers body s) = in_stored s"
    "in_cp_url (accept_install env cfg i headers body s) = in_cp_url s"
    "in_busy (accept_install env cfg i headers body s) = in_busy s"
    "in_verifications (accept_install env cfg i headers body s) =
       (if is_verifying p then in_verifications s + 1 else in_verifications s)"
    "is_verifying p \<Longrightarrow> in_verifications s < 4"
    "\<forall>rq cp. p = Verifying rq cp \<longrightarrow> install_request_of (en_parse_url env) cfg headers body rq cp"
proof -
  have "(\<exists>r. accept_install env cfg i headers body s = set_phase i (Done r) s) \<or>
    (\<exists>rq cp. accept_install env cfg i headers body s = set_phase i (Verifying rq cp) (s\<lparr>in_verifications := in_verifications s + 1\<rparr>) \<and>
       in_verifications s < 4 \<and> install_request_of (en_parse_url env) cfg headers body rq cp)"
  proof (cases "install_payload body")
    case (Inr tu)
    obtain token url where tu: "tu = (token, url)" by (cases tu)
    let ?rq = "\<lparr>iq_token = token, iq_cp_url = url, iq_own_url = derive_own_url cfg headers\<rparr>"
    show ?thesis
    proof (cases "admit_install (en_parse_url env) s ?rq")
      case (Inl e)
      then show ?thesis using Inr by (auto simp: accept_install_def \<open>install_payload body = Inr tu\<close> tu)
    next
      case (Inr cp)
      have "install_request_of (en_parse_url env) cfg headers body ?rq cp"
        using admit_install_room [OF Inr] \<open>install_payload body = Inr tu\<close> by (simp add: install_request_of_def tu)
      moreover have "accept_install env cfg i headers body s = set_phase i (Verifying ?rq cp) (s\<lparr>in_verifications := in_verifications s + 1\<rparr>)"
        using Inr \<open>install_payload body = Inr tu\<close> by (simp add: accept_install_def tu)
      ultimately show ?thesis using admit_install_room [OF Inr] by blast
    qed
  qed (auto simp: accept_install_def)
  then consider (answered) r where "accept_install env cfg i headers body s = set_phase i (Done r) s"
    | (admitted) rq cp where "accept_install env cfg i headers body s = set_phase i (Verifying rq cp) (s\<lparr>in_verifications := in_verifications s + 1\<rparr>)"
        "in_verifications s < 4" "install_request_of (en_parse_url env) cfg headers body rq cp"
    by blast
  then show thesis
  proof cases
    case answered then show ?thesis by (intro that [of "Done r"]) simp_all
  next
    case admitted then show ?thesis by (intro that [of "Verifying rq cp"]) simp_all
  qed
qed

definition known_request :: "(string \<Rightarrow> url option) \<Rightarrow> install_settings \<Rightarrow> install_world \<Rightarrow> install_request \<Rightarrow> string \<Rightarrow> bool" where
  "known_request parse cfg w rq cp \<longleftrightarrow> (\<exists>headers body. iw_sent w headers body \<and> install_request_of parse cfg headers body rq cp)"

definition vetted_claims ::
    "environment \<Rightarrow> (json \<Rightarrow> setup_claims option) \<Rightarrow> install_settings \<Rightarrow> install_world \<Rightarrow> install_request \<Rightarrow> string \<Rightarrow>
     setup_claims \<Rightarrow> bool" where
  "vetted_claims env schema cfg w rq cp c \<longleftrightarrow>
     (\<exists>keys now. served_keys w keys \<and> verify_install (env\<lparr>en_jwks := keys, en_now := now\<rparr>) schema rq cp = Some c) \<and>
     (su_cp_jwks_uri c = [] \<or> su_cp_jwks_uri c = jwks_uri_of cp) \<and> known_request (en_parse_url env) cfg w rq cp"

lemma finish_verification_shape:
  assumes "in_phases s i = Verifying rq cp"
  obtains p where
    "in_phases (finish_verification (env\<lparr>en_jwks := keys, en_now := now\<rparr>) schema h i s) = (in_phases s)(i := p)" "\<not> is_verifying p"
    "in_verifications (finish_verification (env\<lparr>en_jwks := keys, en_now := now\<rparr>) schema h i s) = in_verifications s - 1"
    "in_busy (finish_verification (env\<lparr>en_jwks := keys, en_now := now\<rparr>) schema h i s) = (in_busy s \<or> is_owner p)"
    "is_owner p \<Longrightarrow> \<not> in_busy s"
    "in_stored (finish_verification (env\<lparr>en_jwks := keys, en_now := now\<rparr>) schema h i s) = in_stored s"
    "in_cp_url (finish_verification (env\<lparr>en_jwks := keys, en_now := now\<rparr>) schema h i s) = in_cp_url s \<or>
     in_cp_url (finish_verification (env\<lparr>en_jwks := keys, en_now := now\<rparr>) schema h i s) = Some cp \<and>
       bo_cp_url (in_stored s) = Some cp \<and> \<not> in_busy s \<and> foreign_control_plane (en_parse_url env) (in_cp_url s) cp = Inr False"
    "\<forall>rq' cp' c'. p = Redeeming rq' cp' c' \<longrightarrow>
       (served_keys w keys \<longrightarrow> known_request (en_parse_url env) cfg w rq cp \<longrightarrow> vetted_claims env schema cfg w rq' cp' c') \<and>
       in_cp_url (finish_verification (env\<lparr>en_jwks := keys, en_now := now\<rparr>) schema h i s) = in_cp_url s \<and>
       foreign_control_plane (en_parse_url env) (in_cp_url s) cp' = Inr False"
proof -
  let ?env = "env\<lparr>en_jwks := keys, en_now := now\<rparr>"
  let ?s1 = "s\<lparr>in_verifications := in_verifications s - 1\<rparr>"
  show thesis
  proof (cases "verify_install ?env schema rq cp")
    case None
    then show ?thesis using assms(1) by (intro that [of "Done Token_invalid"]) (simp_all add: finish_verification_def Let_def)
  next
    case (Some c)
    show ?thesis
    proof (cases "su_cp_jwks_uri c \<noteq> [] \<and> su_cp_jwks_uri c \<noteq> jwks_uri_of cp")
      case True
      then show ?thesis using assms(1) Some
        by (intro that [of "Done Token_mismatch"]) (simp_all add: finish_verification_def Let_def)
    next
      case False
      then have v: "served_keys w keys \<Longrightarrow> known_request (en_parse_url env) cfg w rq cp \<Longrightarrow> vetted_claims env schema cfg w rq cp c"
        using Some unfolding vetted_claims_def by blast
      consider (err) e where "foreign_control_plane (en_parse_url env) (in_cp_url s) cp = Inl e"
        | (foreign) "foreign_control_plane (en_parse_url env) (in_cp_url s) cp = Inr True"
        | (busy) "foreign_control_plane (en_parse_url env) (in_cp_url s) cp = Inr False" "in_busy s"
        | (go) "foreign_control_plane (en_parse_url env) (in_cp_url s) cp = Inr False" "\<not> in_busy s"
        by (metis (full_types) sum.exhaust)
      then show ?thesis
      proof cases
        case err
        then show ?thesis using assms(1) Some False
          by (intro that [of "Done (Install_failed e)"]) (auto simp: finish_verification_def Let_def)
      next
        case foreign
        then show ?thesis using assms(1) Some False
          by (intro that [of "Done Control_plane_mismatch"]) (auto simp: finish_verification_def Let_def)
      next
        case busy
        then show ?thesis using assms(1) Some False
          by (intro that [of "Done Already_in_progress"]) (auto simp: finish_verification_def Let_def)
      next
        case go
        let ?s2 = "?s1\<lparr>in_busy := True\<rparr>"
        show ?thesis
        proof (cases "is_replay (in_stored s) cp c")
          case True
          then have f: "finish_verification ?env schema h i s = commit_install h i True cp c (stored_body (in_stored s)) ?s2"
            using assms(1) Some False go by (auto simp: finish_verification_def Let_def)
          from True have "bo_cp_url (in_stored s) = Some cp" by (simp add: is_replay_def)
          from commit_install_shape [of h i True cp c "stored_body (in_stored s)" ?s2] obtain p where
            p: "in_phases (finish_verification ?env schema h i s) = (in_phases ?s2)(i := p)" "\<not> is_verifying p"
              "\<forall>rq cp' c'. p \<noteq> Redeeming rq cp' c'"
              "in_verifications (finish_verification ?env schema h i s) = in_verifications ?s2"
              "in_busy (finish_verification ?env schema h i s) = (in_busy ?s2 \<and> is_owner p)"
              "in_stored (finish_verification ?env schema h i s) = in_stored ?s2 \<and>
                 in_cp_url (finish_verification ?env schema h i s) = in_cp_url ?s2 \<or>
               truthy (rb_api_key (stored_body (in_stored s))) \<and> in_cp_url (finish_verification ?env schema h i s) = Some cp \<and>
                 in_stored (finish_verification ?env schema h i s) =
                   (if True then in_stored ?s2 else paired_state h cp c (stored_body (in_stored s)) (in_stored ?s2))"
            unfolding f by blast
          from p(6) have "in_stored (finish_verification ?env schema h i s) = in_stored s"
            "in_cp_url (finish_verification ?env schema h i s) = in_cp_url s \<or> in_cp_url (finish_verification ?env schema h i s) = Some cp"
            by auto
          then show ?thesis using p(1-5) go \<open>bo_cp_url (in_stored s) = Some cp\<close> by (intro that [of p]) auto
        next
          case False
          then have f: "finish_verification ?env schema h i s = set_phase i (Redeeming rq cp c) ?s2"
            using assms(1) Some \<open>\<not> (su_cp_jwks_uri c \<noteq> [] \<and> su_cp_jwks_uri c \<noteq> jwks_uri_of cp)\<close> go
            by (auto simp: finish_verification_def Let_def)
          then show ?thesis using go v by (intro that [of "Redeeming rq cp c"]) simp_all
        qed
      qed
    qed
  qed
qed

lemma finish_redeem_shape:
  assumes "in_phases s i = Redeeming rq cp c"
  obtains p where
    "in_phases (finish_redeem h i out s) = (in_phases s)(i := p)" "\<not> is_verifying p"
    "\<forall>rq cp' c'. p \<noteq> Redeeming rq cp' c'"
    "in_verifications (finish_redeem h i out s) = in_verifications s"
    "in_busy (finish_redeem h i out s) = (in_busy s \<and> is_owner p)"
    "in_stored (finish_redeem h i out s) = in_stored s \<and> in_cp_url (finish_redeem h i out s) = in_cp_url s \<or>
     (\<exists>b. truthy (rb_api_key b) \<and> in_cp_url (finish_redeem h i out s) = Some cp \<and>
       in_stored (finish_redeem h i out s) = paired_state h cp c b (in_stored s))"
proof (cases out)
  case (Redeem_throws e)
  then show ?thesis using assms by (intro that [of "Done (Install_failed e)"]) (simp_all add: finish_redeem_def)
next
  case (Redeem_refused t)
  then show ?thesis using assms by (intro that [of "Done Redeem_failed"]) (simp_all add: finish_redeem_def)
next
  case (Redeem_answer b)
  then have f: "finish_redeem h i out s = commit_install h i False cp c b s" using assms by (simp add: finish_redeem_def)
  obtain p where
    p: "in_phases (commit_install h i False cp c b s) = (in_phases s)(i := p)" "\<not> is_verifying p"
    "\<forall>rq cp' c'. p \<noteq> Redeeming rq cp' c'"
    "in_verifications (commit_install h i False cp c b s) = in_verifications s"
    "in_busy (commit_install h i False cp c b s) = (in_busy s \<and> is_owner p)"
    "in_stored (commit_install h i False cp c b s) = in_stored s \<and> in_cp_url (commit_install h i False cp c b s) = in_cp_url s \<or>
     truthy (rb_api_key b) \<and> in_cp_url (commit_install h i False cp c b s) = Some cp \<and>
     in_stored (commit_install h i False cp c b s) = (if False then in_stored s else paired_state h cp c b (in_stored s))"
    by (rule commit_install_shape)
  from p [folded f] show ?thesis by (intro that [of p]) auto
qed

lemma finish_connect_shape:
  assumes "in_phases s i = Connecting cp key"
  obtains r where
    "in_phases (finish_connect i result s) = (in_phases s)(i := Done r)"
    "in_verifications (finish_connect i result s) = in_verifications s" "\<not> in_busy (finish_connect i result s)"
    "in_stored (finish_connect i result s) = in_stored s" "in_cp_url (finish_connect i result s) = in_cp_url s"
proof -
  have "\<exists>r. finish_connect i result s = release i r s"
    using assms by (cases result) (auto simp: finish_connect_def split: bool.splits)
  then show thesis using that by auto
qed

lemma restart_install_sel [simp]:
  "in_phases (restart_install cfg st) = (\<lambda>i. Idle)" "in_verifications (restart_install cfg st) = 0"
  "\<not> in_busy (restart_install cfg st)" "in_stored (restart_install cfg st) = st"
  "ip_requires_source cfg \<Longrightarrow> in_cp_url (restart_install cfg st) = or_else (bo_cp_url st) (ip_control_plane_url cfg)"
  by (simp_all add: restart_install_def resolve_credentials_def Let_def)

lemma verifying_upd: "in_phases s' = (in_phases s)(i := p) \<Longrightarrow>
    verifying s' = (if is_verifying p then insert i (verifying s) else verifying s - {i})"
  by (auto simp: verifying_def)

lemma owners_upd: "in_phases s' = (in_phases s)(i := p) \<Longrightarrow>
    owners s' = (if is_owner p then insert i (owners s) else owners s - {i})"
  by (auto simp: owners_def)

text \<open>The counters say how many requests are where.\<close>

definition counted :: "install_state \<Rightarrow> bool" where
  "counted s \<longleftrightarrow> finite (verifying s) \<and> in_verifications s = card (verifying s) \<and> in_verifications s \<le> 4 \<and>
     (\<exists>k. owners s = (if in_busy s then {k} else {}))"

lemma counted_update:
  assumes c: "counted s" and p: "in_phases s' = (in_phases s)(i := p)"
    and v: "in_verifications s' = in_verifications s - (if is_verifying (in_phases s i) then 1 else 0) + (if is_verifying p then 1 else 0)"
    and room: "is_verifying p \<Longrightarrow> in_verifications s < 4"
    and busy: "in_busy s' = (in_busy s \<and> \<not> is_owner (in_phases s i) \<or> is_owner p)"
    and free: "is_owner p \<Longrightarrow> \<not> in_busy s \<or> is_owner (in_phases s i)"
  shows "counted s'"
proof -
  from c obtain k where k: "owners s = (if in_busy s then {k} else {})" by (auto simp: counted_def)
  have "is_owner (in_phases s i) = (i \<in> owners s)" by (simp add: owners_def)
  with k have o': "owners s' = (if in_busy s' then {if is_owner p then i else k} else {})"
    using busy free by (cases "is_owner p"; cases "in_busy s"; cases "i = k") (simp_all add: owners_upd [OF p])
  have iv: "is_verifying (in_phases s i) = (i \<in> verifying s)" by (simp add: verifying_def)
  have fin: "finite (verifying s)" "in_verifications s = card (verifying s)" "card (verifying s) \<le> 4"
    using c by (simp_all add: counted_def)
  have "card (verifying s) > 0" if "i \<in> verifying s" using that fin(1) by (auto simp: card_gt_0_iff)
  then have "in_verifications s' = card (verifying s')" "card (verifying s') \<le> 4" "finite (verifying s')"
    using fin v room iv
    by (cases "is_verifying p"; cases "i \<in> verifying s"; simp add: verifying_upd [OF p] insert_absorb)+
  with o' show ?thesis unfolding counted_def by auto
qed

lemma counted_step:
  assumes "install_step env schema cfg w s s'" and c: "counted s"
  shows "counted s'"
  using assms(1)
proof cases
  case (Accept i headers body)
  show ?thesis unfolding Accept(1)
    by (rule accept_install_shape [of env cfg i headers body s])
       (rule counted_update [OF c], assumption, simp_all add: Accept(2))
next
  case (Verified i rq cp keys now h)
  show ?thesis unfolding Verified(1)
    by (rule finish_verification_shape [OF Verified(2), where env = env and keys = keys and now = now and schema = schema and h = h])
       (rule counted_update [OF c], assumption, simp_all add: Verified(2))
next
  case (Redeemed i rq cp cl h out)
  have "i \<in> owners s" using Redeemed(2) by (simp add: owners_def)
  then have "in_busy s" using c by (auto simp: counted_def split: if_splits)
  then show ?thesis unfolding Redeemed(1)
    by (rule_tac finish_redeem_shape [OF Redeemed(2), where h = h and out = out])
       (rule counted_update [OF c], assumption, simp_all add: Redeemed(2))
next
  case (Connected i cp key result)
  show ?thesis unfolding Connected(1)
    by (rule finish_connect_shape [OF Connected(2), where result = result])
       (rule counted_update [OF c], assumption, simp_all add: Connected(2))
next
  case Restart
  then show ?thesis by (simp add: counted_def verifying_def owners_def)
qed

lemma counted_steps: "install_steps env schema cfg w s s' \<Longrightarrow> counted s \<Longrightarrow> counted s'"
  by (induction rule: rtranclp_induct) (auto intro: counted_step)

lemma counted_start: "counted (restart_install cfg st)"
  by (simp add: counted_def verifying_def owners_def)

text \<open>What a request may redeem, and where the trusted URL comes from.\<close>

definition trusted_pairing ::
    "environment \<Rightarrow> (json \<Rightarrow> setup_claims option) \<Rightarrow> install_settings \<Rightarrow> install_world \<Rightarrow> install_state \<Rightarrow> bool" where
  "trusted_pairing env schema cfg w s \<longleftrightarrow>
     (\<forall>i rq cp. in_phases s i = Verifying rq cp \<longrightarrow> known_request (en_parse_url env) cfg w rq cp) \<and>
     (\<forall>i rq cp c. in_phases s i = Redeeming rq cp c \<longrightarrow>
        vetted_claims env schema cfg w rq cp c \<and> foreign_control_plane (en_parse_url env) (in_cp_url s) cp = Inr False) \<and>
     in_cp_url s = or_else (bo_cp_url (in_stored s)) (ip_control_plane_url cfg)"

definition new_pairing ::
    "environment \<Rightarrow> (json \<Rightarrow> setup_claims option) \<Rightarrow> install_settings \<Rightarrow> install_world \<Rightarrow> install_state \<Rightarrow> bootstrap_state \<Rightarrow> bool" where
  "new_pairing env schema cfg w s st \<longleftrightarrow>
     (\<exists>rq cp c h b. vetted_claims env schema cfg w rq cp c \<and> truthy (rb_api_key b) \<and>
        foreign_control_plane (en_parse_url env) (in_cp_url s) cp = Inr False \<and> st = paired_state h cp c b (in_stored s))"

lemma no_owner: "counted s \<Longrightarrow> \<not> in_busy s \<Longrightarrow> \<not> is_owner (in_phases s i)"
  by (auto simp: counted_def owners_def)

lemma sole_owner: "counted s \<Longrightarrow> is_owner (in_phases s i) \<Longrightarrow> is_owner (in_phases s j) \<Longrightarrow> j = i"
  by (auto simp: counted_def owners_def set_eq_iff split: if_splits)

lemma trusted_pairing_step:
  assumes "install_step env schema cfg w s s'" and c: "counted s" and t: "trusted_pairing env schema cfg w s"
    and src: "ip_requires_source cfg"
  shows "trusted_pairing env schema cfg w s' \<and> (in_stored s' = in_stored s \<or> new_pairing env schema cfg w s (in_stored s')) \<and>
    (in_cp_url s' = in_cp_url s \<or>
     (\<exists>cp. in_cp_url s' = Some cp \<and> foreign_control_plane (en_parse_url env) (in_cp_url s) cp = Inr False))"
  using assms(1)
proof cases
  case (Accept i headers body)
  show ?thesis unfolding Accept(1)
    by (rule accept_install_shape [of env cfg i headers body s])
       (use t Accept(3) in \<open>auto simp: trusted_pairing_def known_request_def\<close>)
next
  case (Verified i rq cp keys now h)
  show ?thesis unfolding Verified(1)
  proof (rule finish_verification_shape [OF Verified(2), where env = env and keys = keys and now = now and schema = schema and h = h and cfg = cfg and w = w],
      goal_cases)
    case (1 p)
    let ?s' = "finish_verification (env\<lparr>en_jwks := keys, en_now := now\<rparr>) schema h i s"
    have st: "in_stored ?s' = in_stored s" by fact
    have url: "in_cp_url ?s' = or_else (bo_cp_url (in_stored s)) (ip_control_plane_url cfg)"
      using 1(7) t by (auto simp: trusted_pairing_def)
    have "vetted_claims env schema cfg w rq' cp' c' \<and> foreign_control_plane (en_parse_url env) (in_cp_url ?s') cp' = Inr False"
      if r: "in_phases ?s' j = Redeeming rq' cp' c'" for j rq' cp' c'
    proof (cases "j = i")
      case True
      with r 1(1) have "p = Redeeming rq' cp' c'" by simp
      moreover have "known_request (en_parse_url env) cfg w rq cp" using t Verified(2) by (simp add: trusted_pairing_def)
      ultimately show ?thesis using 1(8) Verified(3) by simp
    next
      case False
      with r 1(1) have j: "in_phases s j = Redeeming rq' cp' c'" by simp
      then have "in_busy s" using no_owner [OF c, of j] by auto
      then have "in_cp_url ?s' = in_cp_url s" using 1(7) by auto
      then show ?thesis using j t by (auto simp: trusted_pairing_def)
    qed
    moreover have "known_request (en_parse_url env) cfg w rq' cp'" if r: "in_phases ?s' j = Verifying rq' cp'" for j rq' cp'
      using r 1(1,2) t by (cases "j = i") (auto simp: trusted_pairing_def)
    ultimately show ?case using st url 1(7) by (auto simp: trusted_pairing_def)
  qed
next
  case (Redeemed i rq cp cl h out)
  have v: "vetted_claims env schema cfg w rq cp cl" "foreign_control_plane (en_parse_url env) (in_cp_url s) cp = Inr False"
    using t Redeemed(2) by (auto simp: trusted_pairing_def)
  show ?thesis unfolding Redeemed(1)
  proof (rule finish_redeem_shape [OF Redeemed(2), where h = h and out = out], goal_cases)
    case (1 p)
    have "in_phases (finish_redeem h i out s) j \<noteq> Redeeming rq' cp' c'" for j rq' cp' c'
      using 1(1,3) sole_owner [OF c, of i j] Redeemed(2) by (cases "j = i") auto
    moreover have "known_request (en_parse_url env) cfg w rq' cp'" if "in_phases (finish_redeem h i out s) j = Verifying rq' cp'" for j rq' cp'
      using that 1(1,2) t by (cases "j = i") (auto simp: trusted_pairing_def)
    moreover have "new_pairing env schema cfg w s (paired_state h cp cl b (in_stored s))" if "truthy (rb_api_key b)" for b
      using that v unfolding new_pairing_def by blast
    ultimately show ?case using 1(6) t v by (auto simp: trusted_pairing_def paired_state_def)
  qed
next
  case (Connected i cp key result)
  show ?thesis unfolding Connected(1)
    by (rule finish_connect_shape [OF Connected(2), where result = result]) (use t in \<open>auto simp: trusted_pairing_def\<close>)
next
  case Restart
  then show ?thesis using src t by (auto simp: trusted_pairing_def)
qed

lemma trusted_start: "ip_requires_source cfg \<Longrightarrow> trusted_pairing env schema cfg w (restart_install cfg st)"
  by (simp add: trusted_pairing_def)

lemma reachable_install:
  assumes "install_steps env schema cfg w (restart_install cfg st) s" "ip_requires_source cfg"
  shows "counted s \<and> trusted_pairing env schema cfg w s"
  using assms(1)
proof (induction rule: rtranclp_induct)
  case base
  then show ?case using assms(2) by (simp add: counted_start trusted_start)
next
  case (step s s')
  then show ?case using counted_step trusted_pairing_step assms(2) by blast
qed

lemma further_install:
  assumes "install_steps env schema cfg w s s'" "counted s" "trusted_pairing env schema cfg w s" "ip_requires_source cfg"
  shows "counted s' \<and> trusted_pairing env schema cfg w s'"
  using assms(1)
  by (induction rule: rtranclp_induct) (use assms(2-4) counted_step trusted_pairing_step in blast)+

section \<open>Properties\<close>

text \<open>
  C30: however requests and restarts interleave, the count that bounds concurrent token verifications
  is the number of requests verifying, never more than four, and the pairing guard is held exactly
  when one request is redeeming or connecting: at most one pairing runs at a time.
\<close>

theorem pairing_guards_hold:
  assumes "install_steps env schema cfg w (restart_install cfg st) s"
  shows "in_verifications s = card {i. \<exists>rq cp. in_phases s i = Verifying rq cp} \<and> in_verifications s \<le> 4 \<and>
    (in_busy s \<longleftrightarrow> (\<exists>i. is_owner (in_phases s i))) \<and>
    (\<forall>i j. is_owner (in_phases s i) \<longrightarrow> is_owner (in_phases s j) \<longrightarrow> i = j)"
proof -
  have c: "counted s" using counted_steps [OF assms counted_start] .
  have "{i. \<exists>rq cp. in_phases s i = Verifying rq cp} = verifying s"
    by (simp add: verifying_def verifying_iff)
  moreover have "in_busy s \<longleftrightarrow> (\<exists>i. is_owner (in_phases s i))"
    using c by (auto simp: counted_def owners_def set_eq_iff split: if_splits)
  ultimately show ?thesis using c sole_owner [OF c] by (metis counted_def)
qed

text \<open>
  C31: once a service trusts a control plane, given by its configuration or by an earlier pairing,
  no request makes it trust another: every later state names the same URL, every setup token is
  redeemed there, and so is every pairing stored.
\<close>

theorem control_plane_pinned:
  assumes "install_steps env schema cfg w (restart_install cfg st) s" "install_steps env schema cfg w s s'"
    and "ip_requires_source cfg" "in_cp_url s = Some u" "u \<noteq> []" "normalize_control_plane_url (en_parse_url env) u = Inr u"
  shows "in_cp_url s' = Some u \<and> (\<forall>i rq cp c. in_phases s' i = Redeeming rq cp c \<longrightarrow> cp = u) \<and>
    (bo_cp_url (in_stored s') = bo_cp_url (in_stored s) \<or> bo_cp_url (in_stored s') = Some u)"
proof -
  have foreign: "foreign_control_plane (en_parse_url env) (Some u) cp = Inr False \<longleftrightarrow> cp = u" for cp
    using assms(5,6) by (auto simp: foreign_control_plane_def truthy_def)
  note r = reachable_install [OF assms(1,3)]
  have "in_cp_url s' = Some u \<and> counted s' \<and> trusted_pairing env schema cfg w s' \<and>
    (bo_cp_url (in_stored s') = bo_cp_url (in_stored s) \<or> bo_cp_url (in_stored s') = Some u)"
    using assms(2)
  proof (induction rule: rtranclp_induct)
    case base
    then show ?case using r assms(4) by blast
  next
    case (step a b)
    note eff = trusted_pairing_step [OF step(2) _ _ assms(3)]
    have "in_stored b = in_stored a \<or> bo_cp_url (in_stored b) = Some u"
      using eff step(3) by (auto simp: new_pairing_def paired_state_def foreign)
    then show ?case using eff step(3) counted_step [OF step(2)] by (auto simp: foreign)
  qed
  then show ?thesis by (auto simp: trusted_pairing_def foreign)
qed

lemma verify_install_Some:
  "verify_install env schema rq cp = Some c \<longleftrightarrow>
     verify_setup_token schema (en_jwt env) (setup_options env cp) (iq_token rq) = Inr c \<and>
     addressed_to (en_parse_url env) (su_service_url c) (iq_own_url rq)"
  by (auto simp: verify_install_def split: sum.splits if_splits)

lemma vetted_signed:
  assumes "vetted_claims env schema cfg w rq cp c"
  obtains headers body url kid pem claims where
    "iw_sent w headers body" "install_payload body = Inr (iq_token rq, url)" "normalize_control_plane_url (en_parse_url env) url = Inr cp"
    "iw_served w (jwks_uri_of cp) kid pem"
    "lib_verify (en_jwt env) (iq_token rq) pem \<lparr>ck_issuer = Some cp, ck_audience = None, ck_tolerance = 0\<rparr> = Inr claims"
    "header_field claims ''tokenType'' = Some (JStr ''setup'')" "schema claims = Some c"
    "addressed_to (en_parse_url env) (su_service_url c) (derive_own_url cfg headers)"
proof -
  obtain keys now where served: "served_keys w keys"
    and v: "verify_setup_token schema (en_jwt env) (setup_options (env\<lparr>en_jwks := keys, en_now := now\<rparr>) cp) (iq_token rq) = Inr c"
    and a: "addressed_to (en_parse_url env) (su_service_url c) (iq_own_url rq)"
    using assms unfolding vetted_claims_def verify_install_Some by force
  obtain headers body where r: "iw_sent w headers body" "install_request_of (en_parse_url env) cfg headers body rq cp"
    using assms unfolding vetted_claims_def known_request_def by blast
  from v obtain claims where
    t: "verify_typed_token (en_jwt env) (setup_options (env\<lparr>en_jwks := keys, en_now := now\<rparr>) cp) (iq_token rq) = Inr claims"
    and k: "header_field claims ''tokenType'' = Some (JStr ''setup'')" "schema claims = Some c"
    by (auto simp: verify_setup_token_def verify_envelope_of_def guard_simps split: option.splits)
  from t have "verified_claims (en_jwt env) envelope_header (Jwks (keys (jwks_uri_of cp)))
      \<lparr>ck_issuer = Some cp, ck_audience = None, ck_tolerance = 0\<rparr> (iq_token rq) = Inr claims"
    by (simp add: verify_typed_token_def setup_options_def tolerance_of_def)
  then obtain kid pem where f: "find_key (Jwks (keys (jwks_uri_of cp))) kid = Inr pem"
    and l: "lib_verify (en_jwt env) (iq_token rq) pem \<lparr>ck_issuer = Some cp, ck_audience = None, ck_tolerance = 0\<rparr> = Inr claims"
    by (rule verified_claimsD)
  from f have "keys (jwks_uri_of cp) kid = Inr pem"
    by (cases "keys (jwks_uri_of cp) kid") (simp_all add: find_key_def)
  then have "iw_served w (jwks_uri_of cp) kid pem" using served unfolding served_keys_def by blast
  with r a k l show thesis by (intro that) (auto simp: install_request_of_def)
qed

text \<open>
  C29: the stored pairing is the one the process started with, or it stems from a request a client
  sent whose setup token was signed with a key that the key set address of the control plane it
  names has served: a setup token of that control plane as issuer, for the very address the
  request was sent to (its \<open>Host\<close> and \<open>X-Forwarded-Proto\<close> headers). A service that
  needs no configuration source registers no install endpoint.
\<close>

theorem stored_pairing_vetted:
  assumes "install_steps env schema cfg w (restart_install cfg st) s" "ip_requires_source cfg"
  shows "in_stored s = st \<or>
    (\<exists>headers body token url cp c kid pem claims.
       iw_sent w headers body \<and> install_payload body = Inr (token, url) \<and> normalize_control_plane_url (en_parse_url env) url = Inr cp \<and>
       iw_served w (cp @ ''/.well-known/jwks.json'') kid pem \<and>
       lib_verify (en_jwt env) token pem \<lparr>ck_issuer = Some cp, ck_audience = None, ck_tolerance = 0\<rparr> = Inr claims \<and>
       header_field claims ''tokenType'' = Some (JStr ''setup'') \<and> schema claims = Some c \<and>
       addressed_to (en_parse_url env) (su_service_url c) (derive_own_url cfg headers) \<and>
       (su_cp_jwks_uri c = [] \<or> su_cp_jwks_uri c = cp @ ''/.well-known/jwks.json'') \<and>
       bo_cp_url (in_stored s) = Some cp \<and> bo_installation (in_stored s) = Some (installation_of cp c) \<and>
       truthy (bo_api_key (in_stored s)))"
  using assms(1)
proof (induction rule: rtranclp_induct)
  case base
  then show ?case by simp
next
  case (step a b)
  have "counted a" "trusted_pairing env schema cfg w a" using reachable_install [OF step(1) assms(2)] by auto
  then consider "in_stored b = in_stored a" | "new_pairing env schema cfg w a (in_stored b)"
    using trusted_pairing_step [OF step(2) _ _ assms(2)] by blast
  then show ?case
  proof cases
    case 2
    then obtain rq cp c h body where p: "vetted_claims env schema cfg w rq cp c" "truthy (rb_api_key body)"
      "in_stored b = paired_state h cp c body (in_stored a)"
      unfolding new_pairing_def by blast
    then have st: "bo_cp_url (in_stored b) = Some cp" "bo_installation (in_stored b) = Some (installation_of cp c)"
      "truthy (bo_api_key (in_stored b))" "su_cp_jwks_uri c = [] \<or> su_cp_jwks_uri c = jwks_uri_of cp"
      by (auto simp: paired_state_def vetted_claims_def)
    show ?thesis
      by (rule vetted_signed [OF p(1)], rule disjI2) (use st [unfolded jwks_uri_of_def] in \<open>unfold jwks_uri_of_def, blast\<close>)
  qed (use step(3) in simp)
qed

text \<open>
  Pairing again never loses what the local files are encrypted with: once an encryption key
  is stored it stays, over any number of installs and restarts, and so does the tenant lock.
\<close>

theorem encryption_key_survives:
  assumes "install_steps env schema cfg w (restart_install cfg st) s" "install_steps env schema cfg w s s'"
    and "ip_requires_source cfg" "bo_config_encryption_key (in_stored s) = Some k"
  shows "bo_config_encryption_key (in_stored s') = Some k \<and> bo_tenant_lock (in_stored s') = bo_tenant_lock (in_stored s)"
  using assms(2)
proof (induction rule: rtranclp_induct)
  case base
  then show ?case using assms(4) by simp
next
  case (step a b)
  have "counted a" "trusted_pairing env schema cfg w a"
    using reachable_install [OF rtranclp_trans [OF assms(1) step(1)] assms(3)] by auto
  then have "in_stored b = in_stored a \<or> new_pairing env schema cfg w a (in_stored b)"
    using trusted_pairing_step [OF step(2) _ _ assms(3)] by blast
  then show ?case using step(3) by (auto simp: new_pairing_def paired_state_def encryption_key_def)
qed

text \<open>One install whose sections run with nothing in between, up to a successful first sync.\<close>

definition uninterrupted_install ::
    "environment \<Rightarrow> (json \<Rightarrow> setup_claims option) \<Rightarrow> install_settings \<Rightarrow> install_host \<Rightarrow> redeem_body \<Rightarrow> nat \<Rightarrow>
     (string, string) jsmap \<Rightarrow> json option \<Rightarrow> install_state \<Rightarrow> install_state" where
  "uninterrupted_install env schema cfg h b i headers body s =
     finish_connect i (Synced True) (finish_redeem h i (Redeem_answer b)
       (finish_verification env schema h i (accept_install env cfg i headers body s)))"

lemma accept_admits:
  assumes "install_payload body = Inr (token, url)" "normalize_control_plane_url (en_parse_url env) url = Inr cp"
    and "foreign_control_plane (en_parse_url env) (in_cp_url s) cp = Inr False" "in_verifications s < 4"
  shows "accept_install env cfg i headers body s =
    set_phase i (Verifying \<lparr>iq_token = token, iq_cp_url = url, iq_own_url = derive_own_url cfg headers\<rparr> cp)
      (s\<lparr>in_verifications := in_verifications s + 1\<rparr>)"
  using assms by (simp add: accept_install_def admit_install_def max_verifications_def Let_def)

text \<open>
  C31: a service that trusts no other control plane and is not pairing completes an install whose
  token verifies and is redeemed: it answers 200, holds the new pairing and is free again; and the
  same request sent once more is answered from the stored pairing, with the same key and without
  redeeming the token a second time.
\<close>

theorem install_completes:
  assumes body: "install_payload body = Inr (token, url)" "normalize_control_plane_url (en_parse_url env) url = Inr cp"
    and canonical: "normalize_control_plane_url (en_parse_url env) cp = Inr cp" "cp \<noteq> []"
    and free: "foreign_control_plane (en_parse_url env) (in_cp_url s) cp = Inr False" "in_verifications s < 4" "\<not> in_busy s"
    and token: "verify_install env schema \<lparr>iq_token = token, iq_cp_url = url, iq_own_url = derive_own_url cfg headers\<rparr> cp = Some c"
      "su_cp_jwks_uri c = jwks_uri_of cp" "\<not> is_replay (in_stored s) cp c"
    and host: "rb_api_key b = Some key" "key \<noteq> []" "ho_disk_ok h" "ho_identity_ok h"
    and run: "s1 = uninterrupted_install env schema cfg h b i headers body s"
  shows "in_phases s1 i = Done (Install_ok key cp) \<and> in_stored s1 = paired_state h cp c b (in_stored s) \<and>
    in_api_key s1 = Some key \<and> \<not> in_busy s1 \<and> in_verifications s1 = in_verifications s \<and>
    (let s2 :: install_state = finish_verification env schema h j (accept_install env cfg j headers body s1)
     in in_phases s2 j = Connecting cp key \<and> in_stored s2 = in_stored s1 \<and>
        in_phases (finish_connect j (Synced True) s2) j = Done (Install_ok key cp))"
proof -
  let ?rq = "\<lparr>iq_token = token, iq_cp_url = url, iq_own_url = derive_own_url cfg headers\<rparr>"
  have v: "finish_verification env schema h i (accept_install env cfg i headers body s) =
      set_phase i (Redeeming ?rq cp c) ((set_phase i (Verifying ?rq cp) (s\<lparr>in_verifications := in_verifications s + 1\<rparr>))
        \<lparr>in_verifications := in_verifications s, in_busy := True\<rparr>)"
    using free token by (simp add: accept_admits [OF body free(1,2)] finish_verification_def Let_def)
  have s1: "in_phases s1 i = Done (Install_ok key cp)" "in_stored s1 = paired_state h cp c b (in_stored s)"
    "in_api_key s1 = Some key" "\<not> in_busy s1" "in_verifications s1 = in_verifications s" "in_cp_url s1 = Some cp"
    using host by (simp_all add: run uninterrupted_install_def v finish_redeem_def commit_install_def finish_connect_def Let_def)
  have r: "is_replay (in_stored s1) cp c"
    using host by (simp add: s1(2) is_replay_def paired_state_def installation_of_def)
  have f: "foreign_control_plane (en_parse_url env) (in_cp_url s1) cp = Inr False"
    using canonical by (simp add: s1(6) foreign_control_plane_def truthy_def)
  have k: "rb_api_key (stored_body (paired_state h cp c b (in_stored s))) = Some key"
    using host by (simp add: stored_body_def paired_state_def)
  have room: "in_verifications s1 < 4" using free s1(5) by simp
  have "in_phases (finish_verification env schema h j (accept_install env cfg j headers body s1)) j = Connecting cp key"
    "in_stored (finish_verification env schema h j (accept_install env cfg j headers body s1)) = in_stored s1"
    using token(1,2) s1 f r host
    by (simp_all add: accept_admits [OF body f room] finish_verification_def commit_install_def k Let_def)
  then show ?thesis using s1 by (simp add: Let_def finish_connect_def)
qed

section \<open>Applications\<close>

definition sample_setup_claims :: setup_claims where
  "sample_setup_claims = \<lparr>su_iss = ''https://cp.test'', su_exp = 200, su_iat = 100, su_jti = ''j'', su_instance_id = ''s1'',
     su_service_url = ''https://svc.test'', su_cp_url = ''https://cp.test'',
     su_cp_jwks_uri = ''https://cp.test/.well-known/jwks.json'', su_scope = None\<rparr>"

definition sample_setup_library :: jwt_library where
  "sample_setup_library = sample_library\<lparr>lib_verify :=
     (\<lambda>t pem ck. if t = ''h.p.s'' \<and> pem = ''pem'' \<and> ck_issuer ck = Some ''https://cp.test''
        then Inr (JObj [(''tokenType'', JStr ''setup'')]) else Inl ''bad'')\<rparr>"

definition sample_install_env :: environment where
  "sample_install_env = sample_env\<lparr>en_jwt := sample_setup_library,
     en_jwks := (\<lambda>uri kid. if uri = ''https://cp.test/.well-known/jwks.json'' then Inr ''pem'' else Inl ''offline'')\<rparr>"

definition sample_install_settings :: install_settings where
  "sample_install_settings = \<lparr>ip_requires_source = True, ip_control_plane_url = Some ''https://cp.test'',
     ip_service_api_key = None, ip_host = ''svc.test'', ip_port = ''443''\<rparr>"

definition sample_install_headers :: "(string, string) jsmap" where
  "sample_install_headers = [(''host'', ''svc.test''), (''x-forwarded-proto'', ''https'')]"

definition sample_install_body :: "json option" where
  "sample_install_body = Some (JObj [(''setupToken'', JStr ''h.p.s''), (''cpUrl'', JStr ''https://cp.test/'')])"

definition sample_redeem :: redeem_body where
  "sample_redeem = \<lparr>rb_api_key = Some ''key'', rb_cp_id = None, rb_cp_jwks_uri = None\<rparr>"

definition sample_host :: install_host where
  "sample_host = \<lparr>ho_timestamp = ''now'', ho_random_key = ''r'', ho_disk_ok = True, ho_identity_ok = True\<rparr>"

abbreviation sample_setup_schema :: "json \<Rightarrow> setup_claims option" where
  "sample_setup_schema \<equiv> \<lambda>v. Some sample_setup_claims"

definition sample_start :: install_state where
  "sample_start = restart_install sample_install_settings empty_bootstrap"

definition sample_verified :: install_state where
  "sample_verified = finish_verification sample_install_env sample_setup_schema sample_host 0
     (accept_install sample_install_env sample_install_settings 0 sample_install_headers sample_install_body sample_start)"

definition sample_paired :: install_state where
  "sample_paired = finish_redeem sample_host 0 (Redeem_answer sample_redeem) sample_verified"

lemma sample_phases:
  "in_phases sample_start 0 = Idle"
  "in_phases (accept_install sample_install_env sample_install_settings 0 sample_install_headers sample_install_body sample_start) 0 =
     Verifying \<lparr>iq_token = ''h.p.s'', iq_cp_url = ''https://cp.test/'', iq_own_url = ''https://svc.test''\<rparr> ''https://cp.test''"
  "in_phases sample_verified 0 =
     Redeeming \<lparr>iq_token = ''h.p.s'', iq_cp_url = ''https://cp.test/'', iq_own_url = ''https://svc.test''\<rparr> ''https://cp.test'' sample_setup_claims"
  "in_busy sample_verified" "in_cp_url sample_verified = Some ''https://cp.test''"
  "in_stored sample_paired \<noteq> empty_bootstrap" "bo_config_encryption_key (in_stored sample_paired) = Some ''bp_cek_r''"
  "in_cp_url sample_paired = Some ''https://cp.test''" "bo_cp_url (in_stored sample_paired) = Some ''https://cp.test''"
  by code_simp+

text \<open>The world of the sample: any request, and the key sets as the environment answers them.\<close>

definition sample_world :: install_world where
  "sample_world = \<lparr>iw_sent = (\<lambda>headers body. True), iw_served = (\<lambda>uri kid pem. en_jwks sample_install_env uri kid = Inr pem)\<rparr>"

lemma sample_key_served: "served_keys sample_world (en_jwks sample_install_env)"
  by (simp add: served_keys_def sample_world_def)

lemma sample_steps:
  "install_steps sample_install_env sample_setup_schema sample_install_settings sample_world sample_start sample_verified"
  "install_steps sample_install_env sample_setup_schema sample_install_settings sample_world sample_verified sample_paired"
proof -
  let ?step = "install_step sample_install_env sample_setup_schema sample_install_settings sample_world"
  have "?step sample_start
      (accept_install sample_install_env sample_install_settings 0 sample_install_headers sample_install_body sample_start)"
    by (rule install_step.Accept) (rule sample_phases, simp add: sample_world_def)
  also have "?step\<^sup>*\<^sup>* \<dots> sample_verified"
  proof (rule r_into_rtranclp)
    have e: "sample_install_env\<lparr>en_jwks := en_jwks sample_install_env, en_now := en_now sample_install_env\<rparr> = sample_install_env"
      by simp
    show "?step (accept_install sample_install_env sample_install_settings 0 sample_install_headers sample_install_body sample_start)
        sample_verified"
      using install_step.Verified [OF sample_phases(2) sample_key_served, of sample_install_env sample_setup_schema sample_install_settings
          "en_now sample_install_env" sample_host] unfolding e sample_verified_def by simp
  qed
  finally show "?step\<^sup>*\<^sup>* sample_start sample_verified" .
  show "?step\<^sup>*\<^sup>* sample_verified sample_paired"
    unfolding sample_paired_def by (rule r_into_rtranclp, rule install_step.Redeemed) (rule sample_phases)
qed

lemma sample_reaches:
  "install_steps sample_install_env sample_setup_schema sample_install_settings sample_world
     (restart_install sample_install_settings empty_bootstrap) sample_paired"
  using rtranclp_trans [OF sample_steps] by (simp only: sample_start_def)

lemma sample_urls:
  "normalize_control_plane_url (en_parse_url sample_install_env) ''https://cp.test'' = Inr ''https://cp.test''"
  "normalize_control_plane_url (en_parse_url sample_install_env) ''https://cp.test/'' = Inr ''https://cp.test''"
  "install_payload sample_install_body = Inr (''h.p.s'', ''https://cp.test/'')"
  "verify_install sample_install_env sample_setup_schema
     \<lparr>iq_token = ''h.p.s'', iq_cp_url = ''https://cp.test/'', iq_own_url = derive_own_url sample_install_settings sample_install_headers\<rparr>
     ''https://cp.test'' = Some sample_setup_claims"
  "foreign_control_plane (en_parse_url sample_install_env) (in_cp_url sample_start) ''https://cp.test'' = Inr False"
  "in_verifications sample_start = 0" "\<not> in_busy sample_start"
  "\<not> is_replay (in_stored sample_start) ''https://cp.test'' sample_setup_claims"
  "su_cp_jwks_uri sample_setup_claims = jwks_uri_of ''https://cp.test''"
  by code_simp+

theorem pairing_guards_hold_witness:
  "in_busy sample_verified \<and> in_verifications sample_verified \<le> 4 \<and> (\<exists>i. is_owner (in_phases sample_verified i))"
  using pairing_guards_hold [OF sample_steps(1) [unfolded sample_start_def]] sample_phases(4) by blast

theorem stored_pairing_vetted_witness:
  "\<exists>headers c kid pem. en_jwks sample_install_env ''https://cp.test/.well-known/jwks.json'' kid = Inr pem \<and>
     addressed_to (en_parse_url sample_install_env) (su_service_url c) (derive_own_url sample_install_settings headers) \<and>
     bo_installation (in_stored sample_paired) = Some (installation_of ''https://cp.test'' c)"
proof -
  have "ip_requires_source sample_install_settings" by (simp add: sample_install_settings_def)
  note v = stored_pairing_vetted [OF sample_reaches this]
  have "in_stored sample_paired \<noteq> empty_bootstrap" "bo_cp_url (in_stored sample_paired) = Some ''https://cp.test''"
    by (rule sample_phases)+
  then obtain headers c kid pem where "iw_served sample_world (''https://cp.test'' @ ''/.well-known/jwks.json'') kid pem"
    "addressed_to (en_parse_url sample_install_env) (su_service_url c) (derive_own_url sample_install_settings headers)"
    "bo_installation (in_stored sample_paired) = Some (installation_of ''https://cp.test'' c)"
    using v by (metis option.inject)
  then show ?thesis by (intro exI [of _ headers] exI [of _ c] exI [of _ kid] exI [of _ pem]) (simp add: sample_world_def)
qed

definition sample_installed :: install_state where
  "sample_installed = uninterrupted_install sample_install_env sample_setup_schema sample_install_settings sample_host sample_redeem 0
    sample_install_headers sample_install_body sample_start"

theorem install_completes_witness:
  "in_phases sample_installed 0 = Done (Install_ok ''key'' ''https://cp.test'') \<and> \<not> in_busy sample_installed \<and>
   bo_cp_url (in_stored sample_installed) = Some ''https://cp.test''"
proof -
  have h: "rb_api_key sample_redeem = Some ''key''" "''key'' \<noteq> []" "''https://cp.test'' \<noteq> []" "ho_disk_ok sample_host"
    "ho_identity_ok sample_host" "in_verifications sample_start < 4"
    by (simp_all add: sample_redeem_def sample_host_def sample_urls(6))
  have "in_phases sample_installed 0 = Done (Install_ok ''key'' ''https://cp.test'')" "\<not> in_busy sample_installed"
    "in_stored sample_installed = paired_state sample_host ''https://cp.test'' sample_setup_claims sample_redeem (in_stored sample_start)"
    using install_completes [OF sample_urls(3,2,1) h(3) sample_urls(5) h(6) sample_urls(7,4,9,8) h(1,2,4,5) sample_installed_def, of 1]
    by blast+
  then show ?thesis by (simp add: paired_state_def)
qed

text \<open>The loopback test reads the raw text, not the parsed URL: a plain-http URL passes when the
  text between its first two separators is a loopback name, whatever host the parser finds.\<close>

lemma loopback_test_reads_raw_text:
  assumes "parse ''http:evil.test/://localhost'' = Some u" "u_protocol u = ''http:''" "u_hostname u = ''evil.test''"
    "u_username u = []" "u_password u = []" "u_search u = []" "u_hash u = []"
  shows "normalize_control_plane_url parse ''http:evil.test/://localhost'' = Inr ''http:evil.test/://localhost''"
proof -
  have "loopback_host (raw_host ''http:evil.test/://localhost'')"
    "drop_slashes (js_trim ''http:evil.test/://localhost'') = ''http:evil.test/://localhost''"
    by code_simp+
  then show ?thesis using assms by (simp add: normalize_control_plane_url_def)
qed

end
