(* ===== verification/ManagementAccess.thy ===== *)
theory ManagementAccess
  imports Install
begin

text \<open>
\<open>accessControl.ts\<close> and \<open>bootstrapAccess.ts\<close> of the config manager: the middleware in front of
  every administration and management handler. It reads the stored configuration, finds the app
  a request is about, verifies the bearer token with that app's own keys and compares the user's
  roles with what the path and the method need. The JWT library of the bootstrap token is a
  parameter. Paths are compared segment by segment, which is what the regular expressions do.
\<close>

section \<open>Requests\<close>

datatype access = Pass | Refuse nat string

text \<open>What reading the body of a request yields: an answer of its own (a bad or too large
  length), or the parsed value, \<open>None\<close> when it does not parse.\<close>

datatype body_read = Body_refused nat | Body_value "json option"

record raw_request =
  rw_path :: string
  rw_method :: string
  rw_headers :: "(string, string) jsmap"
  rw_query_app :: "string option"
  rw_body :: body_read
  rw_body_guard :: "nat option"

record cp_state =
  cs_issuer :: string
  cs_jwks_uri :: string
  cs_cp_id :: string
  cs_public_pem :: string
  cs_kid :: string

definition admin_root :: string where "admin_root = ''/.well-known/bp/admin''"
definition manage_root :: string where "manage_root = ''/.well-known/bp/manage''"
definition config_manager_id :: string where "config_manager_id = ''org.betterportal.config-manager''"

definition in_tree :: "string \<Rightarrow> string \<Rightarrow> bool" where
  "in_tree path base \<longleftrightarrow> path = base \<or> js_starts_with (base @ ''/'') path"

text \<open>A regular expression over path segments: fixed names, and \<open>[^/]+\<close>.\<close>

datatype segment = Lit string | Any

fun segments_match :: "segment list \<Rightarrow> string list \<Rightarrow> bool" where
  "segments_match [] [] = True"
| "segments_match (Lit l # ps) (s # ss) = (s = l \<and> segments_match ps ss)"
| "segments_match (Any # ps) (s # ss) = (s \<noteq> [] \<and> segments_match ps ss)"
| "segments_match _ _ = False"

definition path_matches :: "string \<Rightarrow> segment list list \<Rightarrow> bool" where
  "path_matches path ps \<longleftrightarrow> list_ex (\<lambda>p. segments_match p (js_split (CHR ''/'') path)) ps"

definition owns_service_authorization :: "string \<Rightarrow> string \<Rightarrow> bool" where
  "owns_service_authorization path meth \<longleftrightarrow>
     meth = ''PUT'' \<and> path = admin_root @ ''/services/self-mutation'' \<or>
     meth = ''PUT'' \<and> path_matches path [[Lit [], Lit ''.well-known'', Lit ''bp'', Lit ''admin'', Lit ''apps'', Any,
       Lit ''auth'', Lit ''roles'', Lit ''sync'']]"

section \<open>Setup before the first sign-in\<close>

definition bootstrap_route :: "string \<Rightarrow> string \<Rightarrow> string \<Rightarrow> bool" where
  "bootstrap_route path meth aid \<longleftrightarrow>
     meth = ''POST'' \<and> (path = admin_root @ ''/services/begin-install'' \<or>
       path = admin_root @ ''/apps/'' @ encode_uri_component aid @ ''/auth/roles'')"

text \<open>\<open>verifyBootstrapAdminToken\<close>; the library call, with the options the code gives it, answers
  payload and protected header.\<close>

definition verify_bootstrap_admin_token ::
    "(string \<Rightarrow> string \<Rightarrow> string \<Rightarrow> string \<Rightarrow> string \<Rightarrow> (json \<times> json) option) \<Rightarrow> cp_state \<Rightarrow> string \<Rightarrow> (string \<times> string) option" where
  "verify_bootstrap_admin_token jose cp token =
     (case jose token (cs_public_pem cp) (cs_issuer cp) ''betterportal-bootstrap-admin'' ''bp-bootstrap-admin+jwt'' of
        None \<Rightarrow> None
      | Some (payload, header) \<Rightarrow>
          if header_field header ''kid'' \<noteq> Some (JStr (cs_kid cp)) \<or> header_field payload ''purpose'' \<noteq> Some (JStr ''bootstrap-admin'')
          then None
          else (case (header_field payload ''tenantId'', header_field payload ''appId'') of
                  (Some (JStr t), Some (JStr a)) \<Rightarrow> Some (t, a)
                | _ \<Rightarrow> None))"

definition bootstrap_services :: "string list" where
  "bootstrap_services = [''org.betterportal.auth.default'', ''org.betterportal.theme.bootstrap1'']"

fun is_record :: "json \<Rightarrow> bool" where
  "is_record (JObj kvs) = True"
| "is_record _ = False"

text \<open>Which setup requests the bootstrap token is good for: the two shared services of the wizard, at
  the address the catalog gives them and only while they hold no key, and the role \<open>admin\<close>.\<close>

definition allowed_bootstrap_request :: "stored_config \<Rightarrow> app \<Rightarrow> string \<Rightarrow> body_read \<Rightarrow> nat + bool" where
  "allowed_bootstrap_request cfg a path b =
     (case b of
        Body_refused n \<Rightarrow> Inl n
      | Body_value None \<Rightarrow> Inr False
      | Body_value (Some v) \<Rightarrow>
          if \<not> is_record v then Inr False
          else if path \<noteq> admin_root @ ''/services/begin-install'' then Inr (header_field v ''id'' = Some (JStr ''admin''))
          else if header_field v ''tenantId'' \<noteq> Some (JStr (app_tenant_id a)) \<or> header_field v ''appId'' \<noteq> Some (JStr (app_id a)) \<or>
                  header_field v ''reconfigure'' = Some (JBool True) \<or> header_field v ''instanceId'' \<noteq> None then Inr False
          else (case header_field v ''sharedServiceId'' of
                  Some (JStr sid) \<Rightarrow>
                    if sid \<notin> set bootstrap_services then Inr False
                    else (case (List.find (\<lambda>s. ss_id s = sid) (pc_shared_catalog cfg),
                                List.find (\<lambda>x. sa_tenant_id x = app_tenant_id a \<and> sa_shared_service_id x = sid \<and> sa_enabled x)
                                  (pc_shared_activations cfg)) of
                            (Some s, Some x) \<Rightarrow>
                              Inr (ss_enabled s \<and> ss_api_key_hash s = [] \<and>
                                (case header_field v ''serviceUrl'' of
                                   Some (JStr u) \<Rightarrow> drop_slashes u = drop_slashes (ss_base_url s)
                                 | _ \<Rightarrow> False))
                          | _ \<Rightarrow> Inr False)
                | _ \<Rightarrow> Inr False))"

section \<open>The app a management request is about\<close>

definition management_app :: "stored_config \<Rightarrow> app option" where
  "management_app cfg =
     List.find (\<lambda>a. Some (app_id a) = cm_management_app_id (pc_management cfg) \<and>
       Some (app_tenant_id a) = cm_admin_tenant_id (pc_management cfg)) (pc_apps cfg)"

definition current_app :: "(string \<Rightarrow> url option) \<Rightarrow> stored_config \<Rightarrow> raw_request \<Rightarrow> app option" where
  "current_app parse cfg rq =
     (let aid = or_else (rw_query_app rq) (js_get (rw_headers rq) ''x-bp-app-id'');
          found = (if truthy aid then List.find (\<lambda>a. Some (app_id a) = aid) (pc_apps cfg)
                   else map_option (\<lambda>ctx. ra_app (rc_app ctx))
                     (resolve_embedded_request_context parse (plain_config cfg) (Headers_object (rw_headers rq))
                        \<lparr>trusted_proxy_headers = False, cf_proxy = False\<rparr>))
      in case found of
           None \<Rightarrow> None
         | Some a \<Rightarrow> if list_ex (\<lambda>t. tn_id t = app_tenant_id a \<and> tn_active t) (pc_tenants cfg) then Some a else None)"

section \<open>What a request needs\<close>

definition manage_view :: "string \<Rightarrow> string option" where
  "manage_view resource =
     (if resource = ''services'' \<or> resource = ''webhooks'' then Some ''services.index''
      else if resource = ''routes'' then Some ''routes.index''
      else if resource = ''fragments'' then Some ''fragments.index''
      else if resource = ''theme'' then Some ''config.index'' else None)"

definition permission_for_manage :: "string \<Rightarrow> string \<Rightarrow> (string \<times> string) option" where
  "permission_for_manage path meth =
     (if path = manage_root @ ''/current'' then None
      else
        (let rest = List.drop (length manage_root + 1) path; resource = hd (js_split (CHR ''/'') rest)
         in case manage_view resource of
              None \<Rightarrow> None
            | Some v \<Rightarrow>
                if meth \<notin> set [''GET'', ''POST'', ''PUT'', ''PATCH'', ''DELETE''] then None
                else Some (v, if meth = ''GET'' then ''read'' else if meth = ''DELETE'' then ''delete''
                  else if meth = ''PUT'' \<or> meth = ''PATCH'' \<or> (meth = ''POST'' \<and> (resource = ''theme'' \<or> rest = ''services/activate''))
                  then ''update'' else ''create'')))"

definition method_action :: "string \<Rightarrow> string option" where
  "method_action meth =
     (if meth = ''GET'' then Some ''read'' else if meth = ''POST'' then Some ''create''
      else if meth = ''PUT'' \<or> meth = ''PATCH'' then Some ''update''
      else if meth = ''DELETE'' then Some ''delete'' else None)"

definition editor_action :: "string \<Rightarrow> string" where
  "editor_action act = (if act = ''add'' then ''create'' else if act = ''remove'' then ''delete'' else ''update'')"

definition menu_actions :: "string list" where
  "menu_actions = [''save-visibility'', ''save-title'', ''save-link'', ''save-external'', ''add'', ''remove'', ''toggle'',
     ''toggle-expanded'', ''move-up'', ''move-down'', ''move-in'', ''move-after'', ''move-out'']"

definition fragment_actions :: "string list" where
  "fragment_actions = [''set-mode'', ''set-override'', ''add'', ''remove'', ''move-up'', ''move-down'']"

text \<open>The menu and fragment editors of the administration.\<close>

definition editor_permission :: "string \<Rightarrow> string \<Rightarrow> (string \<times> string) option" where
  "editor_permission rest meth =
     (let segs = js_split (CHR ''/'') rest in
      if meth = ''GET'' \<and> rest \<in> set [''menu-editor'', ''menu-editor/item'', ''menu-editor/views'', ''menu-editor/default-target'']
      then Some (''menu.index'', ''read'')
      else if meth = ''POST'' \<and> length segs = 2 \<and> hd segs = ''menu-editor'' \<and> segs ! 1 \<in> set menu_actions
      then Some (''menu.index'', editor_action (segs ! 1))
      else if meth = ''GET'' \<and> rest = ''fragments-editor'' then Some (''fragments.index'', ''read'')
      else if meth = ''POST'' \<and> length segs = 2 \<and> hd segs = ''fragments-editor'' \<and> segs ! 1 \<in> set fragment_actions
      then Some (''fragments.index'', editor_action (segs ! 1))
      else None)"

definition app_resource_permission :: "string \<Rightarrow> string \<Rightarrow> (string \<times> string) option" where
  "app_resource_permission rest action =
     (if path_matches rest [[Lit ''apps'', Any, Lit ''routes''], [Lit ''apps'', Any, Lit ''routes'', Any]] then Some (''routes.index'', action)
      else if path_matches rest [[Lit ''apps'', Any, Lit ''menu'']] then Some (''menu.index'', action)
      else if path_matches rest [[Lit ''apps'', Any, Lit ''auth'', Lit ''roles''], [Lit ''apps'', Any, Lit ''auth'', Lit ''roles'', Any]]
      then Some (''auth.index'', action)
      else if path_matches rest [[Lit ''apps'', Any, Lit ''m2m'', Lit ''connections''],
                [Lit ''apps'', Any, Lit ''m2m'', Lit ''connections'', Any]] then Some (''services.index'', action)
      else if path_matches rest [[Lit ''apps'', Any, Lit ''theme-config'', Lit ''bootstrap1'']] then Some (''config.index'', ''update'')
      else None)"

definition service_paths :: "segment list list" where
  "service_paths =
     [[Lit ''platform-services''], [Lit ''shared-services''], [Lit ''shared-services'', Any], [Lit ''shared-services'', Any, Lit ''activations''],
      [Lit ''shared-services'', Any, Lit ''activations'', Lit ''purge''], [Lit ''tenants'', Any, Lit ''services''],
      [Lit ''tenants'', Any, Lit ''services'', Any], [Lit ''tenants'', Any, Lit ''services'', Any, Lit ''purge''],
      [Lit ''tenants'', Any, Lit ''services'', Any, Lit ''migrate-to-shared''],
      [Lit ''tenants'', Any, Lit ''services'', Any, Lit ''migrate-to-shared'', Lit ''preview''], [Lit ''tenants'', Any, Lit ''activate'', Any]]"

definition service_permission :: "string \<Rightarrow> string \<Rightarrow> (string \<times> string) option" where
  "service_permission rest action =
     (if path_matches rest service_paths
      then Some (''services.index'', if js_ends_with ''/purge'' rest then ''delete''
        else if js_ends_with ''/migrate-to-shared'' rest then ''update'' else action)
      else None)"

definition body_field :: "json option \<Rightarrow> string \<Rightarrow> json option" where
  "body_field b k = (case b of None \<Rightarrow> None | Some v \<Rightarrow> header_field v k)"

definition begin_install_action :: "stored_config \<Rightarrow> json option \<Rightarrow> string" where
  "begin_install_action cfg b =
     (let existing = (case body_field b ''instanceId'' of
                        Some (JStr i) \<Rightarrow> list_ex (\<lambda>s. ps_id s = i) (pc_platform_services cfg) \<or>
                          list_ex (\<lambda>t. list_ex (\<lambda>s. ts_id s = i) (tn_services t)) (pc_tenants cfg)
                      | _ \<Rightarrow> False);
          shared = (case body_field b ''sharedServiceId'' of
                      Some (JStr i) \<Rightarrow> list_ex (\<lambda>s. ss_id s = i \<and> ss_api_key_hash s \<noteq> []) (pc_shared_catalog cfg)
                    | _ \<Rightarrow> False)
      in if body_field b ''reconfigure'' = Some (JBool True) \<or> existing \<or> shared then ''update'' else ''create'')"

definition ticket_action :: "json option \<Rightarrow> string" where
  "ticket_action b =
     (case body_field b ''actions'' of
        Some (JArr xs) \<Rightarrow> if JStr ''config.write'' \<in> set xs then ''update'' else ''read''
      | _ \<Rightarrow> ''read'')"

definition permission_for_admin :: "string \<Rightarrow> string \<Rightarrow> body_read \<Rightarrow> stored_config \<Rightarrow> nat + (string \<times> string) option" where
  "permission_for_admin path meth b cfg =
     (let rest = List.drop (length admin_root + 1) path in
      case method_action meth of
        None \<Rightarrow> Inr None
      | Some action \<Rightarrow>
          (case editor_permission rest meth of
             Some p \<Rightarrow> Inr (Some p)
           | None \<Rightarrow>
          (case app_resource_permission rest action of
             Some p \<Rightarrow> Inr (Some p)
           | None \<Rightarrow>
          (case service_permission rest action of
             Some p \<Rightarrow> Inr (Some p)
           | None \<Rightarrow>
               if rest = ''services/begin-install'' \<and> meth = ''POST'' then
                 (case b of Body_refused n \<Rightarrow> Inl n
                  | Body_value v \<Rightarrow> Inr (Some (''services.index'', begin_install_action cfg v)))
               else if rest = ''services/begin-hostname-change'' \<and> meth = ''POST'' then Inr (Some (''services.index'', ''update''))
               else if (rest = ''wizard/step1'' \<or> rest = ''configure'') \<and> meth = ''GET'' \<or> rest = ''wizard/verify'' \<and> meth = ''POST''
               then Inr (Some (''services.index'', ''read''))
               else if rest = ''wizard/register'' \<and> meth = ''POST'' then Inr (Some (''services.index'', ''create''))
               else if rest = ''wizard/cleanup-provisional-service'' \<and> meth = ''POST'' then Inr (Some (''services.index'', ''delete''))
               else if rest = ''config-ticket'' \<and> meth = ''POST'' then
                 (case b of Body_refused n \<Rightarrow> Inl n | Body_value v \<Rightarrow> Inr (Some (''services.index'', ticket_action v)))
               else Inr None))))"

definition config_manager_ids :: "stored_config \<Rightarrow> app \<Rightarrow> string list" where
  "config_manager_ids cfg a =
     config_manager_id #
     (case List.find (\<lambda>t. tn_id t = app_tenant_id a) (pc_tenants cfg) of
        None \<Rightarrow> [] | Some t \<Rightarrow> map ts_id (filter (\<lambda>s. ts_service_id s = Some config_manager_id) (tn_services t))) @
     map sa_id (filter (\<lambda>x. sa_tenant_id x = app_tenant_id a \<and> sa_enabled x \<and>
       (case List.find (\<lambda>s. ss_id s = sa_shared_service_id x) (pc_shared_catalog cfg) of
          None \<Rightarrow> False | Some s \<Rightarrow> ss_service_id s = Some config_manager_id)) (pc_shared_activations cfg))"

definition has_permission :: "stored_config \<Rightarrow> app \<Rightarrow> string list \<Rightarrow> string \<Rightarrow> string \<Rightarrow> bool" where
  "has_permission cfg a role_ids view action \<longleftrightarrow>
     (let ids = config_manager_ids cfg a
      in list_ex (\<lambda>r. role_id r \<in> set role_ids \<and>
           list_ex (\<lambda>g. pg_service_id g \<in> set ids \<and> pg_view_id g = view \<and> action \<in> set (pg_permissions g)) (role_grants r))
         (case app_auth_config a of None \<Rightarrow> [] | Some auth \<Rightarrow> aa_roles auth))"

section \<open>The gate\<close>

definition management_claims :: "environment \<Rightarrow> app_auth \<Rightarrow> public_jwk list \<Rightarrow> string \<Rightarrow> token_error + jwt_claims" where
  "management_claims env auth keys token =
     verify_jwt (en_jwt env) \<lparr>vj_source = Resolver (static_jwks_resolver (en_pem_of env) keys), vj_issuer = aa_expected_issuer auth,
       vj_audience = aa_expected_audience auth, vj_token_type = Some Access, vj_tolerance = None\<rparr> (en_now env) token"

definition is_platform_root :: "stored_config \<Rightarrow> app \<Rightarrow> jwt_claims \<Rightarrow> bool" where
  "is_platform_root cfg target c \<longleftrightarrow>
     Some (app_id target) = cm_management_app_id (pc_management cfg) \<and>
     Some (app_tenant_id target) = cm_admin_tenant_id (pc_management cfg) \<and> ''*'' \<in> set (jc_roles c)"

text \<open>What a verified user of the target app may do.\<close>

definition user_access :: "stored_config \<Rightarrow> raw_request \<Rightarrow> bool \<Rightarrow> app \<Rightarrow> jwt_claims \<Rightarrow> access" where
  "user_access cfg rq admin target c =
     (if jc_tenant_id c \<noteq> app_tenant_id target \<or> jc_app_id c \<noteq> app_id target \<or> jc_token_type c \<noteq> Access
      then Refuse 401 ''Management token scope mismatch''
      else (case rw_body_guard rq of
              Some n \<Rightarrow> Refuse n []
            | None \<Rightarrow>
                if is_platform_root cfg target c then Pass
                else if admin then
                  (case permission_for_admin (rw_path rq) (rw_method rq) (rw_body rq) cfg of
                     Inl n \<Rightarrow> Refuse n []
                   | Inr None \<Rightarrow> Refuse 403 ''Platform management permission required''
                   | Inr (Some (v, act)) \<Rightarrow>
                       if has_permission cfg target (jc_roles c) v act then Pass
                       else Refuse 403 ''Platform management permission required'')
                else if rw_path rq = manage_root @ ''/current'' then Pass
                else (case permission_for_manage (rw_path rq) (rw_method rq) of
                        None \<Rightarrow> Refuse 403 ''Management permission required''
                      | Some (v, act) \<Rightarrow>
                          if has_permission cfg target (jc_roles c) v act then Pass
                          else Refuse 403 ''Management permission required'')))"

definition token_access :: "environment \<Rightarrow> stored_config \<Rightarrow> raw_request \<Rightarrow> bool \<Rightarrow> app \<Rightarrow> string \<Rightarrow> access" where
  "token_access env cfg rq admin target token =
     (case app_auth_config target of
        None \<Rightarrow> Refuse 503 ''Management authentication unavailable''
      | Some auth \<Rightarrow>
          (case aa_public_keys auth of
             None \<Rightarrow> Refuse 503 ''Management authentication unavailable''
           | Some keys \<Rightarrow>
               if keys = [] then Refuse 503 ''Management authentication unavailable''
               else (case management_claims env auth keys token of
                       Inl e \<Rightarrow> Refuse 401 ''Invalid management token''
                     | Inr c \<Rightarrow> user_access cfg rq admin target c)))"

text \<open>The middleware of \<open>registerRawManagementAccessControl\<close> on \<open>/.well-known/bp/**\<close>, given the
  stored configuration; \<open>Pass\<close> lets the request through to its handler.\<close>

definition management_gate ::
    "environment \<Rightarrow> (string \<Rightarrow> string \<Rightarrow> string \<Rightarrow> string \<Rightarrow> string \<Rightarrow> (json \<times> json) option) \<Rightarrow> cp_state \<Rightarrow> stored_config \<Rightarrow>
     raw_request \<Rightarrow> access" where
  "management_gate env jose cp cfg rq =
     (let admin = in_tree (rw_path rq) admin_root; manage = in_tree (rw_path rq) manage_root in
      if \<not> admin \<and> \<not> manage then Pass
      else if rw_method rq = ''OPTIONS'' then Pass
      else if admin \<and> owns_service_authorization (rw_path rq) (rw_method rq) then Pass
      else (case health_bearer (js_get (rw_headers rq) ''authorization'') of
              None \<Rightarrow> Refuse 401 ''Management authorization required''
            | Some token \<Rightarrow>
                (case (if admin then management_app cfg else current_app (en_parse_url env) cfg rq) of
                   None \<Rightarrow> Refuse 503 ''Management app unavailable''
                 | Some target \<Rightarrow>
                     if admin \<and> bootstrap_route (rw_path rq) (rw_method rq) (app_id target) \<and>
                        verify_bootstrap_admin_token jose cp token = Some (app_tenant_id target, app_id target)
                     then (case allowed_bootstrap_request cfg target (rw_path rq) (rw_body rq) of
                             Inl n \<Rightarrow> Refuse n []
                           | Inr ok \<Rightarrow> if ok then Pass else Refuse 403 ''Bootstrap operation is outside its setup scope'')
                     else token_access env cfg rq admin target token)))"

section \<open>Lemmas\<close>

definition needed :: "stored_config \<Rightarrow> raw_request \<Rightarrow> bool \<Rightarrow> (string \<times> string) option" where
  "needed cfg rq admin =
     (if admin then (case permission_for_admin (rw_path rq) (rw_method rq) (rw_body rq) cfg of Inl n \<Rightarrow> None | Inr p \<Rightarrow> p)
      else permission_for_manage (rw_path rq) (rw_method rq))"

text \<open>A user the target app's own keys vouch for, who is platform root, asks for the current
  context, or holds a role with the needed grant.\<close>

definition user_entitled :: "environment \<Rightarrow> stored_config \<Rightarrow> raw_request \<Rightarrow> bool \<Rightarrow> app \<Rightarrow> string \<Rightarrow> bool" where
  "user_entitled env cfg rq admin target token \<longleftrightarrow>
     (\<exists>auth keys c. app_auth_config target = Some auth \<and> aa_public_keys auth = Some keys \<and>
        management_claims env auth keys token = Inr c \<and> jc_tenant_id c = app_tenant_id target \<and> jc_app_id c = app_id target \<and>
        (is_platform_root cfg target c \<or> \<not> admin \<and> rw_path rq = manage_root @ ''/current'' \<or>
         (\<exists>v act. needed cfg rq admin = Some (v, act) \<and>
            (\<exists>r\<in>set (aa_roles auth). role_id r \<in> set (jc_roles c) \<and>
               (\<exists>g\<in>set (role_grants r). pg_service_id g \<in> set (config_manager_ids cfg target) \<and> pg_view_id g = v \<and>
                  act \<in> set (pg_permissions g))))))"

lemma management_appD:
  "management_app cfg = Some a \<Longrightarrow> a \<in> set (pc_apps cfg) \<and> Some (app_id a) = cm_management_app_id (pc_management cfg) \<and>
     Some (app_tenant_id a) = cm_admin_tenant_id (pc_management cfg)"
  unfolding management_app_def by (auto dest: find_SomeD)

lemma embedded_app_known:
  "resolve_embedded_request_context parse cfg hs trust = Some ctx \<Longrightarrow> ra_app (rc_app ctx) \<in> set (pc_apps cfg)"
  unfolding resolve_embedded_request_context_def resolve_request_context_detailed_def
  using try_candidates_context build_resolved_contextD by blast

lemma current_app_known:
  assumes "current_app parse cfg rq = Some a"
  shows "a \<in> set (pc_apps cfg) \<and> (\<exists>t\<in>set (pc_tenants cfg). tn_id t = app_tenant_id a \<and> tn_active t)"
proof -
  have "a \<in> set (pc_apps cfg)"
    using assms embedded_app_known [of parse "plain_config cfg"]
    by (auto simp: current_app_def Let_def split: option.splits if_splits dest: find_SomeD)
  with assms show ?thesis by (auto simp: current_app_def Let_def list_ex_iff split: option.splits if_splits)
qed

lemma has_permissionD:
  assumes "has_permission cfg a ids v act" "app_auth_config a = Some auth"
  shows "\<exists>r\<in>set (aa_roles auth). role_id r \<in> set ids \<and>
    (\<exists>g\<in>set (role_grants r). pg_service_id g \<in> set (config_manager_ids cfg a) \<and> pg_view_id g = v \<and> act \<in> set (pg_permissions g))"
  using assms by (auto simp: has_permission_def Let_def list_ex_iff)

lemma user_access_Pass:
  "user_access cfg rq admin target c = Pass \<longleftrightarrow>
     jc_tenant_id c = app_tenant_id target \<and> jc_app_id c = app_id target \<and> jc_token_type c = Access \<and> rw_body_guard rq = None \<and>
     (is_platform_root cfg target c \<or> \<not> admin \<and> rw_path rq = manage_root @ ''/current'' \<or>
      (\<exists>v act. needed cfg rq admin = Some (v, act) \<and> has_permission cfg target (jc_roles c) v act))"
  by (auto simp: user_access_def needed_def permission_for_manage_def split: option.splits sum.splits if_splits)

lemma token_access_Pass:
  assumes "token_access env cfg rq admin target token = Pass"
  shows "user_entitled env cfg rq admin target token"
proof -
  obtain auth keys c where t: "app_auth_config target = Some auth" "aa_public_keys auth = Some keys"
    "management_claims env auth keys token = Inr c" "user_access cfg rq admin target c = Pass"
    using assms by (auto simp: token_access_def split: option.splits sum.splits if_splits)
  show ?thesis
    unfolding user_entitled_def using t user_access_Pass [THEN iffD1, OF t(4)] has_permissionD [OF _ t(1)] by blast
qed

lemma editor_change: "editor_permission rest meth = Some (v, act) \<Longrightarrow> meth \<noteq> ''GET'' \<Longrightarrow> act \<noteq> ''read''"
  by (auto simp: editor_permission_def editor_action_def Let_def split: if_splits)

lemma resource_change:
  "app_resource_permission rest action = Some (v, act) \<Longrightarrow> action \<noteq> ''read'' \<Longrightarrow> act \<noteq> ''read''"
  "service_permission rest action = Some (v, act) \<Longrightarrow> action \<noteq> ''read'' \<Longrightarrow> act \<noteq> ''read''"
  by (auto simp: app_resource_permission_def service_permission_def split: if_splits)

lemma admin_change:
  assumes p: "permission_for_admin path meth b cfg = Inr (Some (v, act))" and m: "meth \<in> {''POST'', ''PUT'', ''PATCH'', ''DELETE''}"
    and "List.drop (length admin_root + 1) path \<noteq> ''wizard/verify''" "List.drop (length admin_root + 1) path \<noteq> ''config-ticket''"
  shows "act \<noteq> ''read''"
proof -
  obtain rest where r: "List.drop (length admin_root + 1) path = rest" by simp
  obtain action where a: "method_action meth = Some action" "action \<noteq> ''read''" "meth \<noteq> ''GET''"
    using m by (auto simp: method_action_def)
  note p' = p [unfolded permission_for_admin_def r Let_def a(1) option.case]
  show ?thesis
  proof (cases "editor_permission rest meth")
    case (Some e)
    then show ?thesis using p' editor_change [OF _ a(3)] by auto
  next
    case None
    note p2 = p' [unfolded None option.case]
    show ?thesis
    proof (cases "app_resource_permission rest action")
      case (Some e)
      then show ?thesis using p2 resource_change(1) [OF _ a(2)] by auto
    next
      case None
      note p3 = p2 [unfolded None option.case]
      show ?thesis
      proof (cases "service_permission rest action")
        case (Some e)
        then show ?thesis using p3 resource_change(2) [OF _ a(2)] by auto
      next
        case None
        show ?thesis using p3 assms(3,4) a(3) unfolding None r
          by (auto simp: begin_install_action_def Let_def split: if_splits body_read.splits)
      qed
    qed
  qed
qed

section \<open>Properties\<close>

text \<open>
  C17: no request for the administration or management interface passes the middleware
  unproved, apart from \<open>OPTIONS\<close> preflights and the two service routes that check a service's own
  credentials themselves: it passes only with a bearer token that is either the bootstrap token of
  exactly the management app, for a setup operation inside its scope, or a token the target app's
  own keys vouch for, whose user is platform root, asks for the current context, or holds a role of
  that app with the grant the path and method need; and the administration is only open to the
  management app.
\<close>

theorem management_access_proved:
  assumes "management_gate env jose cp cfg rq = Pass"
    and "in_tree (rw_path rq) admin_root \<or> in_tree (rw_path rq) manage_root"
    and "rw_method rq \<noteq> ''OPTIONS''" "\<not> owns_service_authorization (rw_path rq) (rw_method rq)"
  shows "\<exists>token target. health_bearer (js_get (rw_headers rq) ''authorization'') = Some token \<and> target \<in> set (pc_apps cfg) \<and>
    (in_tree (rw_path rq) admin_root \<longrightarrow> Some (app_id target) = cm_management_app_id (pc_management cfg) \<and>
       Some (app_tenant_id target) = cm_admin_tenant_id (pc_management cfg)) \<and>
    (\<not> in_tree (rw_path rq) admin_root \<longrightarrow> (\<exists>t\<in>set (pc_tenants cfg). tn_id t = app_tenant_id target \<and> tn_active t)) \<and>
    (user_entitled env cfg rq (in_tree (rw_path rq) admin_root) target token \<or>
     in_tree (rw_path rq) admin_root \<and> rw_method rq = ''POST'' \<and>
     verify_bootstrap_admin_token jose cp token = Some (app_tenant_id target, app_id target) \<and>
     allowed_bootstrap_request cfg target (rw_path rq) (rw_body rq) = Inr True)"
proof -
  let ?admin = "in_tree (rw_path rq) admin_root"
  obtain token where b: "health_bearer (js_get (rw_headers rq) ''authorization'') = Some token"
    using assms by (auto simp: management_gate_def Let_def split: option.splits)
  obtain target where a: "(if ?admin then management_app cfg else current_app (en_parse_url env) cfg rq) = Some target"
    using assms b by (cases "if ?admin then management_app cfg else current_app (en_parse_url env) cfg rq") (auto simp: management_gate_def Let_def)
  have app: "target \<in> set (pc_apps cfg)"
    using a management_appD current_app_known by (auto split: if_splits)
  have scope: "?admin \<longrightarrow> Some (app_id target) = cm_management_app_id (pc_management cfg) \<and>
       Some (app_tenant_id target) = cm_admin_tenant_id (pc_management cfg)"
    using a management_appD by (auto split: if_splits)
  have active: "\<not> ?admin \<longrightarrow> (\<exists>t\<in>set (pc_tenants cfg). tn_id t = app_tenant_id target \<and> tn_active t)"
    using a current_app_known by (auto split: if_splits)
  have "user_entitled env cfg rq ?admin target token \<or>
     ?admin \<and> rw_method rq = ''POST'' \<and> verify_bootstrap_admin_token jose cp token = Some (app_tenant_id target, app_id target) \<and>
     allowed_bootstrap_request cfg target (rw_path rq) (rw_body rq) = Inr True"
  proof (cases "?admin \<and> bootstrap_route (rw_path rq) (rw_method rq) (app_id target) \<and>
      verify_bootstrap_admin_token jose cp token = Some (app_tenant_id target, app_id target)")
    case True
    then show ?thesis using assms a b
      by (auto simp: management_gate_def Let_def bootstrap_route_def split: sum.splits if_splits)
  next
    case False
    then have "token_access env cfg rq ?admin target token = Pass"
      using assms a b by (auto simp: management_gate_def Let_def)
    then show ?thesis using token_access_Pass by blast
  qed
  with b app scope active show ?thesis by blast
qed

text \<open>
  C21: a role that only grants reading never lets a change through: whatever a POST, PUT, PATCH or
  DELETE of the management interfaces needs is more than reading, except checking a service's
  address in the wizard and issuing a ticket that does not write.
\<close>

theorem changes_need_more_than_read:
  assumes "needed cfg rq admin = Some (v, act)" "rw_method rq \<in> {''POST'', ''PUT'', ''PATCH'', ''DELETE''}"
    and "rw_path rq \<noteq> admin_root @ ''/wizard/verify''" "rw_path rq \<noteq> admin_root @ ''/config-ticket''"
    and "admin \<Longrightarrow> in_tree (rw_path rq) admin_root"
  shows "act \<noteq> ''read''"
proof (cases admin)
  case True
  let ?rest = "List.drop (length admin_root + 1) (rw_path rq)"
  have "?rest \<noteq> ''wizard/verify''" "?rest \<noteq> ''config-ticket''"
    using assms(3,4) assms(5) [OF True] by (auto simp: in_tree_def js_starts_with_def prefix_def)
  moreover have "permission_for_admin (rw_path rq) (rw_method rq) (rw_body rq) cfg = Inr (Some (v, act))"
    using assms(1) True by (simp add: needed_def split: sum.splits)
  ultimately show ?thesis using admin_change assms(2) by blast
next
  case False
  then show ?thesis using assms(1,2) by (auto simp: needed_def permission_for_manage_def Let_def split: if_splits option.splits)
qed

section \<open>Applications\<close>

definition sample_managed_app :: app where
  "sample_managed_app = sample_app\<lparr>app_id := ''a1'', app_tenant_id := ''t1'',
     app_auth_config := Some (sample_app_auth\<lparr>aa_public_keys := Some [\<lparr>jwk_kid = ''k1'', jwk_n = '''', jwk_e = ''''\<rparr>],
       aa_roles := [\<lparr>role_id = ''editor'', role_title = ''Editor'', role_grants =
         [\<lparr>pg_service_id = ''org.betterportal.config-manager'', pg_view_id = ''routes.index'', pg_permissions = [''read'']\<rparr>]\<rparr>]\<rparr>)\<rparr>"

definition sample_managed :: stored_config where
  "sample_managed = sample_stored\<lparr>pc_management := \<lparr>cm_admin_tenant_id = Some ''t1'', cm_management_app_id = Some ''a1''\<rparr>,
     pc_apps := [sample_managed_app]\<rparr>"

definition sample_raw :: raw_request where
  "sample_raw = \<lparr>rw_path = ''/.well-known/bp/admin/apps/a1/routes'', rw_method = ''GET'',
     rw_headers = [(''authorization'', ''Bearer h.p.s'')], rw_query_app = None, rw_body = Body_value None, rw_body_guard = None\<rparr>"

definition sample_cp :: cp_state where
  "sample_cp = \<lparr>cs_issuer = ''iss'', cs_jwks_uri = ''uri'', cs_cp_id = ''cp'', cs_public_pem = ''pem'', cs_kid = ''k1''\<rparr>"

lemma sample_gate_facts:
  "management_gate sample_env (\<lambda>t p i a y. None) sample_cp sample_managed sample_raw = Pass"
  "in_tree (rw_path sample_raw) admin_root" "\<not> owns_service_authorization (rw_path sample_raw) (rw_method sample_raw)"
  "rw_method sample_raw = ''GET''"
  by code_simp+

theorem management_access_proved_witness:
  "\<exists>token target. health_bearer (js_get (rw_headers sample_raw) ''authorization'') = Some token \<and> target \<in> set (pc_apps sample_managed) \<and>
     user_entitled sample_env sample_managed sample_raw True target token"
proof -
  have "in_tree (rw_path sample_raw) admin_root \<or> in_tree (rw_path sample_raw) manage_root" "rw_method sample_raw \<noteq> ''OPTIONS''"
    using sample_gate_facts(2,4) by simp_all
  then show ?thesis
    using management_access_proved [OF sample_gate_facts(1) _ _ sample_gate_facts(3)] sample_gate_facts(2,4) by auto
qed

end
