(* ===== verification/Pairing.thy ===== *)
theory Pairing
  imports ManagementAccess
begin

text \<open>
  Pairing on the control plane: \<open>setupTokens.ts\<close> of the config manager with the file storage
  (\<open>storage/file.ts\<close>) it registers instances in. A redeem request runs in three sections: check
  the token and load a snapshot; register the instance and save, which fails when the file's
  revision moved on; forget the token. \<open>setup_step\<close> interleaves any number of them with expiry,
  new setups and other writers. The variant that keeps pending actions in a database is not
  modelled. Schemas, JWT library, URL parser and key hash are parameters.
\<close>

section \<open>Storage with revisions\<close>

definition resolve_auth_provider_runtime_metadata :: "stored_config \<Rightarrow> string \<Rightarrow> auth_provider_metadata option" where
  "resolve_auth_provider_runtime_metadata cfg sid =
     (let tenant_meta = Option.bind (List.find (\<lambda>(t, s). ts_id s = sid) (tenant_services cfg)) (\<lambda>(t, s). ts_auth_provider s);
          platform_meta = Option.bind (List.find (\<lambda>s. ps_id s = sid) (pc_platform_services cfg)) ps_auth_provider;
          shared_meta = Option.bind (List.find (\<lambda>x. sa_id x = sid \<and> sa_enabled x) (pc_shared_activations cfg))
            (\<lambda>x. Option.bind (List.find (\<lambda>s. ss_id s = sa_shared_service_id x) (pc_shared_catalog cfg)) ss_auth_provider)
      in or_else tenant_meta (or_else platform_meta shared_meta))"

definition apply_auth_provider_metadata :: "auth_provider_metadata \<Rightarrow> app_auth \<Rightarrow> app_auth" where
  "apply_auth_provider_metadata p auth =
     auth\<lparr>aa_expected_issuer := apm_issuer p, aa_expected_audience := apm_audience p, aa_jwks_uri := apm_jwks_uri p,
          aa_public_keys := or_else (apm_public_keys p) (aa_public_keys auth)\<rparr>"

definition root_role :: app_role where
  "root_role = \<lparr>role_id = ''*'', role_title = ''Platform Root'', role_grants = []\<rparr>"

definition with_root_role :: "app_role list \<Rightarrow> app_role list" where
  "with_root_role roles =
     (if list_ex (\<lambda>r. role_id r = ''*'') roles
      then update_first (\<lambda>r. role_id r = ''*'') (\<lambda>r. r\<lparr>role_title := (if role_title r = [] then ''Platform Root'' else role_title r)\<rparr>) roles
      else roles @ [root_role])"

definition map_app_auth :: "(app \<Rightarrow> app_auth \<Rightarrow> app_auth) \<Rightarrow> app \<Rightarrow> app" where
  "map_app_auth f a = a\<lparr>app_auth_config := map_option (f a) (app_auth_config a)\<rparr>"

definition ensure_platform_root_role :: "stored_config \<Rightarrow> stored_config" where
  "ensure_platform_root_role cfg =
     (let t = cm_admin_tenant_id (pc_management cfg); m = cm_management_app_id (pc_management cfg)
      in if \<not> truthy t \<or> \<not> truthy m then cfg
         else cfg\<lparr>pc_apps := update_first (\<lambda>a. Some (app_id a) = m \<and> Some (app_tenant_id a) = t)
                (map_app_auth (\<lambda>a auth. auth\<lparr>aa_roles := with_root_role (aa_roles auth)\<rparr>)) (pc_apps cfg)\<rparr>)"

text \<open>\<open>canonicalizeConfig\<close> on the modelled fields.\<close>

definition canonicalize_config :: "stored_config \<Rightarrow> stored_config" where
  "canonicalize_config cfg =
     (let c = ensure_platform_root_role cfg
      in c\<lparr>pc_apps := map (map_app_auth (\<lambda>a auth.
              case resolve_auth_provider_runtime_metadata c (aa_service_id auth) of
                None \<Rightarrow> auth | Some p \<Rightarrow> apply_auth_provider_metadata p auth)) (pc_apps c)\<rparr>)"

text \<open>\<open>FileStorage\<close>: what the file holds and the revision of this process. The schema library's
  parse is a parameter; a snapshot is remembered with the revision it was loaded at.\<close>

record file_storage =
  fs_config :: stored_config
  fs_revision :: nat

datatype storage_error = Schema_rejected | Revision_conflict nat nat | References_rejected

definition load_config :: "(stored_config \<Rightarrow> stored_config option) \<Rightarrow> file_storage \<Rightarrow> storage_error + stored_config \<times> nat" where
  "load_config parse fs =
     (case parse (fs_config fs) of None \<Rightarrow> Inl Schema_rejected | Some c \<Rightarrow> Inr (canonicalize_config c, fs_revision fs))"

definition save_config ::
    "(stored_config \<Rightarrow> stored_config option) \<Rightarrow> stored_config \<Rightarrow> nat \<Rightarrow> file_storage \<Rightarrow> storage_error + file_storage" where
  "save_config parse cfg expected fs =
     (if expected \<noteq> fs_revision fs then Inl (Revision_conflict expected (fs_revision fs))
      else (case parse cfg of
              None \<Rightarrow> Inl Schema_rejected
            | Some c \<Rightarrow>
                (let v = canonicalize_config c
                 in if validate_config_references v then Inr \<lparr>fs_config = v, fs_revision = fs_revision fs + 1\<rparr>
                    else Inl References_rejected)))"

section \<open>Registering an instance\<close>

record registration_input =
  ri_instance_id :: string
  ri_plugin_id :: string
  ri_service_url :: string
  ri_auth_provider :: "auth_provider_metadata option"
  ri_api_key :: string
  ri_public_key_pem :: "string option"
  ri_key_id :: "string option"
  ri_jwks :: "public_jwk list option"
  ri_shared_service_id :: "string option"
  ri_tenant_scope :: "(string \<times> string option) option"

definition service_plugin_ids_match :: "string option \<Rightarrow> string option \<Rightarrow> bool" where
  "service_plugin_ids_match expected actual \<longleftrightarrow> truthy expected \<and> expected = actual"

definition default_capabilities :: "string \<Rightarrow> string list" where
  "default_capabilities plugin_id =
     (if js_starts_with ''org.betterportal.theme.'' plugin_id then [''theme'']
      else if js_includes ''.auth.'' plugin_id then [''auth'']
      else if js_includes ''.config-manager'' plugin_id then [''config''] else [])"

definition is_auth_plugin :: "string \<Rightarrow> bool" where
  "is_auth_plugin plugin_id \<longleftrightarrow> ''auth'' \<in> set (default_capabilities plugin_id)"

text \<open>Whether an existing registration is linked to another plugin than the one that installs.\<close>

definition linked_elsewhere :: "string option \<Rightarrow> string \<Rightarrow> bool" where
  "linked_elsewhere existing plugin_id \<longleftrightarrow> truthy existing \<and> \<not> service_plugin_ids_match existing (Some plugin_id)"

definition linked_error :: "string \<Rightarrow> string \<Rightarrow> string option \<Rightarrow> string \<Rightarrow> string" where
  "linked_error kind i existing plugin_id =
     kind @ '' '' @ i @ '' is linked to plugin '' @ the existing @ '', not installed plugin '' @ plugin_id"

definition provider_for :: "registration_input \<Rightarrow> auth_provider_metadata option \<Rightarrow> auth_provider_metadata option" where
  "provider_for inp old = (if ri_auth_provider inp \<noteq> None \<and> is_auth_plugin (ri_plugin_id inp) then ri_auth_provider inp else old)"

definition shared_activation_ids :: "stored_config \<Rightarrow> string \<Rightarrow> string list" where
  "shared_activation_ids cfg shared_id =
     map sa_id (filter (\<lambda>x. sa_enabled x \<and> sa_shared_service_id x = shared_id) (pc_shared_activations cfg))"

definition attach_shared_auth_jwks :: "string \<Rightarrow> public_jwk list \<Rightarrow> stored_config \<Rightarrow> stored_config" where
  "attach_shared_auth_jwks shared_id jwks cfg =
     cfg\<lparr>pc_apps := map (map_app_auth (\<lambda>a auth.
       if aa_service_id auth \<in> set (shared_activation_ids cfg shared_id) then auth\<lparr>aa_public_keys := Some jwks\<rparr> else auth)) (pc_apps cfg)\<rparr>"

definition attach_shared_auth_provider_metadata :: "string \<Rightarrow> auth_provider_metadata \<Rightarrow> stored_config \<Rightarrow> stored_config" where
  "attach_shared_auth_provider_metadata shared_id p cfg =
     cfg\<lparr>pc_apps := map (map_app_auth (\<lambda>a auth.
       if aa_service_id auth \<in> set (shared_activation_ids cfg shared_id) then apply_auth_provider_metadata p auth else auth)) (pc_apps cfg)\<rparr>"

definition refresh_shared_apps :: "registration_input \<Rightarrow> string \<Rightarrow> stored_config \<Rightarrow> stored_config" where
  "refresh_shared_apps inp shared_id cfg =
     (if \<not> is_auth_plugin (ri_plugin_id inp) then cfg
      else
        (let c = (case ri_jwks inp of None \<Rightarrow> cfg | Some j \<Rightarrow> attach_shared_auth_jwks shared_id j cfg)
         in case ri_auth_provider inp of None \<Rightarrow> c | Some p \<Rightarrow> attach_shared_auth_provider_metadata shared_id p c))"

definition paired_shared :: "registration_input \<Rightarrow> string \<Rightarrow> shared_service \<Rightarrow> shared_service" where
  "paired_shared inp h s =
     s\<lparr>ss_service_id := Some (ri_plugin_id inp), ss_base_url := ri_service_url inp,
       ss_auth_provider := provider_for inp (ss_auth_provider s), ss_api_key_hash := h,
       ss_title := (if ss_title s = [] then ri_plugin_id inp else ss_title s),
       ss_tags := uniq (ss_tags s @ default_capabilities (ri_plugin_id inp)), ss_enabled := True\<rparr>"

definition paired_tenant_service :: "registration_input \<Rightarrow> string \<Rightarrow> string \<Rightarrow> tenant_service \<Rightarrow> tenant_service" where
  "paired_tenant_service inp h now s =
     s\<lparr>ts_hostname := ri_service_url inp, ts_api_key_hash := h, ts_public_key_pem := ri_public_key_pem inp, ts_key_id := ri_key_id inp,
       ts_service_id := Some (ri_plugin_id inp), ts_auth_provider := provider_for inp (ts_auth_provider s),
       ts_capabilities := (if ts_capabilities s = [] then default_capabilities (ri_plugin_id inp) else ts_capabilities s),
       ts_last_seen_at := Some now, ts_enabled := True\<rparr>"

definition new_tenant_service :: "registration_input \<Rightarrow> string \<Rightarrow> string \<Rightarrow> tenant_service" where
  "new_tenant_service inp h now =
     \<lparr>ts_id = ri_instance_id inp, ts_hostname = ri_service_url inp, ts_api_key_hash = h, ts_public_key_pem = ri_public_key_pem inp,
      ts_key_id = ri_key_id inp, ts_service_id = Some (ri_plugin_id inp), ts_auth_provider = provider_for inp None,
      ts_capabilities = default_capabilities (ri_plugin_id inp), ts_title = Some (ri_plugin_id inp), ts_description = None,
      ts_deployment_mode = Self_hosted, ts_created_at = now, ts_last_seen_at = None, ts_last_sync_at = None, ts_enabled = True\<rparr>"

definition paired_platform_service :: "registration_input \<Rightarrow> string \<Rightarrow> platform_service \<Rightarrow> platform_service" where
  "paired_platform_service inp h s =
     s\<lparr>ps_hostname := ri_service_url inp, ps_api_key_hash := h, ps_public_key_pem := ri_public_key_pem inp, ps_key_id := ri_key_id inp,
       ps_service_id := Some (ri_plugin_id inp), ps_auth_provider := provider_for inp (ps_auth_provider s),
       ps_capabilities := (if ps_capabilities s = [] then default_capabilities (ri_plugin_id inp) else ps_capabilities s), ps_enabled := True\<rparr>"

definition new_platform_service :: "registration_input \<Rightarrow> string \<Rightarrow> string \<Rightarrow> platform_service" where
  "new_platform_service inp h now =
     \<lparr>ps_id = ri_instance_id inp, ps_hostname = ri_service_url inp, ps_api_key_hash = h, ps_public_key_pem = ri_public_key_pem inp,
      ps_key_id = ri_key_id inp, ps_service_id = Some (ri_plugin_id inp), ps_auth_provider = provider_for inp None,
      ps_capabilities = default_capabilities (ri_plugin_id inp), ps_title = ri_plugin_id inp, ps_description = None,
      ps_category = None, ps_created_at = now, ps_enabled = True\<rparr>"

text \<open>A replacement may rotate its keys: the apps of the tenant bound to the instance follow.\<close>

definition refresh_tenant_apps :: "registration_input \<Rightarrow> string \<Rightarrow> stored_config \<Rightarrow> stored_config" where
  "refresh_tenant_apps inp tenant_id cfg =
     cfg\<lparr>pc_apps := map (\<lambda>a. if app_tenant_id a = tenant_id then map_app_auth (\<lambda>a auth.
         if aa_service_id auth = ri_instance_id inp
         then (let keyed = (case ri_jwks inp of None \<Rightarrow> auth | Some j \<Rightarrow> auth\<lparr>aa_public_keys := Some j\<rparr>)
               in case ri_auth_provider inp of None \<Rightarrow> keyed | Some p \<Rightarrow> apply_auth_provider_metadata p keyed)
         else auth) a else a) (pc_apps cfg)\<rparr>"

definition register_shared :: "string \<Rightarrow> registration_input \<Rightarrow> string \<Rightarrow> stored_config \<Rightarrow> string + stored_config" where
  "register_shared h inp shared_id cfg =
     (case List.find (\<lambda>s. ss_id s = shared_id) (pc_shared_catalog cfg) of
        None \<Rightarrow> Inl (''Shared service '' @ shared_id @ '' not found'')
      | Some s \<Rightarrow>
          if linked_elsewhere (ss_service_id s) (ri_plugin_id inp) then Inl (linked_error ''Shared service'' (ss_id s) (ss_service_id s) (ri_plugin_id inp))
          else Inr (refresh_shared_apps inp shared_id
                 (cfg\<lparr>pc_shared_catalog := update_first (\<lambda>s. ss_id s = shared_id) (paired_shared inp h) (pc_shared_catalog cfg)\<rparr>)))"

definition register_tenant :: "string \<Rightarrow> string \<Rightarrow> registration_input \<Rightarrow> string \<Rightarrow> stored_config \<Rightarrow> string + stored_config" where
  "register_tenant h now inp tenant_id cfg =
     (case List.find (\<lambda>t. tn_id t = tenant_id) (pc_tenants cfg) of
        None \<Rightarrow> Inl (''Tenant '' @ tenant_id @ '' not found'')
      | Some t \<Rightarrow>
          (let c = refresh_tenant_apps inp tenant_id cfg;
               store = (\<lambda>f. Inr (c\<lparr>pc_tenants := update_first (\<lambda>t. tn_id t = tenant_id)
                           (\<lambda>t. t\<lparr>tn_services := f (tn_services t)\<rparr>) (pc_tenants c)\<rparr>))
           in case List.find (\<lambda>s. ts_id s = ri_instance_id inp) (tn_services t) of
                None \<Rightarrow> store (\<lambda>ss. ss @ [new_tenant_service inp h now])
              | Some s \<Rightarrow>
                  if linked_elsewhere (ts_service_id s) (ri_plugin_id inp) then Inl (linked_error ''Service'' (ts_id s) (ts_service_id s) (ri_plugin_id inp))
                  else store (update_first (\<lambda>s. ts_id s = ri_instance_id inp) (paired_tenant_service inp h now))))"

definition register_platform :: "string \<Rightarrow> string \<Rightarrow> registration_input \<Rightarrow> stored_config \<Rightarrow> string + stored_config" where
  "register_platform h now inp cfg =
     (case List.find (\<lambda>s. ps_id s = ri_instance_id inp) (pc_platform_services cfg) of
        None \<Rightarrow> Inr (cfg\<lparr>pc_platform_services := pc_platform_services cfg @ [new_platform_service inp h now]\<rparr>)
      | Some s \<Rightarrow>
          if linked_elsewhere (ps_service_id s) (ri_plugin_id inp) then Inl (linked_error ''Service'' (ps_id s) (ps_service_id s) (ri_plugin_id inp))
          else Inr (cfg\<lparr>pc_platform_services := update_first (\<lambda>s. ps_id s = ri_instance_id inp) (paired_platform_service inp h)
                          (pc_platform_services cfg)\<rparr>))"

definition register_service ::
    "(string \<Rightarrow> string) \<Rightarrow> string \<Rightarrow> registration_input \<Rightarrow> stored_config \<Rightarrow> string + stored_config" where
  "register_service hash_key now inp cfg =
     (let h = hash_key (ri_api_key inp) in
      if truthy (ri_shared_service_id inp) then register_shared h inp (the (ri_shared_service_id inp)) cfg
      else (case ri_tenant_scope inp of
              Some (tenant_id, aid) \<Rightarrow> if tenant_id = [] then register_platform h now inp cfg else register_tenant h now inp tenant_id cfg
            | None \<Rightarrow> register_platform h now inp cfg))"

section \<open>Setup tokens\<close>

record pending_setup =
  pd_service_url :: string
  pd_instance_id :: string
  pd_shared_service_id :: "string option"
  pd_tenant_scope :: "(string \<times> string option) option"
  pd_expected_plugin_id :: "string option"
  pd_expires_at :: int
  pd_redeemed :: bool

record redeem_request =
  rq_setup_token :: string
  rq_plugin_id :: string
  rq_auth_provider :: "json option"
  rq_public_key_pem :: "string option"
  rq_key_id :: "string option"
  rq_jwks :: "json option"

record redeem_result =
  rr_api_key :: string
  rr_cp_id :: string
  rr_cp_jwks_uri :: string

datatype redeem_reply =
    Setup_token_invalid
  | Not_recognized
  | Already_redeemed
  | Setup_expired
  | Plugin_mismatch
  | Jwks_invalid
  | Register_failed
  | Granted redeem_result

fun redeem_status :: "redeem_reply \<Rightarrow> nat" where
  "redeem_status Setup_token_invalid = 401"
| "redeem_status Not_recognized = 400"
| "redeem_status Already_redeemed = 409"
| "redeem_status Setup_expired = 400"
| "redeem_status Plugin_mismatch = 409"
| "redeem_status Jwks_invalid = 400"
| "redeem_status Register_failed = 500"
| "redeem_status (Granted r) = 200"

text \<open>A redeem request: before its section, holding a snapshot of the configuration, stored but not
  yet answered, answered for a token id.\<close>

datatype redeem_phase =
    R_idle
  | R_registering string registration_input stored_config nat redeem_result
  | R_stored string redeem_result
  | R_done "string option" redeem_reply

record setup_state =
  sp_pending :: "(string, pending_setup) jsmap"
  sp_storage :: file_storage
  sp_phases :: "nat \<Rightarrow> redeem_phase"

text \<open>What the control plane is configured with, and the libraries it calls: the configuration
  schema, the JWT library with the schema of setup claims, the schemas of provider metadata and
  of key sets, and the key hash.\<close>

record cp_identity =
  ci_issuer :: string
  ci_jwks_uri :: string
  ci_cp_id :: string
  ci_public_pem :: string
  ci_kid :: string

record setup_env =
  se_cp :: cp_identity
  se_parse :: "stored_config \<Rightarrow> stored_config option"
  se_parse_url :: "string \<Rightarrow> url option"
  se_jwt :: jwt_library
  se_setup_schema :: "json \<Rightarrow> setup_claims option"
  se_provider_schema :: "json option \<Rightarrow> auth_provider_metadata option"
  se_jwks_schema :: "json \<Rightarrow> public_jwk list option"
  se_hash_key :: "string \<Rightarrow> string"

definition setup_ttl_seconds :: int where "setup_ttl_seconds = 5 * 60"

definition sweep :: "int \<Rightarrow> setup_state \<Rightarrow> setup_state" where
  "sweep now s = s\<lparr>sp_pending := filter (\<lambda>(jti, e). \<not> pd_expires_at e < now) (sp_pending s)\<rparr>"

definition normalize_service_origin :: "(string \<Rightarrow> url option) \<Rightarrow> string option \<Rightarrow> string option" where
  "normalize_service_origin parse v =
     (case v of
        None \<Rightarrow> None
      | Some x \<Rightarrow>
          (case parse (js_trim x) of
             None \<Rightarrow> None
           | Some u \<Rightarrow>
               if u_protocol u \<noteq> ''http:'' \<and> u_protocol u \<noteq> ''https:'' then None
               else if u_username u \<noteq> [] \<or> u_password u \<noteq> [] \<or> u_search u \<noteq> [] \<or> u_hash u \<noteq> [] then None
               else if u_pathname u \<noteq> ''/'' then None
               else Some (u_origin u)))"

definition normalize_auth_provider_metadata ::
    "(json option \<Rightarrow> auth_provider_metadata option) \<Rightarrow> json option \<Rightarrow> auth_provider_metadata option" where
  "normalize_auth_provider_metadata schema v =
     (case schema v of
        None \<Rightarrow> None
      | Some p \<Rightarrow>
          (let issuer = drop_slashes (js_trim (apm_issuer p)); aud = js_trim (apm_audience p); uri = js_trim (apm_jwks_uri p)
           in if issuer = [] \<or> aud = [] \<or> uri = [] then None
              else Some (p\<lparr>apm_issuer := issuer, apm_audience := aud, apm_jwks_uri := uri\<rparr>)))"

record begin_request =
  bq_service_url :: string
  bq_tenant_id :: "string option"
  bq_app_id :: "string option"
  bq_shared_service_id :: "string option"
  bq_instance_id :: "string option"
  bq_reconfigure :: bool

text \<open>What a setup is for, from the request: of a reconfiguration, the registration it replaces.\<close>

definition setup_target :: "setup_env \<Rightarrow> stored_config \<Rightarrow> string \<Rightarrow> int \<Rightarrow> begin_request \<Rightarrow> nat + pending_setup" where
  "setup_target env cfg fresh_id now rq =
     (let url = drop_slashes (bq_service_url rq);
          instance' = (if truthy (bq_instance_id rq) then the (bq_instance_id rq) else fresh_id);
          plain = \<lparr>pd_service_url = url, pd_instance_id = instance',
            pd_shared_service_id = only_truthy (bq_shared_service_id rq),
            pd_tenant_scope = (if truthy (bq_tenant_id rq) then Some (the (bq_tenant_id rq), bq_app_id rq) else None),
            pd_expected_plugin_id = None, pd_expires_at = now + setup_ttl_seconds * 1000, pd_redeemed = False\<rparr>
      in if \<not> bq_reconfigure rq then Inr plain
         else
           (let t = List.find (\<lambda>t. list_ex (\<lambda>s. ts_id s = instance') (tn_services t)) (pc_tenants cfg);
                shared = List.find (\<lambda>s. ss_id s = instance') (pc_shared_catalog cfg);
                existing = or_else (Option.bind t (\<lambda>t. map_option ts_service_id (List.find (\<lambda>s. ts_id s = instance') (tn_services t))))
                  (or_else (map_option ps_service_id (List.find (\<lambda>s. ps_id s = instance') (pc_platform_services cfg)))
                    (map_option ss_service_id shared))
            in case existing of
                 None \<Rightarrow> Inl 404
               | Some plugin_id \<Rightarrow>
                   if \<not> truthy plugin_id then Inl 409
                   else (case normalize_service_origin (se_parse_url env) (Some url) of
                           None \<Rightarrow> Inl 400
                         | Some origin \<Rightarrow>
                             Inr (plain\<lparr>pd_service_url := origin, pd_tenant_scope := map_option (\<lambda>t. (tn_id t, None)) t,
                               pd_shared_service_id := map_option ss_id shared,
                               pd_instance_id := (if shared = None then instance' else fresh_id),
                               pd_expected_plugin_id := plugin_id\<rparr>))))"

definition begin_install :: "setup_env \<Rightarrow> stored_config \<Rightarrow> string \<Rightarrow> string \<Rightarrow> int \<Rightarrow> begin_request \<Rightarrow> setup_state \<Rightarrow> setup_state" where
  "begin_install env cfg fresh_id jti now rq s =
     (if bq_service_url rq = [] then s
      else (case setup_target env cfg fresh_id now rq of
              Inl n \<Rightarrow> s
            | Inr e \<Rightarrow> s\<lparr>sp_pending := js_set jti e (sp_pending s)\<rparr>))"

definition setup_key :: "setup_env \<Rightarrow> key_source" where
  "setup_key env = Resolver (\<lambda>kid. if kid \<noteq> ci_kid (se_cp env) then Inl ''Unknown setup signing key'' else Inr (ci_public_pem (se_cp env)))"

definition redeem_claims :: "setup_env \<Rightarrow> string \<Rightarrow> setup_claims option" where
  "redeem_claims env token =
     (if length token > 8192 then None
      else (case verify_setup_token (se_setup_schema env) (se_jwt env)
                   \<lparr>ve_source = setup_key env, ve_issuer = ci_issuer (se_cp env), ve_audience = None, ve_tolerance = None\<rparr> token of
              Inl e \<Rightarrow> None | Inr c \<Rightarrow> Some c))"

definition registration_of :: "setup_env \<Rightarrow> pending_setup \<Rightarrow> redeem_request \<Rightarrow> public_jwk list option \<Rightarrow> string \<Rightarrow> registration_input" where
  "registration_of env e rq jwks key =
     \<lparr>ri_instance_id = pd_instance_id e, ri_plugin_id = rq_plugin_id rq, ri_service_url = pd_service_url e,
      ri_auth_provider = normalize_auth_provider_metadata (se_provider_schema env) (rq_auth_provider rq), ri_api_key = key,
      ri_public_key_pem = rq_public_key_pem rq, ri_key_id = rq_key_id rq, ri_jwks = jwks,
      ri_shared_service_id = pd_shared_service_id e, ri_tenant_scope = pd_tenant_scope e\<rparr>"

definition set_redeem :: "nat \<Rightarrow> redeem_phase \<Rightarrow> setup_state \<Rightarrow> setup_state" where
  "set_redeem i p s = s\<lparr>sp_phases := (sp_phases s)(i := p)\<rparr>"

definition mark_redeemed :: "bool \<Rightarrow> string \<Rightarrow> setup_state \<Rightarrow> setup_state" where
  "mark_redeemed b jti s = s\<lparr>sp_pending := map (\<lambda>(k, e). (k, if k = jti then e\<lparr>pd_redeemed := b\<rparr> else e)) (sp_pending s)\<rparr>"

text \<open>From the verified token to the await of the registration, whose first act is the load.\<close>

definition redeem_start :: "setup_env \<Rightarrow> nat \<Rightarrow> int \<Rightarrow> string \<Rightarrow> redeem_request \<Rightarrow> setup_state \<Rightarrow> setup_state" where
  "redeem_start env i now key rq s =
     (case redeem_claims env (rq_setup_token rq) of
        None \<Rightarrow> set_redeem i (R_done None Setup_token_invalid) s
      | Some c \<Rightarrow>
          (let jti = su_jti c in
           case js_get (sp_pending s) jti of
             None \<Rightarrow> set_redeem i (R_done (Some jti) Not_recognized) s
           | Some e \<Rightarrow>
               if pd_redeemed e then set_redeem i (R_done (Some jti) Already_redeemed) s
               else if pd_expires_at e < now
               then set_redeem i (R_done (Some jti) Setup_expired) (s\<lparr>sp_pending := js_del jti (sp_pending s)\<rparr>)
               else if truthy (pd_expected_plugin_id e) \<and> \<not> service_plugin_ids_match (pd_expected_plugin_id e) (Some (rq_plugin_id rq))
               then set_redeem i (R_done (Some jti) Plugin_mismatch) s
               else
                 (case (case rq_jwks rq of None \<Rightarrow> Some None | Some v \<Rightarrow> map_option Some (se_jwks_schema env v)) of
                    None \<Rightarrow> set_redeem i (R_done (Some jti) Jwks_invalid) s
                  | Some jwks \<Rightarrow>
                      (case load_config (se_parse env) (sp_storage s) of
                         Inl e' \<Rightarrow> set_redeem i (R_done (Some jti) Register_failed) s
                       | Inr (cfg, revn) \<Rightarrow>
                           set_redeem i (R_registering jti (registration_of env e rq jwks key) cfg revn
                             \<lparr>rr_api_key = key, rr_cp_id = ci_cp_id (se_cp env), rr_cp_jwks_uri = ci_jwks_uri (se_cp env)\<rparr>)
                             (mark_redeemed True jti s)))))"

definition redeem_register :: "setup_env \<Rightarrow> nat \<Rightarrow> string \<Rightarrow> setup_state \<Rightarrow> setup_state" where
  "redeem_register env i now s =
     (case sp_phases s i of
        R_registering jti inp cfg revn res \<Rightarrow>
          (case register_service (se_hash_key env) now inp cfg of
             Inl e \<Rightarrow> set_redeem i (R_done (Some jti) Register_failed) (mark_redeemed False jti s)
           | Inr cfg' \<Rightarrow>
               (case save_config (se_parse env) cfg' revn (sp_storage s) of
                  Inl e \<Rightarrow> set_redeem i (R_done (Some jti) Register_failed) (mark_redeemed False jti s)
                | Inr fs \<Rightarrow> set_redeem i (R_stored jti res) (s\<lparr>sp_storage := fs\<rparr>)))
      | _ \<Rightarrow> s)"

definition redeem_finish :: "nat \<Rightarrow> setup_state \<Rightarrow> setup_state" where
  "redeem_finish i s =
     (case sp_phases s i of
        R_stored jti res \<Rightarrow> set_redeem i (R_done (Some jti) (Granted res)) (s\<lparr>sp_pending := js_del jti (sp_pending s)\<rparr>)
      | _ \<Rightarrow> s)"

text \<open>Requests, sweeps and other writers of the configuration, interleaved; token ids are fresh.\<close>

definition holds :: "redeem_phase \<Rightarrow> string \<Rightarrow> bool" where
  "holds p jti \<longleftrightarrow>
     (case p of R_registering k inp cfg revn res \<Rightarrow> k = jti | R_stored k res \<Rightarrow> k = jti
      | R_done k r \<Rightarrow> k = Some jti \<and> (case r of Granted x \<Rightarrow> True | _ \<Rightarrow> False) | R_idle \<Rightarrow> False)"

definition granted :: "redeem_phase \<Rightarrow> string \<Rightarrow> bool" where
  "granted p jti \<longleftrightarrow> (\<exists>res. p = R_stored jti res \<or> p = R_done (Some jti) (Granted res))"

inductive setup_step :: "setup_env \<Rightarrow> setup_state \<Rightarrow> setup_state \<Rightarrow> bool" for env where
  Sweep: "setup_step env s (sweep now s)"
| Begin: "jti \<notin> fst ` set (sp_pending s) \<Longrightarrow> \<forall>i. \<not> holds (sp_phases s i) jti \<Longrightarrow>
    setup_step env s (begin_install env cfg fresh_id jti now rq s)"
| Start: "sp_phases s i = R_idle \<Longrightarrow> setup_step env s (redeem_start env i now key rq s)"
| Register: "setup_step env s (redeem_register env i now s)"
| Finish: "setup_step env s (redeem_finish i s)"
| Other_save: "save_config (se_parse env) cfg revn (sp_storage s) = Inr fs \<Longrightarrow> setup_step env s (s\<lparr>sp_storage := fs\<rparr>)"

abbreviation setup_steps :: "setup_env \<Rightarrow> setup_state \<Rightarrow> setup_state \<Rightarrow> bool" where
  "setup_steps env \<equiv> (setup_step env)\<^sup>*\<^sup>*"

definition setup_start :: "file_storage \<Rightarrow> setup_state" where
  "setup_start fs = \<lparr>sp_pending = [], sp_storage = fs, sp_phases = (\<lambda>i. R_idle)\<rparr>"

section \<open>Lemmas\<close>

lemma holds_simps [simp]:
  "\<not> holds R_idle jti" "holds (R_registering k inp cfg revn res) jti \<longleftrightarrow> k = jti" "holds (R_stored k res) jti \<longleftrightarrow> k = jti"
  "holds (R_done o' (Granted res)) jti \<longleftrightarrow> o' = Some jti" "\<not> holds (R_done o' Setup_token_invalid) jti"
  "\<not> holds (R_done o' Not_recognized) jti" "\<not> holds (R_done o' Already_redeemed) jti" "\<not> holds (R_done o' Setup_expired) jti"
  "\<not> holds (R_done o' Plugin_mismatch) jti" "\<not> holds (R_done o' Jwks_invalid) jti" "\<not> holds (R_done o' Register_failed) jti"
  by (auto simp: holds_def)

lemma set_redeem_sel [simp]:
  "sp_phases (set_redeem i p s) = (sp_phases s)(i := p)" "sp_pending (set_redeem i p s) = sp_pending s"
  "sp_storage (set_redeem i p s) = sp_storage s"
  by (simp_all add: set_redeem_def)

lemma mark_redeemed_sel [simp]:
  "sp_phases (mark_redeemed b jti s) = sp_phases s" "sp_storage (mark_redeemed b jti s) = sp_storage s"
  by (simp_all add: mark_redeemed_def)

lemma mark_redeemed_pending:
  "x \<in> set (sp_pending (mark_redeemed b jti s)) \<longleftrightarrow>
     (\<exists>k e. (k, e) \<in> set (sp_pending s) \<and> x = (k, if k = jti then e\<lparr>pd_redeemed := b\<rparr> else e))"
  by (simp add: mark_redeemed_def image_def Bex_def)

text \<open>At most one request holds a token id, and while one does its pending entry is marked.\<close>

definition exclusive :: "setup_state \<Rightarrow> bool" where
  "exclusive s \<longleftrightarrow>
     (\<forall>i j jti. holds (sp_phases s i) jti \<longrightarrow> holds (sp_phases s j) jti \<longrightarrow> i = j) \<and>
     (\<forall>i k e. (k, e) \<in> set (sp_pending s) \<longrightarrow> holds (sp_phases s i) k \<longrightarrow> pd_redeemed e)"

lemma exclusive_phase:
  assumes "exclusive s" "sp_phases s' = (sp_phases s)(i := p)" "\<And>k. holds p k \<Longrightarrow> holds (sp_phases s i) k"
    and "\<And>k e. (k, e) \<in> set (sp_pending s') \<Longrightarrow>
      (k, e) \<in> set (sp_pending s) \<or> pd_redeemed e \<or> (holds (sp_phases s i) k \<and> \<not> holds p k)"
  shows "exclusive s'"
  unfolding exclusive_def
proof (intro conjI allI impI)
  fix a b jti assume h: "holds (sp_phases s' a) jti" "holds (sp_phases s' b) jti"
  then have "holds (sp_phases s a) jti" "holds (sp_phases s b) jti"
    using assms(2,3) by (auto split: if_splits)
  then show "a = b" using assms(1) by (auto simp: exclusive_def)
next
  fix a k e assume p: "(k, e) \<in> set (sp_pending s')" and h: "holds (sp_phases s' a) k"
  then have h': "holds (sp_phases s a) k" using assms(2,3) by (auto split: if_splits)
  from assms(4) [OF p] show "pd_redeemed e"
  proof (elim disjE conjE)
    assume "holds (sp_phases s i) k" "\<not> holds p k"
    then have "a = i" using h' assms(1) by (auto simp: exclusive_def)
    with h \<open>\<not> holds p k\<close> show ?thesis using assms(2) by simp
  qed (use h' assms(1) in \<open>auto simp: exclusive_def\<close>)
qed

lemma redeem_start_cases:
  obtains (refused) k r where "redeem_start env i now key rq s = set_redeem i (R_done k r) s" "\<And>jti. \<not> holds (R_done k r) jti"
  | (expired) jti where "redeem_start env i now key rq s =
      set_redeem i (R_done (Some jti) Setup_expired) (s\<lparr>sp_pending := js_del jti (sp_pending s)\<rparr>)"
  | (started) jti e inp cfg revn res where "js_get (sp_pending s) jti = Some e" "\<not> pd_redeemed e"
      "load_config (se_parse env) (sp_storage s) = Inr (cfg, revn)"
      "redeem_start env i now key rq s = set_redeem i (R_registering jti inp cfg revn res) (mark_redeemed True jti s)"
proof (cases "redeem_claims env (rq_setup_token rq)")
  case None
  then show ?thesis by (intro refused [of None Setup_token_invalid]) (simp_all add: redeem_start_def)
next
  case (Some c)
  note c = Some
  show ?thesis
  proof (cases "js_get (sp_pending s) (su_jti c)")
    case None
    then show ?thesis using c by (intro refused [of "Some (su_jti c)" Not_recognized]) (simp_all add: redeem_start_def Let_def)
  next
    case (Some e)
    note g = Some
    note d = redeem_start_def Let_def c g option.case
    consider (r) "pd_redeemed e" | (x) "\<not> pd_redeemed e" "pd_expires_at e < now"
      | (m) "\<not> pd_redeemed e" "\<not> pd_expires_at e < now"
          "truthy (pd_expected_plugin_id e) \<and> \<not> service_plugin_ids_match (pd_expected_plugin_id e) (Some (rq_plugin_id rq))"
      | (g) "\<not> pd_redeemed e" "\<not> pd_expires_at e < now"
          "\<not> (truthy (pd_expected_plugin_id e) \<and> \<not> service_plugin_ids_match (pd_expected_plugin_id e) (Some (rq_plugin_id rq)))"
      by blast
    then show ?thesis
    proof cases
      case r then show ?thesis by (intro refused [of "Some (su_jti c)" Already_redeemed]) (simp_all add: d)
    next
      case x then show ?thesis by (intro expired [of "su_jti c"]) (simp add: d)
    next
      case m then show ?thesis by (intro refused [of "Some (su_jti c)" Plugin_mismatch]) (simp_all add: d)
    next
      case g
      show ?thesis
      proof (cases "case rq_jwks rq of None \<Rightarrow> Some None | Some v \<Rightarrow> map_option Some (se_jwks_schema env v)")
        case None
        then show ?thesis using g by (intro refused [of "Some (su_jti c)" Jwks_invalid]) (simp_all only: d if_False, simp_all)
      next
        case (Some jwks)
        show ?thesis
        proof (cases "load_config (se_parse env) (sp_storage s)")
          case (Inl e')
          then show ?thesis using g Some
            by (intro refused [of "Some (su_jti c)" Register_failed]) (simp_all only: d if_False sum.case, simp_all)
        next
          case (Inr l)
          obtain cfg revn where l: "l = (cfg, revn)" by (cases l)
          show ?thesis
            by (rule started [of "su_jti c" e cfg revn "registration_of env e rq jwks key"
                  "\<lparr>rr_api_key = key, rr_cp_id = ci_cp_id (se_cp env), rr_cp_jwks_uri = ci_jwks_uri (se_cp env)\<rparr>"])
               (use g Some Inr l \<open>js_get (sp_pending s) (su_jti c) = Some e\<close> in \<open>simp_all only: d if_False sum.case prod.case not_False_eq_True\<close>)
        qed
      qed
    qed
  qed
qed

lemma exclusive_start:
  assumes x: "exclusive s" and idle: "sp_phases s i = R_idle"
  shows "exclusive (redeem_start env i now key rq s)"
proof (cases rule: redeem_start_cases [of env i now key rq s])
  case (refused k r)
  then show ?thesis by (intro exclusive_phase [OF x, where i = i and p = "R_done k r"]) auto
next
  case (expired jti)
  then show ?thesis
    by (intro exclusive_phase [OF x, where i = i and p = "R_done (Some jti) Setup_expired"]) (auto simp: js_del_def)
next
  case (started jti e inp cfg revn res)
  have free: "\<not> holds (sp_phases s j) jti" for j
    using started(1,2) x map_of_SomeD [OF started(1)] by (auto simp: exclusive_def)
  show ?thesis
    unfolding exclusive_def started(4)
  proof (intro conjI allI impI)
    fix a b k
    assume "holds (sp_phases (set_redeem i (R_registering jti inp cfg revn res) (mark_redeemed True jti s)) a) k"
      "holds (sp_phases (set_redeem i (R_registering jti inp cfg revn res) (mark_redeemed True jti s)) b) k"
    then show "a = b" using free x by (auto simp: exclusive_def split: if_splits)
  next
    fix a k d
    assume "(k, d) \<in> set (sp_pending (set_redeem i (R_registering jti inp cfg revn res) (mark_redeemed True jti s)))"
      and "holds (sp_phases (set_redeem i (R_registering jti inp cfg revn res) (mark_redeemed True jti s)) a) k"
    then show "pd_redeemed d" using x by (auto simp: exclusive_def mark_redeemed_pending split: if_splits)
  qed
qed

lemma redeem_register_cases:
  obtains (idle) "redeem_register env i now s = s" "\<And>k inp cfg revn res. sp_phases s i \<noteq> R_registering k inp cfg revn res"
  | (failed) jti inp cfg revn res where "sp_phases s i = R_registering jti inp cfg revn res"
      "redeem_register env i now s = set_redeem i (R_done (Some jti) Register_failed) (mark_redeemed False jti s)"
  | (stored) jti inp cfg revn res cfg' fs where "sp_phases s i = R_registering jti inp cfg revn res"
      "register_service (se_hash_key env) now inp cfg = Inr cfg'" "save_config (se_parse env) cfg' revn (sp_storage s) = Inr fs"
      "redeem_register env i now s = set_redeem i (R_stored jti res) (s\<lparr>sp_storage := fs\<rparr>)"
proof (cases "sp_phases s i")
  case (R_registering jti inp cfg revn res)
  note r = this
  show ?thesis
  proof (cases "register_service (se_hash_key env) now inp cfg")
    case (Inl e)
    then show ?thesis using r by (intro failed) (simp_all add: redeem_register_def)
  next
    case (Inr cfg')
    note g = this
    show ?thesis
    proof (cases "save_config (se_parse env) cfg' revn (sp_storage s)")
      case (Inl e)
      then show ?thesis using r g by (intro failed) (simp_all add: redeem_register_def)
    next
      case (Inr fs)
      then show ?thesis using r g by (intro stored) (simp_all add: redeem_register_def)
    qed
  qed
qed (auto intro!: idle simp: redeem_register_def)

lemma exclusive_step:
  assumes "setup_step env s s'" and x: "exclusive s"
  shows "exclusive s'"
  using assms(1)
proof cases
  case (Sweep now)
  then show ?thesis using x by (auto simp: exclusive_def sweep_def)
next
  case (Begin jti cfg fresh_id now rq)
  have "begin_install env cfg fresh_id jti now rq s = s \<or>
    (\<exists>e. begin_install env cfg fresh_id jti now rq s = s\<lparr>sp_pending := js_set jti e (sp_pending s)\<rparr>)"
    by (auto simp: begin_install_def split: sum.splits)
  then show ?thesis using x Begin(1,3) js_set_member by (fastforce simp: exclusive_def)
next
  case (Start i now key rq)
  then show ?thesis using exclusive_start [OF x] by simp
next
  case (Register i now)
  show ?thesis
  proof (cases rule: redeem_register_cases [of env i now s])
    case idle
    then show ?thesis using x Register by simp
  next
    case (failed jti inp cfg revn res)
    then show ?thesis unfolding Register
      by (intro exclusive_phase [OF x, where i = i]) (auto simp: mark_redeemed_pending split: if_splits)
  next
    case (stored jti inp cfg revn res cfg' fs)
    then show ?thesis unfolding Register by (intro exclusive_phase [OF x, where i = i]) auto
  qed
next
  case (Finish i)
  show ?thesis
  proof (cases "sp_phases s i")
    case (R_stored jti res)
    then show ?thesis unfolding Finish
      by (intro exclusive_phase [OF x, where i = i]) (auto simp: redeem_finish_def js_del_def)
  qed (use x Finish in \<open>simp_all add: redeem_finish_def\<close>)
next
  case (Other_save cfg revn fs)
  then show ?thesis using x by (simp add: exclusive_def)
qed

lemma exclusive_steps: "setup_steps env s s' \<Longrightarrow> exclusive s \<Longrightarrow> exclusive s'"
  by (induction rule: rtranclp_induct) (auto intro: exclusive_step)

lemma exclusive_setup_start: "exclusive (setup_start fs)"
  by (simp add: exclusive_def setup_start_def)

text \<open>A snapshot whose revision is still the file's is what the file would load as.\<close>

definition snapshots_ok :: "setup_env \<Rightarrow> setup_state \<Rightarrow> bool" where
  "snapshots_ok env s \<longleftrightarrow>
     (\<forall>i jti inp cfg revn res. sp_phases s i = R_registering jti inp cfg revn res \<longrightarrow>
        revn \<le> fs_revision (sp_storage s) \<and>
        (revn = fs_revision (sp_storage s) \<longrightarrow> load_config (se_parse env) (sp_storage s) = Inr (cfg, revn)))"

lemma snapshots_okD:
  "snapshots_ok env s \<Longrightarrow> sp_phases s i = R_registering jti inp cfg revn res \<Longrightarrow>
     revn \<le> fs_revision (sp_storage s) \<and>
     (revn = fs_revision (sp_storage s) \<longrightarrow> load_config (se_parse env) (sp_storage s) = Inr (cfg, revn))"
  unfolding snapshots_ok_def by blast

lemma save_config_revision: "save_config parse cfg revn fs = Inr fs' \<Longrightarrow> revn = fs_revision fs \<and> fs_revision fs' = Suc (fs_revision fs)"
  by (auto simp: save_config_def Let_def split: if_splits option.splits)

lemma snapshots_advance:
  assumes "snapshots_ok env s" "fs_revision (sp_storage s') = Suc (fs_revision (sp_storage s))"
    and "\<And>j jti inp cfg revn res. sp_phases s' j = R_registering jti inp cfg revn res \<Longrightarrow> sp_phases s j = R_registering jti inp cfg revn res"
  shows "snapshots_ok env s'"
  unfolding snapshots_ok_def
proof (intro allI impI)
  fix i jti inp cfg revn res assume "sp_phases s' i = R_registering jti inp cfg revn res"
  from snapshots_okD [OF assms(1) assms(3) [OF this]] have "revn \<le> fs_revision (sp_storage s)" by blast
  then show "revn \<le> fs_revision (sp_storage s') \<and>
      (revn = fs_revision (sp_storage s') \<longrightarrow> load_config (se_parse env) (sp_storage s') = Inr (cfg, revn))"
    using assms(2) by simp
qed

lemma snapshots_keep:
  assumes "snapshots_ok env s" "sp_storage s' = sp_storage s"
    and "\<And>j jti inp cfg revn res. sp_phases s' j = R_registering jti inp cfg revn res \<Longrightarrow> sp_phases s j = R_registering jti inp cfg revn res"
  shows "snapshots_ok env s'"
  using assms unfolding snapshots_ok_def by metis

lemma snapshots_step:
  assumes "setup_step env s s'" and x: "snapshots_ok env s"
  shows "snapshots_ok env s'"
  using assms(1)
proof cases
  case (Sweep now)
  then show ?thesis by (intro snapshots_keep [OF x]) (auto simp: sweep_def)
next
  case (Begin jti cfg fresh_id now rq)
  then show ?thesis by (intro snapshots_keep [OF x]) (auto simp: begin_install_def split: sum.splits if_splits)
next
  case (Start i now key rq)
  show ?thesis
  proof (cases rule: redeem_start_cases [of env i now key rq s])
    case (refused k r)
    then show ?thesis unfolding Start by (intro snapshots_keep [OF x]) (auto split: if_splits)
  next
    case (expired jti)
    then show ?thesis unfolding Start by (intro snapshots_keep [OF x]) (auto split: if_splits)
  next
    case (started jti e inp cfg revn res)
    have "revn = fs_revision (sp_storage s)" using started(3) by (auto simp: load_config_def split: option.splits)
    then show ?thesis using x started(3) unfolding Start started(4) snapshots_ok_def by simp
  qed
next
  case (Register i now)
  show ?thesis
  proof (cases rule: redeem_register_cases [of env i now s])
    case idle
    then show ?thesis using x Register by simp
  next
    case (failed jti inp cfg revn res)
    then show ?thesis unfolding Register by (intro snapshots_keep [OF x]) (auto split: if_splits)
  next
    case (stored jti inp cfg revn res cfg' fs)
    then show ?thesis unfolding Register
      by (intro snapshots_advance [OF x]) (auto dest: save_config_revision split: if_splits)
  qed
next
  case (Finish i)
  show ?thesis
  proof (cases "sp_phases s i")
    case (R_stored jti res)
    then show ?thesis unfolding Finish by (intro snapshots_keep [OF x]) (auto simp: redeem_finish_def split: if_splits)
  qed (use x Finish in \<open>simp_all add: redeem_finish_def\<close>)
next
  case (Other_save cfg revn fs)
  then show ?thesis by (intro snapshots_advance [OF x]) (auto dest: save_config_revision)
qed

lemma snapshots_steps: "setup_steps env s s' \<Longrightarrow> snapshots_ok env s \<Longrightarrow> snapshots_ok env s'"
  by (induction rule: rtranclp_induct) (auto intro: snapshots_step)

lemma snapshots_setup_start: "snapshots_ok env (setup_start fs)"
  by (simp add: snapshots_ok_def setup_start_def)

section \<open>Properties\<close>

text \<open>
  C18: a setup token is redeemed at most once: over any interleaving of requests, expiries,
  failures and other writers no two requests are ever granted a key for the same token.
\<close>

theorem setup_token_single_use:
  assumes "setup_steps env (setup_start fs) s" "granted (sp_phases s i) jti" "granted (sp_phases s j) jti"
  shows "i = j"
proof -
  have "exclusive s" using exclusive_steps [OF assms(1) exclusive_setup_start] .
  moreover have "holds (sp_phases s i) jti" "holds (sp_phases s j) jti" using assms(2,3) by (auto simp: granted_def)
  ultimately show ?thesis by (auto simp: exclusive_def)
qed

text \<open>
  C20: registering an instance loses no other change: whenever a redeem request changes the stored
  configuration, the new one is the registration applied to what was stored at that moment, however
  many writers came between its load and its save.
\<close>

theorem registration_not_stale:
  assumes "setup_steps env (setup_start fs) s" "sp_phases s i = R_registering jti inp cfg revn res"
    and "sp_storage (redeem_register env i now s) \<noteq> sp_storage s"
  shows "load_config (se_parse env) (sp_storage s) = Inr (cfg, fs_revision (sp_storage s)) \<and>
    (\<exists>cfg'. register_service (se_hash_key env) now inp cfg = Inr cfg' \<and>
       save_config (se_parse env) cfg' (fs_revision (sp_storage s)) (sp_storage s) = Inr (sp_storage (redeem_register env i now s)))"
proof -
  have ok: "snapshots_ok env s" using snapshots_steps [OF assms(1) snapshots_setup_start] .
  show ?thesis
  proof (cases rule: redeem_register_cases [of env i now s])
    case idle
    then show ?thesis using assms(3) by simp
  next
    case (failed jti' inp' cfg'' revn' res')
    then show ?thesis using assms(3) by simp
  next
    case (stored jti' inp' cfg'' revn' res' cfg' fs')
    then have e: "cfg'' = cfg" "revn' = revn" "inp' = inp" using assms(2) by simp_all
    moreover from e have "revn = fs_revision (sp_storage s)" using save_config_revision [OF stored(3)] by blast
    moreover note snapshots_okD [OF ok assms(2)]
    ultimately show ?thesis using stored by auto
  qed
qed

section \<open>What a registration does\<close>

lemma canonicalize_fields [simp]:
  "pc_platform_services (canonicalize_config c) = pc_platform_services c" "pc_shared_catalog (canonicalize_config c) = pc_shared_catalog c"
  "pc_tenants (canonicalize_config c) = pc_tenants c"
  by (simp_all add: canonicalize_config_def ensure_platform_root_role_def Let_def)

lemma refresh_shared_fields [simp]:
  "pc_platform_services (refresh_shared_apps inp sid c) = pc_platform_services c" "pc_shared_catalog (refresh_shared_apps inp sid c) = pc_shared_catalog c"
  "pc_tenants (refresh_shared_apps inp sid c) = pc_tenants c" "pc_shared_activations (refresh_shared_apps inp sid c) = pc_shared_activations c"
  "pc_management (refresh_shared_apps inp sid c) = pc_management c" "st_bindings (refresh_shared_apps inp sid c) = st_bindings c"
  "st_grants (refresh_shared_apps inp sid c) = st_grants c"
  by (simp_all add: refresh_shared_apps_def attach_shared_auth_jwks_def attach_shared_auth_provider_metadata_def Let_def split: option.splits)

lemma refresh_tenant_fields [simp]:
  "pc_platform_services (refresh_tenant_apps inp t c) = pc_platform_services c" "pc_shared_catalog (refresh_tenant_apps inp t c) = pc_shared_catalog c"
  "pc_tenants (refresh_tenant_apps inp t c) = pc_tenants c" "pc_shared_activations (refresh_tenant_apps inp t c) = pc_shared_activations c"
  "pc_management (refresh_tenant_apps inp t c) = pc_management c" "st_bindings (refresh_tenant_apps inp t c) = st_bindings c"
  "st_grants (refresh_tenant_apps inp t c) = st_grants c"
  by (simp_all add: refresh_tenant_apps_def)

lemma find_none: "\<forall>y\<in>set xs. \<not> P y \<Longrightarrow> List.find P xs = None"
  by (induction xs) auto

lemma find_last: "\<forall>y\<in>set xs. \<not> P y \<Longrightarrow> P x \<Longrightarrow> List.find P (xs @ [x]) = Some x"
  by (induction xs) auto

lemma find_updated:
  "List.find Q xs = Some x \<Longrightarrow> \<forall>y\<in>set xs. \<not> P y \<Longrightarrow> P (f x) \<Longrightarrow> List.find P (update_first Q f xs) = Some (f x)"
  by (induction xs) (auto split: if_splits)

lemma find_append_none: "\<forall>y\<in>set xs. \<not> P y \<Longrightarrow> List.find P (xs @ ys) = List.find P ys"
  by (induction xs) auto

lemma find_append_some: "List.find P xs = Some x \<Longrightarrow> List.find P (xs @ ys) = Some x"
  by (induction xs) (auto split: if_splits)

lemma find_concat_updated:
  "List.find Q ts = Some t \<Longrightarrow> \<forall>u\<in>set ts. \<forall>y\<in>set (g u). \<not> P y \<Longrightarrow> List.find P (g (f t)) = Some r \<Longrightarrow>
     List.find P (concat (map g (update_first Q f ts))) = Some r"
  by (induction ts) (auto simp: find_append_none find_append_some split: if_splits)

lemma find_map_pair: "List.find P (map (Pair t) xs) = map_option (Pair t) (List.find (\<lambda>x. P (t, x)) xs)"
  by (induction xs) auto

definition key_unused :: "string \<Rightarrow> stored_config \<Rightarrow> bool" where
  "key_unused h cfg \<longleftrightarrow>
     list_all (\<lambda>s. ps_api_key_hash s \<noteq> h) (pc_platform_services cfg) \<and> list_all (\<lambda>s. ss_api_key_hash s \<noteq> h) (pc_shared_catalog cfg) \<and>
     list_all (\<lambda>t. list_all (\<lambda>s. ts_api_key_hash s \<noteq> h) (tn_services t)) (pc_tenants cfg)"

definition registered_id :: "registration_input \<Rightarrow> string" where
  "registered_id inp = (if truthy (ri_shared_service_id inp) then the (ri_shared_service_id inp) else ri_instance_id inp)"

definition registered_tenant_id :: "registration_input \<Rightarrow> string option" where
  "registered_tenant_id inp =
     (if truthy (ri_shared_service_id inp) then None
      else (case ri_tenant_scope inp of Some (t, a) \<Rightarrow> if t = [] then None else Some t | None \<Rightarrow> None))"

definition registration_owner :: "registration_input \<Rightarrow> key_owner" where
  "registration_owner inp =
     \<lparr>ko_scope = (if registered_tenant_id inp = None then Platform_key else Tenant_key), ko_service_id = registered_id inp,
      ko_tenant_id = registered_tenant_id inp\<rparr>"

lemma register_service_branches:
  "register_service hash now inp cfg =
     (case registered_tenant_id inp of
        Some t \<Rightarrow> register_tenant (hash (ri_api_key inp)) now inp t cfg
      | None \<Rightarrow> if truthy (ri_shared_service_id inp) then register_shared (hash (ri_api_key inp)) inp (registered_id inp) cfg
                else register_platform (hash (ri_api_key inp)) now inp cfg)"
  by (auto simp: register_service_def registered_tenant_id_def registered_id_def Let_def split: option.splits prod.splits)

lemma registered_platform_key:
  assumes "register_platform (hash key) now inp cfg = Inr cfg'" "key_unused (hash key) cfg"
  shows "validate_api_key hash cfg' key = Some \<lparr>ko_scope = Platform_key, ko_service_id = ri_instance_id inp, ko_tenant_id = None\<rparr>"
proof (cases "List.find (\<lambda>s. ps_id s = ri_instance_id inp) (pc_platform_services cfg)")
  case None
  have "List.find (\<lambda>s. ps_enabled s \<and> ps_api_key_hash s = hash key) (pc_platform_services cfg @ [new_platform_service inp (hash key) now])
      = Some (new_platform_service inp (hash key) now)"
    using assms(2) by (intro find_last) (auto simp: key_unused_def list_all_iff new_platform_service_def)
  then show ?thesis using assms(1) None
    by (auto simp: register_platform_def validate_api_key_def new_platform_service_def)
next
  case (Some s)
  have "List.find (\<lambda>s. ps_enabled s \<and> ps_api_key_hash s = hash key)
      (update_first (\<lambda>s. ps_id s = ri_instance_id inp) (paired_platform_service inp (hash key)) (pc_platform_services cfg))
      = Some (paired_platform_service inp (hash key) s)"
    using assms(2) Some by (intro find_updated) (auto simp: key_unused_def list_all_iff paired_platform_service_def)
  moreover have "ps_id s = ri_instance_id inp" using Some by (auto dest: find_SomeD)
  ultimately show ?thesis using assms(1) Some
    by (auto simp: register_platform_def validate_api_key_def paired_platform_service_def split: if_splits)
qed

lemma registered_shared_key:
  assumes "register_shared (hash key) inp sid cfg = Inr cfg'" "key_unused (hash key) cfg"
  shows "validate_api_key hash cfg' key = Some \<lparr>ko_scope = Platform_key, ko_service_id = sid, ko_tenant_id = None\<rparr>"
proof -
  obtain s where s: "List.find (\<lambda>s. ss_id s = sid) (pc_shared_catalog cfg) = Some s"
    and c: "cfg' = refresh_shared_apps inp sid
       (cfg\<lparr>pc_shared_catalog := update_first (\<lambda>s. ss_id s = sid) (paired_shared inp (hash key)) (pc_shared_catalog cfg)\<rparr>)"
    using assms(1) by (auto simp: register_shared_def split: option.splits if_splits)
  have "List.find (\<lambda>s. ss_enabled s \<and> ss_api_key_hash s = hash key)
      (update_first (\<lambda>s. ss_id s = sid) (paired_shared inp (hash key)) (pc_shared_catalog cfg)) = Some (paired_shared inp (hash key) s)"
    using assms(2) s by (intro find_updated) (auto simp: key_unused_def list_all_iff paired_shared_def)
  moreover have "List.find (\<lambda>s. ps_enabled s \<and> ps_api_key_hash s = hash key) (pc_platform_services cfg) = None"
    using assms(2) by (intro find_none) (auto simp: key_unused_def list_all_iff)
  moreover have "ss_id s = sid" using s by (auto dest: find_SomeD)
  ultimately show ?thesis by (simp add: c validate_api_key_def Let_def paired_shared_def)
qed

lemma registered_tenant_key:
  assumes "register_tenant (hash key) now inp tid cfg = Inr cfg'" "key_unused (hash key) cfg"
    and "List.find (\<lambda>t. tn_id t = tid) (pc_tenants cfg) = Some t" "tn_active t"
  shows "validate_api_key hash cfg' key = Some \<lparr>ko_scope = Tenant_key, ko_service_id = ri_instance_id inp, ko_tenant_id = Some tid\<rparr>"
proof -
  let ?P = "\<lambda>s. ts_enabled s \<and> ts_api_key_hash s = hash key"
  have unused: "\<forall>u\<in>set (pc_tenants cfg). \<forall>s\<in>set (tn_services u). ts_api_key_hash s \<noteq> hash key"
    using assms(2) by (simp add: key_unused_def list_all_iff)
  have t: "t \<in> set (pc_tenants cfg)" "tn_id t = tid" using assms(3) by (auto dest: find_SomeD)
  obtain ss s where c: "cfg' = (refresh_tenant_apps inp tid cfg)\<lparr>pc_tenants :=
        update_first (\<lambda>t. tn_id t = tid) (\<lambda>t. t\<lparr>tn_services := ss (tn_services t)\<rparr>) (pc_tenants cfg)\<rparr>"
    and s: "List.find ?P (ss (tn_services t)) = Some s" "ts_id s = ri_instance_id inp"
  proof (cases "List.find (\<lambda>s. ts_id s = ri_instance_id inp) (tn_services t)")
    case None
    have "List.find ?P (tn_services t @ [new_tenant_service inp (hash key) now]) = Some (new_tenant_service inp (hash key) now)"
      using unused t by (intro find_last) (auto simp: new_tenant_service_def)
    then show ?thesis using assms(1,3) None
      by (intro that [of "\<lambda>l. l @ [new_tenant_service inp (hash key) now]" "new_tenant_service inp (hash key) now"])
         (auto simp: register_tenant_def Let_def new_tenant_service_def)
  next
    case (Some old)
    have "List.find ?P (update_first (\<lambda>s. ts_id s = ri_instance_id inp) (paired_tenant_service inp (hash key) now) (tn_services t))
        = Some (paired_tenant_service inp (hash key) now old)"
      using unused t Some by (intro find_updated) (auto simp: paired_tenant_service_def)
    moreover have "ts_id old = ri_instance_id inp" using Some by (auto dest: find_SomeD)
    ultimately show ?thesis using assms(1,3) Some
      by (intro that [of "update_first (\<lambda>s. ts_id s = ri_instance_id inp) (paired_tenant_service inp (hash key) now)"
            "paired_tenant_service inp (hash key) now old"])
         (auto simp: register_tenant_def Let_def paired_tenant_service_def split: if_splits)
  qed
  let ?f = "\<lambda>t. t\<lparr>tn_services := ss (tn_services t)\<rparr>"
  have "List.find (\<lambda>(t, s). tn_active t \<and> ?P s) (map (Pair (?f t)) (tn_services (?f t))) = Some (?f t, s)"
    using s(1) assms(4) by (simp add: find_map_pair)
  moreover have "pc_tenants cfg' = update_first (\<lambda>t. tn_id t = tid) ?f (pc_tenants cfg)" by (simp add: c)
  ultimately have "List.find (\<lambda>(t, s). tn_active t \<and> ?P s) (tenant_services cfg') = Some (?f t, s)"
    unfolding tenant_services_def using unused by (simp only:) (rule find_concat_updated [OF assms(3)], auto)
  moreover have "List.find (\<lambda>s. ps_enabled s \<and> ps_api_key_hash s = hash key) (pc_platform_services cfg') = None"
    "List.find (\<lambda>s. ss_enabled s \<and> ss_api_key_hash s = hash key) (pc_shared_catalog cfg') = None"
    using assms(2) by (auto intro!: find_none simp: c key_unused_def list_all_iff)
  ultimately show ?thesis using s(2) t(2) by (simp add: validate_api_key_def Let_def)
qed

lemma registered_key:
  assumes "register_service hash now inp cfg = Inr cfg'" "key_unused (hash (ri_api_key inp)) cfg"
    and "\<And>tid. registered_tenant_id inp = Some tid \<Longrightarrow> \<exists>t. List.find (\<lambda>t. tn_id t = tid) (pc_tenants cfg) = Some t \<and> tn_active t"
  shows "validate_api_key hash cfg' (ri_api_key inp) = Some (registration_owner inp)"
proof (cases "registered_tenant_id inp")
  case None
  then show ?thesis
    using assms(1,2) registered_platform_key registered_shared_key
    by (auto simp: register_service_branches registration_owner_def registered_id_def split: if_splits)
next
  case (Some tid)
  then have "\<not> truthy (ri_shared_service_id inp)" by (auto simp: registered_tenant_id_def split: if_splits)
  then show ?thesis
    using assms registered_tenant_key [of hash "ri_api_key inp" now inp tid cfg cfg'] Some
    by (auto simp: register_service_branches registration_owner_def registered_id_def)
qed

lemma validate_canonical [simp]: "validate_api_key hash (canonicalize_config c) key = validate_api_key hash c key"
  by (simp only: validate_api_key_def tenant_services_def canonicalize_fields)

text \<open>
  C19: pairing works end to end on the control plane: a verified, pending, unexpired setup token
  whose registration is valid is answered with the key, the key authenticates exactly the instance
  (and tenant) the setup was for from then on, and the token is gone.
\<close>

theorem redeemed_key_authenticates:
  assumes claims: "redeem_claims env (rq_setup_token rq) = Some c" "js_get (sp_pending s) (su_jti c) = Some e"
    and fresh: "\<not> pd_redeemed e" "now \<le> pd_expires_at e"
    and plugin: "\<not> truthy (pd_expected_plugin_id e) \<or> pd_expected_plugin_id e = Some (rq_plugin_id rq)"
    and jwks: "(case rq_jwks rq of None \<Rightarrow> Some None | Some v \<Rightarrow> map_option Some (se_jwks_schema env v)) = Some jwks"
    and load: "load_config (se_parse env) (sp_storage s) = Inr (cfg, revn)"
    and reg: "register_service (se_hash_key env) time (registration_of env e rq jwks key) cfg = Inr cfg'"
    and save: "se_parse env cfg' = Some cfg'" "validate_config_references (canonicalize_config cfg')"
    and unused: "key_unused (se_hash_key env key) cfg"
    and active: "\<And>tid. registered_tenant_id (registration_of env e rq jwks key) = Some tid \<Longrightarrow>
      \<exists>t. List.find (\<lambda>t. tn_id t = tid) (pc_tenants cfg) = Some t \<and> tn_active t"
    and final: "s' = redeem_finish i (redeem_register env i time (redeem_start env i now key rq s))"
  shows "(\<exists>res. sp_phases s' i = R_done (Some (su_jti c)) (Granted res) \<and> rr_api_key res = key) \<and>
    validate_api_key (se_hash_key env) (fs_config (sp_storage s')) key = Some (registration_owner (registration_of env e rq jwks key)) \<and>
    js_get (sp_pending s') (su_jti c) = None"
proof -
  let ?inp = "registration_of env e rq jwks key"
  let ?res = "\<lparr>rr_api_key = key, rr_cp_id = ci_cp_id (se_cp env), rr_cp_jwks_uri = ci_jwks_uri (se_cp env)\<rparr>"
  let ?fs = "\<lparr>fs_config = canonicalize_config cfg', fs_revision = fs_revision (sp_storage s) + 1\<rparr>"
  have m: "\<not> (truthy (pd_expected_plugin_id e) \<and> \<not> service_plugin_ids_match (pd_expected_plugin_id e) (Some (rq_plugin_id rq)))"
    using plugin by (auto simp: service_plugin_ids_match_def)
  have s1: "redeem_start env i now key rq s = set_redeem i (R_registering (su_jti c) ?inp cfg revn ?res) (mark_redeemed True (su_jti c) s)"
    using fresh m by (simp only: redeem_start_def Let_def claims jwks load option.case if_False not_less sum.case prod.case)
       (simp add: not_less)
  have "revn = fs_revision (sp_storage s)" using load by (auto simp: load_config_def split: option.splits)
  then have "save_config (se_parse env) cfg' revn (sp_storage s) = Inr ?fs" using save by (simp add: save_config_def Let_def)
  then have s2: "redeem_register env i time (redeem_start env i now key rq s) =
      set_redeem i (R_stored (su_jti c) ?res) ((redeem_start env i now key rq s)\<lparr>sp_storage := ?fs\<rparr>)"
    using reg by (simp add: redeem_register_def s1)
  have "validate_api_key (se_hash_key env) cfg' (ri_api_key ?inp) = Some (registration_owner ?inp)"
    using registered_key [OF reg] unused active by (simp add: registration_of_def)
  moreover have "ri_api_key ?inp = key" by (simp add: registration_of_def)
  ultimately show ?thesis by (simp add: final redeem_finish_def s2)
qed

lemma filter_update_first: "(\<And>x. Q x \<Longrightarrow> \<not> R x \<and> \<not> R (f x)) \<Longrightarrow> filter R (update_first Q f xs) = filter R xs"
  by (induction xs) auto

lemma map_update_first: "(\<And>x. Q x \<Longrightarrow> g (f x) = g x) \<Longrightarrow> map g (update_first Q f xs) = map g xs"
  by (induction xs) auto

definition others_of_tenant :: "string \<Rightarrow> tenant \<Rightarrow> tenant" where
  "others_of_tenant i t = t\<lparr>tn_services := filter (\<lambda>s. ts_id s \<noteq> i) (tn_services t)\<rparr>"

lemma apply_metadata_core [simp]:
  "aa_roles (apply_auth_provider_metadata p auth) = aa_roles auth" "aa_service_id (apply_auth_provider_metadata p auth) = aa_service_id auth"
  by (simp_all add: apply_auth_provider_metadata_def)

















section \<open>Applications\<close>

definition sample_pairing_claims :: setup_claims where
  "sample_pairing_claims = \<lparr>su_iss = ''https://cp.test'', su_exp = 200, su_iat = 100, su_jti = ''j'', su_instance_id = ''new'',
     su_service_url = ''https://svc.test'', su_cp_url = ''https://cp.test'', su_cp_jwks_uri = ''uri'', su_scope = Some (''t'', None)\<rparr>"

definition sample_pairing_env :: setup_env where
  "sample_pairing_env = \<lparr>se_cp = \<lparr>ci_issuer = ''https://cp.test'', ci_jwks_uri = ''uri'', ci_cp_id = ''cp'', ci_public_pem = ''pem'', ci_kid = ''k1''\<rparr>,
     se_parse = Some, se_parse_url = sample_parse_url, se_jwt = sample_setup_library, se_setup_schema = (\<lambda>v. Some sample_pairing_claims),
     se_provider_schema = (\<lambda>v. None), se_jwks_schema = (\<lambda>v. None), se_hash_key = (\<lambda>k. if k = ''nk'' then ''h9'' else ''?'')\<rparr>"

definition sample_begin :: begin_request where
  "sample_begin = \<lparr>bq_service_url = ''https://svc.test/'', bq_tenant_id = Some ''t'', bq_app_id = None, bq_shared_service_id = None,
     bq_instance_id = Some ''new'', bq_reconfigure = False\<rparr>"

definition sample_redeem_request :: redeem_request where
  "sample_redeem_request = \<lparr>rq_setup_token = ''h.p.s'', rq_plugin_id = ''org.test.shop'', rq_auth_provider = None,
     rq_public_key_pem = None, rq_key_id = None, rq_jwks = None\<rparr>"

definition sample_entry :: pending_setup where
  "sample_entry = \<lparr>pd_service_url = ''https://svc.test'', pd_instance_id = ''new'', pd_shared_service_id = None, pd_tenant_scope = Some (''t'', None),
     pd_expected_plugin_id = None, pd_expires_at = 300100, pd_redeemed = False\<rparr>"

definition sample_setup_start :: setup_state where
  "sample_setup_start = setup_start \<lparr>fs_config = sample_stored, fs_revision = 0\<rparr>"

definition sample_begun :: setup_state where
  "sample_begun = begin_install sample_pairing_env sample_stored ''fresh'' ''j'' 100 sample_begin sample_setup_start"

definition sample_registering :: setup_state where
  "sample_registering = redeem_start sample_pairing_env 0 150 ''nk'' sample_redeem_request sample_begun"

definition sample_granted :: setup_state where
  "sample_granted = redeem_finish 0 (redeem_register sample_pairing_env 0 ''now'' sample_registering)"

definition sample_registration :: registration_input where
  "sample_registration = registration_of sample_pairing_env sample_entry sample_redeem_request None ''nk''"

definition sample_registered :: stored_config where
  "sample_registered = (case register_service (se_hash_key sample_pairing_env) ''now'' sample_registration (canonicalize_config sample_stored) of
     Inl e \<Rightarrow> sample_stored | Inr c \<Rightarrow> c)"

lemma sample_begun_pending: "sp_pending sample_begun = [(''j'', sample_entry)]"
  by code_simp

lemma sample_pairing_facts:
  "redeem_claims sample_pairing_env (rq_setup_token sample_redeem_request) = Some sample_pairing_claims"
  "is_ok (register_service (se_hash_key sample_pairing_env) ''now'' sample_registration (canonicalize_config sample_stored))"
  "validate_config_references (canonicalize_config sample_registered)"
  "key_unused (se_hash_key sample_pairing_env ''nk'') (canonicalize_config sample_stored)"
  "registered_tenant_id sample_registration = Some ''t''" "registered_id sample_registration = ''new''"
  "sp_phases sample_begun 0 = R_idle" "su_jti sample_pairing_claims = ''j''"
  "fs_revision (sp_storage sample_granted) = 1" "fs_revision (sp_storage sample_registering) = 0"
  by code_simp+

lemma sample_pairing_register:
  "register_service (se_hash_key sample_pairing_env) ''now'' sample_registration (canonicalize_config sample_stored) = Inr sample_registered"
  using sample_pairing_facts(2)
  by (cases "register_service (se_hash_key sample_pairing_env) ''now'' sample_registration (canonicalize_config sample_stored)")
     (simp_all add: sample_registered_def)

lemma sample_pairing_load:
  "load_config (se_parse sample_pairing_env) (sp_storage sample_begun) = Inr (canonicalize_config sample_stored, 0)"
proof -
  have "sp_storage sample_begun = \<lparr>fs_config = sample_stored, fs_revision = 0\<rparr>"
    by (simp add: sample_begun_def begin_install_def sample_setup_start_def setup_start_def split: sum.splits)
  then show ?thesis by (simp add: load_config_def sample_pairing_env_def)
qed

lemma sample_registering_phase:
  "\<exists>res. sp_phases sample_registering 0 = R_registering ''j'' sample_registration (canonicalize_config sample_stored) 0 res"
  by (simp add: sample_registering_def redeem_start_def sample_pairing_facts(1,8) sample_begun_pending sample_pairing_load Let_def)
     (simp add: sample_entry_def sample_redeem_request_def sample_registration_def truthy_def sample_pairing_load)

lemma sample_setup_steps:
  "setup_steps sample_pairing_env sample_setup_start sample_registering"
  "setup_steps sample_pairing_env sample_registering sample_granted"
proof -
  have steps: "setup_step sample_pairing_env sample_setup_start sample_begun"
    "setup_step sample_pairing_env sample_begun sample_registering"
    "setup_step sample_pairing_env sample_registering (redeem_register sample_pairing_env 0 ''now'' sample_registering)"
    "setup_step sample_pairing_env (redeem_register sample_pairing_env 0 ''now'' sample_registering) sample_granted"
    unfolding sample_begun_def sample_registering_def sample_granted_def
    by (rule setup_step.Begin, simp_all add: sample_setup_start_def setup_start_def)
       (rule setup_step.Start, simp add: sample_pairing_facts(7) [unfolded sample_begun_def sample_setup_start_def setup_start_def],
        rule setup_step.Register, rule setup_step.Finish)
  show "setup_steps sample_pairing_env sample_setup_start sample_registering"
    "setup_steps sample_pairing_env sample_registering sample_granted"
    using steps by (meson converse_rtranclp_into_rtranclp rtranclp.rtrancl_refl)+
qed

theorem redeemed_key_authenticates_witness:
  "(\<exists>res. sp_phases sample_granted 0 = R_done (Some ''j'') (Granted res) \<and> rr_api_key res = ''nk'') \<and>
   validate_api_key (se_hash_key sample_pairing_env) (fs_config (sp_storage sample_granted)) ''nk'' =
     Some \<lparr>ko_scope = Tenant_key, ko_service_id = ''new'', ko_tenant_id = Some ''t''\<rparr>"
proof -
  have p: "js_get (sp_pending sample_begun) (su_jti sample_pairing_claims) = Some sample_entry"
    by (simp add: sample_begun_pending sample_pairing_facts(8))
  have e: "\<not> pd_redeemed sample_entry" "150 \<le> pd_expires_at sample_entry"
    "\<not> truthy (pd_expected_plugin_id sample_entry) \<or> pd_expected_plugin_id sample_entry = Some (rq_plugin_id sample_redeem_request)"
    "(case rq_jwks sample_redeem_request of None \<Rightarrow> Some None | Some v \<Rightarrow> map_option Some (se_jwks_schema sample_pairing_env v)) = Some None"
    by (simp_all add: sample_entry_def sample_redeem_request_def truthy_def)
  have t: "\<exists>t. List.find (\<lambda>t. tn_id t = tid) (pc_tenants (canonicalize_config sample_stored)) = Some t \<and> tn_active t"
    if "registered_tenant_id (registration_of sample_pairing_env sample_entry sample_redeem_request None ''nk'') = Some tid" for tid
  proof -
    have "tid = ''t''" using that sample_pairing_facts(5) by (simp add: sample_registration_def)
    then show ?thesis
      by (simp add: sample_stored_def platform_config.defs sample_stored_tenant_def sample_tenant_def)
  qed
  have "se_parse sample_pairing_env sample_registered = Some sample_registered" by (simp add: sample_pairing_env_def)
  from redeemed_key_authenticates [OF sample_pairing_facts(1) p e sample_pairing_load
      sample_pairing_register [unfolded sample_registration_def] this sample_pairing_facts(3,4) t
      sample_granted_def [unfolded sample_registering_def]]
  show ?thesis
    using sample_pairing_facts(5,6,8) by (simp add: registration_owner_def sample_registration_def)
qed

theorem setup_token_single_use_witness:
  "granted (sp_phases sample_granted 0) ''j'' \<and> {i. granted (sp_phases sample_granted i) ''j''} = {0}"
proof -
  have "\<exists>r. sp_phases sample_granted 0 = R_done (Some ''j'') (Granted r)"
  proof -
    have "is_ok (register_service (se_hash_key sample_pairing_env) ''now'' sample_registration (canonicalize_config sample_stored))"
      by (rule sample_pairing_facts)
    have "(case sp_phases sample_granted 0 of R_done (Some k) (Granted r) \<Rightarrow> k = ''j'' | _ \<Rightarrow> False)" by code_simp
    then show ?thesis by (auto split: redeem_phase.splits option.splits redeem_reply.splits)
  qed
  then have g: "granted (sp_phases sample_granted 0) ''j''" by (auto simp: granted_def)
  with setup_token_single_use [OF rtranclp_trans [OF sample_setup_steps, unfolded sample_setup_start_def] g] show ?thesis by blast
qed

theorem registration_not_stale_witness:
  "load_config (se_parse sample_pairing_env) (sp_storage sample_registering) =
     Inr (canonicalize_config sample_stored, fs_revision (sp_storage sample_registering))"
proof -
  obtain res where p: "sp_phases sample_registering 0 = R_registering ''j'' sample_registration (canonicalize_config sample_stored) 0 res"
    using sample_registering_phase by blast
  have "sp_storage (redeem_register sample_pairing_env 0 ''now'' sample_registering) = sp_storage sample_granted"
    by (simp add: sample_granted_def redeem_finish_def split: redeem_phase.splits)
  then have "sp_storage (redeem_register sample_pairing_env 0 ''now'' sample_registering) \<noteq> sp_storage sample_registering"
    using sample_pairing_facts(9,10) by auto
  then show ?thesis
    using registration_not_stale [OF sample_setup_steps(1) [unfolded sample_setup_start_def] p] by blast
qed


section \<open>Changing the address of an instance\<close>

record pending_hostname =
  ph_instance_id :: string
  ph_service_url :: string
  ph_expires_at :: int

datatype hostname_reply =
    Change_bad_request
  | Change_not_installed
  | Change_not_recognized
  | Change_wrong_origin
  | Change_key_required
  | Change_instance_missing
  | Change_other_instance
  | Change_failed storage_error
  | Change_started string
  | Change_done string

fun hostname_status :: "hostname_reply \<Rightarrow> nat" where
  "hostname_status Change_bad_request = 400"
| "hostname_status Change_not_installed = 409"
| "hostname_status Change_not_recognized = 400"
| "hostname_status Change_wrong_origin = 403"
| "hostname_status Change_key_required = 401"
| "hostname_status Change_instance_missing = 404"
| "hostname_status Change_other_instance = 403"
| "hostname_status (Change_failed e) = 500"
| "hostname_status (Change_started t) = 200"
| "hostname_status (Change_done u) = 200"

definition find_service_instance :: "stored_config \<Rightarrow> string \<Rightarrow> registration option" where
  "find_service_instance cfg i =
     (case List.find (\<lambda>s. ps_id s = i) (pc_platform_services cfg) of
        Some s \<Rightarrow> Some (Platform_reg s)
      | None \<Rightarrow>
          (case List.find (\<lambda>s. ss_id s = i) (pc_shared_catalog cfg) of
             Some s \<Rightarrow> Some (Shared_reg s)
           | None \<Rightarrow> map_option (\<lambda>(t, s). Tenant_reg t s) (List.find (\<lambda>(t, s). ts_id s = i) (tenant_services cfg))))"

fun reg_installed :: "registration \<Rightarrow> bool" where
  "reg_installed (Platform_reg s) = (ps_enabled s \<and> ps_api_key_hash s \<noteq> [])"
| "reg_installed (Shared_reg s) = (ss_enabled s \<and> ss_api_key_hash s \<noteq> [])"
| "reg_installed (Tenant_reg t s) = (ts_enabled s \<and> ts_api_key_hash s \<noteq> [])"

definition sweep_changes :: "int \<Rightarrow> (string, pending_hostname) jsmap \<Rightarrow> (string, pending_hostname) jsmap" where
  "sweep_changes now m = filter (\<lambda>(k, e). \<not> ph_expires_at e < now) m"

definition begin_hostname_change ::
    "setup_env \<Rightarrow> stored_config \<Rightarrow> int \<Rightarrow> string \<Rightarrow> string option \<Rightarrow> string option \<Rightarrow> (string, pending_hostname) jsmap \<Rightarrow>
     (string, pending_hostname) jsmap \<times> hostname_reply" where
  "begin_hostname_change env cfg now token instance_field url_field m =
     (let i = (case instance_field of None \<Rightarrow> [] | Some x \<Rightarrow> js_trim x);
          swept = sweep_changes now m
      in case normalize_service_origin (se_parse_url env) url_field of
           None \<Rightarrow> (swept, Change_bad_request)
         | Some u \<Rightarrow>
             if i = [] \<or> u = [] then (swept, Change_bad_request)
             else (case find_service_instance cfg i of
                     None \<Rightarrow> (swept, Change_instance_missing)
                   | Some reg \<Rightarrow>
                       if \<not> reg_installed reg then (swept, Change_not_installed)
                       else (js_set token \<lparr>ph_instance_id = i, ph_service_url = u, ph_expires_at = now + setup_ttl_seconds * 1000\<rparr> swept,
                             Change_started token)))"

definition with_origin :: "stored_config \<Rightarrow> registration \<Rightarrow> string \<Rightarrow> string \<Rightarrow> stored_config" where
  "with_origin cfg reg i url =
     (case reg of
        Platform_reg s \<Rightarrow> cfg\<lparr>pc_platform_services := update_first (\<lambda>s. ps_id s = i) (\<lambda>s. s\<lparr>ps_hostname := url\<rparr>) (pc_platform_services cfg)\<rparr>
      | Shared_reg s \<Rightarrow> cfg\<lparr>pc_shared_catalog := update_first (\<lambda>s. ss_id s = i) (\<lambda>s. s\<lparr>ss_base_url := url\<rparr>) (pc_shared_catalog cfg)\<rparr>
      | Tenant_reg t s \<Rightarrow>
          cfg\<lparr>pc_tenants := update_first (\<lambda>t. list_ex (\<lambda>s. ts_id s = i) (tn_services t))
            (\<lambda>t. t\<lparr>tn_services := update_first (\<lambda>s. ts_id s = i) (\<lambda>s. s\<lparr>ts_hostname := url\<rparr>) (tn_services t)\<rparr>) (pc_tenants cfg)\<rparr>)"

text \<open>\<open>applyVerifiedServiceOrigin\<close> on the instance \<open>reg\<close> found for \<open>expected\<close>.\<close>

definition apply_verified_service_origin ::
    "stored_config \<Rightarrow> registration \<Rightarrow> string \<Rightarrow> string option \<Rightarrow> string \<Rightarrow> stored_config option" where
  "apply_verified_service_origin cfg reg expected verified url =
     (if verified \<noteq> Some expected then None else Some (with_origin cfg reg expected url))"

definition change_bearer :: "string option \<Rightarrow> string" where
  "change_bearer header =
     (case header of Some h \<Rightarrow> if js_starts_with ''Bearer '' h then js_trim (List.drop 7 h) else [] | None \<Rightarrow> [])"

text \<open>The confirmation by the service at its new address. The key is checked against the storage
  at one moment, the configuration is loaded and saved at a later one.\<close>

definition confirm_hostname_change ::
    "setup_env \<Rightarrow> int \<Rightarrow> string \<Rightarrow> string option \<Rightarrow> string option \<Rightarrow> (string, pending_hostname) jsmap \<Rightarrow> file_storage \<Rightarrow> file_storage \<Rightarrow>
     (string, pending_hostname) jsmap \<times> file_storage \<times> hostname_reply" where
  "confirm_hostname_change env now token url_field header m before fs =
     (let swept = sweep_changes now m; url = normalize_service_origin (se_parse_url env) url_field; key = change_bearer header
      in case js_get swept token of
           None \<Rightarrow> (swept, fs, Change_not_recognized)
         | Some e \<Rightarrow>
             if \<not> truthy url \<or> url \<noteq> Some (ph_service_url e) then (swept, fs, Change_wrong_origin)
             else (case load_config (se_parse env) before of
                     Inl err \<Rightarrow> (swept, fs, Change_failed err)
                   | Inr (known, r0) \<Rightarrow>
                       (case (if key = [] then None else validate_api_key (se_hash_key env) known key) of
                          None \<Rightarrow> (swept, fs, Change_key_required)
                        | Some owner \<Rightarrow>
                            (case load_config (se_parse env) fs of
                               Inl err \<Rightarrow> (swept, fs, Change_failed err)
                             | Inr (cfg, r) \<Rightarrow>
                                 (case find_service_instance cfg (ph_instance_id e) of
                                    None \<Rightarrow> (swept, fs, Change_instance_missing)
                                  | Some reg \<Rightarrow>
                                      (case apply_verified_service_origin cfg reg (ph_instance_id e) (Some (ko_service_id owner)) (ph_service_url e) of
                                         None \<Rightarrow> (swept, fs, Change_other_instance)
                                       | Some cfg' \<Rightarrow>
                                           (case save_config (se_parse env) cfg' r fs of
                                              Inl err \<Rightarrow> (swept, fs, Change_failed err)
                                            | Inr fs' \<Rightarrow> (js_del token swept, fs', Change_done (ph_service_url e)))))))))"

lemma with_origin_frame:
  "filter (\<lambda>s. ps_id s \<noteq> i) (pc_platform_services (with_origin cfg reg i url)) = filter (\<lambda>s. ps_id s \<noteq> i) (pc_platform_services cfg)"
  "filter (\<lambda>s. ss_id s \<noteq> i) (pc_shared_catalog (with_origin cfg reg i url)) = filter (\<lambda>s. ss_id s \<noteq> i) (pc_shared_catalog cfg)"
  "map (others_of_tenant i) (pc_tenants (with_origin cfg reg i url)) = map (others_of_tenant i) (pc_tenants cfg)"
  "pc_apps (with_origin cfg reg i url) = pc_apps cfg"
  by (cases reg; simp add: with_origin_def filter_update_first map_update_first others_of_tenant_def)+

lemma find_first_updated:
  "List.find P xs = Some x \<Longrightarrow> (\<And>y. P (f y) = P y) \<Longrightarrow> List.find P (update_first P f xs) = Some (f x)"
  by (induction xs) (auto split: if_splits)

lemma find_concat_update:
  fixes ts :: "tenant list"
  assumes "List.find (\<lambda>(t, s). ts_id s = i) (concat (map (\<lambda>t. map (Pair t) (tn_services t)) ts)) = Some (t, s)"
  shows "\<exists>t'. List.find (\<lambda>(t, s). ts_id s = i) (concat (map (\<lambda>t. map (Pair t) (tn_services t))
      (update_first (\<lambda>t. list_ex (\<lambda>s. ts_id s = i) (tn_services t))
        (\<lambda>t. t\<lparr>tn_services := update_first (\<lambda>s. ts_id s = i) (\<lambda>s. s\<lparr>ts_hostname := url\<rparr>) (tn_services t)\<rparr>) ts))) =
    Some (t', s\<lparr>ts_hostname := url\<rparr>)"
  using assms
proof (induction ts)
  case (Cons u us)
  have pair: "List.find (\<lambda>(t, s). ts_id s = i) (map (Pair v) ss @ rest) =
      (case List.find (\<lambda>s. ts_id s = i) ss of Some s \<Rightarrow> Some (v, s) | None \<Rightarrow> List.find (\<lambda>(t, s). ts_id s = i) rest)" for v :: tenant and ss :: "tenant_service list" and rest
    by (induction ss) auto
  show ?case
  proof (cases "List.find (\<lambda>s. ts_id s = i) (tn_services u)")
    case None
    then have "\<not> list_ex (\<lambda>s. ts_id s = i) (tn_services u)" by (auto simp: list_ex_iff find_None_iff)
    moreover have "List.find (\<lambda>(t, s). ts_id s = i) (concat (map (\<lambda>t. map (Pair t) (tn_services t)) us)) = Some (t, s)"
      using Cons.prems None by (simp add: pair)
    from Cons.IH [OF this] obtain t' where "List.find (\<lambda>(t, s). ts_id s = i) (concat (map (\<lambda>t. map (Pair t) (tn_services t))
        (update_first (\<lambda>t. list_ex (\<lambda>s. ts_id s = i) (tn_services t))
          (\<lambda>t. t\<lparr>tn_services := update_first (\<lambda>s. ts_id s = i) (\<lambda>s. s\<lparr>ts_hostname := url\<rparr>) (tn_services t)\<rparr>) us))) =
      Some (t', s\<lparr>ts_hostname := url\<rparr>)" by blast
    ultimately show ?thesis using None by (intro exI [of _ t']) (simp add: pair)
  next
    case (Some x)
    then have "list_ex (\<lambda>s. ts_id s = i) (tn_services u)" by (auto simp: list_ex_iff find_Some_iff)
    moreover have "List.find (\<lambda>s. ts_id s = i) (update_first (\<lambda>s. ts_id s = i) (\<lambda>s. s\<lparr>ts_hostname := url\<rparr>) (tn_services u)) = Some (x\<lparr>ts_hostname := url\<rparr>)"
      using Some by (rule find_first_updated) simp
    ultimately show ?thesis using Some Cons.prems by (simp add: pair)
  qed
qed simp

text \<open>The address a registration is stored with.\<close>

fun registered_address :: "registration \<Rightarrow> string" where
  "registered_address (Platform_reg s) = ps_hostname s"
| "registered_address (Shared_reg s) = ss_base_url s"
| "registered_address (Tenant_reg t s) = ts_hostname s"

lemma with_origin_address:
  assumes "find_service_instance cfg i = Some reg"
  shows "map_option registered_address (find_service_instance (with_origin cfg reg i url) i) = Some url"
proof (cases "List.find (\<lambda>s. ps_id s = i) (pc_platform_services cfg)")
  case (Some s)
  then have "List.find (\<lambda>s. ps_id s = i) (update_first (\<lambda>s. ps_id s = i) (\<lambda>s. s\<lparr>ps_hostname := url\<rparr>) (pc_platform_services cfg)) =
      Some (s\<lparr>ps_hostname := url\<rparr>)"
    by (rule find_first_updated) simp
  with Some assms show ?thesis by (auto simp: find_service_instance_def with_origin_def)
next
  case None
  note p = None
  show ?thesis
  proof (cases "List.find (\<lambda>s. ss_id s = i) (pc_shared_catalog cfg)")
    case (Some s)
    then have "List.find (\<lambda>s. ss_id s = i) (update_first (\<lambda>s. ss_id s = i) (\<lambda>s. s\<lparr>ss_base_url := url\<rparr>) (pc_shared_catalog cfg)) =
        Some (s\<lparr>ss_base_url := url\<rparr>)"
      by (rule find_first_updated) simp
    with Some p assms show ?thesis by (auto simp: find_service_instance_def with_origin_def)
  next
    case None
    with p assms obtain t s where f: "List.find (\<lambda>(t, s). ts_id s = i) (tenant_services cfg) = Some (t, s)" and r: "reg = Tenant_reg t s"
      by (auto simp: find_service_instance_def)
    from find_concat_update [OF f [unfolded tenant_services_def], of url] p None r show ?thesis
      by (auto simp: find_service_instance_def with_origin_def tenant_services_def)
  qed
qed

text \<open>
  C22: a service confirms a change of its address only from the new address and with its own key,
  and then exactly that address is stored: a confirmation that succeeds had a pending request for
  this address that had not expired and was made with the API key of the instance the request
  names; the configuration it stores finds that instance at this address, and every other
  service and every app as it was.
\<close>

theorem hostname_change_by_owner:
  assumes "confirm_hostname_change env now token url_field header m before fs = (m', fs', Change_done url)"
  shows "\<exists>e known r0 owner cfg cfg'. (token, e) \<in> set m \<and> now \<le> ph_expires_at e \<and> url = ph_service_url e \<and>
    normalize_service_origin (se_parse_url env) url_field = Some url \<and>
    load_config (se_parse env) before = Inr (known, r0) \<and>
    validate_api_key (se_hash_key env) known (change_bearer header) = Some owner \<and> ko_service_id owner = ph_instance_id e \<and>
    load_config (se_parse env) fs = Inr (cfg, fs_revision fs) \<and> save_config (se_parse env) cfg' (fs_revision fs) fs = Inr fs' \<and>
    filter (\<lambda>s. ps_id s \<noteq> ph_instance_id e) (pc_platform_services cfg') = filter (\<lambda>s. ps_id s \<noteq> ph_instance_id e) (pc_platform_services cfg) \<and>
    filter (\<lambda>s. ss_id s \<noteq> ph_instance_id e) (pc_shared_catalog cfg') = filter (\<lambda>s. ss_id s \<noteq> ph_instance_id e) (pc_shared_catalog cfg) \<and>
    map (others_of_tenant (ph_instance_id e)) (pc_tenants cfg') = map (others_of_tenant (ph_instance_id e)) (pc_tenants cfg) \<and>
    pc_apps cfg' = pc_apps cfg \<and> map_option registered_address (find_service_instance cfg' (ph_instance_id e)) = Some url"
proof -
  note c = assms [unfolded confirm_hostname_change_def Let_def]
  obtain e where e: "js_get (sweep_changes now m) token = Some e" using c by (cases "js_get (sweep_changes now m) token") auto
  note c = c [unfolded e option.case]
  have u: "normalize_service_origin (se_parse_url env) url_field = Some (ph_service_url e)" using c by (auto split: if_splits)
  obtain known r0 where k: "load_config (se_parse env) before = Inr (known, r0)" using c by (cases "load_config (se_parse env) before") (auto split: if_splits)
  obtain owner where o': "(if change_bearer header = [] then None else validate_api_key (se_hash_key env) known (change_bearer header)) = Some owner"
    using c k by (cases "if change_bearer header = [] then None else validate_api_key (se_hash_key env) known (change_bearer header)") (auto split: if_splits)
  obtain cfg r where l: "load_config (se_parse env) fs = Inr (cfg, r)"
    using c k o' by (cases "load_config (se_parse env) fs") (auto split: if_splits)
  note c = c [unfolded k o' l sum.case prod.case option.case]
  obtain reg where f: "find_service_instance cfg (ph_instance_id e) = Some reg"
    using c by (cases "find_service_instance cfg (ph_instance_id e)") (auto split: if_splits)
  have id: "ko_service_id owner = ph_instance_id e" using c f by (auto simp: apply_verified_service_origin_def split: if_splits)
  let ?cfg' = "with_origin cfg reg (ph_instance_id e) (ph_service_url e)"
  have s: "save_config (se_parse env) ?cfg' r fs = Inr fs'" and url: "url = ph_service_url e"
    using c f id by (auto simp: apply_verified_service_origin_def split: if_splits sum.splits)
  have "r = fs_revision fs" using l by (auto simp: load_config_def split: option.splits)
  moreover have "(token, e) \<in> set m \<and> now \<le> ph_expires_at e"
    using map_of_SomeD [OF e] by (auto simp: sweep_changes_def)
  moreover have "validate_api_key (se_hash_key env) known (change_bearer header) = Some owner" using o' by (simp split: if_splits)
  ultimately show ?thesis using u k l s id url with_origin_address [OF f, of url] with_origin_frame [where i = "ph_instance_id e" and cfg = cfg and reg = reg and url = "ph_service_url e"] by blast
qed

definition sample_changes :: "(string, pending_hostname) jsmap" where
  "sample_changes = [(''hc'', \<lparr>ph_instance_id = ''new'', ph_service_url = ''https://moved.test'', ph_expires_at = 900\<rparr>)]"

lemma sample_change:
  "(case confirm_hostname_change sample_pairing_env 200 ''hc'' (Some ''https://moved.test'') (Some ''Bearer nk'') sample_changes
      (sp_storage sample_granted) (sp_storage sample_granted) of (m, fs, Change_done u) \<Rightarrow> u = ''https://moved.test'' | _ \<Rightarrow> False)"
  by code_simp

theorem hostname_change_by_owner_witness:
  "\<exists>known r0 owner. load_config (se_parse sample_pairing_env) (sp_storage sample_granted) = Inr (known, r0) \<and>
     validate_api_key (se_hash_key sample_pairing_env) known (change_bearer (Some ''Bearer nk'')) = Some owner"
proof -
  obtain m fs r where c: "confirm_hostname_change sample_pairing_env 200 ''hc'' (Some ''https://moved.test'') (Some ''Bearer nk'') sample_changes
      (sp_storage sample_granted) (sp_storage sample_granted) = (m, fs, r)"
    by (metis prod_cases3)
  then obtain u where "r = Change_done u" using sample_change by (cases r) auto
  with c show ?thesis using hostname_change_by_owner by blast
qed

end
