(* ===== verification/RouteMounts.thy ===== *)
theory RouteMounts
  imports Install
begin

text \<open>
  The routes an app mounts for a service, in the config manager: \<open>routeMounts.ts\<close> (slugs, paths
  and keys of routes), and from \<open>syncApi.ts\<close> the manifest cache (\<open>normalizeManifest\<close>,
  \<open>getCachedManifestForService\<close>) and the reconciliation of an app's routes with a manifest that
  was published (\<open>reconcileServiceRouteMounts\<close>, \<open>ensureApiRouteMounts\<close>).

  The routes are changed in place in the code; here a state carries them with the number of
  UUIDs drawn, and \<open>uuid n\<close> is the n-th one. A manifest has the fields the routes depend on:
  schemas, robots, sitemaps, chrome and fragments are left out, as are a route's chrome and
  sitemap. Manifests in the cache have passed their schema, so the fallbacks for arrays that
  are not arrays have nothing to do.
\<close>

section \<open>Operations and paths\<close>

definition is_page_operation :: "manifest_operation \<Rightarrow> bool" where
  "is_page_operation op \<longleftrightarrow> mo_raw op \<noteq> Some True \<and> mo_method op = GET \<and> ''page'' \<in> set (mo_render_modes op)"

definition slug_char :: "char \<Rightarrow> bool" where
  "slug_char c \<longleftrightarrow> char_between CHR ''a'' CHR ''z'' c \<or> is_digit c \<or> c = CHR ''.'' \<or> c = CHR ''-''"

text \<open>\<open>replace(/[^a-z0-9.-]+/g, "-")\<close>; the flag says that the run before was replaced.\<close>

fun dash_runs :: "bool \<Rightarrow> string \<Rightarrow> string" where
  "dash_runs inside [] = []"
| "dash_runs inside (c # cs) =
     (if slug_char c then c # dash_runs False cs
      else if inside then dash_runs True cs else CHR ''-'' # dash_runs True cs)"

definition trim_dashes :: "string \<Rightarrow> string" where
  "trim_dashes s = List.rev (dropWhile (\<lambda>c. c = CHR ''-'') (List.rev (dropWhile (\<lambda>c. c = CHR ''-'') s)))"

definition service_route_slug :: "string \<Rightarrow> string" where
  "service_route_slug service_id =
     (let base = (if js_starts_with ''service.'' service_id then List.drop 8 service_id else service_id);
          slug = trim_dashes (dash_runs False (js_lower base))
      in if slug = [] then ''service'' else slug)"

definition normalize_service_path :: "string \<Rightarrow> string" where
  "normalize_service_path path =
     (let cleaned = js_trim path
      in if cleaned = [] then ''/'' else if js_starts_with ''/'' cleaned then cleaned else CHR ''/'' # cleaned)"

fun squeeze_slashes :: "string \<Rightarrow> string" where
  "squeeze_slashes (a # b # cs) =
     (if a = CHR ''/'' \<and> b = CHR ''/'' then squeeze_slashes (b # cs) else a # squeeze_slashes (b # cs))"
| "squeeze_slashes s = s"

definition braced_segment :: "string \<Rightarrow> bool" where
  "braced_segment s \<longleftrightarrow> length s \<ge> 3 \<and> hd s = CHR ''{'' \<and> last s = CHR ''}'' \<and> CHR ''}'' \<notin> set (butlast (tl s))"

definition app_route_pattern_key :: "string \<Rightarrow> string" where
  "app_route_pattern_key path =
     (let squeezed = squeeze_slashes (normalize_service_path path);
          cut = (if js_ends_with ''/'' squeezed then butlast squeezed else squeezed);
          normalized = (if cut = [] then ''/'' else cut)
      in js_join ''/'' (map (\<lambda>s. if js_starts_with '':'' s \<or> braced_segment s then '':*'' else s) (js_split (CHR ''/'') normalized)))"

definition api_route_path :: "string \<Rightarrow> string \<Rightarrow> string" where
  "api_route_path service_id service_path =
     ''/_bp/service/'' @ service_route_slug service_id @
       (if normalize_service_path service_path = ''/'' then [] else normalize_service_path service_path)"

definition page_route_path :: "string \<Rightarrow> string \<Rightarrow> string" where
  "page_route_path service_id service_path =
     ''/'' @ service_route_slug service_id @
       (if normalize_service_path service_path = ''/'' then [] else normalize_service_path service_path)"

definition is_api_route :: "route_mount \<Rightarrow> bool option \<Rightarrow> bool" where
  "is_api_route r renderable \<longleftrightarrow>
     rm_kind r = Api_mount \<or> renderable = Some False \<or> js_starts_with ''/_bp/service/'' (rm_path r)"

definition is_menu_route_excluded :: "route_mount \<Rightarrow> (string, manifest_entry) jsmap \<Rightarrow> bool" where
  "is_menu_route_excluded r cache =
     (let ops = (if rm_service_id r = [] \<or> rm_view_id r = [] then None
                 else map_option mv_operations (Option.bind (js_get cache (rm_service_id r)) (\<lambda>m. js_get (me_view_index m) (rm_view_id r))))
      in case Option.bind ops (List.find (\<lambda>op. mo_operation_id op \<in> set (rm_operations r) \<and> mo_method op = GET
                                                \<and> ''page'' \<in> set (mo_render_modes op))) of
           Some page \<Rightarrow> mo_menu page = Some False
         | None \<Rightarrow> rm_menu r = Some False)"

text \<open>\<open>/^(?::([A-Za-z_][A-Za-z0-9_]*)|\{([A-Za-z_][A-Za-z0-9_]*)\})$/\<close>\<close>

definition is_identifier :: "string \<Rightarrow> bool" where
  "is_identifier s \<longleftrightarrow> s \<noteq> [] \<and> ident_start (hd s) \<and> list_all ident_char s"

definition segment_name :: "string \<Rightarrow> string list" where
  "segment_name s =
     (if js_starts_with '':'' s \<and> is_identifier (tl s) then [tl s]
      else if length s \<ge> 2 \<and> hd s = CHR ''{'' \<and> last s = CHR ''}'' \<and> is_identifier (butlast (tl s)) then [butlast (tl s)]
      else [])"

definition path_param_names :: "string \<Rightarrow> string list" where
  "path_param_names path = concat (map segment_name (js_split (CHR ''/'') (hd (js_split (CHR ''?'') path))))"

definition mount_supplies_service_params :: "string \<Rightarrow> string \<Rightarrow> (string, string) jsmap \<Rightarrow> bool" where
  "mount_supplies_service_params ui_path service_path fixed =
     list_all (\<lambda>name. name \<in> set (path_param_names ui_path @ js_keys fixed)) (path_param_names service_path)"

section \<open>The manifest cache\<close>

definition non_blank :: "string \<Rightarrow> string option" where
  "non_blank s = (if js_trim s \<noteq> [] then Some s else None)"

definition view_label :: "manifest_view \<Rightarrow> string" where
  "view_label v =
     (case non_blank (mv_title v) of Some t \<Rightarrow> t
      | None \<Rightarrow>
          (case (case mv_operations v of [] \<Rightarrow> None | op # _ \<Rightarrow> non_blank (mo_title op)) of Some t \<Rightarrow> t
           | None \<Rightarrow> (case non_blank (mv_view_id v) of Some t \<Rightarrow> t | None \<Rightarrow> ''unknown'')))"

definition normalize_view :: "manifest_view \<Rightarrow> manifest_view" where
  "normalize_view v =
     v\<lparr>mv_title := view_label v,
       mv_operations := map (\<lambda>op. if mo_title op = [] then op\<lparr>mo_title := view_label v\<rparr> else op) (mv_operations v)\<rparr>"

definition normalize_provider :: "auth_provider_metadata \<Rightarrow> auth_provider_metadata option" where
  "normalize_provider p =
     (let issuer = drop_slashes (js_trim (apm_issuer p)); aud = js_trim (apm_audience p); uri = js_trim (apm_jwks_uri p)
      in if issuer = [] \<or> aud = [] \<or> uri = [] then None
         else Some (p\<lparr>apm_issuer := issuer, apm_audience := aud, apm_jwks_uri := uri\<rparr>))"

definition normalize_manifest :: "manifest_entry \<Rightarrow> manifest_entry" where
  "normalize_manifest m =
     m\<lparr>me_auth_provider := Option.bind (me_auth_provider m) normalize_provider,
       me_view_index := map_values normalize_view (me_view_index m)\<rparr>"

definition read_manifest :: "stored_config \<Rightarrow> (string, manifest_entry) jsmap \<Rightarrow> string \<Rightarrow> manifest_entry option" where
  "read_manifest cfg cache key =
     (let stored = List.find (\<lambda>e. me_service_id e = key) (pc_manifest_cache cfg)
      in case js_get cache key of
           Some hot \<Rightarrow>
             (case stored of
                None \<Rightarrow> Some hot
              | Some e \<Rightarrow> if me_fetched_at hot = me_fetched_at e \<and> me_manifest_version hot = me_manifest_version e
                          then Some hot else Some (normalize_manifest e))
         | None \<Rightarrow> map_option normalize_manifest stored)"

definition manifest_keys :: "stored_config \<Rightarrow> string \<Rightarrow> string list" where
  "manifest_keys cfg i =
     (let named = (\<lambda>o'. case only_truthy o' of None \<Rightarrow> [] | Some s \<Rightarrow> [s])
      in i # (case List.find (\<lambda>x. sa_id x = i) (pc_shared_activations cfg) of
                Some x \<Rightarrow>
                  sa_shared_service_id x #
                    named (Option.bind (List.find (\<lambda>s. ss_id s = sa_shared_service_id x) (pc_shared_catalog cfg)) ss_service_id)
              | None \<Rightarrow>
                  concat (map (\<lambda>t. named (Option.bind (List.find (\<lambda>s. ts_id s = i) (tn_services t)) ts_service_id)) (pc_tenants cfg)) @
                    named (Option.bind (List.find (\<lambda>s. ps_id s = i) (pc_platform_services cfg)) ps_service_id)))"

fun first_some :: "('a \<Rightarrow> 'b option) \<Rightarrow> 'a list \<Rightarrow> 'b option" where
  "first_some f [] = None"
| "first_some f (x # xs) = (case f x of Some y \<Rightarrow> Some y | None \<Rightarrow> first_some f xs)"

definition get_cached_manifest_for_service ::
    "stored_config \<Rightarrow> (string, manifest_entry) jsmap \<Rightarrow> string \<Rightarrow> manifest_entry option" where
  "get_cached_manifest_for_service cfg cache i =
     (let keys = manifest_keys cfg i
      in case only_truthy (List.find (\<lambda>k. list_ex (\<lambda>e. me_service_id e = k) (pc_manifest_cache cfg)) keys) of
           Some k \<Rightarrow> read_manifest cfg cache k
         | None \<Rightarrow> first_some (read_manifest cfg cache) keys)"

definition operation_index :: "manifest_entry \<Rightarrow> (string, manifest_view \<times> manifest_operation) jsmap" where
  "operation_index m =
     foldl (\<lambda>ix (k, x). js_set k x ix) []
       (concat (map (\<lambda>v. map (\<lambda>op. (mo_operation_id op, (v, op))) (mv_operations v)) (js_values (me_view_index m))))"

section \<open>A manifest's routes in an app\<close>

definition method_name :: "http_method \<Rightarrow> string" where
  "method_name m = (case m of GET \<Rightarrow> ''GET'' | POST \<Rightarrow> ''POST'' | PUT \<Rightarrow> ''PUT'' | PATCH \<Rightarrow> ''PATCH''
     | DELETE \<Rightarrow> ''DELETE'' | OPTIONS \<Rightarrow> ''OPTIONS'')"

definition legacy_operation_prefix :: string where
  "legacy_operation_prefix = ''legacy:''"

definition after_last_colon :: "string \<Rightarrow> string" where
  "after_last_colon s = List.rev (takeWhile (\<lambda>c. c \<noteq> CHR '':'') (List.rev s))"

text \<open>
  \<open>slice(lastIndexOf(":") + 1)\<close> when the last colon lies behind the prefix. The prefix ends
  in a colon itself, so one that is found there is the prefix's.
\<close>

definition legacy_operation_method :: "string \<Rightarrow> string option" where
  "legacy_operation_method op =
     (if \<not> js_starts_with legacy_operation_prefix op then None
      else if CHR '':'' \<in> set (List.drop (length legacy_operation_prefix) op) then Some (after_last_colon op) else None)"

definition legacy_operation_id :: "string \<Rightarrow> http_method \<Rightarrow> string" where
  "legacy_operation_id view_id m = legacy_operation_prefix @ view_id @ '':'' @ method_name m"

definition same_operations :: "string list \<Rightarrow> string list \<Rightarrow> bool" where
  "same_operations l r \<longleftrightarrow> length l = length r \<and> list_all (\<lambda>x. x \<in> set r) l"

definition current_operation :: "manifest_view \<Rightarrow> string \<Rightarrow> string" where
  "current_operation v op =
     (case only_truthy (legacy_operation_method op) of
        None \<Rightarrow> op
      | Some m \<Rightarrow>
          (case List.find (\<lambda>x. method_name (mo_method x) = m) (mv_operations v) of
             None \<Rightarrow> op | Some x \<Rightarrow> mo_operation_id x))"

definition mount_view :: "manifest_entry \<Rightarrow> route_mount \<Rightarrow> manifest_view option" where
  "mount_view m r =
     (case (if rm_kind r = Api_mount then first_some (\<lambda>i. map_option fst (js_get (operation_index m) i)) (rm_operations r) else None) of
        Some v \<Rightarrow> Some v
      | None \<Rightarrow> js_get (me_view_index m) (rm_view_id r))"

definition resolve_mount :: "manifest_entry \<Rightarrow> route_mount \<Rightarrow> route_mount" where
  "resolve_mount m r =
     (case mount_view m r of
        None \<Rightarrow> r
      | Some v \<Rightarrow>
          (let resolved = map (current_operation v) (rm_operations r);
               r' = (if rm_kind r = Api_mount then r\<lparr>rm_view_id := mv_view_id v\<rparr> else r)
           in if same_operations (rm_operations r) resolved then r' else r'\<lparr>rm_operations := resolved\<rparr>))"

definition in_view :: "manifest_entry \<Rightarrow> route_mount \<Rightarrow> string \<Rightarrow> bool" where
  "in_view m r op = (case js_get (operation_index m) op of None \<Rightarrow> False | Some (v, x) \<Rightarrow> mv_view_id v = rm_view_id r)"

definition drop_stale :: "manifest_entry \<Rightarrow> string list \<Rightarrow> route_mount list \<Rightarrow> route_mount list" where
  "drop_stale m synced rs =
     (let stale = map rm_id (filter (\<lambda>r. rm_service_id r \<in> set synced \<and> rm_kind r = Api_mount
                                          \<and> \<not> list_ex (in_view m r) (rm_operations r)) rs)
      in filter (\<lambda>r. rm_id r \<notin> set stale) rs)"

definition selected_service_path :: "manifest_view \<Rightarrow> bool \<Rightarrow> route_mount \<Rightarrow> string" where
  "selected_service_path v is_page r =
     (case only_truthy (rm_service_path_variant r) of
        Some p \<Rightarrow> if rm_kind r \<noteq> Api_mount \<and> is_page \<and> p \<in> set (mv_path v # mv_path_variants v) then p else mv_path v
      | None \<Rightarrow> mv_path v)"

definition type_mount :: "manifest_entry \<Rightarrow> manifest_view \<Rightarrow> string list \<Rightarrow> route_mount \<Rightarrow> route_mount" where
  "type_mount m v valid r =
     (let ops = (if same_operations (rm_operations r) valid then rm_operations r else valid);
          selected = map (\<lambda>i. snd (the (js_get (operation_index m) i))) valid;
          page = List.find is_page_operation selected;
          op = (case page of Some p \<Rightarrow> p | None \<Rightarrow> hd selected);
          path = selected_service_path v (page \<noteq> None) r;
          r1 = r\<lparr>rm_operations := (if length ops > 1 then [mo_operation_id op] else ops), rm_target_path := Some path\<rparr>;
          r2 = (if page = None
                then r1\<lparr>rm_kind := Api_mount, rm_path := api_route_path (me_service_id m) path, rm_query := None,
                        rm_service_path_variant := None, rm_fixed_params := [], rm_title := Some (mo_title op)\<rparr>
                else if rm_kind r = Api_mount
                then r1\<lparr>rm_kind := Page_mount, rm_enabled := False, rm_path := page_route_path (me_service_id m) path\<rparr>
                else r1)
      in if truthy (rm_title r2) then r2 else r2\<lparr>rm_title := Some (mo_title op)\<rparr>)"

definition normalize_mount :: "manifest_entry \<Rightarrow> route_mount \<Rightarrow> route_mount" where
  "normalize_mount m r =
     (case js_get (me_view_index m) (rm_view_id r) of
        None \<Rightarrow> r\<lparr>rm_enabled := False\<rparr>
      | Some v \<Rightarrow>
          (let valid = filter (in_view m r) (rm_operations r)
           in if valid = [] then r\<lparr>rm_enabled := False\<rparr> else type_mount m v valid r))"

definition mounts :: "string \<Rightarrow> string \<Rightarrow> route_mount \<Rightarrow> bool" where
  "mounts service_id op r \<longleftrightarrow> rm_service_id r = service_id \<and> op \<in> set (rm_operations r)"

definition api_mount :: "manifest_entry \<Rightarrow> manifest_view \<Rightarrow> manifest_operation \<Rightarrow> string \<Rightarrow> string \<Rightarrow> bool \<Rightarrow> route_mount" where
  "api_mount m v op service_id i enabled =
     \<lparr>rm_id = i, rm_kind = Api_mount, rm_path = api_route_path (me_service_id m) (mv_path v), rm_service_id = service_id,
      rm_view_id = mv_view_id v, rm_service_path_variant = None, rm_fixed_params = [], rm_auth_required = None,
      rm_menu_permissions = None, rm_target_path = Some (mv_path v), rm_resolved_service_path = None,
      rm_resolved_methods = None, rm_query = None, rm_title = Some (mo_title op), rm_icon = None, rm_enabled = enabled,
      rm_enablement = Some Auto_enablement, rm_operations = [mo_operation_id op], rm_menu = None\<rparr>"

text \<open>An app's routes while they are changed, and how many UUIDs were drawn.\<close>

record mount_state =
  mt_routes :: "route_mount list"
  mt_drawn :: nat

definition ensure_api_mount ::
    "(nat \<Rightarrow> string) \<Rightarrow> string \<Rightarrow> manifest_entry \<Rightarrow> manifest_view \<times> manifest_operation \<Rightarrow> mount_state \<Rightarrow> mount_state" where
  "ensure_api_mount uuid service_id m vop s =
     (if list_ex (mounts service_id (mo_operation_id (snd vop))) (mt_routes s) then s
      else s\<lparr>mt_routes := mt_routes s @ [api_mount m (fst vop) (snd vop) service_id (uuid (mt_drawn s)) False],
             mt_drawn := Suc (mt_drawn s)\<rparr>)"

definition api_operations :: "manifest_entry \<Rightarrow> (manifest_view \<times> manifest_operation) list" where
  "api_operations m =
     concat (map (\<lambda>v. map (Pair v) (filter (\<lambda>op. \<not> is_page_operation op) (mv_operations v))) (js_values (me_view_index m)))"

definition ensure_api_route_mounts :: "(nat \<Rightarrow> string) \<Rightarrow> manifest_entry \<Rightarrow> string \<Rightarrow> mount_state \<Rightarrow> mount_state" where
  "ensure_api_route_mounts uuid m service_id s = fold (ensure_api_mount uuid service_id m) (api_operations m) s"

definition reconcile_service_route_mounts ::
    "(nat \<Rightarrow> string) \<Rightarrow> string list \<Rightarrow> manifest_entry \<Rightarrow> bool \<Rightarrow> mount_state \<Rightarrow> mount_state" where
  "reconcile_service_route_mounts uuid synced m normalize_paths s =
     (let normalized = (if normalize_paths then synced else []);
          resolved = map (\<lambda>r. if rm_service_id r \<in> set synced then resolve_mount m r else r) (mt_routes s);
          kept = drop_stale m synced resolved;
          typed = map (\<lambda>r. if rm_service_id r \<in> set normalized then normalize_mount m r else r) kept
      in fold (ensure_api_route_mounts uuid m) normalized (s\<lparr>mt_routes := typed\<rparr>))"

section \<open>What a manifest's synchronisation keeps\<close>

definition well_typed_mount :: "manifest_entry \<Rightarrow> route_mount \<Rightarrow> bool" where
  "well_typed_mount m r \<longleftrightarrow>
     (case rm_operations r of
        [i] \<Rightarrow>
          (case (js_get (operation_index m) i, js_get (me_view_index m) (rm_view_id r)) of
             (Some (v, op), Some w) \<Rightarrow>
               mv_view_id v = rm_view_id r \<and> (rm_kind r = Page_mount) = is_page_operation op
               \<and> rm_target_path r \<in> set (map Some (mv_path w # mv_path_variants w))
           | _ \<Rightarrow> False)
      | _ \<Rightarrow> False)"

lemma js_get_foldl_set:
  "js_get (foldl (\<lambda>ix (k, x). js_set k x ix) acc xs) k = Some y \<Longrightarrow> js_get acc k = Some y \<or> (k, y) \<in> set xs"
proof (induction xs arbitrary: acc)
  case (Cons p xs)
  obtain k' x where p: "p = (k', x)" by (cases p)
  from Cons.prems have "js_get (foldl (\<lambda>ix (k, x). js_set k x ix) (js_set k' x acc) xs) k = Some y" by (simp add: p)
  then have "js_get (js_set k' x acc) k = Some y \<or> (k, y) \<in> set xs" by (rule Cons.IH)
  then show ?case by (auto simp: p split: if_splits)
qed simp

lemma operation_index_id: "js_get (operation_index m) i = Some (v, op) \<Longrightarrow> mo_operation_id op = i"
  unfolding operation_index_def by (drule js_get_foldl_set) auto

lemma filter_same_length: "length (filter P xs) = length xs \<Longrightarrow> filter P xs = xs"
  by (metis filter_True length_filter_less less_irrefl)

lemma selected_path_in: "selected_service_path v b r \<in> set (mv_path v # mv_path_variants v)"
  by (simp add: selected_service_path_def split: option.split)

lemma mount_kind_not_api: "k \<noteq> Api_mount \<Longrightarrow> k = Page_mount"
  by (cases k) auto

lemma type_mount_typed:
  assumes v: "js_get (me_view_index m) (rm_view_id r) = Some v" and valid: "valid = filter (in_view m r) (rm_operations r)" "valid \<noteq> []"
  shows "well_typed_mount m (type_mount m v valid r)"
proof -
  define selected where "selected = map (\<lambda>i. snd (the (js_get (operation_index m) i))) valid"
  define page where "page = List.find is_page_operation selected"
  define op where "op = (case page of Some p \<Rightarrow> p | None \<Rightarrow> hd selected)"
  have ix: "\<exists>w. js_get (operation_index m) i = Some (w, snd (the (js_get (operation_index m) i))) \<and> mv_view_id w = rm_view_id r
      \<and> mo_operation_id (snd (the (js_get (operation_index m) i))) = i" if "i \<in> set valid" for i
    using that operation_index_id by (auto simp: valid(1) in_view_def split: option.splits)
  have ne: "selected \<noteq> []" using valid(2) by (simp add: selected_def)
  have sel: "op \<in> set selected"
    using ne find_SomeD [of is_page_operation selected] by (auto simp: op_def page_def split: option.split)
  have page: "is_page_operation op \<longleftrightarrow> page \<noteq> None"
  proof (cases page)
    case None
    then have "\<not> is_page_operation (hd selected)" using ne find_NoneD [of is_page_operation selected] by (simp add: page_def)
    then show ?thesis by (simp add: op_def None)
  next
    case (Some p)
    then show ?thesis using find_SomeD [of is_page_operation selected p] by (simp add: op_def page_def)
  qed
  obtain w where w: "js_get (operation_index m) (mo_operation_id op) = Some (w, op)" "mv_view_id w = rm_view_id r"
  proof -
    obtain i where i: "i \<in> set valid" "op = snd (the (js_get (operation_index m) i))" using sel by (auto simp: selected_def)
    then show ?thesis using ix [OF i(1)] that by metis
  qed
  let ?ops = "if same_operations (rm_operations r) valid then rm_operations r else valid"
  have ops: "?ops = valid"
  proof (cases "same_operations (rm_operations r) valid")
    case True
    then have "length (filter (in_view m r) (rm_operations r)) = length (rm_operations r)" by (simp add: same_operations_def valid(1))
    then have "valid = rm_operations r" unfolding valid(1) by (rule filter_same_length)
    with True show ?thesis by simp
  qed simp
  have one: "(if length ?ops > 1 then [mo_operation_id op] else ?ops) = [mo_operation_id op]"
  proof (cases "length valid > 1")
    case False
    with valid(2) obtain i where i: "valid = [i]" by (cases valid) auto
    have o: "op = snd (the (js_get (operation_index m) i))" using sel by (simp add: selected_def i)
    have "i \<in> set valid" by (simp add: i)
    then have "mo_operation_id op = i" unfolding o using ix by blast
    then show ?thesis unfolding ops by (simp add: i)
  qed (simp add: ops)
  let ?t = "type_mount m v valid r"
  have f: "rm_operations ?t = [mo_operation_id op]" "rm_view_id ?t = rm_view_id r"
    "rm_target_path ?t = Some (selected_service_path v (page \<noteq> None) r)"
    "rm_kind ?t = (if page = None then Api_mount else Page_mount)"
    using one mount_kind_not_api [of "rm_kind r"]
    unfolding type_mount_def Let_def selected_def [symmetric] page_def [symmetric] op_def [symmetric] by simp_all
  show ?thesis using w v page selected_path_in [of v "page \<noteq> None" r]
    unfolding well_typed_mount_def f by (simp add: image_iff)
qed

lemma type_mount_fields [simp]:
  "rm_service_id (type_mount m v valid r) = rm_service_id r" "rm_id (type_mount m v valid r) = rm_id r"
  by (simp_all add: type_mount_def Let_def)

lemma type_mount_enabled: "\<not> rm_enabled r \<Longrightarrow> \<not> rm_enabled (type_mount m v valid r)"
  by (simp add: type_mount_def Let_def)

lemma normalize_mount_fields [simp]:
  "rm_service_id (normalize_mount m r) = rm_service_id r" "rm_id (normalize_mount m r) = rm_id r"
  by (simp_all add: normalize_mount_def Let_def split: option.split)

lemma normalize_mount_enabled: "\<not> rm_enabled r \<Longrightarrow> \<not> rm_enabled (normalize_mount m r)"
  by (simp add: normalize_mount_def Let_def type_mount_enabled split: option.split)

lemma normalize_mount_typed: "rm_enabled (normalize_mount m r) \<Longrightarrow> well_typed_mount m (normalize_mount m r)"
  using type_mount_typed [OF _ refl] by (auto simp: normalize_mount_def Let_def split: option.splits if_splits)

lemma resolve_mount_fields [simp]:
  "rm_service_id (resolve_mount m r) = rm_service_id r" "rm_id (resolve_mount m r) = rm_id r"
  "rm_enabled (resolve_mount m r) = rm_enabled r"
  by (simp_all add: resolve_mount_def Let_def split: option.split)

lemma ensure_api_mount_enabled [simp]:
  "filter rm_enabled (mt_routes (ensure_api_mount uuid i m vop s)) = filter rm_enabled (mt_routes s)"
  by (simp add: ensure_api_mount_def api_mount_def)

lemma ensure_api_route_mounts_enabled [simp]:
  "filter rm_enabled (mt_routes (ensure_api_route_mounts uuid m i s)) = filter rm_enabled (mt_routes s)"
proof -
  have "filter rm_enabled (mt_routes (fold (ensure_api_mount uuid i m) ops s)) = filter rm_enabled (mt_routes s)" for ops
    by (induction ops arbitrary: s) simp_all
  then show ?thesis by (simp add: ensure_api_route_mounts_def)
qed

lemma fold_ensure_enabled [simp]:
  "filter rm_enabled (mt_routes (fold (ensure_api_route_mounts uuid m) is s)) = filter rm_enabled (mt_routes s)"
  by (induction "is" arbitrary: s) simp_all

lemma ensure_api_mount_present:
  "list_ex (mounts i (mo_operation_id (snd vop))) (mt_routes (ensure_api_mount uuid i m vop s))"
  by (simp add: ensure_api_mount_def api_mount_def mounts_def)

lemma ensure_api_mount_mono: "list_ex P (mt_routes s) \<Longrightarrow> list_ex P (mt_routes (ensure_api_mount uuid i m vop s))"
  by (simp add: ensure_api_mount_def)

lemma ensure_fold_mono: "list_ex P (mt_routes s) \<Longrightarrow> list_ex P (mt_routes (fold (ensure_api_mount uuid i m) ops s))"
  by (induction ops arbitrary: s) (simp_all add: ensure_api_mount_mono)

lemma ensure_api_route_mounts_present:
  assumes "vop \<in> set (api_operations m)"
  shows "list_ex (mounts i (mo_operation_id (snd vop))) (mt_routes (ensure_api_route_mounts uuid m i s))"
proof -
  have "vop \<in> set ops \<Longrightarrow> list_ex (mounts i (mo_operation_id (snd vop))) (mt_routes (fold (ensure_api_mount uuid i m) ops s))" for ops
  proof (induction ops arbitrary: s)
    case (Cons x ops)
    show ?case
    proof (cases "x = vop")
      case True
      then show ?thesis using ensure_fold_mono [OF ensure_api_mount_present [of i vop uuid m s]] by simp
    next
      case False
      then show ?thesis using Cons by simp
    qed
  qed simp
  with assms show ?thesis by (simp add: ensure_api_route_mounts_def)
qed

text \<open>
  C24: synchronising a manifest with path normalisation (\<open>normalizePaths\<close>, which
  \<open>applyServiceMetadata\<close> sets for registered services and not for preview apps): each enabled route
  of the services it was synchronised for is well typed against the manifest, that is, the route
  mounts exactly one operation, the manifest has that operation in the route's view, the route is a
  page exactly when the operation is one, and its target is one of the view's paths. With or
  without normalisation the synchronisation enables no route.
\<close>
theorem synced_mounts_well_typed:
  "list_all (well_typed_mount m)
     (filter (\<lambda>r. rm_service_id r \<in> set synced) (filter rm_enabled (mt_routes (reconcile_service_route_mounts uuid synced m True s))))
   \<and> set (map rm_id (filter rm_enabled (mt_routes (reconcile_service_route_mounts uuid synced m normalize_paths s))))
       \<subseteq> set (map rm_id (filter rm_enabled (mt_routes s)))"
proof -
  define kept where "kept = drop_stale m synced (map (\<lambda>r. if rm_service_id r \<in> set synced then resolve_mount m r else r) (mt_routes s))"
  define retyped where "retyped is = map (\<lambda>r. if rm_service_id r \<in> set is then normalize_mount m r else r) kept" for "is"
  have routes: "filter rm_enabled (mt_routes (reconcile_service_route_mounts uuid synced m n s)) =
      filter rm_enabled (retyped (if n then synced else []))" for n
    by (simp add: reconcile_service_route_mounts_def Let_def kept_def retyped_def)
  have k: "set kept \<subseteq> (\<lambda>r. if rm_service_id r \<in> set synced then resolve_mount m r else r) ` set (mt_routes s)"
    by (auto simp: kept_def drop_stale_def Let_def)
  have old: "\<exists>r0\<in>set (mt_routes s). rm_enabled r0 \<and> rm_id r0 = rm_id r" if "r \<in> set kept" "rm_enabled r" for r
    using k that by (force split: if_splits)
  have "set (map rm_id (filter rm_enabled (retyped is))) \<subseteq> set (map rm_id (filter rm_enabled (mt_routes s)))" for "is"
  proof
    fix i assume "i \<in> set (map rm_id (filter rm_enabled (retyped is)))"
    then obtain r where r: "r \<in> set kept" "rm_enabled (if rm_service_id r \<in> set is then normalize_mount m r else r)" "i = rm_id r"
      by (auto simp: retyped_def split: if_splits)
    then have "rm_enabled r" using normalize_mount_enabled by metis
    then show "i \<in> set (map rm_id (filter rm_enabled (mt_routes s)))" using old [OF r(1)] r(3) by (auto intro: rev_image_eqI)
  qed
  moreover have "list_all (well_typed_mount m) (filter (\<lambda>r. rm_service_id r \<in> set synced) (filter rm_enabled (retyped synced)))"
    using normalize_mount_typed by (auto simp: retyped_def list_all_iff split: if_splits)
  ultimately show ?thesis unfolding routes by simp
qed

end
