(* ===== verification/Dependencies.thy ===== *)
theory Dependencies
  imports RouteMounts
begin

text \<open>
  Routes that exist because other routes need them: \<open>reconcileDependencyRoutes\<close>,
  \<open>addMissingDependencyRoutes\<close> and \<open>analyzeOperationDependencies\<close> of \<open>syncApi.ts\<close>, and what
  surrounds them when a manifest is published: \<open>reconcileCachedServiceRoutes\<close> and
  \<open>applyServiceMetadata\<close>.

  The loop over the passes is bounded by the number of routes, which its own body raises; it is a
  partial function on \<open>option\<close>, proved to return with a pass that changed nothing. The result
  is compared with \<open>needed\<close>, an inductive definition of the routes an app should serve.

  The hot manifest cache is an argument (\<open>cache\<close>). The schema check of the stored manifest and
  the callback \<open>onManifestUpdated\<close> are left out.
\<close>

section \<open>Resolving a dependency\<close>

definition target_service_ids :: "stored_config \<Rightarrow> app \<Rightarrow> route_mount \<Rightarrow> operation_dependency \<Rightarrow> string list" where
  "target_service_ids cfg a src req =
     (case only_truthy (dp_service_id req) of
        Some plugin \<Rightarrow> filter (\<lambda>i. get_service_plugin_id cfg i = Some plugin) (get_available_service_instance_ids_for_app cfg a)
      | None \<Rightarrow> [rm_service_id src])"

text \<open>What \<open>addMissingDependencyRoutes\<close> finds out about a requirement before it looks at the routes.\<close>

record resolved_dependency =
  rd_service_id :: string
  rd_operation_id :: string
  rd_manifest :: manifest_entry
  rd_view :: manifest_view
  rd_operation :: manifest_operation

definition resolve_requirement ::
    "stored_config \<Rightarrow> (string, manifest_entry) jsmap \<Rightarrow> app \<Rightarrow> route_mount \<Rightarrow> operation_dependency \<Rightarrow> resolved_dependency option" where
  "resolve_requirement cfg cache a src req =
     (case target_service_ids cfg a src req of
        [target] \<Rightarrow>
          (case get_cached_manifest_for_service cfg cache target of
             None \<Rightarrow> None
           | Some m \<Rightarrow>
               (case js_get (operation_index m) (dp_operation_id req) of
                  None \<Rightarrow> None
                | Some (v, op) \<Rightarrow>
                    if mo_method op \<noteq> dp_method req then None
                    else Some \<lparr>rd_service_id = target, rd_operation_id = dp_operation_id req, rd_manifest = m,
                               rd_view = v, rd_operation = op\<rparr>))
      | _ \<Rightarrow> None)"

definition mounted_dependencies :: "manifest_entry \<Rightarrow> route_mount \<Rightarrow> operation_dependency list" where
  "mounted_dependencies m src =
     (case js_get (me_view_index m) (rm_view_id src) of
        None \<Rightarrow> []
      | Some v \<Rightarrow>
          concat (map mo_dependencies (filter (\<lambda>op. mo_operation_id op \<in> set (rm_operations src)) (mv_operations v))))"

definition requirements ::
    "stored_config \<Rightarrow> (string, manifest_entry) jsmap \<Rightarrow> app \<Rightarrow> route_mount \<Rightarrow> resolved_dependency list" where
  "requirements cfg cache a src =
     (case get_cached_manifest_for_service cfg cache (rm_service_id src) of
        None \<Rightarrow> []
      | Some m \<Rightarrow> List.map_filter (resolve_requirement cfg cache a src) (mounted_dependencies m src))"

section \<open>Adding the missing routes\<close>

record dependency_state = mount_state +
  ds_changed :: bool

definition meets :: "resolved_dependency \<Rightarrow> route_mount \<Rightarrow> bool" where
  "meets d = mounts (rd_service_id d) (rd_operation_id d)"

definition require_dependency :: "(nat \<Rightarrow> string) \<Rightarrow> resolved_dependency \<Rightarrow> dependency_state \<Rightarrow> dependency_state" where
  "require_dependency uuid d s =
     (case List.find (meets d) (mt_routes s) of
        Some r \<Rightarrow>
          if rm_enablement r \<noteq> Some Disabled \<and> \<not> rm_enabled r
          then s\<lparr>mt_routes := update_first (meets d) (\<lambda>r. r\<lparr>rm_enabled := True\<rparr>) (mt_routes s), ds_changed := True\<rparr>
          else s
      | None \<Rightarrow>
          s\<lparr>mt_routes := mt_routes s @ [(api_mount (rd_manifest d) (rd_view d) (rd_operation d) (rd_service_id d)
                                           (uuid (mt_drawn s)) True)\<lparr>rm_operations := [rd_operation_id d]\<rparr>],
            mt_drawn := Suc (mt_drawn s), ds_changed := True\<rparr>)"

definition add_missing_dependency_routes ::
    "stored_config \<Rightarrow> (string, manifest_entry) jsmap \<Rightarrow> (nat \<Rightarrow> string) \<Rightarrow> app \<Rightarrow> route_mount \<Rightarrow> dependency_state \<Rightarrow> dependency_state" where
  "add_missing_dependency_routes cfg cache uuid a src s =
     (if \<not> rm_enabled src then s else fold (require_dependency uuid) (requirements cfg cache a src) s)"

definition dependency_pass ::
    "stored_config \<Rightarrow> (string, manifest_entry) jsmap \<Rightarrow> (nat \<Rightarrow> string) \<Rightarrow> app \<Rightarrow> dependency_state \<Rightarrow> dependency_state" where
  "dependency_pass cfg cache uuid a s =
     fold (\<lambda>i s. add_missing_dependency_routes cfg cache uuid a (mt_routes s ! i) s) [0..<length (mt_routes s)] (s\<lparr>ds_changed := False\<rparr>)"

text \<open>
  \<open>for (let pass = 0; pass <= app.routes.length; pass++)\<close>: the bound is read anew before
  each pass, and the routes grow.
\<close>

partial_function (option) dependency_loop ::
    "stored_config \<Rightarrow> (string, manifest_entry) jsmap \<Rightarrow> (nat \<Rightarrow> string) \<Rightarrow> app \<Rightarrow> nat \<Rightarrow> dependency_state \<Rightarrow> dependency_state option" where
  "dependency_loop cfg cache uuid a pass s =
     (if pass \<le> length (mt_routes s)
      then let s' = dependency_pass cfg cache uuid a s
           in if \<not> ds_changed s' then Some s' else dependency_loop cfg cache uuid a (Suc pass) s'
      else Some s)"

definition auto_api :: "route_mount \<Rightarrow> bool" where
  "auto_api r \<longleftrightarrow> rm_kind r = Api_mount \<and> rm_enablement r = Some Auto_enablement"

definition reset_auto :: "route_mount \<Rightarrow> route_mount" where
  "reset_auto r = (if auto_api r then r\<lparr>rm_enabled := False\<rparr> else r)"

definition reconcile_dependency_routes ::
    "stored_config \<Rightarrow> (string, manifest_entry) jsmap \<Rightarrow> (nat \<Rightarrow> string) \<Rightarrow> app \<Rightarrow> mount_state \<Rightarrow> mount_state option" where
  "reconcile_dependency_routes cfg cache uuid a s =
     map_option mount_state.truncate
       (dependency_loop cfg cache uuid a 0
          \<lparr>mt_routes = map reset_auto (mt_routes s), mt_drawn = mt_drawn s, ds_changed = False\<rparr>)"

text \<open>The value the function returns: whether ids, enabled flags or enablements differ.\<close>

definition routes_differ :: "route_mount list \<Rightarrow> route_mount list \<Rightarrow> bool" where
  "routes_differ before rs \<longleftrightarrow>
     (let previous = foldl (\<lambda>m r. js_set (rm_id r) (rm_enabled r, rm_enablement r) m) [] before
      in length rs \<noteq> length previous \<or> list_ex (\<lambda>r. js_get previous (rm_id r) \<noteq> Some (rm_enabled r, rm_enablement r)) rs)"

section \<open>Reporting what is missing\<close>

record dependency_issue =
  di_source_route_id :: string
  di_source_operation_id :: string
  di_source_method :: http_method
  di_target_service_id :: "string option"
  di_target_operation_id :: string
  di_target_method :: http_method
  di_enabled_route_ids :: "string list"
  di_disabled_route_ids :: "string list"

definition dependency_candidates ::
    "stored_config \<Rightarrow> (string, manifest_entry) jsmap \<Rightarrow> app \<Rightarrow> route_mount \<Rightarrow> operation_dependency \<Rightarrow> route_mount list" where
  "dependency_candidates cfg cache a src req =
     filter (\<lambda>r. rm_service_id r \<in> set (target_service_ids cfg a src req) \<and> dp_operation_id req \<in> set (rm_operations r)
               \<and> (case Option.bind (get_cached_manifest_for_service cfg cache (rm_service_id r))
                         (\<lambda>m. js_get (me_view_index m) (rm_view_id r)) of
                    None \<Rightarrow> False
                  | Some v \<Rightarrow> (case List.find (\<lambda>op. mo_operation_id op = dp_operation_id req) (mv_operations v) of
                      None \<Rightarrow> False | Some op \<Rightarrow> mo_method op = dp_method req))) (app_routes a)"

definition dependency_issue_for ::
    "stored_config \<Rightarrow> (string, manifest_entry) jsmap \<Rightarrow> app \<Rightarrow> route_mount \<Rightarrow> manifest_operation \<Rightarrow> operation_dependency \<Rightarrow> dependency_issue list" where
  "dependency_issue_for cfg cache a src op req =
     (let candidates = dependency_candidates cfg cache a src req;
          enabled_ids = map rm_id (filter rm_enabled candidates)
      in if length enabled_ids = 1 then []
         else [\<lparr>di_source_route_id = rm_id src, di_source_operation_id = mo_operation_id op, di_source_method = mo_method op,
                di_target_service_id = only_truthy (dp_service_id req), di_target_operation_id = dp_operation_id req,
                di_target_method = dp_method req, di_enabled_route_ids = enabled_ids,
                di_disabled_route_ids = map rm_id (filter (\<lambda>r. \<not> rm_enabled r) candidates)\<rparr>])"

definition analyze_operation_dependencies ::
    "stored_config \<Rightarrow> (string, manifest_entry) jsmap \<Rightarrow> app \<Rightarrow> dependency_issue list" where
  "analyze_operation_dependencies cfg cache a =
     concat (map (\<lambda>src.
       case Option.bind (get_cached_manifest_for_service cfg cache (rm_service_id src)) (\<lambda>m. js_get (me_view_index m) (rm_view_id src)) of
         None \<Rightarrow> []
       | Some v \<Rightarrow>
           concat (map (\<lambda>op. concat (map (dependency_issue_for cfg cache a src op) (mo_dependencies op)))
             (filter (\<lambda>op. mo_operation_id op \<in> set (rm_operations src)) (mv_operations v))))
       (filter rm_enabled (app_routes a)))"

section \<open>What a step may change\<close>

definition same_mount :: "route_mount \<Rightarrow> route_mount \<Rightarrow> bool" where
  "same_mount r r' \<longleftrightarrow> r'\<lparr>rm_enabled := rm_enabled r\<rparr> = r \<and> (rm_enabled r \<longrightarrow> rm_enabled r')
     \<and> (rm_enablement r = Some Disabled \<longrightarrow> r' = r)"

definition extends :: "route_mount list \<Rightarrow> route_mount list \<Rightarrow> bool" where
  "extends xs ys \<longleftrightarrow> length xs \<le> length ys \<and> (\<forall>i<length xs. same_mount (xs ! i) (ys ! i))"

definition enabled_count :: "route_mount list \<Rightarrow> nat" where
  "enabled_count xs = length (filter rm_enabled xs)"

definition missing :: "(string \<times> string) set \<Rightarrow> route_mount list \<Rightarrow> nat" where
  "missing U xs = card {p \<in> U. \<forall>r\<in>set xs. \<not> mounts (fst p) (snd p) r}"

text \<open>One step of the passes, for requirements in \<open>U\<close>: routes appear and are enabled, nothing else.\<close>

definition grows :: "(string \<times> string) set \<Rightarrow> dependency_state \<Rightarrow> dependency_state \<Rightarrow> bool" where
  "grows U s s' \<longleftrightarrow>
     extends (mt_routes s) (mt_routes s') \<and>
     enabled_count (mt_routes s) \<le> enabled_count (mt_routes s') \<and>
     length (mt_routes s') + missing U (mt_routes s') \<le> length (mt_routes s) + missing U (mt_routes s) \<and>
     (ds_changed s \<longrightarrow> ds_changed s') \<and> (\<not> ds_changed s' \<longrightarrow> s' = s) \<and>
     (ds_changed s' \<longrightarrow> ds_changed s \<or> enabled_count (mt_routes s) < enabled_count (mt_routes s')) \<and>
     rm_service_id ` set (mt_routes s') \<subseteq> rm_service_id ` set (mt_routes s) \<union> fst ` U"

lemma same_mount_refl [simp]: "same_mount r r"
  by (simp add: same_mount_def)

lemma same_mount_fields:
  assumes "same_mount r r'"
  shows "rm_service_id r' = rm_service_id r" "rm_view_id r' = rm_view_id r" "rm_operations r' = rm_operations r"
    "rm_enablement r' = rm_enablement r" "rm_kind r' = rm_kind r" "rm_id r' = rm_id r" "mounts t op r' = mounts t op r"
proof -
  have e: "r'\<lparr>rm_enabled := rm_enabled r\<rparr> = r" using assms unfolding same_mount_def by blast
  have f: "rm_service_id r' = rm_service_id r" "rm_view_id r' = rm_view_id r" "rm_operations r' = rm_operations r"
    "rm_enablement r' = rm_enablement r" "rm_kind r' = rm_kind r" "rm_id r' = rm_id r"
    using arg_cong [OF e, of rm_service_id] arg_cong [OF e, of rm_view_id] arg_cong [OF e, of rm_operations]
      arg_cong [OF e, of rm_enablement] arg_cong [OF e, of rm_kind] arg_cong [OF e, of rm_id] by simp_all
  show "rm_service_id r' = rm_service_id r" "rm_view_id r' = rm_view_id r" "rm_operations r' = rm_operations r"
    "rm_enablement r' = rm_enablement r" "rm_kind r' = rm_kind r" "rm_id r' = rm_id r" "mounts t op r' = mounts t op r"
    using f by (simp_all add: mounts_def)
qed

lemma same_mount_trans:
  assumes a: "same_mount r r'" and b: "same_mount r' r''"
  shows "same_mount r r''"
proof -
  have e: "r'\<lparr>rm_enabled := rm_enabled r\<rparr> = r" "r''\<lparr>rm_enabled := rm_enabled r'\<rparr> = r'"
    using a b unfolding same_mount_def by blast+
  have "r''\<lparr>rm_enabled := rm_enabled r\<rparr> = (r''\<lparr>rm_enabled := rm_enabled r'\<rparr>)\<lparr>rm_enabled := rm_enabled r\<rparr>" by simp
  also have "\<dots> = r" unfolding e(2) by (rule e(1))
  finally have "r''\<lparr>rm_enabled := rm_enabled r\<rparr> = r" .
  moreover have "rm_enabled r \<Longrightarrow> rm_enabled r''" using a b unfolding same_mount_def by blast
  moreover have "r'' = r" if d: "rm_enablement r = Some Disabled"
  proof -
    have "r' = r" using a d unfolding same_mount_def by blast
    then show ?thesis using b d unfolding same_mount_def by blast
  qed
  ultimately show ?thesis unfolding same_mount_def by blast
qed

lemma extends_refl [simp]: "extends xs xs"
  by (simp add: extends_def)

lemma extends_trans:
  assumes "extends xs ys" "extends ys zs"
  shows "extends xs zs"
proof -
  have l: "length xs \<le> length ys" "length ys \<le> length zs" using assms by (simp_all add: extends_def)
  have "same_mount (xs ! i) (zs ! i)" if i: "i < length xs" for i
  proof (rule same_mount_trans [of _ "ys ! i"])
    show "same_mount (xs ! i) (ys ! i)" using assms(1) i unfolding extends_def by blast
    show "same_mount (ys ! i) (zs ! i)" using assms(2) less_le_trans [OF i l(1)] unfolding extends_def by blast
  qed
  with l show ?thesis by (simp add: extends_def)
qed

lemma grows_refl [simp]: "grows U s s"
  by (simp add: grows_def)

lemma grows_trans:
  assumes a: "grows U s s'" and b: "grows U s' s''"
  shows "grows U s s''"
proof -
  have "extends (mt_routes s) (mt_routes s'')"
    using extends_trans a b unfolding grows_def by blast
  moreover have "rm_service_id ` set (mt_routes s'') \<subseteq> rm_service_id ` set (mt_routes s) \<union> fst ` U"
    using a b unfolding grows_def by blast
  moreover have "\<not> ds_changed s'' \<longrightarrow> s'' = s" using a b unfolding grows_def by metis
  moreover have "ds_changed s'' \<longrightarrow> ds_changed s \<or> enabled_count (mt_routes s) < enabled_count (mt_routes s'')"
    using a b unfolding grows_def by (metis le_less_trans less_le_trans)
  moreover have "enabled_count (mt_routes s) \<le> enabled_count (mt_routes s'')"
    "length (mt_routes s'') + missing U (mt_routes s'') \<le> length (mt_routes s) + missing U (mt_routes s)"
    "ds_changed s \<longrightarrow> ds_changed s''"
    using a b unfolding grows_def by (meson le_trans)+
  ultimately show ?thesis unfolding grows_def by blast
qed

lemma grows_services: "grows U s s' \<Longrightarrow> fst ` U \<subseteq> T \<Longrightarrow> rm_service_id ` set (mt_routes s) \<subseteq> T \<Longrightarrow> rm_service_id ` set (mt_routes s') \<subseteq> T"
  unfolding grows_def by blast

lemma same_mount_enable: "rm_enablement r \<noteq> Some Disabled \<Longrightarrow> same_mount r (r\<lparr>rm_enabled := True\<rparr>)"
  by (cases r) (simp add: same_mount_def)

lemma extends_Cons: "extends (x # xs) (y # ys) \<longleftrightarrow> same_mount x y \<and> extends xs ys"
proof
  assume e: "extends (x # xs) (y # ys)"
  have "same_mount (xs ! i) (ys ! i)" if "i < length xs" for i
    using e that unfolding extends_def by (auto dest: spec [of _ "Suc i"])
  with e show "same_mount x y \<and> extends xs ys" unfolding extends_def by fastforce
next
  assume "same_mount x y \<and> extends xs ys"
  then show "extends (x # xs) (y # ys)" unfolding extends_def by (simp add: All_less_Suc2)
qed

lemma extends_update_first:
  "List.find P xs = Some x \<Longrightarrow> rm_enablement x \<noteq> Some Disabled \<Longrightarrow>
   extends xs (update_first P (\<lambda>r. r\<lparr>rm_enabled := True\<rparr>) xs)"
  by (induction xs) (simp_all add: extends_Cons same_mount_enable split: if_splits)

lemma length_update_first [simp]: "length (update_first P f xs) = length xs"
  by (induction xs) auto

lemma enabled_update_first:
  "List.find P xs = Some x \<Longrightarrow> \<not> rm_enabled x \<Longrightarrow>
   enabled_count (update_first P (\<lambda>r. r\<lparr>rm_enabled := True\<rparr>) xs) = Suc (enabled_count xs)"
  by (induction xs) (auto simp: enabled_count_def split: if_splits)

lemma mounted_update_first:
  "(\<exists>r\<in>set (update_first P (\<lambda>r. r\<lparr>rm_enabled := e\<rparr>) xs). mounts t op r) \<longleftrightarrow> (\<exists>r\<in>set xs. mounts t op r)"
  by (induction xs) (auto simp: mounts_def)

lemma services_update_first: "rm_service_id ` set (update_first P (\<lambda>r. r\<lparr>rm_enabled := e\<rparr>) xs) = rm_service_id ` set xs"
  by (induction xs) auto

lemma missing_append:
  assumes "finite U" "(t, op) \<in> U" "\<forall>r\<in>set xs. \<not> mounts t op r" "mounts t op n"
  shows "Suc (missing U (xs @ [n])) \<le> missing U xs"
proof -
  let ?A = "{p \<in> U. \<forall>r\<in>set xs. \<not> mounts (fst p) (snd p) r}"
  let ?B = "{p \<in> U. \<forall>r\<in>set (xs @ [n]). \<not> mounts (fst p) (snd p) r}"
  have "?B \<subset> ?A" using assms by force
  then show ?thesis unfolding missing_def using assms(1) by (intro Suc_leI psubset_card_mono) auto
qed

lemma require_dependency_grows:
  assumes "finite U" "(rd_service_id d, rd_operation_id d) \<in> U"
  shows "grows U s (require_dependency uuid d s)"
proof (cases "List.find (meets d) (mt_routes s)")
  case None
  let ?n = "(api_mount (rd_manifest d) (rd_view d) (rd_operation d) (rd_service_id d) (uuid (mt_drawn s)) True)\<lparr>rm_operations := [rd_operation_id d]\<rparr>"
  have n: "\<forall>r\<in>set (mt_routes s). \<not> mounts (rd_service_id d) (rd_operation_id d) r"
    using find_NoneD [OF None] by (auto simp: meets_def)
  have m: "mounts (rd_service_id d) (rd_operation_id d) ?n" by (simp add: mounts_def api_mount_def)
  have x: "extends (mt_routes s) (mt_routes s @ [?n])" by (simp add: extends_def nth_append)
  have c: "enabled_count (mt_routes s @ [?n]) = Suc (enabled_count (mt_routes s))"
    by (simp add: enabled_count_def api_mount_def)
  have sv: "rm_service_id ` set (mt_routes s @ [?n]) \<subseteq> rm_service_id ` set (mt_routes s) \<union> fst ` U"
    using assms(2) by (force simp: api_mount_def)
  show ?thesis
    using missing_append [OF assms n m] x c sv by (simp add: grows_def require_dependency_def None)
next
  case (Some r)
  show ?thesis
  proof (cases "rm_enablement r \<noteq> Some Disabled \<and> \<not> rm_enabled r")
    case True
    let ?ys = "update_first (meets d) (\<lambda>r. r\<lparr>rm_enabled := True\<rparr>) (mt_routes s)"
    have x: "extends (mt_routes s) ?ys" using extends_update_first [OF Some] True by blast
    have c: "enabled_count ?ys = Suc (enabled_count (mt_routes s))" using enabled_update_first [OF Some] True by blast
    have m: "missing U ?ys = missing U (mt_routes s)"
      unfolding missing_def using mounted_update_first [of "meets d" True "mt_routes s"] by (metis (lifting))
    show ?thesis using x c m True by (simp add: grows_def require_dependency_def Some services_update_first)
  next
    case False
    then have "require_dependency uuid d s = s" by (simp only: require_dependency_def Some option.case if_not_P [OF False] if_False)
    then show ?thesis by simp
  qed
qed

lemma fold_grows:
  assumes "\<And>x s. x \<in> set xs \<Longrightarrow> P s \<Longrightarrow> grows U s (f x s)" "\<And>s s'. P s \<Longrightarrow> grows U s s' \<Longrightarrow> P s'" "P s"
  shows "grows U s (fold f xs s)"
  using assms
proof (induction xs arbitrary: s)
  case (Cons x xs)
  have g: "grows U s (f x s)" using Cons.prems by simp
  moreover have "grows U (f x s) (fold f xs (f x s))"
  proof (rule Cons.IH)
    show "\<And>y t. y \<in> set xs \<Longrightarrow> P t \<Longrightarrow> grows U t (f y t)" using Cons.prems(1) by simp
    show "\<And>t t'. P t \<Longrightarrow> grows U t t' \<Longrightarrow> P t'" by (rule Cons.prems(2))
    show "P (f x s)" using Cons.prems(2,3) g by blast
  qed
  ultimately show ?case by (auto intro: grows_trans)
qed simp

lemma fold_unchanged:
  assumes "\<And>x s. x \<in> set xs \<Longrightarrow> P s \<Longrightarrow> grows U s (f x s)" "\<And>s s'. P s \<Longrightarrow> grows U s s' \<Longrightarrow> P s'" "P s"
    "\<not> ds_changed (fold f xs s)"
  shows "fold f xs s = s" "\<forall>x\<in>set xs. f x s = s"
proof -
  have "grows U s (fold f xs s)" by (rule fold_grows [where P = P]) (use assms in auto)
  then show "fold f xs s = s" using assms(4) by (simp add: grows_def)
  show "\<forall>x\<in>set xs. f x s = s"
    using assms
  proof (induction xs arbitrary: s)
    case (Cons x xs)
    have g: "grows U s (f x s)" using Cons.prems by simp
    have p: "P (f x s)" using Cons.prems(2,3) g by blast
    have "grows U (f x s) (fold f xs (f x s))"
      by (rule fold_grows [where P = P]) (use Cons.prems p in auto)
    then have "\<not> ds_changed (f x s)" using Cons.prems(4) by (auto simp: grows_def)
    then have e: "f x s = s" using g by (simp add: grows_def)
    have "\<forall>y\<in>set xs. f y s = s"
      by (rule Cons.IH) (use Cons.prems e in auto)
    with e show ?case by simp
  qed simp
qed

section \<open>The requirements that can occur\<close>

definition known_services :: "stored_config \<Rightarrow> app \<Rightarrow> route_mount list \<Rightarrow> string set" where
  "known_services cfg a xs = set (get_available_service_instance_ids_for_app cfg a) \<union> rm_service_id ` set xs"

definition declared_operations :: "stored_config \<Rightarrow> (string, manifest_entry) jsmap \<Rightarrow> string set \<Rightarrow> string set" where
  "declared_operations cfg cache T =
     (\<Union>t\<in>T. case get_cached_manifest_for_service cfg cache t of None \<Rightarrow> {}
       | Some m \<Rightarrow> dp_operation_id ` set (concat (map mo_dependencies (concat (map mv_operations (js_values (me_view_index m)))))))"

lemma finite_declared: "finite T \<Longrightarrow> finite (declared_operations cfg cache T)"
  by (auto simp: declared_operations_def split: option.splits)

lemma resolve_requirement_cases:
  assumes "resolve_requirement cfg cache a src req = Some d"
  shows "rd_service_id d \<in> set (target_service_ids cfg a src req)" "rd_operation_id d = dp_operation_id req"
  using assms by (auto simp: resolve_requirement_def split: list.splits option.splits if_splits)

lemma requirement_known:
  assumes "d \<in> set (requirements cfg cache a src)" "rm_service_id src \<in> T" "set (get_available_service_instance_ids_for_app cfg a) \<subseteq> T"
  shows "(rd_service_id d, rd_operation_id d) \<in> T \<times> declared_operations cfg cache T"
proof -
  obtain m req where m: "get_cached_manifest_for_service cfg cache (rm_service_id src) = Some m"
    and req: "req \<in> set (mounted_dependencies m src)" and d: "resolve_requirement cfg cache a src req = Some d"
    using assms(1) by (cases "get_cached_manifest_for_service cfg cache (rm_service_id src)") (auto simp: requirements_def map_filter_def)
  obtain v where v: "js_get (me_view_index m) (rm_view_id src) = Some v"
    and r: "req \<in> set (concat (map mo_dependencies (mv_operations v)))"
    using req by (cases "js_get (me_view_index m) (rm_view_id src)") (auto simp: mounted_dependencies_def)
  have "v \<in> set (js_values (me_view_index m))" using map_of_SomeD [OF v] by (force simp: js_values_def)
  then have "req \<in> set (concat (map mo_dependencies (concat (map mv_operations (js_values (me_view_index m))))))" using r by auto
  then have "dp_operation_id req \<in> declared_operations cfg cache T"
    unfolding declared_operations_def using assms(2) by (intro UN_I [of "rm_service_id src"]) (simp_all add: m)
  moreover have "rd_service_id d \<in> T"
    using resolve_requirement_cases(1) [OF d] assms(2,3) by (auto simp: target_service_ids_def split: option.splits)
  ultimately show ?thesis using resolve_requirement_cases(2) [OF d] by simp
qed

section \<open>The passes return\<close>

lemma enabled_count_le: "enabled_count xs \<le> length xs"
  by (simp add: enabled_count_def)

lemma add_missing_grows:
  assumes "finite T" "set (get_available_service_instance_ids_for_app cfg a) \<subseteq> T" "rm_service_id src \<in> T"
  shows "grows (T \<times> declared_operations cfg cache T) s (add_missing_dependency_routes cfg cache uuid a src s)"
proof -
  let ?U = "T \<times> declared_operations cfg cache T"
  have U: "finite ?U" using finite_declared [OF assms(1)] assms(1) by simp
  have "grows ?U s (fold (require_dependency uuid) (requirements cfg cache a src) s)"
    by (rule fold_grows [where P = "\<lambda>_. True"]) (use require_dependency_grows [OF U] requirement_known [OF _ assms(3,2)] in auto)
  then show ?thesis by (simp add: add_missing_dependency_routes_def)
qed

lemma pass_step_grows:
  assumes "finite T" "set (get_available_service_instance_ids_for_app cfg a) \<subseteq> T"
    "rm_service_id ` set (mt_routes s) \<subseteq> T" "i < length (mt_routes s)"
  shows "grows (T \<times> declared_operations cfg cache T) s (add_missing_dependency_routes cfg cache uuid a (mt_routes s ! i) s)"
  by (rule add_missing_grows [OF assms(1,2)]) (use assms(3,4) in auto)

text \<open>What the passes keep: the routes' services are known, and the routes of the pass are there.\<close>

definition in_scope :: "string set \<Rightarrow> nat \<Rightarrow> dependency_state \<Rightarrow> bool" where
  "in_scope T n s \<longleftrightarrow> rm_service_id ` set (mt_routes s) \<subseteq> T \<and> n \<le> length (mt_routes s)"

lemma in_scope_grows: "in_scope T n s \<Longrightarrow> grows (T \<times> D) s s' \<Longrightarrow> in_scope T n s'"
  using grows_services [of "T \<times> D" s s' T] unfolding in_scope_def grows_def extends_def by (auto simp: fst_image_times)

lemma dependency_pass_grows:
  assumes "finite T" "set (get_available_service_instance_ids_for_app cfg a) \<subseteq> T" "rm_service_id ` set (mt_routes s) \<subseteq> T"
  shows "grows (T \<times> declared_operations cfg cache T) (s\<lparr>ds_changed := False\<rparr>) (dependency_pass cfg cache uuid a s)"
  unfolding dependency_pass_def
proof (rule fold_grows [where P = "in_scope T (length (mt_routes s))"])
  fix i t assume "i \<in> set [0..<length (mt_routes s)]" "in_scope T (length (mt_routes s)) t"
  then show "grows (T \<times> declared_operations cfg cache T) t (add_missing_dependency_routes cfg cache uuid a (mt_routes t ! i) t)"
    using pass_step_grows [OF assms(1,2)] by (auto simp: in_scope_def)
next
  show "in_scope T (length (mt_routes s)) (s\<lparr>ds_changed := False\<rparr>)" using assms(3) by (simp add: in_scope_def)
qed (rule in_scope_grows)

lemma dependency_pass_unchanged:
  assumes "finite T" "set (get_available_service_instance_ids_for_app cfg a) \<subseteq> T" "rm_service_id ` set (mt_routes s) \<subseteq> T"
    "\<not> ds_changed (dependency_pass cfg cache uuid a s)"
  shows "dependency_pass cfg cache uuid a s = s\<lparr>ds_changed := False\<rparr>"
    "\<forall>i<length (mt_routes s). add_missing_dependency_routes cfg cache uuid a (mt_routes s ! i) (s\<lparr>ds_changed := False\<rparr>) = s\<lparr>ds_changed := False\<rparr>"
proof -
  let ?s = "s\<lparr>ds_changed := False\<rparr>" and ?n = "length (mt_routes s)"
  let ?f = "\<lambda>i s. add_missing_dependency_routes cfg cache uuid a (mt_routes s ! i) s"
  have g: "\<And>i t. i \<in> set [0..<?n] \<Longrightarrow> in_scope T ?n t \<Longrightarrow> grows (T \<times> declared_operations cfg cache T) t (?f i t)"
    using pass_step_grows [OF assms(1,2)] by (auto simp: in_scope_def)
  have p: "in_scope T ?n ?s" using assms(3) by (simp add: in_scope_def)
  have c: "\<not> ds_changed (fold ?f [0..<?n] ?s)" using assms(4) by (simp add: dependency_pass_def)
  have u: "fold ?f [0..<?n] ?s = ?s" "\<forall>i\<in>set [0..<?n]. ?f i ?s = ?s"
    by (rule fold_unchanged [where P = "in_scope T ?n", OF g in_scope_grows p c], assumption+)+
  show "dependency_pass cfg cache uuid a s = ?s" using u(1) by (simp add: dependency_pass_def)
  show "\<forall>i<?n. add_missing_dependency_routes cfg cache uuid a (mt_routes s ! i) ?s = ?s" using u(2) by simp
qed

definition room :: "(string \<times> string) set \<Rightarrow> dependency_state \<Rightarrow> nat" where
  "room U s = length (mt_routes s) + missing U (mt_routes s) - enabled_count (mt_routes s)"

lemma room_decreases:
  assumes "grows U s s'" "\<not> ds_changed s" "ds_changed s'"
  shows "room U s' < room U s"
proof -
  have "enabled_count (mt_routes s) < enabled_count (mt_routes s')"
    "length (mt_routes s') + missing U (mt_routes s') \<le> length (mt_routes s) + missing U (mt_routes s)"
    using assms unfolding grows_def by blast+
  then show ?thesis using enabled_count_le [of "mt_routes s'"] unfolding room_def by linarith
qed

text \<open>
  Each pass but the last enables a route, so the number of the pass stays within the number
  of routes and the loop ends by its break, with a pass that changed nothing.
\<close>

lemma dependency_loop_returns:
  assumes T: "finite T" "set (get_available_service_instance_ids_for_app cfg a) \<subseteq> T"
    and K: "\<And>s. K s \<Longrightarrow> rm_service_id ` set (mt_routes s) \<subseteq> T \<Longrightarrow> K (dependency_pass cfg cache uuid a s)"
  shows "rm_service_id ` set (mt_routes s) \<subseteq> T \<Longrightarrow> pass \<le> enabled_count (mt_routes s) \<Longrightarrow> K s \<Longrightarrow>
    \<exists>s'. dependency_loop cfg cache uuid a pass s = Some s' \<and> K s' \<and> rm_service_id ` set (mt_routes s') \<subseteq> T
       \<and> \<not> ds_changed s' \<and> dependency_pass cfg cache uuid a s' = s'"
proof (induction "room (T \<times> declared_operations cfg cache T) (s\<lparr>ds_changed := False\<rparr>)" arbitrary: s pass rule: less_induct)
  case less
  let ?U = "T \<times> declared_operations cfg cache T" and ?s' = "dependency_pass cfg cache uuid a s"
  have g: "grows ?U (s\<lparr>ds_changed := False\<rparr>) ?s'" by (rule dependency_pass_grows [OF T less.prems(1)])
  have sv: "rm_service_id ` set (mt_routes ?s') \<subseteq> T"
    using grows_services [OF g, of T] less.prems(1) by (auto simp: fst_image_times)
  have b: "pass \<le> length (mt_routes s)" using less.prems(2) enabled_count_le le_trans by blast
  have k: "K ?s'" by (rule K [OF less.prems(3,1)])
  show ?case
  proof (cases "ds_changed ?s'")
    case False
    note u = dependency_pass_unchanged [OF T less.prems(1) False]
    have "dependency_pass cfg cache uuid a ?s' = ?s'" by (simp add: dependency_pass_def u(1)) (simp add: dependency_pass_def [symmetric] u(1))
    then show ?thesis using False sv k b by (subst dependency_loop.simps) (simp add: Let_def)
  next
    case True
    have e: "enabled_count (mt_routes s) < enabled_count (mt_routes ?s')" using g True by (simp add: grows_def)
    have "room ?U (?s'\<lparr>ds_changed := False\<rparr>) < room ?U (s\<lparr>ds_changed := False\<rparr>)"
      using room_decreases [OF g] True by (simp add: room_def)
    then obtain s'' where s'': "dependency_loop cfg cache uuid a (Suc pass) ?s' = Some s''" "K s''"
      "rm_service_id ` set (mt_routes s'') \<subseteq> T" "\<not> ds_changed s''" "dependency_pass cfg cache uuid a s'' = s''"
      using less.hyps [OF _ sv _ k] e less.prems(2) by (meson Suc_leI le_less_trans)
    have "dependency_loop cfg cache uuid a pass s = Some s''"
      by (subst dependency_loop.simps) (simp add: Let_def b True s''(1))
    with s'' show ?thesis by blast
  qed
qed

section \<open>Which routes a dependency needs\<close>

text \<open>
  The specification: a route the operator enabled is needed, and so is the first route that
  mounts what a needed route depends on, unless the operator disabled it.
\<close>

inductive needed ::
    "stored_config \<Rightarrow> (string, manifest_entry) jsmap \<Rightarrow> app \<Rightarrow> route_mount list \<Rightarrow> route_mount list \<Rightarrow> nat \<Rightarrow> bool"
  for cfg cache a before rs where
  operator: "\<lbrakk>i < length before; rm_enabled (before ! i); \<not> auto_api (before ! i)\<rbrakk> \<Longrightarrow> needed cfg cache a before rs i"
| dependency: "\<lbrakk>needed cfg cache a before rs i; i < length rs; d \<in> set (requirements cfg cache a (rs ! i)); j < length rs;
    meets d (rs ! j); \<forall>k<j. \<not> meets d (rs ! k); rm_enablement (rs ! j) \<noteq> Some Disabled\<rbrakk> \<Longrightarrow> needed cfg cache a before rs j"

lemma requirements_cong:
  assumes "rm_service_id r = rm_service_id r'" "rm_view_id r = rm_view_id r'" "rm_operations r = rm_operations r'"
  shows "requirements cfg cache a r = requirements cfg cache a r'"
proof -
  have "target_service_ids cfg a r = target_service_ids cfg a r'" by (rule ext) (simp only: target_service_ids_def assms(1))
  then have "resolve_requirement cfg cache a r = resolve_requirement cfg cache a r'"
    by (intro ext) (simp only: resolve_requirement_def)
  moreover have "mounted_dependencies m r = mounted_dependencies m r'" for m by (simp only: mounted_dependencies_def assms)
  ultimately show ?thesis by (simp only: requirements_def assms(1))
qed

lemma same_mount_requirements: "same_mount r r' \<Longrightarrow> requirements cfg cache a r' = requirements cfg cache a r"
  by (rule requirements_cong) (simp_all add: same_mount_fields)

lemma needed_extends:
  assumes "needed cfg cache a before rs i" "extends rs rs'"
  shows "needed cfg cache a before rs' i"
  using assms(1)
proof (induction rule: needed.induct)
  case (operator i)
  then show ?case by (rule needed.operator)
next
  case (dependency i d j)
  have m: "\<And>k. k < length rs \<Longrightarrow> same_mount (rs ! k) (rs' ! k)" "length rs \<le> length rs'"
    using assms(2) unfolding extends_def by blast+
  have me: "meets d (rs' ! k) = meets d (rs ! k)" if "k < length rs" for k
    using same_mount_fields(7) [OF m(1) [OF that]] by (simp add: meets_def)
  show ?case
  proof (rule needed.dependency [OF dependency.IH])
    show "i < length rs'" "j < length rs'" using dependency.hyps m(2) by simp_all
    show "d \<in> set (requirements cfg cache a (rs' ! i))"
      using dependency.hyps same_mount_requirements [OF m(1)] by simp
    show "meets d (rs' ! j)" using dependency.hyps me by simp
    show "\<forall>k<j. \<not> meets d (rs' ! k)" using dependency.hyps me by simp
    show "rm_enablement (rs' ! j) \<noteq> Some Disabled"
      using dependency.hyps same_mount_fields(4) [OF m(1)] by simp
  qed
qed

section \<open>The passes compute the needed routes\<close>

definition sound :: "stored_config \<Rightarrow> (string, manifest_entry) jsmap \<Rightarrow> app \<Rightarrow> route_mount list \<Rightarrow> dependency_state \<Rightarrow> bool" where
  "sound cfg cache a before s \<longleftrightarrow>
     extends (map reset_auto before) (mt_routes s) \<and>
     (\<forall>i<length (mt_routes s). rm_enabled (mt_routes s ! i) \<longrightarrow> needed cfg cache a before (mt_routes s) i)"

lemma update_first_index:
  "j < length xs \<Longrightarrow> P (xs ! j) \<Longrightarrow> \<forall>k<j. \<not> P (xs ! k) \<Longrightarrow> update_first P f xs = xs[j := f (xs ! j)]"
proof (induction xs arbitrary: j)
  case (Cons x xs)
  show ?case
  proof (cases j)
    case 0
    with Cons.prems show ?thesis by simp
  next
    case (Suc i)
    have "\<not> P x" "\<forall>k<i. \<not> P (xs ! k)" using Cons.prems(3) Suc by (auto dest: spec [of _ "Suc _"])
    with Suc Cons show ?thesis by simp
  qed
qed simp

lemma require_dependency_extends: "extends (mt_routes s) (mt_routes (require_dependency uuid d s))"
  using require_dependency_grows [of "{(rd_service_id d, rd_operation_id d)}" d s uuid] by (simp add: grows_def)

lemma require_dependency_sound:
  assumes s: "sound cfg cache a before s" and i: "i < length (mt_routes s)" "rm_enabled (mt_routes s ! i)"
    and d: "d \<in> set (requirements cfg cache a (mt_routes s ! i))"
  shows "sound cfg cache a before (require_dependency uuid d s)"
proof -
  let ?rs = "mt_routes s" and ?rs' = "mt_routes (require_dependency uuid d s)"
  have x: "extends ?rs ?rs'" by (rule require_dependency_extends)
  have b: "extends (map reset_auto before) ?rs'" using s extends_trans [OF _ x] by (simp add: sound_def)
  have l: "length ?rs \<le> length ?rs'" and sm: "\<And>k. k < length ?rs \<Longrightarrow> same_mount (?rs ! k) (?rs' ! k)"
    using x unfolding extends_def by blast+
  have old: "needed cfg cache a before ?rs' k" if "k < length ?rs" "rm_enabled (?rs ! k)" for k
    using s that needed_extends [OF _ x] by (simp add: sound_def)
  have di: "d \<in> set (requirements cfg cache a (?rs' ! i))" using d same_mount_requirements [OF sm [OF i(1)]] by simp
  have ni: "needed cfg cache a before ?rs' i" by (rule old [OF i])
  have "needed cfg cache a before ?rs' k" if k: "k < length ?rs'" "rm_enabled (?rs' ! k)" for k
  proof (cases "List.find (meets d) ?rs")
    case None
    define n where "n = (api_mount (rd_manifest d) (rd_view d) (rd_operation d) (rd_service_id d) (uuid (mt_drawn s)) True)\<lparr>rm_operations := [rd_operation_id d]\<rparr>"
    have r: "?rs' = ?rs @ [n]" by (simp add: require_dependency_def None n_def)
    have n: "meets d n" "rm_enablement n \<noteq> Some Disabled" by (simp_all add: n_def meets_def mounts_def api_mount_def)
    have no: "\<forall>k<length ?rs. \<not> meets d (?rs ! k)" using find_NoneD [OF None] by auto
    show ?thesis
    proof (cases "k < length ?rs")
      case True
      then show ?thesis using old [OF True] k(2) by (simp add: r nth_append)
    next
      case False
      then have e: "k = length ?rs" using k(1) by (simp add: r)
      show ?thesis unfolding e
        by (rule needed.dependency [OF ni _ di]) (use i(1) n no in \<open>simp_all add: r nth_append\<close>)
    qed
  next
    case (Some r0)
    then obtain j where j: "j < length ?rs" "meets d (?rs ! j)" "r0 = ?rs ! j" "\<forall>k<j. \<not> meets d (?rs ! k)"
      by (auto simp: find_Some_iff)
    show ?thesis
    proof (cases "rm_enablement r0 \<noteq> Some Disabled \<and> \<not> rm_enabled r0")
      case False
      then have "require_dependency uuid d s = s" by (simp only: require_dependency_def Some option.case if_not_P [OF False] if_False)
      then show ?thesis using s k by (simp add: sound_def)
    next
      case True
      have r: "?rs' = ?rs[j := (?rs ! j)\<lparr>rm_enabled := True\<rparr>]"
        using True update_first_index [OF j(1,2,4)] by (simp add: require_dependency_def Some)
      show ?thesis
      proof (cases "k = j")
        case kj: True
        have m: "meets d (r\<lparr>rm_enabled := True\<rparr>) = meets d r" for r by (simp add: meets_def mounts_def)
        show ?thesis unfolding kj
          by (rule needed.dependency [OF ni _ di]) (use i(1) j True in \<open>simp_all add: r m nth_list_update\<close>)
      next
        case False
        then show ?thesis using old [of k] k by (simp add: r)
      qed
    qed
  qed
  with b show ?thesis by (simp add: sound_def)
qed

definition sound_at ::
    "stored_config \<Rightarrow> (string, manifest_entry) jsmap \<Rightarrow> app \<Rightarrow> route_mount list \<Rightarrow> nat \<Rightarrow> resolved_dependency list \<Rightarrow> dependency_state \<Rightarrow> bool" where
  "sound_at cfg cache a before i ds s \<longleftrightarrow>
     sound cfg cache a before s \<and> i < length (mt_routes s) \<and> rm_enabled (mt_routes s ! i)
     \<and> requirements cfg cache a (mt_routes s ! i) = ds"

lemma require_dependency_sound_at:
  assumes "sound_at cfg cache a before i ds s" "d \<in> set ds"
  shows "sound_at cfg cache a before i ds (require_dependency uuid d s)"
proof -
  have x: "extends (mt_routes s) (mt_routes (require_dependency uuid d s))" by (rule require_dependency_extends)
  have i: "i < length (mt_routes s)" using assms(1) by (simp add: sound_at_def)
  then have m: "same_mount (mt_routes s ! i) (mt_routes (require_dependency uuid d s) ! i)"
    "i < length (mt_routes (require_dependency uuid d s))" using x by (simp_all add: extends_def)
  have "rm_enabled (mt_routes (require_dependency uuid d s) ! i)"
    using m(1) assms(1) unfolding same_mount_def sound_at_def by blast
  moreover have "sound cfg cache a before (require_dependency uuid d s)"
    using assms by (intro require_dependency_sound [of _ _ _ _ _ i]) (auto simp: sound_at_def)
  ultimately show ?thesis using assms(1) m same_mount_requirements [OF m(1)] by (simp add: sound_at_def)
qed

lemma fold_invariant: "I s \<Longrightarrow> (\<And>x s. x \<in> set xs \<Longrightarrow> I s \<Longrightarrow> I (f x s)) \<Longrightarrow> I (fold f xs s)"
  by (induction xs arbitrary: s) auto

lemma add_missing_sound:
  assumes "sound cfg cache a before s" "i < length (mt_routes s)"
  shows "sound cfg cache a before (add_missing_dependency_routes cfg cache uuid a (mt_routes s ! i) s)"
proof (cases "rm_enabled (mt_routes s ! i)")
  case True
  let ?ds = "requirements cfg cache a (mt_routes s ! i)"
  have "sound_at cfg cache a before i ?ds (fold (require_dependency uuid) ?ds s)"
    by (rule fold_invariant) (use assms True require_dependency_sound_at in \<open>auto simp: sound_at_def\<close>)
  then show ?thesis using True by (simp add: add_missing_dependency_routes_def sound_at_def)
next
  case False
  then show ?thesis using assms(1) by (simp add: add_missing_dependency_routes_def)
qed

lemma add_missing_extends: "extends (mt_routes s) (mt_routes (add_missing_dependency_routes cfg cache uuid a src s))"
proof -
  have "extends (mt_routes s) (mt_routes (fold (require_dependency uuid) ds s))" for ds
    by (rule fold_invariant [where I = "\<lambda>t. extends (mt_routes s) (mt_routes t)"])
      (auto intro: extends_trans require_dependency_extends)
  then show ?thesis by (simp add: add_missing_dependency_routes_def)
qed

lemma dependency_pass_sound:
  assumes "sound cfg cache a before s"
  shows "sound cfg cache a before (dependency_pass cfg cache uuid a s)"
proof -
  have "sound cfg cache a before (dependency_pass cfg cache uuid a s) \<and>
      length (mt_routes s) \<le> length (mt_routes (dependency_pass cfg cache uuid a s))"
    unfolding dependency_pass_def
  proof (rule fold_invariant [where I = "\<lambda>t. sound cfg cache a before t \<and> length (mt_routes s) \<le> length (mt_routes t)"])
    show "sound cfg cache a before (s\<lparr>ds_changed := False\<rparr>) \<and> length (mt_routes s) \<le> length (mt_routes (s\<lparr>ds_changed := False\<rparr>))"
      using assms by (simp add: sound_def)
  next
    fix i t
    assume "i \<in> set [0..<length (mt_routes s)]" and t: "sound cfg cache a before t \<and> length (mt_routes s) \<le> length (mt_routes t)"
    then have "sound cfg cache a before (add_missing_dependency_routes cfg cache uuid a (mt_routes t ! i) t)"
      by (intro add_missing_sound) auto
    moreover have "length (mt_routes t) \<le> length (mt_routes (add_missing_dependency_routes cfg cache uuid a (mt_routes t ! i) t))"
      using add_missing_extends unfolding extends_def by blast
    ultimately show "sound cfg cache a before (add_missing_dependency_routes cfg cache uuid a (mt_routes t ! i) t) \<and>
        length (mt_routes s) \<le> length (mt_routes (add_missing_dependency_routes cfg cache uuid a (mt_routes t ! i) t))"
      using t le_trans by blast
  qed
  then show ?thesis by blast
qed

lemma require_dependency_id:
  assumes "require_dependency uuid d s = s" "\<not> ds_changed s"
  shows "\<exists>r. List.find (meets d) (mt_routes s) = Some r \<and> (rm_enablement r = Some Disabled \<or> rm_enabled r)"
proof (cases "List.find (meets d) (mt_routes s)")
  case None
  then have "ds_changed (require_dependency uuid d s)" by (simp add: require_dependency_def)
  with assms show ?thesis by simp
next
  case (Some r)
  have "\<not> (rm_enablement r \<noteq> Some Disabled \<and> \<not> rm_enabled r)"
  proof
    assume "rm_enablement r \<noteq> Some Disabled \<and> \<not> rm_enabled r"
    then have "ds_changed (require_dependency uuid d s)" by (simp add: require_dependency_def Some)
    with assms show False by simp
  qed
  with Some show ?thesis by blast
qed

lemma needed_enabled:
  assumes n: "needed cfg cache a before (mt_routes s) i"
    and x: "extends (map reset_auto before) (mt_routes s)"
    and d: "\<And>i d. \<lbrakk>i < length (mt_routes s); rm_enabled (mt_routes s ! i); d \<in> set (requirements cfg cache a (mt_routes s ! i))\<rbrakk> \<Longrightarrow>
      \<exists>r. List.find (meets d) (mt_routes s) = Some r \<and> (rm_enablement r = Some Disabled \<or> rm_enabled r)"
  shows "i < length (mt_routes s) \<and> rm_enabled (mt_routes s ! i)"
  using n
proof (induction rule: needed.induct)
  case (operator i)
  then have "same_mount (reset_auto (before ! i)) (mt_routes s ! i)" "i < length (mt_routes s)" using x by (simp_all add: extends_def)
  then show ?case using operator by (simp add: same_mount_def reset_auto_def)
next
  case (dependency i d' j)
  then obtain r where r: "List.find (meets d') (mt_routes s) = Some r" "rm_enablement r = Some Disabled \<or> rm_enabled r"
    using d by blast
  have "r = mt_routes s ! j"
  proof -
    obtain k where k: "k < length (mt_routes s)" "meets d' (mt_routes s ! k)" "r = mt_routes s ! k" "\<forall>l<k. \<not> meets d' (mt_routes s ! l)"
      using r(1) by (auto simp: find_Some_iff)
    have "k = j" using k dependency.hyps by (meson linorder_neqE_nat)
    with k(3) show ?thesis by simp
  qed
  then show ?case using r(2) dependency.hyps by auto
qed

lemma fixpoint_meets:
  assumes T: "finite T" "set (get_available_service_instance_ids_for_app cfg a) \<subseteq> T" "rm_service_id ` set (mt_routes s) \<subseteq> T"
    and s: "dependency_pass cfg cache uuid a s = s" "\<not> ds_changed s"
    and i: "i < length (mt_routes s)" "rm_enabled (mt_routes s ! i)" "d \<in> set (requirements cfg cache a (mt_routes s ! i))"
  shows "\<exists>r. List.find (meets d) (mt_routes s) = Some r \<and> (rm_enablement r = Some Disabled \<or> rm_enabled r)"
proof -
  let ?U = "T \<times> declared_operations cfg cache T" and ?ds = "requirements cfg cache a (mt_routes s ! i)"
  have e: "s\<lparr>ds_changed := False\<rparr> = s" using s(2) by simp
  have "add_missing_dependency_routes cfg cache uuid a (mt_routes s ! i) s = s"
    using dependency_pass_unchanged(2) [OF T] s i(1) unfolding e by simp
  then have f: "\<not> ds_changed (fold (require_dependency uuid) ?ds s)"
    using i(2) s(2) by (simp add: add_missing_dependency_routes_def)
  have U: "finite ?U" using finite_declared [OF T(1)] T(1) by simp
  have src: "rm_service_id (mt_routes s ! i) \<in> T" using T(3) i(1) by auto
  have g: "\<And>d t. d \<in> set ?ds \<Longrightarrow> True \<Longrightarrow> grows ?U t (require_dependency uuid d t)"
    using require_dependency_grows [OF U] requirement_known [OF _ src T(2)] by blast
  have "\<forall>d\<in>set ?ds. require_dependency uuid d s = s"
    by (rule fold_unchanged(2) [where P = "\<lambda>_. True" and U = ?U, OF g _ _ f]) simp_all
  then show ?thesis using i(3) require_dependency_id s(2) by blast
qed

lemma extends_reset_enabled:
  assumes "extends (map reset_auto xs) ys"
  shows "List.take (length xs) (map (\<lambda>r. r\<lparr>rm_enabled := False\<rparr>) ys) = map (\<lambda>r. r\<lparr>rm_enabled := False\<rparr>) xs"
proof (rule nth_equalityI)
  show "length (List.take (length xs) (map (\<lambda>r. r\<lparr>rm_enabled := False\<rparr>) ys)) = length (map (\<lambda>r. r\<lparr>rm_enabled := False\<rparr>) xs)"
    using assms by (simp add: extends_def)
  fix i assume "i < length (List.take (length xs) (map (\<lambda>r. r\<lparr>rm_enabled := False\<rparr>) ys))"
  then have i: "i < length xs" "i < length ys" by simp_all
  then have e: "(ys ! i)\<lparr>rm_enabled := rm_enabled (reset_auto (xs ! i))\<rparr> = reset_auto (xs ! i)"
    using assms by (simp add: extends_def same_mount_def)
  have "(ys ! i)\<lparr>rm_enabled := False\<rparr> = ((ys ! i)\<lparr>rm_enabled := rm_enabled (reset_auto (xs ! i))\<rparr>)\<lparr>rm_enabled := False\<rparr>" by simp
  also have "\<dots> = (xs ! i)\<lparr>rm_enabled := False\<rparr>" unfolding e by (simp add: reset_auto_def)
  finally show "List.take (length xs) (map (\<lambda>r. r\<lparr>rm_enabled := False\<rparr>) ys) ! i = map (\<lambda>r. r\<lparr>rm_enabled := False\<rparr>) xs ! i"
    using i by simp
qed

lemma needed_routes_computed:
  "\<exists>s'. reconcile_dependency_routes cfg cache uuid a s = Some s'
     \<and> List.take (length (mt_routes s)) (map (\<lambda>r. r\<lparr>rm_enabled := False\<rparr>) (mt_routes s')) = map (\<lambda>r. r\<lparr>rm_enabled := False\<rparr>) (mt_routes s)
     \<and> {i. i < length (mt_routes s') \<and> rm_enabled (mt_routes s' ! i)} = {i. needed cfg cache a (mt_routes s) (mt_routes s') i}"
proof -
  let ?s = "\<lparr>mt_routes = map reset_auto (mt_routes s), mt_drawn = mt_drawn s, ds_changed = False\<rparr>"
  let ?T = "known_services cfg a (mt_routes s)"
  have T: "finite ?T" "set (get_available_service_instance_ids_for_app cfg a) \<subseteq> ?T" by (simp_all add: known_services_def)
  have sv: "rm_service_id ` set (mt_routes ?s) \<subseteq> ?T" by (auto simp: known_services_def reset_auto_def)
  have init: "sound cfg cache a (mt_routes s) ?s"
    unfolding sound_def by (auto simp: reset_auto_def split: if_splits intro: needed.operator)
  have "\<exists>t. dependency_loop cfg cache uuid a 0 ?s = Some t \<and> sound cfg cache a (mt_routes s) t
      \<and> rm_service_id ` set (mt_routes t) \<subseteq> ?T \<and> \<not> ds_changed t \<and> dependency_pass cfg cache uuid a t = t"
  proof (rule dependency_loop_returns [where K = "sound cfg cache a (mt_routes s)", OF T _ sv _ init])
    fix u assume "sound cfg cache a (mt_routes s) u"
    then show "sound cfg cache a (mt_routes s) (dependency_pass cfg cache uuid a u)" by (rule dependency_pass_sound)
  qed simp
  then obtain t where t: "dependency_loop cfg cache uuid a 0 ?s = Some t" "sound cfg cache a (mt_routes s) t"
      "rm_service_id ` set (mt_routes t) \<subseteq> ?T" "\<not> ds_changed t" "dependency_pass cfg cache uuid a t = t" by blast
  have x: "extends (map reset_auto (mt_routes s)) (mt_routes t)" using t(2) by (simp add: sound_def)
  have "{i. i < length (mt_routes t) \<and> rm_enabled (mt_routes t ! i)} = {i. needed cfg cache a (mt_routes s) (mt_routes t) i}"
  proof (intro Collect_cong iffI)
    fix i assume n: "needed cfg cache a (mt_routes s) (mt_routes t) i"
    show "i < length (mt_routes t) \<and> rm_enabled (mt_routes t ! i)"
      by (rule needed_enabled [OF n x]) (rule fixpoint_meets [OF T t(3,5,4)])
  next
    fix i assume "i < length (mt_routes t) \<and> rm_enabled (mt_routes t ! i)"
    then show "needed cfg cache a (mt_routes s) (mt_routes t) i" using t(2) unfolding sound_def by blast
  qed
  then show ?thesis using t(1) extends_reset_enabled [OF x]
    by (intro exI [of _ "mount_state.truncate t"]) (simp add: reconcile_dependency_routes_def mount_state.defs)
qed

text \<open>
  C23: \<open>reconcileDependencyRoutes\<close> returns although the bound of its loop moves with the routes
  it adds, and what it leaves is the least solution: the routes that are enabled afterwards
  are those an operator enabled and those reachable from them through the dependencies their
  manifests declare, without passing through a route an operator disabled. Nothing but the
  enabled flags of the routes that were there has changed.
\<close>
theorem dependency_routes_least:
  "\<exists>s'. reconcile_dependency_routes cfg cache uuid a s = Some s'
     \<and> List.take (length (mt_routes s)) (map (\<lambda>r. r\<lparr>rm_enabled := False\<rparr>) (mt_routes s')) = map (\<lambda>r. r\<lparr>rm_enabled := False\<rparr>) (mt_routes s)
     \<and> {i. i < length (mt_routes s') \<and> rm_enabled (mt_routes s' ! i)} = {i. needed cfg cache a (mt_routes s) (mt_routes s') i}"
  by (rule needed_routes_computed)

section \<open>The apps of a configuration\<close>

definition app_mounts :: "app \<Rightarrow> nat \<Rightarrow> mount_state" where
  "app_mounts a n = \<lparr>mt_routes = app_routes a, mt_drawn = n\<rparr>"

definition preview_app :: "stored_config \<Rightarrow> app \<Rightarrow> bool" where
  "preview_app cfg a \<longleftrightarrow> list_ex (\<lambda>d. pvd_app_id d = app_id a) (st_preview_deployments cfg)"

text \<open>The app with its routes, how many UUIDs were drawn, and whether something changed.\<close>

definition reconcile_cached_app ::
    "stored_config \<Rightarrow> (string, manifest_entry) jsmap \<Rightarrow> (nat \<Rightarrow> string) \<Rightarrow> (string, manifest_entry) jsmap \<Rightarrow> app \<Rightarrow> nat
     \<Rightarrow> (app \<times> nat \<times> bool) option" where
  "reconcile_cached_app cfg cache uuid manifests a n =
     (let available = filter (\<lambda>(i, m). i \<in> set (get_available_service_instance_ids_for_app cfg a)) manifests;
          (s, changed) = fold (\<lambda>(i, m) (s, c). let s' = reconcile_service_route_mounts uuid [i] m True s
                                                 in (s', c \<or> mt_routes s' \<noteq> mt_routes s)) available (app_mounts a n, False)
      in if preview_app cfg a \<or> available = [] then Some (a, n, False)
         else case reconcile_dependency_routes cfg cache uuid a s of
                None \<Rightarrow> None
              | Some s' \<Rightarrow> Some (a\<lparr>app_routes := mt_routes s'\<rparr>, mt_drawn s', changed \<or> routes_differ (mt_routes s) (mt_routes s')))"

fun reconcile_apps :: "(app \<Rightarrow> nat \<Rightarrow> (app \<times> nat \<times> bool) option) \<Rightarrow> app list \<Rightarrow> nat \<Rightarrow> (app list \<times> nat \<times> bool) option" where
  "reconcile_apps f [] n = Some ([], n, False)"
| "reconcile_apps f (a # as) n =
     (case f a n of
        None \<Rightarrow> None
      | Some (a', n', c) \<Rightarrow> map_option (\<lambda>(as', n'', c'). (a' # as', n'', c \<or> c')) (reconcile_apps f as n'))"

definition reconcile_cached_service_routes ::
    "stored_config \<Rightarrow> (string, manifest_entry) jsmap \<Rightarrow> (nat \<Rightarrow> string) \<Rightarrow> string list \<Rightarrow> nat \<Rightarrow> (stored_config \<times> nat \<times> bool) option" where
  "reconcile_cached_service_routes cfg cache uuid service_ids n =
     (let manifests = foldl (\<lambda>ms i. case get_cached_manifest_for_service cfg [] i of None \<Rightarrow> ms | Some m \<Rightarrow> js_set i m ms) [] service_ids
      in map_option (\<lambda>(as, n', c). (cfg\<lparr>pc_apps := as\<rparr>, n', c))
           (reconcile_apps (reconcile_cached_app cfg cache uuid manifests) (pc_apps cfg) n))"

section \<open>A manifest push\<close>

definition published :: "'a option \<Rightarrow> 'a option \<Rightarrow> 'a option" where
  "published new old = (case new of None \<Rightarrow> old | Some x \<Rightarrow> Some x)"

definition describe_tenant_service :: "manifest_entry \<Rightarrow> tenant_service \<Rightarrow> tenant_service" where
  "describe_tenant_service m s =
     s\<lparr>ts_capabilities := me_capabilities m, ts_auth_provider := published (me_auth_provider m) (ts_auth_provider s),
       ts_title := published (only_truthy (me_title m)) (ts_title s)\<rparr>"

definition describe_platform_service :: "manifest_entry \<Rightarrow> platform_service \<Rightarrow> platform_service" where
  "describe_platform_service m s =
     s\<lparr>ps_capabilities := me_capabilities m, ps_auth_provider := published (me_auth_provider m) (ps_auth_provider s),
       ps_title := (case only_truthy (me_title m) of None \<Rightarrow> ps_title s | Some t \<Rightarrow> t)\<rparr>"

definition describe_shared_service :: "manifest_entry \<Rightarrow> shared_service \<Rightarrow> shared_service" where
  "describe_shared_service m s =
     s\<lparr>ss_tags := uniq (ss_tags s @ me_capabilities m), ss_auth_provider := published (me_auth_provider m) (ss_auth_provider s),
       ss_title := (case only_truthy (me_title m) of None \<Rightarrow> ss_title s | Some t \<Rightarrow> t)\<rparr>"

definition named_instance :: "string \<Rightarrow> string \<Rightarrow> string option \<Rightarrow> bool" where
  "named_instance i own plugin \<longleftrightarrow> own = i \<or> plugin = Some i"

definition tenant_named :: "string \<Rightarrow> tenant_service \<Rightarrow> bool" where
  "tenant_named i s = named_instance i (ts_id s) (ts_service_id s)"

definition platform_named :: "string \<Rightarrow> platform_service \<Rightarrow> bool" where
  "platform_named i s = named_instance i (ps_id s) (ps_service_id s)"

definition shared_named :: "string \<Rightarrow> shared_service \<Rightarrow> bool" where
  "shared_named i s = named_instance i (ss_id s) (ss_service_id s)"

definition store_manifest :: "string \<Rightarrow> manifest_entry \<Rightarrow> stored_config \<Rightarrow> stored_config" where
  "store_manifest i m cfg =
     (case List.find (\<lambda>e. me_service_id e = i) (pc_manifest_cache cfg) of
        None \<Rightarrow> cfg\<lparr>pc_manifest_cache := pc_manifest_cache cfg @ [m\<lparr>me_service_id := i\<rparr>]\<rparr>
      | Some e \<Rightarrow> cfg\<lparr>pc_manifest_cache := update_first (\<lambda>e. me_service_id e = i)
                         (\<lambda>e. m\<lparr>me_service_id := i, me_fetched_at := me_fetched_at e\<rparr>) (pc_manifest_cache cfg)\<rparr>)"

definition describe_registrations :: "string \<Rightarrow> manifest_entry \<Rightarrow> stored_config \<Rightarrow> stored_config" where
  "describe_registrations i m cfg =
     cfg\<lparr>pc_tenants := map (\<lambda>t. t\<lparr>tn_services := update_first (tenant_named i) (describe_tenant_service m) (tn_services t)\<rparr>) (pc_tenants cfg),
         pc_platform_services := update_first (platform_named i) (describe_platform_service m) (pc_platform_services cfg),
         pc_shared_catalog := update_first (shared_named i) (describe_shared_service m) (pc_shared_catalog cfg)\<rparr>"

definition route_service_ids :: "string \<Rightarrow> stored_config \<Rightarrow> string list" where
  "route_service_ids i cfg =
     uniq (i # concat (map (\<lambda>t. map ts_id (case List.find (tenant_named i) (tn_services t) of None \<Rightarrow> [] | Some s \<Rightarrow> [s])) (pc_tenants cfg)) @
       map ps_id (case List.find (platform_named i) (pc_platform_services cfg) of None \<Rightarrow> [] | Some s \<Rightarrow> [s]) @
       (case List.find (shared_named i) (pc_shared_catalog cfg) of None \<Rightarrow> []
        | Some s \<Rightarrow> map sa_id (filter (\<lambda>x. sa_enabled x \<and> sa_shared_service_id x = ss_id s) (pc_shared_activations cfg))))"

text \<open>
  Routes stored before operations existed carry their methods; the storage deletes that field
  when it loads a configuration, so the default \<open>["GET"]\<close> is what is left of it here.
\<close>

definition legacy_route :: "route_mount \<Rightarrow> route_mount" where
  "legacy_route r = (if rm_operations r = [] then r\<lparr>rm_operations := [legacy_operation_id (rm_view_id r) GET]\<rparr> else r)"

definition publish_provider :: "manifest_entry \<Rightarrow> string list \<Rightarrow> app \<Rightarrow> app" where
  "publish_provider m ids a =
     (case (me_auth_provider m, app_auth_config a) of
        (Some p, Some au) \<Rightarrow>
          if aa_service_id au \<in> set ids
          then a\<lparr>app_auth_config := Some (au\<lparr>aa_expected_issuer := apm_issuer p, aa_expected_audience := apm_audience p,
                    aa_jwks_uri := apm_jwks_uri p, aa_public_keys := published (apm_public_keys p) (aa_public_keys au)\<rparr>)\<rparr>
          else a
      | _ \<Rightarrow> a)"

definition push_to_app ::
    "stored_config \<Rightarrow> (string, manifest_entry) jsmap \<Rightarrow> (nat \<Rightarrow> string) \<Rightarrow> manifest_entry \<Rightarrow> string list \<Rightarrow> app \<Rightarrow> nat \<Rightarrow> (app \<times> nat \<times> bool) option" where
  "push_to_app cfg cache uuid m ids a n =
     (let a' = publish_provider m ids (a\<lparr>app_routes := map legacy_route (app_routes a)\<rparr>);
          synced = filter (\<lambda>i. i \<in> set (get_available_service_instance_ids_for_app cfg a)) ids;
          s = reconcile_service_route_mounts uuid synced m (\<not> preview_app cfg a) (app_mounts a' n)
      in map_option (\<lambda>s'. (a'\<lparr>app_routes := mt_routes s'\<rparr>, mt_drawn s', True)) (reconcile_dependency_routes cfg cache uuid a s))"

definition apply_service_metadata ::
    "(string, manifest_entry) jsmap \<Rightarrow> (nat \<Rightarrow> string) \<Rightarrow> string \<Rightarrow> manifest_entry \<Rightarrow> stored_config \<Rightarrow> nat
     \<Rightarrow> (stored_config \<times> string list) option" where
  "apply_service_metadata cache uuid i m cfg n =
     (let cfg' = describe_registrations i m (store_manifest i m cfg); ids = route_service_ids i cfg'
      in map_option (\<lambda>(as, n', c). (cfg'\<lparr>pc_apps := as\<rparr>, ids))
           (reconcile_apps (push_to_app cfg' cache uuid m ids) (pc_apps cfg') n))"

section \<open>What a manifest push leaves alone\<close>

type_synonym registration_identity = "string \<times> string \<times> string \<times> string option \<times> string option \<times> string option \<times> bool"

definition registration_identities :: "stored_config \<Rightarrow> registration_identity list list" where
  "registration_identities cfg =
     map (\<lambda>s. (ps_id s, ps_hostname s, ps_api_key_hash s, ps_public_key_pem s, ps_key_id s, ps_service_id s, ps_enabled s)) (pc_platform_services cfg) #
     map (\<lambda>s. (ss_id s, ss_base_url s, ss_api_key_hash s, ss_public_key_pem s, ss_key_id s, ss_service_id s, ss_enabled s)) (pc_shared_catalog cfg) #
     map (\<lambda>t. map (\<lambda>s. (ts_id s, ts_hostname s, ts_api_key_hash s, ts_public_key_pem s, ts_key_id s, ts_service_id s, ts_enabled s)) (tn_services t))
       (pc_tenants cfg)"

lemma map_update_first_same: "(\<And>x. g (f x) = g x) \<Longrightarrow> map g (update_first P f xs) = map g xs"
  by (induction xs) auto

lemma reconcile_apps_returns: "(\<And>a n. f a n \<noteq> None) \<Longrightarrow> reconcile_apps f as n \<noteq> None"
proof (induction "as" arbitrary: n)
  case (Cons a as)
  obtain p where p: "f a n = Some p" using Cons.prems [of a n] by blast
  obtain a' n' c where q: "p = (a', n', c)" by (cases p)
  have "reconcile_apps f as n' \<noteq> None" by (rule Cons.IH) (rule Cons.prems)
  then show ?case by (auto simp: p q)
qed simp

lemma reconcile_apps_map:
  "(\<And>a n a' n' c. f a n = Some (a', n', c) \<Longrightarrow> g a' = g a) \<Longrightarrow> reconcile_apps f as n = Some (as', n', c) \<Longrightarrow> map g as' = map g as"
proof (induction "as" arbitrary: n as' n' c)
  case (Cons a as)
  then show ?case by (fastforce split: option.splits)
qed simp

lemma reconcile_dependency_routes_returns: "reconcile_dependency_routes cfg cache uuid a s \<noteq> None"
  using needed_routes_computed by fastforce

definition app_scope :: "app \<Rightarrow> string \<times> string \<times> string list \<times> string option" where
  "app_scope a = (app_id a, app_tenant_id a, app_hostnames a, map_option aa_service_id (app_auth_config a))"

lemma push_to_app_scope: "push_to_app cfg cache uuid m ids a n = Some (a', n', c) \<Longrightarrow> app_scope a' = app_scope a"
  by (auto simp: push_to_app_def Let_def publish_provider_def app_scope_def split: option.splits if_splits)

text \<open>
  C25: publishing a manifest always ends, and changes what a service says about itself and the
  routes that follow from it, but no registration's id, address, API key, signing key, plugin
  or enablement, and no app's tenant, host names or authentication service.
\<close>
theorem manifest_push_keeps_identities:
  "\<exists>cfg' ids. apply_service_metadata cache uuid i m cfg n = Some (cfg', ids)
     \<and> registration_identities cfg' = registration_identities cfg
     \<and> map app_scope (pc_apps cfg') = map app_scope (pc_apps cfg)
     \<and> pc_shared_activations cfg' = pc_shared_activations cfg"
proof -
  let ?cfg = "describe_registrations i m (store_manifest i m cfg)"
  have ne: "reconcile_apps (push_to_app ?cfg cache uuid m (route_service_ids i ?cfg)) (pc_apps ?cfg) n \<noteq> None"
    by (rule reconcile_apps_returns) (simp add: push_to_app_def Let_def reconcile_dependency_routes_returns)
  then obtain "as" n' c where r: "reconcile_apps (push_to_app ?cfg cache uuid m (route_service_ids i ?cfg)) (pc_apps ?cfg) n = Some (as, n', c)" by auto
  have a: "map app_scope as = map app_scope (pc_apps ?cfg)"
    by (rule reconcile_apps_map [OF _ r]) (rule push_to_app_scope)
  have apps: "pc_apps ?cfg = pc_apps cfg" "pc_shared_activations ?cfg = pc_shared_activations cfg"
    by (simp_all add: describe_registrations_def store_manifest_def split: option.split)
  have "registration_identities ?cfg = registration_identities (store_manifest i m cfg)"
    by (simp add: registration_identities_def describe_registrations_def map_update_first_same describe_platform_service_def
        describe_shared_service_def describe_tenant_service_def)
  also have "\<dots> = registration_identities cfg"
    by (simp add: registration_identities_def store_manifest_def split: option.split)
  finally have "registration_identities (?cfg\<lparr>pc_apps := as\<rparr>) = registration_identities cfg"
    by (simp add: registration_identities_def)
  moreover have "apply_service_metadata cache uuid i m cfg n = Some (?cfg\<lparr>pc_apps := as\<rparr>, route_service_ids i ?cfg)"
    by (simp only: apply_service_metadata_def Let_def r option.map prod.case)
  moreover have "map app_scope (pc_apps (?cfg\<lparr>pc_apps := as\<rparr>)) = map app_scope (pc_apps cfg)"
    "pc_shared_activations (?cfg\<lparr>pc_apps := as\<rparr>) = pc_shared_activations cfg"
    using a apps by simp_all
  ultimately show ?thesis by blast
qed

end
