(* ===== verification/RolePermissions.thy ===== *)
theory RolePermissions
  imports Dependencies
begin

text \<open>
  What a role may do: \<open>deriveRolePermissions\<close> of \<open>syncApi.ts\<close> follows the dependencies of the
  operations a role may call and grants what they require, with a queue per role;
  \<open>injectResolvedServicePaths\<close> puts the result into the configuration a service is sent; and
  \<open>roleAuthority.ts\<close> says who keeps an app's roles.

  The queue is a total function: the operations not seen yet decrease, or the queue does. Chrome,
  sitemap and robots of a route are left out.
\<close>

section \<open>Mounted operations and their dependencies\<close>

record mounted_operation =
  md_route :: route_mount
  md_manifest :: manifest_entry
  md_view :: manifest_view
  md_operation :: manifest_operation

definition mounted_of :: "(string \<Rightarrow> manifest_entry option) \<Rightarrow> route_mount list \<Rightarrow> mounted_operation list" where
  "mounted_of resolve routes =
     concat (map (\<lambda>r.
       if \<not> rm_enabled r then []
       else case resolve (rm_service_id r) of
              None \<Rightarrow> []
            | Some m \<Rightarrow>
                (case js_get (me_view_index m) (rm_view_id r) of
                   None \<Rightarrow> []
                 | Some v \<Rightarrow> map (\<lambda>op. \<lparr>md_route = r, md_manifest = m, md_view = v, md_operation = op\<rparr>)
                     (filter (\<lambda>op. mo_operation_id op \<in> set (rm_operations r)) (mv_operations v)))) routes)"

definition resolve_dependency :: "mounted_operation list \<Rightarrow> mounted_operation \<Rightarrow> operation_dependency \<Rightarrow> mounted_operation option" where
  "resolve_dependency mounted source d =
     (case filter (\<lambda>c. mo_operation_id (md_operation c) = dp_operation_id d \<and> mo_method (md_operation c) = dp_method d
                     \<and> (case only_truthy (dp_service_id d) of
                          Some i \<Rightarrow> me_service_id (md_manifest c) = i
                        | None \<Rightarrow> rm_service_id (md_route c) = rm_service_id (md_route source))) mounted of
        [c] \<Rightarrow> Some c
      | _ \<Rightarrow> None)"

definition instance_of_plugin :: "mounted_operation list \<Rightarrow> string \<Rightarrow> string option" where
  "instance_of_plugin mounted plugin =
     (case uniq (map (\<lambda>c. rm_service_id (md_route c)) (filter (\<lambda>c. me_service_id (md_manifest c) = plugin) mounted)) of
        [i] \<Rightarrow> Some i
      | _ \<Rightarrow> None)"

definition required_service :: "mounted_operation list \<Rightarrow> mounted_operation \<Rightarrow> permission_grant \<Rightarrow> string option" where
  "required_service mounted c req =
     only_truthy (if pg_service_id req = me_service_id (md_manifest c) then Some (rm_service_id (md_route c))
                  else instance_of_plugin mounted (pg_service_id req))"

section \<open>Deriving a role's permissions\<close>

definition grant_for :: "string \<Rightarrow> string \<Rightarrow> permission_grant \<Rightarrow> bool" where
  "grant_for service_id view_id g \<longleftrightarrow> pg_service_id g = service_id \<and> pg_view_id g = view_id"

definition granted :: "permission_grant list \<Rightarrow> string \<Rightarrow> string \<Rightarrow> string list" where
  "granted gs service_id view_id = (case List.find (grant_for service_id view_id) gs of None \<Rightarrow> [] | Some g \<Rightarrow> pg_permissions g)"

definition accessible :: "mounted_operation list \<Rightarrow> permission_grant list \<Rightarrow> mounted_operation \<Rightarrow> bool" where
  "accessible mounted gs c =
     list_all (\<lambda>req. case required_service mounted c req of
         None \<Rightarrow> False
       | Some i \<Rightarrow> list_all (\<lambda>p. p \<in> set (granted gs i (pg_view_id req))) (pg_permissions req))
       (mo_permissions (md_operation c))"

record required_by =
  rb_service_id :: string
  rb_operation_id :: string
  rb_method :: http_method

record derived_permission =
  dv_role_id :: string
  dv_service_id :: string
  dv_view_id :: string
  dv_permissions :: "string list"
  dv_required_by :: "required_by list"

definition required_by_of :: "mounted_operation \<Rightarrow> required_by" where
  "required_by_of c = \<lparr>rb_service_id = rm_service_id (md_route c), rb_operation_id = mo_operation_id (md_operation c),
                       rb_method = mo_method (md_operation c)\<rparr>"

definition derived_for :: "string \<Rightarrow> string \<Rightarrow> string \<Rightarrow> derived_permission \<Rightarrow> bool" where
  "derived_for rid service_id view_id d \<longleftrightarrow> dv_role_id d = rid \<and> dv_service_id d = service_id \<and> dv_view_id d = view_id"

definition note_derived ::
    "string \<Rightarrow> mounted_operation \<Rightarrow> string \<Rightarrow> string \<Rightarrow> string list \<Rightarrow> derived_permission list \<Rightarrow> derived_permission list" where
  "note_derived rid source i v additions ds =
     (if additions = [] then ds
      else case List.find (derived_for rid i v) ds of
             Some d \<Rightarrow> update_first (derived_for rid i v)
               (\<lambda>d. d\<lparr>dv_permissions := uniq (dv_permissions d @ additions),
                       dv_required_by := (if required_by_of source \<in> set (dv_required_by d) then dv_required_by d
                                          else dv_required_by d @ [required_by_of source])\<rparr>) ds
           | None \<Rightarrow> ds @ [\<lparr>dv_role_id = rid, dv_service_id = i, dv_view_id = v, dv_permissions = additions,
                             dv_required_by = [required_by_of source]\<rparr>])"

definition add_grant_for :: "string \<Rightarrow> string \<Rightarrow> string list \<Rightarrow> permission_grant list \<Rightarrow> permission_grant list" where
  "add_grant_for i v ps gs =
     (if List.find (grant_for i v) gs \<noteq> None
      then update_first (grant_for i v) (\<lambda>g. g\<lparr>pg_permissions := uniq (pg_permissions g @ ps)\<rparr>) gs
      else if ps \<noteq> [] then gs @ [\<lparr>pg_service_id = i, pg_view_id = v, pg_permissions = ps\<rparr>] else gs)"

type_synonym derivation = "permission_grant list \<times> derived_permission list"

definition add_requirement ::
    "mounted_operation list \<Rightarrow> string \<Rightarrow> mounted_operation \<Rightarrow> mounted_operation \<Rightarrow> permission_grant \<Rightarrow> derivation \<Rightarrow> derivation" where
  "add_requirement mounted rid source target req st =
     (case required_service mounted target req of
        None \<Rightarrow> st
      | Some i \<Rightarrow>
          (let v = pg_view_id req; ps = pg_permissions req; gs = fst st
           in (add_grant_for i v ps gs,
               note_derived rid source i v (filter (\<lambda>p. p \<notin> set (granted gs i v)) ps) (snd st))))"

definition add_requirements ::
    "mounted_operation list \<Rightarrow> string \<Rightarrow> mounted_operation \<Rightarrow> mounted_operation \<Rightarrow> derivation \<Rightarrow> derivation" where
  "add_requirements mounted rid source target st =
     fold (add_requirement mounted rid source target) (mo_permissions (md_operation target)) st"

definition dependency_targets :: "mounted_operation list \<Rightarrow> mounted_operation \<Rightarrow> mounted_operation list" where
  "dependency_targets mounted source =
     List.map_filter (resolve_dependency mounted source) (mo_dependencies (md_operation source))"

definition source_key :: "mounted_operation \<Rightarrow> string" where
  "source_key c = rm_service_id (md_route c) @ '':'' @ mo_operation_id (md_operation c) @ '':'' @ method_name (mo_method (md_operation c))"

lemma single_match: "(case filter P xs of [c] \<Rightarrow> Some c | _ \<Rightarrow> None) = Some t \<Longrightarrow> t \<in> set xs"
proof -
  assume "(case filter P xs of [c] \<Rightarrow> Some c | _ \<Rightarrow> None) = Some t"
  then have f: "filter P xs = [t]" by (cases "filter P xs" rule: remdups_adj.cases) auto
  have "t \<in> set (filter P xs)" unfolding f by simp
  then show ?thesis by simp
qed

lemma dependency_target_mounted: "t \<in> set (dependency_targets mounted s) \<Longrightarrow> t \<in> set mounted"
  by (auto simp: dependency_targets_def map_filter_def resolve_dependency_def dest: single_match)

text \<open>The queue of one role: \<open>while (queued.length > 0)\<close>.\<close>

function derive_loop ::
    "mounted_operation list \<Rightarrow> string \<Rightarrow> mounted_operation list \<Rightarrow> string list \<Rightarrow> derivation \<Rightarrow> derivation" where
  "derive_loop mounted rid [] seen st = st"
| "derive_loop mounted rid (source # queue) seen st =
     (if source_key source \<in> set seen then derive_loop mounted rid queue seen st
      else derive_loop mounted rid (queue @ dependency_targets mounted source) (source_key source # seen)
             (fold (add_requirements mounted rid source) (dependency_targets mounted source) st))"
  by pat_completeness auto

definition unseen :: "mounted_operation list \<Rightarrow> mounted_operation list \<Rightarrow> string list \<Rightarrow> nat" where
  "unseen mounted queue seen = card (source_key ` (set mounted \<union> set queue) - set seen)"

lemma unseen_step:
  assumes "source_key source \<notin> set seen"
  shows "unseen mounted (queue @ dependency_targets mounted source) (source_key source # seen) < unseen mounted (source # queue) seen"
  unfolding unseen_def
proof (rule psubset_card_mono)
  have "set (dependency_targets mounted source) \<subseteq> set mounted" using dependency_target_mounted by blast
  then show "source_key ` (set mounted \<union> set (queue @ dependency_targets mounted source)) - set (source_key source # seen)
      \<subset> source_key ` (set mounted \<union> set (source # queue)) - set seen"
    using assms by auto
qed simp

lemma unseen_skip: "unseen mounted queue seen \<le> unseen mounted (source # queue) seen"
  unfolding unseen_def by (rule card_mono) auto

termination derive_loop
proof (relation "measures [\<lambda>(mounted, r, queue, seen, st). unseen mounted queue seen, \<lambda>(mounted, r, queue, seen, st). length queue]")
  fix mounted rid source queue seen st
  assume "source_key source \<in> set seen"
  show "((mounted, rid, queue, seen, st), mounted, rid, source # queue, seen, st)
      \<in> measures [\<lambda>(mounted, r, queue, seen, st). unseen mounted queue seen, \<lambda>(mounted, r, queue, seen, st). length queue]"
    using unseen_skip [of mounted queue seen source] by (auto simp: le_less)
qed (auto simp: unseen_step)

definition derive_role :: "mounted_operation list \<Rightarrow> app_role \<Rightarrow> derived_permission list \<Rightarrow> app_role \<times> derived_permission list" where
  "derive_role mounted r ds =
     (let st = derive_loop mounted (role_id r) (filter (accessible mounted (role_grants r)) mounted) [] (role_grants r, ds)
      in (r\<lparr>role_grants := fst st\<rparr>, snd st))"

fun derive_roles :: "mounted_operation list \<Rightarrow> app_role list \<Rightarrow> derived_permission list \<Rightarrow> app_role list \<times> derived_permission list" where
  "derive_roles mounted [] ds = ([], ds)"
| "derive_roles mounted (r # rs) ds =
     (let p = derive_role mounted r ds; q = derive_roles mounted rs (snd p) in (fst p # fst q, snd q))"

definition derive_role_permissions ::
    "app_auth \<Rightarrow> route_mount list \<Rightarrow> (string \<Rightarrow> manifest_entry option) \<Rightarrow> app_auth \<times> derived_permission list" where
  "derive_role_permissions au routes resolve =
     (let p = derive_roles (mounted_of resolve routes) (aa_roles au) [] in (au\<lparr>aa_roles := fst p\<rparr>, snd p))"

section \<open>What a role ends up with\<close>

text \<open>The operations a role may call, and those its calls depend on.\<close>

inductive callable :: "mounted_operation list \<Rightarrow> permission_grant list \<Rightarrow> mounted_operation \<Rightarrow> bool" for mounted gs where
  own: "\<lbrakk>c \<in> set mounted; accessible mounted gs c\<rbrakk> \<Longrightarrow> callable mounted gs c"
| depended: "\<lbrakk>callable mounted gs c; t \<in> set (dependency_targets mounted c)\<rbrakk> \<Longrightarrow> callable mounted gs t"

definition gives :: "mounted_operation list \<Rightarrow> mounted_operation \<Rightarrow> string \<Rightarrow> string \<Rightarrow> string set" where
  "gives mounted t i v =
     (\<Union>req\<in>set (mo_permissions (md_operation t)).
        if required_service mounted t req = Some i \<and> pg_view_id req = v then set (pg_permissions req) else {})"

text \<open>Operations the queue takes for the same one have the same service and dependencies.\<close>

definition keys_identify :: "mounted_operation list \<Rightarrow> bool" where
  "keys_identify mounted \<longleftrightarrow>
     list_all (\<lambda>c. list_all (\<lambda>c'. source_key c \<noteq> source_key c' \<or>
        rm_service_id (md_route c) = rm_service_id (md_route c') \<and> mo_dependencies (md_operation c) = mo_dependencies (md_operation c'))
      mounted) mounted"

lemma grant_for_update [simp]: "grant_for i v (g\<lparr>pg_permissions := ps\<rparr>) = grant_for i v g"
  by (simp add: grant_for_def)

lemma grant_for_unique: "grant_for i v g \<Longrightarrow> grant_for i' v' g \<longleftrightarrow> i = i' \<and> v = v'"
  by (auto simp: grant_for_def)

lemma find_grant_update:
  "List.find (grant_for i v) (update_first (grant_for i' v') (\<lambda>g. g\<lparr>pg_permissions := h g\<rparr>) gs) =
     (if i = i' \<and> v = v' then map_option (\<lambda>g. g\<lparr>pg_permissions := h g\<rparr>) (List.find (grant_for i v) gs)
      else List.find (grant_for i v) gs)"
proof (induction gs)
  case (Cons g gs)
  show ?case
  proof (cases "grant_for i v g")
    case True
    then show ?thesis using grant_for_unique [OF True, of i' v'] by simp
  next
    case False
    then show ?thesis using Cons.IH by auto
  qed
qed simp

lemma find_append: "List.find P (xs @ ys) = (case List.find P xs of None \<Rightarrow> List.find P ys | Some x \<Rightarrow> Some x)"
  by (induction xs) auto

lemma granted_add:
  "set (granted (add_grant_for i v ps gs) i' v') = set (granted gs i' v') \<union> (if i' = i \<and> v' = v then set ps else {})"
  by (cases "List.find (grant_for i v) gs"; cases "List.find (grant_for i' v') gs")
    (auto simp: add_grant_for_def granted_def find_grant_update find_append grant_for_def split: option.splits)

lemma granted_add_requirement:
  "set (granted (fst (add_requirement mounted rid s t req st)) i v) =
     set (granted (fst st) i v) \<union> (if required_service mounted t req = Some i \<and> pg_view_id req = v then set (pg_permissions req) else {})"
  by (auto simp: add_requirement_def Let_def granted_add split: option.split)

lemma granted_add_requirements:
  "set (granted (fst (add_requirements mounted rid s t st)) i v) = set (granted (fst st) i v) \<union> gives mounted t i v"
proof -
  have "set (granted (fst (fold (add_requirement mounted rid s t) reqs st)) i v) = set (granted (fst st) i v) \<union>
      (\<Union>req\<in>set reqs. if required_service mounted t req = Some i \<and> pg_view_id req = v then set (pg_permissions req) else {})" for reqs
    by (induction reqs arbitrary: st) (auto simp: granted_add_requirement)
  then show ?thesis by (simp add: add_requirements_def gives_def)
qed

lemma granted_fold:
  "set (granted (fst (fold (add_requirements mounted rid s) ts st)) i v) = set (granted (fst st) i v) \<union> (\<Union>t\<in>set ts. gives mounted t i v)"
  by (induction ts arbitrary: st) (auto simp: granted_add_requirements)

lemma same_key_targets:
  assumes "keys_identify mounted" "c \<in> set mounted" "c' \<in> set mounted" "source_key c = source_key c'"
  shows "dependency_targets mounted c = dependency_targets mounted c'"
proof -
  have e: "rm_service_id (md_route c) = rm_service_id (md_route c')" "mo_dependencies (md_operation c) = mo_dependencies (md_operation c')"
    using assms unfolding keys_identify_def list_all_iff by blast+
  have "resolve_dependency mounted c = resolve_dependency mounted c'"
    unfolding resolve_dependency_def e(1) ..
  then show ?thesis by (simp add: dependency_targets_def e(2))
qed

text \<open>The queue's invariant: what was seen has its requirements granted and its targets queued or seen.\<close>

definition queue_invariant ::
    "mounted_operation list \<Rightarrow> permission_grant list \<Rightarrow> mounted_operation list \<Rightarrow> string list \<Rightarrow> permission_grant list \<Rightarrow> bool" where
  "queue_invariant mounted gs0 queue seen gs \<longleftrightarrow>
     (\<forall>c\<in>set queue. callable mounted gs0 c \<and> c \<in> set mounted) \<and>
     (\<forall>c\<in>set mounted. accessible mounted gs0 c \<longrightarrow> c \<in> set queue \<or> source_key c \<in> set seen) \<and>
     (\<forall>c\<in>set mounted. source_key c \<in> set seen \<longrightarrow>
        (\<forall>t\<in>set (dependency_targets mounted c). (t \<in> set queue \<or> source_key t \<in> set seen) \<and> (\<forall>i v. gives mounted t i v \<subseteq> set (granted gs i v)))) \<and>
     (\<forall>i v. set (granted gs0 i v) \<subseteq> set (granted gs i v)) \<and>
     (\<forall>i v. set (granted gs i v) \<subseteq> set (granted gs0 i v) \<union> (\<Union>t\<in>{t. \<exists>c. callable mounted gs0 c \<and> t \<in> set (dependency_targets mounted c)}. gives mounted t i v))"

lemma callable_mounted: "callable mounted gs c \<Longrightarrow> c \<in> set mounted"
  by (induction rule: callable.induct) (auto dest: dependency_target_mounted)

lemma queue_skip:
  assumes "source_key c \<in> set seen" "queue_invariant mounted gs0 (c # queue) seen gs"
  shows "queue_invariant mounted gs0 queue seen gs"
proof -
  have s: "x \<in> set queue \<or> source_key x \<in> set seen" if "x \<in> set (c # queue) \<or> source_key x \<in> set seen" for x
    using that assms(1) by auto
  show ?thesis using assms(2) s unfolding queue_invariant_def by (simp (no_asm_use)) (metis (no_types, lifting))
qed

lemma queue_step:
  assumes k: "keys_identify mounted" and inv: "queue_invariant mounted gs0 (c # queue) seen gs"
    and g: "\<And>i v. set (granted gs' i v) = set (granted gs i v) \<union> (\<Union>t\<in>set (dependency_targets mounted c). gives mounted t i v)"
  shows "queue_invariant mounted gs0 (queue @ dependency_targets mounted c) (source_key c # seen) gs'"
proof -
  have c: "callable mounted gs0 c" "c \<in> set mounted" using inv by (simp_all add: queue_invariant_def)
  have q: "x \<in> set (queue @ dependency_targets mounted c) \<or> source_key x \<in> set (source_key c # seen)"
    if "x \<in> set (c # queue) \<or> source_key x \<in> set seen" for x using that by auto
  have 1: "\<forall>x\<in>set (queue @ dependency_targets mounted c). callable mounted gs0 x \<and> x \<in> set mounted"
    using inv callable.depended [OF c(1)] dependency_target_mounted by (auto simp: queue_invariant_def)
  have 2: "\<forall>x\<in>set mounted. accessible mounted gs0 x \<longrightarrow>
      x \<in> set (queue @ dependency_targets mounted c) \<or> source_key x \<in> set (source_key c # seen)"
    using inv q unfolding queue_invariant_def by blast
  have 3: "(t \<in> set (queue @ dependency_targets mounted c) \<or> source_key t \<in> set (source_key c # seen)) \<and>
      (\<forall>i v. gives mounted t i v \<subseteq> set (granted gs' i v))"
    if x: "x \<in> set mounted" "source_key x \<in> set (source_key c # seen)" and t: "t \<in> set (dependency_targets mounted x)" for x t
  proof (cases "source_key x = source_key c")
    case True
    then have "t \<in> set (dependency_targets mounted c)" using same_key_targets [OF k x(1) c(2)] t by simp
    then show ?thesis using g by auto
  next
    case False
    then have "source_key x \<in> set seen" using x(2) by simp
    then have "t \<in> set (c # queue) \<or> source_key t \<in> set seen" "\<forall>i v. gives mounted t i v \<subseteq> set (granted gs i v)"
      using inv x(1) t unfolding queue_invariant_def by blast+
    then show ?thesis using q g by blast
  qed
  have 4: "\<forall>i v. set (granted gs0 i v) \<subseteq> set (granted gs' i v)" using inv g unfolding queue_invariant_def by blast
  have o: "set (granted gs i v) \<subseteq> set (granted gs0 i v) \<union>
      (\<Union>t\<in>{t. \<exists>c. callable mounted gs0 c \<and> t \<in> set (dependency_targets mounted c)}. gives mounted t i v)" for i v
    using inv unfolding queue_invariant_def by (elim conjE allE [of _ i] allE [of _ v])
  have 5: "\<forall>i v. set (granted gs' i v) \<subseteq> set (granted gs0 i v) \<union>
      (\<Union>t\<in>{t. \<exists>c. callable mounted gs0 c \<and> t \<in> set (dependency_targets mounted c)}. gives mounted t i v)"
    unfolding g using c(1) by (intro allI Un_least o) blast
  have closed: "\<forall>x\<in>set mounted. source_key x \<in> set (source_key c # seen) \<longrightarrow> (\<forall>t\<in>set (dependency_targets mounted x).
      (t \<in> set (queue @ dependency_targets mounted c) \<or> source_key t \<in> set (source_key c # seen)) \<and>
      (\<forall>i v. gives mounted t i v \<subseteq> set (granted gs' i v)))"
    by (intro ballI impI) (rule 3)
  show ?thesis unfolding queue_invariant_def by (intro conjI 1 2 closed 4 5)
qed

lemma derive_loop_invariant:
  "keys_identify mounted \<Longrightarrow> queue_invariant mounted gs0 queue seen (fst st) \<Longrightarrow>
   \<exists>seen'. queue_invariant mounted gs0 [] seen' (fst (derive_loop mounted rid queue seen st))"
proof (induction mounted rid queue seen st rule: derive_loop.induct)
  case (1 mounted rid seen st)
  then show ?case by auto
next
  case (2 mounted rid c queue seen st)
  show ?case
  proof (cases "source_key c \<in> set seen")
    case True
    then show ?thesis using "2.IH"(1) [OF True "2.prems"(1) queue_skip [OF True "2.prems"(2)]] by simp
  next
    case False
    show ?thesis using "2.IH"(2) [OF False "2.prems"(1) queue_step [OF "2.prems" granted_fold]] False by simp
  qed
qed

lemma queue_empty:
  assumes inv: "queue_invariant mounted gs0 [] seen gs"
  shows "set (granted gs i v) = set (granted gs0 i v) \<union>
    (\<Union>t\<in>{t. \<exists>c. callable mounted gs0 c \<and> t \<in> set (dependency_targets mounted c)}. gives mounted t i v)"
proof -
  have seen: "source_key c \<in> set seen" if "callable mounted gs0 c" for c
    using that
  proof (induction rule: callable.induct)
    case (own c)
    then show ?case using inv by (simp add: queue_invariant_def)
  next
    case (depended c t)
    then show ?case using inv callable_mounted [OF depended.hyps(1)] unfolding queue_invariant_def by auto
  qed
  have "gives mounted t i v \<subseteq> set (granted gs i v)" if "callable mounted gs0 c" "t \<in> set (dependency_targets mounted c)" for c t
    using inv seen [OF that(1)] callable_mounted [OF that(1)] that(2) unfolding queue_invariant_def by blast
  then show ?thesis using inv unfolding queue_invariant_def by blast
qed

lemma queue_start: "queue_invariant mounted gs0 (filter (accessible mounted gs0) mounted) [] gs0"
  by (auto simp: queue_invariant_def intro: callable.own)

text \<open>
  C26: when service and operation id tell the mounted operations apart, a role ends up with
  exactly its own grants and what the operations it may call depend on, directly or through other
  operations. Deriving permissions never takes a grant away and
  never gives one that no dependency asks for.
\<close>
theorem derived_grants_exact:
  assumes "keys_identify (mounted_of resolve routes)"
  shows "set (granted (role_grants (fst (derive_role (mounted_of resolve routes) r ds))) i v) =
    set (granted (role_grants r) i v) \<union>
    (\<Union>t\<in>{t. \<exists>c. callable (mounted_of resolve routes) (role_grants r) c \<and> t \<in> set (dependency_targets (mounted_of resolve routes) c)}.
       gives (mounted_of resolve routes) t i v)"
proof -
  let ?m = "mounted_of resolve routes" and ?gs = "role_grants r"
  obtain seen where "queue_invariant ?m ?gs [] seen (fst (derive_loop ?m (role_id r) (filter (accessible ?m ?gs) ?m) [] (?gs, ds)))"
    using derive_loop_invariant [OF assms, of ?gs _ "[]" "(?gs, ds)"] queue_start by fastforce
  from queue_empty [OF this] show ?thesis by (simp add: derive_role_def Let_def)
qed

section \<open>A role that needs two services\<close>

definition sample_op :: "string \<Rightarrow> http_method \<Rightarrow> permission_grant list \<Rightarrow> operation_dependency list \<Rightarrow> manifest_operation" where
  "sample_op i m ps ds = \<lparr>mo_operation_id = i, mo_method = m, mo_title = i, mo_render_modes = [], mo_raw = None,
     mo_auth_required = True, mo_role = None, mo_menu = None, mo_dependencies = ds, mo_permissions = ps\<rparr>"

definition sample_manifest_of :: "string \<Rightarrow> string \<Rightarrow> manifest_operation \<Rightarrow> manifest_entry" where
  "sample_manifest_of plugin view op = \<lparr>me_service_id = plugin, me_manifest_version = ''1'', me_fetched_at = 0, me_title = None,
     me_auth_provider = None, me_capabilities = [], me_m2m_requests = [], me_api_contracts = [], me_shell = None,
     me_view_index = [(view, \<lparr>mv_view_id = view, mv_title = view, mv_path = ''/'', mv_path_variants = [], mv_operations = [op]\<rparr>)]\<rparr>"

definition orders_manifest :: manifest_entry where
  "orders_manifest = sample_manifest_of ''orders'' ''list''
     (sample_op ''orders.list'' GET [\<lparr>pg_service_id = ''orders'', pg_view_id = ''list'', pg_permissions = [''read'']\<rparr>]
        [\<lparr>dp_service_id = Some ''stock'', dp_operation_id = ''stock.level'', dp_method = GET\<rparr>])"

definition stock_manifest :: manifest_entry where
  "stock_manifest = sample_manifest_of ''stock'' ''level''
     (sample_op ''stock.level'' GET [\<lparr>pg_service_id = ''stock'', pg_view_id = ''level'', pg_permissions = [''read'']\<rparr>] [])"

definition sample_resolve :: "string \<Rightarrow> manifest_entry option" where
  "sample_resolve i = (if i = ''i1'' then Some orders_manifest else if i = ''i2'' then Some stock_manifest else None)"

definition sample_routes :: "route_mount list" where
  "sample_routes =
     [api_mount orders_manifest (snd (hd (me_view_index orders_manifest))) (hd (mv_operations (snd (hd (me_view_index orders_manifest))))) ''i1'' ''r1'' True,
      api_mount stock_manifest (snd (hd (me_view_index stock_manifest))) (hd (mv_operations (snd (hd (me_view_index stock_manifest))))) ''i2'' ''r2'' True]"

definition clerk_role :: app_role where
  "clerk_role = \<lparr>role_id = ''clerk'', role_title = ''Clerk'',
     role_grants = [\<lparr>pg_service_id = ''i1'', pg_view_id = ''list'', pg_permissions = [''read'']\<rparr>]\<rparr>"

lemma sample_mounted_facts:
  "keys_identify (mounted_of sample_resolve sample_routes)"
  "accessible (mounted_of sample_resolve sample_routes) (role_grants clerk_role) (mounted_of sample_resolve sample_routes ! 0)"
  "mounted_of sample_resolve sample_routes ! 0 \<in> set (mounted_of sample_resolve sample_routes)"
  "mounted_of sample_resolve sample_routes ! 1 \<in> set (dependency_targets (mounted_of sample_resolve sample_routes) (mounted_of sample_resolve sample_routes ! 0))"
  "''read'' \<in> gives (mounted_of sample_resolve sample_routes) (mounted_of sample_resolve sample_routes ! 1) ''i2'' ''level''"
  by code_simp+

lemma derived_grants_exact_witness:
  "''read'' \<in> set (granted (role_grants (fst (derive_role (mounted_of sample_resolve sample_routes) clerk_role []))) ''i2'' ''level'')"
  using derived_grants_exact [OF sample_mounted_facts(1), of clerk_role "[]" "''i2''" "''level''"]
    callable.own [OF sample_mounted_facts(3,2)] sample_mounted_facts(4,5) by blast

section \<open>The configuration a service is sent\<close>

definition service_manifest_keys :: "scoped_config \<Rightarrow> (string, string) jsmap" where
  "service_manifest_keys sc =
     foldl (\<lambda>m s. case only_truthy (ts_service_id s) of None \<Rightarrow> m | Some p \<Rightarrow> js_set (ts_id s) p m) []
       (concat (map sx_services (sf_tenants sc)))"

definition hot_manifest :: "(string, manifest_entry) jsmap \<Rightarrow> (string, string) jsmap \<Rightarrow> string \<Rightarrow> manifest_entry option" where
  "hot_manifest cache keys i =
     (case js_get cache i of Some m \<Rightarrow> Some m
      | None \<Rightarrow> js_get cache (case js_get keys i of None \<Rightarrow> [] | Some p \<Rightarrow> p))"

definition resolved_path :: "manifest_view \<Rightarrow> route_mount \<Rightarrow> string" where
  "resolved_path v r =
     (case only_truthy (rm_service_path_variant r) of
        Some p \<Rightarrow> if p \<in> set (mv_path v # mv_path_variants v) then p else mv_path v
      | None \<Rightarrow> mv_path v)"

definition resolve_scoped_route :: "(string, manifest_entry) jsmap \<Rightarrow> (string, string) jsmap \<Rightarrow> route_mount \<Rightarrow> route_mount" where
  "resolve_scoped_route cache keys r =
     (case Option.bind (hot_manifest cache keys (rm_service_id r)) (\<lambda>m. js_get (me_view_index m) (rm_view_id r)) of
        None \<Rightarrow> r
      | Some v \<Rightarrow>
          (let ops = filter (\<lambda>op. mo_operation_id op \<in> set (rm_operations r)) (mv_operations v)
           in case (case List.find is_page_operation ops of Some p \<Rightarrow> Some p | None \<Rightarrow> List.find (\<lambda>_. True) ops) of
                None \<Rightarrow> r
              | Some op \<Rightarrow>
                  r\<lparr>rm_resolved_service_path := Some (resolved_path v r), rm_resolved_methods := Some (map mo_method ops),
                    rm_auth_required := Some (mo_auth_required op), rm_menu := Some (mo_menu op \<noteq> Some False),
                    rm_menu_permissions := Some (map (\<lambda>req.
                      \<lparr>mp_service_id = (if js_get keys (rm_service_id r) = Some (pg_service_id req) then rm_service_id r else pg_service_id req),
                       mp_view_id = pg_view_id req, mp_permissions = pg_permissions req\<rparr>) (mo_permissions op))\<rparr>))"

definition inject_app :: "(string, manifest_entry) jsmap \<Rightarrow> (string, string) jsmap \<Rightarrow> scoped_app \<Rightarrow> scoped_app" where
  "inject_app cache keys a =
     (let routes = map (resolve_scoped_route cache keys) (app_routes a)
      in a\<lparr>app_routes := routes, sp_app_routes := map (resolve_scoped_route cache keys) (sp_app_routes a),
           app_auth_config := map_option (\<lambda>au. fst (derive_role_permissions au routes (hot_manifest cache keys))) (app_auth_config a)\<rparr>)"

definition inject_resolved_service_paths :: "(string, manifest_entry) jsmap \<Rightarrow> scoped_config \<Rightarrow> scoped_config" where
  "inject_resolved_service_paths cache sc =
     sc\<lparr>sf_apps := map (inject_app cache (service_manifest_keys sc)) (sf_apps sc)\<rparr>"

section \<open>Who keeps the roles of an app\<close>

datatype role_authority = Provider_authority | Betterportal_authority

definition supported_role_authorities :: "string list \<Rightarrow> role_authority list" where
  "supported_role_authorities capabilities =
     (let supported =
            (if ''auth.roles.authority.provider'' \<in> set capabilities \<or> ''auth.roles.sync'' \<in> set capabilities then [Provider_authority] else []) @
            (if ''auth.roles.authority.betterportal'' \<in> set capabilities then [Betterportal_authority] else [])
      in if supported \<noteq> [] then supported else [Betterportal_authority])"

definition resolve_role_authority :: "string list \<Rightarrow> role_authority option \<Rightarrow> role_authority" where
  "resolve_role_authority capabilities requested =
     (let supported = supported_role_authorities capabilities;
          default = (if Provider_authority \<in> set supported then Provider_authority else hd supported)
      in case requested of None \<Rightarrow> default | Some r \<Rightarrow> if r \<in> set supported then r else default)"

lemma resolved_authority_supported: "resolve_role_authority capabilities requested \<in> set (supported_role_authorities capabilities)"
  by (cases requested) (auto simp: resolve_role_authority_def supported_role_authorities_def Let_def)

text \<open>\<open>new URL(...)\<close> with its two search parameters is an argument; None when it throws.\<close>

definition resolve_role_sync_url ::
    "(string \<Rightarrow> string \<Rightarrow> string \<Rightarrow> string option) \<Rightarrow> string \<Rightarrow> manifest_entry option \<Rightarrow> role_authority \<Rightarrow> string \<Rightarrow> string \<Rightarrow> string option" where
  "resolve_role_sync_url new_url base manifest authority tenant_id aid =
     (case manifest of
        None \<Rightarrow> None
      | Some m \<Rightarrow>
          if authority = Provider_authority \<and> ''auth.roles.sync'' \<notin> set (me_capabilities m) then None
          else if authority = Betterportal_authority \<and> ''auth.roles.authority.betterportal'' \<notin> set (me_capabilities m) then None
          else (let role = (if authority = Provider_authority then ''auth.roles.sync.view'' else ''auth.roles.sync'');
                    meth = (if authority = Provider_authority then GET else POST);
                    paths = map mv_path (filter (\<lambda>v. list_ex (\<lambda>op. mo_role op = Some role \<and> mo_method op = meth) (mv_operations v))
                              (js_values (me_view_index m)))
                in case paths of
                     [p] \<Rightarrow> new_url (drop_slashes base @ ''/'' @ dropWhile (\<lambda>c. c = CHR ''/'') p) tenant_id aid
                   | _ \<Rightarrow> None))"

end
