(* ===== verification/Connections.thy ===== *)
theory Connections
  imports RouteMounts
begin

text \<open>
  Calls between services as an operator sees them, \<open>m2mConnections.ts\<close> of the config manager:
  which providers fit a request of a manifest, the state of each connection of an app, and
  approving and revoking connections, which writes the bindings and grants that
  \<open>PlatformStore\<close> turns into the policy of a service.

  Descriptors in stored manifests have passed their schemas, so parsing them again changes
  nothing. \<open>localeCompare\<close>, the UUIDs and the time are arguments.
\<close>

section \<open>Compatible providers\<close>

definition service_details :: "stored_config \<Rightarrow> string \<Rightarrow> string \<times> string" where
  "service_details cfg i =
     (case List.find (\<lambda>(t, s). ts_id s = i) (tenant_services cfg) of
        Some (t, s) \<Rightarrow> ((case ts_title s of Some x \<Rightarrow> x | None \<Rightarrow> or_id (ts_service_id s) (ts_id s)), or_id (ts_service_id s) (ts_id s))
      | None \<Rightarrow>
          (case List.find (\<lambda>s. ps_id s = i) (pc_platform_services cfg) of
             Some s \<Rightarrow> (ps_title s, or_id (ps_service_id s) (ps_id s))
           | None \<Rightarrow>
               (case Option.bind (List.find (\<lambda>x. sa_id x = i) (pc_shared_activations cfg))
                       (\<lambda>x. List.find (\<lambda>s. ss_id s = sa_shared_service_id x) (pc_shared_catalog cfg)) of
                  Some s \<Rightarrow> (ss_title s, or_id (ss_service_id s) (ss_id s))
                | None \<Rightarrow> (i, i))))"

record connection_candidate =
  cd_service_id :: string
  cd_service_title :: string
  cd_service_type :: string
  cd_view_id :: string

fun caller_of :: "m2m_mode \<Rightarrow> caller_mode" where
  "caller_of Service_to_service = Service_caller"
| "caller_of On_behalf_of_user = Delegated_caller"

definition published_modes :: "published_contract \<Rightarrow> caller_mode list" where
  "published_modes c = (case ac_modes c of None \<Rightarrow> [Service_caller] | Some ms \<Rightarrow> ms)"

definition compatible_contract :: "m2m_request \<Rightarrow> published_contract \<Rightarrow> bool" where
  "compatible_contract q c \<longleftrightarrow>
     ac_id c = mq_contract_id q \<and> (case mq_version q of None \<Rightarrow> True | Some v \<Rightarrow> ac_version c = v) \<and>
     caller_of (mq_mode q) \<in> set (published_modes c) \<and> list_all (\<lambda>m. m \<in> set (ac_methods c)) (mq_methods q) \<and>
     list_all (\<lambda>p. p \<in> set (ac_permissions c)) (mq_permissions q) \<and>
     list_all (\<lambda>x. x \<in> set (ac_capabilities c)) (mq_required_capabilities q)"

fun first_by :: "('a \<Rightarrow> 'k) \<Rightarrow> 'k list \<Rightarrow> 'a list \<Rightarrow> 'a list" where
  "first_by key seen [] = []"
| "first_by key seen (x # xs) =
     (if key x \<in> set seen then first_by key seen xs else x # first_by key (key x # seen) xs)"

definition candidates_for_request ::
    "stored_config \<Rightarrow> (string, manifest_entry) jsmap \<Rightarrow> app \<Rightarrow> m2m_request \<Rightarrow> connection_candidate list" where
  "candidates_for_request cfg cache a q =
     first_by (\<lambda>c. (cd_service_id c, cd_view_id c)) []
       (concat (map (\<lambda>i. case get_cached_manifest_for_service cfg cache i of
            None \<Rightarrow> []
          | Some m \<Rightarrow> map (\<lambda>c. \<lparr>cd_service_id = i, cd_service_title = fst (service_details cfg i),
                               cd_service_type = snd (service_details cfg i), cd_view_id = ac_view_id c\<rparr>)
                     (filter (compatible_contract q) (me_api_contracts m)))
          (get_available_service_instance_ids_for_app cfg a)))"

section \<open>The connections of an app\<close>

datatype connection_status = Connected | Pending | Choice | Unavailable | Stale

record connection_view =
  cv_source_service_id :: string
  cv_source_title :: string
  cv_source_type :: string
  cv_request_id :: string
  cv_title :: string
  cv_contract_id :: string
  cv_version :: "string option"
  cv_mode :: m2m_mode
  cv_methods :: "http_method list"
  cv_permissions :: "string list"
  cv_optional :: bool
  cv_status :: connection_status
  cv_message :: string
  cv_binding_id :: "string option"
  cv_target_service_id :: "string option"
  cv_target_view_id :: "string option"
  cv_candidates :: "connection_candidate list"

definition app_binding :: "app \<Rightarrow> m2m_binding \<Rightarrow> bool" where
  "app_binding a b \<longleftrightarrow> mbd_enabled b \<and> mbd_tenant_id b = app_tenant_id a \<and> mbd_app_id b = Some (app_id a)"

definition request_bindings :: "stored_config \<Rightarrow> app \<Rightarrow> string \<Rightarrow> string \<Rightarrow> m2m_binding list" where
  "request_bindings cfg a source request_id =
     filter (\<lambda>b. app_binding a b \<and> mbd_source_service_id b = source \<and> mbd_request_id b = request_id) (st_bindings cfg)"

definition grant_matches :: "m2m_request \<Rightarrow> m2m_grant option \<Rightarrow> bool" where
  "grant_matches q g = (case g of None \<Rightarrow> False | Some g \<Rightarrow>
     list_all (\<lambda>m. m \<in> set (mg_methods g)) (mq_methods q) \<and> list_all (\<lambda>p. p \<in> set (mg_permissions g)) (mq_permissions q))"

definition connection_connected ::
    "stored_config \<Rightarrow> m2m_request \<Rightarrow> connection_candidate list \<Rightarrow> m2m_binding list \<Rightarrow> bool" where
  "connection_connected cfg q candidates bs =
     (case bs of
        [b] \<Rightarrow> mbd_mode b = mq_mode q \<and> mbd_contract_id b = mq_contract_id q
          \<and> list_ex (\<lambda>c. cd_service_id c = mbd_target_service_id b \<and> cd_view_id c = mbd_target_view_id b) candidates
          \<and> grant_matches q (List.find (\<lambda>g. mg_enabled g \<and> mg_binding_id g = mbd_id b) (st_grants cfg))
      | _ \<Rightarrow> False)"

definition connection_status_of ::
    "stored_config \<Rightarrow> m2m_request \<Rightarrow> connection_candidate list \<Rightarrow> m2m_binding list \<Rightarrow> connection_status" where
  "connection_status_of cfg q candidates bs =
     (if bs \<noteq> [] then if connection_connected cfg q candidates bs then Connected else Stale
      else if candidates = [] then Unavailable else if length candidates = 1 then Pending else Choice)"

definition status_message :: "connection_status \<Rightarrow> bool \<Rightarrow> string" where
  "status_message st optional =
     (case st of Connected \<Rightarrow> ''Connected''
      | Stale \<Rightarrow> ''Stored connection no longer matches the current manifests or grant''
      | Pending \<Rightarrow> ''Ready for approval''
      | Choice \<Rightarrow> ''Select a compatible provider''
      | Unavailable \<Rightarrow> if optional then ''Optional provider unavailable'' else ''No compatible provider'')"

definition connection_row ::
    "stored_config \<Rightarrow> (string, manifest_entry) jsmap \<Rightarrow> app \<Rightarrow> string \<Rightarrow> m2m_request \<Rightarrow> connection_view" where
  "connection_row cfg cache a source q =
     (let candidates = candidates_for_request cfg cache a q;
          bs = request_bindings cfg a source (mq_id q);
          st = connection_status_of cfg q candidates bs;
          b = (case bs of [] \<Rightarrow> None | b # _ \<Rightarrow> Some b)
      in \<lparr>cv_source_service_id = source, cv_source_title = fst (service_details cfg source),
          cv_source_type = snd (service_details cfg source), cv_request_id = mq_id q, cv_title = mq_title q,
          cv_contract_id = mq_contract_id q, cv_version = only_truthy (mq_version q), cv_mode = mq_mode q,
          cv_methods = mq_methods q, cv_permissions = mq_permissions q, cv_optional = mq_optional q,
          cv_status = st, cv_message = status_message st (mq_optional q), cv_binding_id = map_option mbd_id b,
          cv_target_service_id = map_option mbd_target_service_id b, cv_target_view_id = map_option mbd_target_view_id b,
          cv_candidates = candidates\<rparr>)"

definition orphan_row :: "stored_config \<Rightarrow> m2m_binding \<Rightarrow> connection_view" where
  "orphan_row cfg b =
     \<lparr>cv_source_service_id = mbd_source_service_id b, cv_source_title = fst (service_details cfg (mbd_source_service_id b)),
      cv_source_type = snd (service_details cfg (mbd_source_service_id b)), cv_request_id = mbd_request_id b,
      cv_title = mbd_request_id b, cv_contract_id = mbd_contract_id b, cv_version = None, cv_mode = mbd_mode b,
      cv_methods = [], cv_permissions = [], cv_optional = False, cv_status = Stale,
      cv_message = ''Request is unavailable in the current source manifest'', cv_binding_id = Some (mbd_id b),
      cv_target_service_id = Some (mbd_target_service_id b), cv_target_view_id = Some (mbd_target_view_id b), cv_candidates = []\<rparr>"

definition service_requests :: "stored_config \<Rightarrow> (string, manifest_entry) jsmap \<Rightarrow> string \<Rightarrow> m2m_request list" where
  "service_requests cfg cache i = (case get_cached_manifest_for_service cfg cache i of None \<Rightarrow> [] | Some m \<Rightarrow> me_m2m_requests m)"

definition app_requests :: "stored_config \<Rightarrow> (string, manifest_entry) jsmap \<Rightarrow> app \<Rightarrow> (string \<times> m2m_request) list" where
  "app_requests cfg cache a =
     concat (map (\<lambda>i. map (Pair i) (service_requests cfg cache i)) (get_available_service_instance_ids_for_app cfg a))"

text \<open>\<open>localeCompare\<close> is an argument; the rows are sorted by insertion, which keeps equal rows in order.\<close>

definition row_compare :: "(string \<Rightarrow> string \<Rightarrow> int) \<Rightarrow> connection_view \<Rightarrow> connection_view \<Rightarrow> int" where
  "row_compare compare l r =
     (let c = compare (cv_source_title l) (cv_source_title r) in if c \<noteq> 0 then c else compare (cv_title l) (cv_title r))"

fun insert_row :: "('a \<Rightarrow> 'a \<Rightarrow> int) \<Rightarrow> 'a \<Rightarrow> 'a list \<Rightarrow> 'a list" where
  "insert_row cmp x [] = [x]"
| "insert_row cmp x (y # ys) = (if cmp x y \<le> 0 then x # y # ys else y # insert_row cmp x ys)"

definition sort_rows :: "('a \<Rightarrow> 'a \<Rightarrow> int) \<Rightarrow> 'a list \<Rightarrow> 'a list" where
  "sort_rows cmp xs = foldr (insert_row cmp) xs []"

definition build_m2m_connection_model ::
    "(string \<Rightarrow> string \<Rightarrow> int) \<Rightarrow> stored_config \<Rightarrow> (string, manifest_entry) jsmap \<Rightarrow> string \<Rightarrow> connection_view list" where
  "build_m2m_connection_model compare cfg cache aid =
     (case List.find (\<lambda>a. app_id a = aid) (pc_apps cfg) of
        None \<Rightarrow> []
      | Some a \<Rightarrow>
          (let requests = app_requests cfg cache a;
               seen = map mbd_id (concat (map (\<lambda>(i, q). request_bindings cfg a i (mq_id q)) requests))
           in sort_rows (row_compare compare)
                (map (\<lambda>(i, q). connection_row cfg cache a i q) requests @
                 map (orphan_row cfg) (filter (\<lambda>b. app_binding a b \<and> mbd_id b \<notin> set seen) (st_bindings cfg)))))"

section \<open>Approving and revoking\<close>

record connection_selection =
  cs_source_service_id :: string
  cs_request_id :: string
  cs_target_service_id :: "string option"
  cs_target_view_id :: "string option"

datatype connection_error =
  App_not_found | Nothing_selected | Duplicate_selection string | Request_not_found string | Stale_connection string
| No_provider string | Several_providers string

definition selection_key :: "connection_selection \<Rightarrow> string" where
  "selection_key s = cs_source_service_id s @ CHR 0x0A # cs_request_id s"

definition allows :: "string option \<Rightarrow> string \<Rightarrow> bool" where
  "allows wanted x \<longleftrightarrow> (case only_truthy wanted of None \<Rightarrow> True | Some w \<Rightarrow> x = w)"

definition selected_row :: "connection_selection \<Rightarrow> connection_view \<Rightarrow> bool" where
  "selected_row s r \<longleftrightarrow> cv_source_service_id r = cs_source_service_id s \<and> cv_request_id r = cs_request_id s"

type_synonym approval = "(connection_view \<times> connection_candidate) list \<times> string list"

fun select_connections ::
    "connection_view list \<Rightarrow> string list \<Rightarrow> connection_selection list \<Rightarrow> connection_error + approval" where
  "select_connections rows keys [] = Inr ([], [])"
| "select_connections rows keys (s # ss) =
     (if selection_key s \<in> set keys then Inl (Duplicate_selection (cs_request_id s))
      else case List.find (selected_row s) rows of
             None \<Rightarrow> Inl (Request_not_found (cs_request_id s))
           | Some r \<Rightarrow>
               if cv_status r = Connected \<and> truthy (cv_binding_id r)
               then res_bind (select_connections rows (selection_key s # keys) ss)
                      (\<lambda>(pending, existing). Inr (pending, the (cv_binding_id r) # existing))
               else if truthy (cv_binding_id r) then Inl (Stale_connection (cs_request_id s))
               else (case filter (\<lambda>c. allows (cs_target_service_id s) (cd_service_id c) \<and> allows (cs_target_view_id s) (cd_view_id c))
                            (cv_candidates r) of
                       [c] \<Rightarrow> res_bind (select_connections rows (selection_key s # keys) ss)
                                (\<lambda>(pending, existing). Inr ((r, c) # pending, existing))
                     | [] \<Rightarrow> Inl (No_provider (cs_request_id s))
                     | _ \<Rightarrow> Inl (Several_providers (cs_request_id s))))"

definition new_binding :: "app \<Rightarrow> string \<Rightarrow> string \<Rightarrow> connection_view \<times> connection_candidate \<Rightarrow> m2m_binding" where
  "new_binding a now i rc =
     \<lparr>mbd_id = i, mbd_tenant_id = app_tenant_id a, mbd_app_id = Some (app_id a),
      mbd_source_service_id = cv_source_service_id (fst rc), mbd_request_id = cv_request_id (fst rc),
      mbd_contract_id = cv_contract_id (fst rc), mbd_target_service_id = cd_service_id (snd rc),
      mbd_target_view_id = cd_view_id (snd rc), mbd_mode = cv_mode (fst rc), mbd_enabled = True, mbd_created_at = now\<rparr>"

definition new_grant :: "app \<Rightarrow> string \<Rightarrow> string \<Rightarrow> string \<Rightarrow> connection_view \<Rightarrow> m2m_grant" where
  "new_grant a now i binding_id r =
     \<lparr>mg_id = i, mg_tenant_id = app_tenant_id a, mg_app_id = Some (app_id a), mg_binding_id = binding_id,
      mg_methods = cv_methods r, mg_permissions = cv_permissions r, mg_enabled = True, mg_created_at = now\<rparr>"

text \<open>Each pending connection draws two UUIDs: its binding's and its grant's.\<close>

fun connect :: "app \<Rightarrow> string \<Rightarrow> (nat \<Rightarrow> string) \<Rightarrow> nat \<Rightarrow> (connection_view \<times> connection_candidate) list \<Rightarrow> stored_config \<Rightarrow> stored_config" where
  "connect a now uuid n [] cfg = cfg"
| "connect a now uuid n (rc # rcs) cfg =
     connect a now uuid (n + 2) rcs
       (cfg\<lparr>st_bindings := st_bindings cfg @ [new_binding a now (uuid n) rc],
            st_grants := st_grants cfg @ [new_grant a now (uuid (n + 1)) (uuid n) (fst rc)]\<rparr>)"

definition created_ids :: "(nat \<Rightarrow> string) \<Rightarrow> nat \<Rightarrow> (connection_view \<times> connection_candidate) list \<Rightarrow> string list" where
  "created_ids uuid n rcs = map (\<lambda>k. uuid (n + 2 * k)) [0..<length rcs]"

definition approve_m2m_connections ::
    "(string \<Rightarrow> string \<Rightarrow> int) \<Rightarrow> stored_config \<Rightarrow> (string, manifest_entry) jsmap \<Rightarrow> (nat \<Rightarrow> string) \<Rightarrow> nat \<Rightarrow> string \<Rightarrow> string
     \<Rightarrow> connection_selection list \<Rightarrow> connection_error + stored_config \<times> string list \<times> string list" where
  "approve_m2m_connections compare cfg cache uuid n now aid ss =
     (case List.find (\<lambda>a. app_id a = aid) (pc_apps cfg) of
        None \<Rightarrow> Inl App_not_found
      | Some a \<Rightarrow>
          if ss = [] then Inl Nothing_selected
          else res_bind (select_connections (build_m2m_connection_model compare cfg cache aid) [] ss)
                 (\<lambda>(pending, existing). Inr (connect a now uuid n pending cfg, created_ids uuid n pending, existing)))"

definition revoke_m2m_connection :: "stored_config \<Rightarrow> string \<Rightarrow> string \<Rightarrow> stored_config option" where
  "revoke_m2m_connection cfg aid binding_id =
     (case (List.find (\<lambda>a. app_id a = aid) (pc_apps cfg), List.find (\<lambda>b. mbd_id b = binding_id) (st_bindings cfg)) of
        (Some a, Some b) \<Rightarrow>
          if mbd_app_id b \<noteq> Some (app_id a) \<or> mbd_tenant_id b \<noteq> app_tenant_id a then None
          else Some (cfg\<lparr>st_grants := filter (\<lambda>g. mg_binding_id g \<noteq> binding_id) (st_grants cfg),
                         st_bindings := filter (\<lambda>b. mbd_id b \<noteq> binding_id) (st_bindings cfg)\<rparr>)
      | _ \<Rightarrow> None)"

section \<open>Rows of the model\<close>

lemma set_insert_row [simp]: "set (insert_row cmp x xs) = insert x (set xs)"
  by (induction xs) auto

lemma set_sort_rows [simp]: "set (sort_rows cmp xs) = set xs"
  by (induction xs) (auto simp: sort_rows_def)

lemma set_first_by: "set (first_by key seen xs) \<subseteq> set xs"
  by (induction xs arbitrary: seen) (auto split: if_splits)

lemma connection_row_fields [simp]:
  "cv_source_service_id (connection_row cfg cache a i q) = i" "cv_request_id (connection_row cfg cache a i q) = mq_id q"
  "cv_mode (connection_row cfg cache a i q) = mq_mode q" "cv_contract_id (connection_row cfg cache a i q) = mq_contract_id q"
  "cv_methods (connection_row cfg cache a i q) = mq_methods q" "cv_permissions (connection_row cfg cache a i q) = mq_permissions q"
  "cv_candidates (connection_row cfg cache a i q) = candidates_for_request cfg cache a q"
  "cv_status (connection_row cfg cache a i q) =
     connection_status_of cfg q (candidates_for_request cfg cache a q) (request_bindings cfg a i (mq_id q))"
  by (simp_all add: connection_row_def Let_def)

lemma connection_row_binding:
  "cv_binding_id (connection_row cfg cache a i q) = (case request_bindings cfg a i (mq_id q) of [] \<Rightarrow> None | b # _ \<Rightarrow> Some (mbd_id b))"
  by (simp add: connection_row_def Let_def split: list.split)

lemma model_rows:
  assumes "List.find (\<lambda>a. app_id a = aid) (pc_apps cfg) = Some a" "r \<in> set (build_m2m_connection_model compare cfg cache aid)"
  shows "(\<exists>i q. (i, q) \<in> set (app_requests cfg cache a) \<and> r = connection_row cfg cache a i q) \<or>
    (\<exists>b. r = orphan_row cfg b)"
  using assms(2) unfolding build_m2m_connection_model_def Let_def assms(1) by auto

lemma model_has_row:
  assumes "List.find (\<lambda>a. app_id a = aid) (pc_apps cfg) = Some a" "(i, q) \<in> set (app_requests cfg cache a)"
  shows "connection_row cfg cache a i q \<in> set (build_m2m_connection_model compare cfg cache aid)"
  using assms(2) unfolding build_m2m_connection_model_def Let_def assms(1) by force

section \<open>What the selections choose\<close>

definition row_key :: "connection_view \<Rightarrow> string" where
  "row_key r = cv_source_service_id r @ CHR 0x0A # cv_request_id r"

lemma selected_row_key: "List.find (selected_row s) rows = Some r \<Longrightarrow> row_key r = selection_key s"
  by (drule find_SomeD) (simp add: selected_row_def row_key_def selection_key_def)

definition chosen :: "connection_view list \<Rightarrow> connection_selection \<Rightarrow> connection_view \<times> connection_candidate \<Rightarrow> bool" where
  "chosen rows s rc \<longleftrightarrow> List.find (selected_row s) rows = Some (fst rc) \<and> \<not> truthy (cv_binding_id (fst rc)) \<and>
     snd rc \<in> set (cv_candidates (fst rc))"

lemma select_connections_facts:
  "select_connections rows keys ss = Inr (pending, existing) \<Longrightarrow>
     (\<forall>s\<in>set ss. (\<exists>r. List.find (selected_row s) rows = Some r \<and> cv_status r = Connected) \<or> (\<exists>rc\<in>set pending. chosen rows s rc)) \<and>
     (\<forall>rc\<in>set pending. (\<exists>s\<in>set ss. chosen rows s rc) \<and> row_key (fst rc) \<notin> set keys) \<and>
     distinct (map (\<lambda>rc. row_key (fst rc)) pending)"
proof (induction ss arbitrary: keys pending existing)
  case (Cons s ss)
  have k: "selection_key s \<notin> set keys" using Cons.prems by (auto split: if_splits)
  obtain r where r: "List.find (selected_row s) rows = Some r" using Cons.prems k by (auto split: option.splits)
  show ?case
  proof (cases "cv_status r = Connected \<and> truthy (cv_binding_id r)")
    case True
    then obtain ex where "select_connections rows (selection_key s # keys) ss = Inr (pending, ex)"
      using Cons.prems k r by (auto simp: res_bind_Inr)
    note h = Cons.IH [OF this]
    show ?thesis using h r True by auto
  next
    case False
    then have t: "\<not> truthy (cv_binding_id r)" using Cons.prems k r by (auto split: if_splits)
    let ?f = "filter (\<lambda>c. allows (cs_target_service_id s) (cd_service_id c) \<and> allows (cs_target_view_id s) (cd_view_id c)) (cv_candidates r)"
    obtain c where c: "?f = [c]" using Cons.prems k r t False by (cases ?f rule: remdups_adj.cases) auto
    then obtain p ex where p: "select_connections rows (selection_key s # keys) ss = Inr (p, ex)" "pending = (r, c) # p"
      using Cons.prems k r t False by (auto simp: res_bind_Inr)
    have "c \<in> set ?f" unfolding c by simp
    then have ch: "chosen rows s (r, c)" using r t by (simp add: chosen_def)
    note h = Cons.IH [OF p(1)]
    have "row_key r = selection_key s" by (rule selected_row_key [OF r])
    then show ?thesis using h ch k unfolding p(2) by auto
  qed
qed simp

section \<open>The configuration after an approval\<close>

definition added_bindings ::
    "app \<Rightarrow> string \<Rightarrow> (nat \<Rightarrow> string) \<Rightarrow> nat \<Rightarrow> (connection_view \<times> connection_candidate) list \<Rightarrow> m2m_binding list" where
  "added_bindings a now uuid n rcs = map (\<lambda>k. new_binding a now (uuid (n + 2 * k)) (rcs ! k)) [0..<length rcs]"

definition added_grants ::
    "app \<Rightarrow> string \<Rightarrow> (nat \<Rightarrow> string) \<Rightarrow> nat \<Rightarrow> (connection_view \<times> connection_candidate) list \<Rightarrow> m2m_grant list" where
  "added_grants a now uuid n rcs = map (\<lambda>k. new_grant a now (uuid (n + 2 * k + 1)) (uuid (n + 2 * k)) (fst (rcs ! k))) [0..<length rcs]"

lemma added_Cons:
  "added_bindings a now uuid n (rc # rcs) = new_binding a now (uuid n) rc # added_bindings a now uuid (n + 2) rcs"
  "added_grants a now uuid n (rc # rcs) = new_grant a now (uuid (n + 1)) (uuid n) (fst rc) # added_grants a now uuid (n + 2) rcs"
  by (simp_all add: added_bindings_def added_grants_def upt_conv_Cons map_Suc_upt [symmetric] comp_def del: upt_Suc)

lemma connect_eq:
  "connect a now uuid n rcs cfg =
     cfg\<lparr>st_bindings := st_bindings cfg @ added_bindings a now uuid n rcs, st_grants := st_grants cfg @ added_grants a now uuid n rcs\<rparr>"
proof (induction rcs arbitrary: n cfg)
  case Nil
  then show ?case by (simp add: added_bindings_def added_grants_def)
next
  case (Cons rc rcs)
  show ?case by (simp add: Cons.IH added_Cons)
qed

abbreviation rebind :: "m2m_binding list \<Rightarrow> m2m_grant list \<Rightarrow> stored_config \<Rightarrow> stored_config" where
  "rebind bs gs cfg \<equiv> cfg\<lparr>st_bindings := bs, st_grants := gs\<rparr>"

lemma rebind_services [simp]:
  "get_available_service_instance_ids_for_app (rebind bs gs cfg) a = get_available_service_instance_ids_for_app cfg a"
  "service_details (rebind bs gs cfg) i = service_details cfg i"
  by (simp_all add: get_available_service_instance_ids_for_app_def active_platform_ids_def active_shared_ids_def
      service_details_def tenant_services_def cong: option.case_cong)

lemma rebind_keys: "manifest_keys (rebind bs gs cfg) i = manifest_keys cfg i"
  by (simp add: manifest_keys_def Let_def cong: option.case_cong)

lemma rebind_read: "read_manifest (rebind bs gs cfg) cache = read_manifest cfg cache"
  by (rule ext) (simp add: read_manifest_def cong: option.case_cong)

lemma rebind_cache [simp]:
  "get_cached_manifest_for_service (rebind bs gs cfg) cache i = get_cached_manifest_for_service cfg cache i"
  unfolding get_cached_manifest_for_service_def rebind_keys rebind_read by simp

lemma rebind_model [simp]:
  "candidates_for_request (rebind bs gs cfg) cache a q = candidates_for_request cfg cache a q"
  "app_requests (rebind bs gs cfg) cache a = app_requests cfg cache a"
  by (simp_all add: candidates_for_request_def app_requests_def service_requests_def cong: option.case_cong)

lemma filter_single:
  "distinct xs \<Longrightarrow> x \<in> set xs \<Longrightarrow> P x \<Longrightarrow> \<forall>y\<in>set xs. y \<noteq> x \<longrightarrow> \<not> P y \<Longrightarrow> filter P xs = [x]"
proof (induction xs)
  case (Cons y ys)
  show ?case
  proof (cases "y = x")
    case True
    then have "filter P ys = []" using Cons.prems by (auto simp: filter_empty_conv)
    with True Cons.prems show ?thesis by simp
  next
    case False
    then show ?thesis using Cons by simp
  qed
qed simp

lemma find_hd_filter: "List.find P xs = (case filter P xs of [] \<Rightarrow> None | x # _ \<Rightarrow> Some x)"
  by (induction xs) auto

lemma filter_map_index:
  assumes "k < m" "P (f k)" "\<And>j. j < m \<Longrightarrow> j \<noteq> k \<Longrightarrow> \<not> P (f j)"
  shows "filter P (map f [0..<m]) = [f k]"
proof -
  have "filter (P \<circ> f) [0..<m] = [k]" by (rule filter_single) (use assms in auto)
  then show ?thesis by (simp add: filter_map)
qed

text \<open>Connections that are there stay, and the new ones are complete.\<close>

lemma connected_stays:
  assumes c: "connection_connected cfg q cs (request_bindings cfg a i (mq_id q))"
    and none: "\<And>k. k < length rcs \<Longrightarrow> \<not> (cv_source_service_id (fst (rcs ! k)) = i \<and> cv_request_id (fst (rcs ! k)) = mq_id q)"
  shows "connection_status_of (connect a now uuid n rcs cfg) q cs (request_bindings (connect a now uuid n rcs cfg) a i (mq_id q)) = Connected"
proof -
  let ?cfg = "connect a now uuid n rcs cfg"
  obtain b where b: "request_bindings cfg a i (mq_id q) = [b]" using c by (auto simp: connection_connected_def split: list.splits)
  have "filter (\<lambda>b. app_binding a b \<and> mbd_source_service_id b = i \<and> mbd_request_id b = mq_id q) (added_bindings a now uuid n rcs) = []"
    using none by (auto simp: added_bindings_def filter_empty_conv new_binding_def)
  then have e: "request_bindings ?cfg a i (mq_id q) = [b]" using b by (simp add: request_bindings_def connect_eq)
  obtain g where g: "List.find (\<lambda>g. mg_enabled g \<and> mg_binding_id g = mbd_id b) (st_grants cfg) = Some g"
    using c by (auto simp: connection_connected_def b grant_matches_def split: option.splits)
  have "List.find (\<lambda>g. mg_enabled g \<and> mg_binding_id g = mbd_id b) (st_grants cfg @ gs) = Some g" for gs
    using g by (simp add: find_hd_filter split: list.splits)
  then have "List.find (\<lambda>g. mg_enabled g \<and> mg_binding_id g = mbd_id b) (st_grants ?cfg) = Some g" by (simp add: connect_eq)
  then show ?thesis using c g unfolding connection_status_of_def e b connection_connected_def by simp
qed

lemma new_connected:
  assumes k: "k < length rcs" "rcs ! k = (connection_row cfg cache a i q, c)" "c \<in> set (candidates_for_request cfg cache a q)"
    and none: "request_bindings cfg a i (mq_id q) = []"
    and single: "\<And>j. j < length rcs \<Longrightarrow> j \<noteq> k \<Longrightarrow> \<not> (cv_source_service_id (fst (rcs ! j)) = i \<and> cv_request_id (fst (rcs ! j)) = mq_id q)"
    and fresh: "inj uuid" "\<And>k. uuid k \<notin> set (map mg_binding_id (st_grants cfg))"
  shows "connection_status_of (connect a now uuid n rcs cfg) q (candidates_for_request cfg cache a q)
      (request_bindings (connect a now uuid n rcs cfg) a i (mq_id q)) = Connected"
proof -
  let ?cfg = "connect a now uuid n rcs cfg"
  let ?b = "new_binding a now (uuid (n + 2 * k)) (rcs ! k)"
  have "filter (\<lambda>b. app_binding a b \<and> mbd_source_service_id b = i \<and> mbd_request_id b = mq_id q) (added_bindings a now uuid n rcs) = [?b]"
    unfolding added_bindings_def
    by (rule filter_map_index [OF k(1)]) (use k(2) single in \<open>auto simp: new_binding_def app_binding_def\<close>)
  then have e: "request_bindings ?cfg a i (mq_id q) = [?b]" using none by (simp add: request_bindings_def connect_eq)
  let ?P = "\<lambda>g. mg_enabled g \<and> mg_binding_id g = mbd_id ?b"
  have b: "mbd_id ?b = uuid (n + 2 * k)" "mbd_mode ?b = mq_mode q" "mbd_contract_id ?b = mq_contract_id q"
    "mbd_target_service_id ?b = cd_service_id c" "mbd_target_view_id ?b = cd_view_id c"
    by (simp_all add: new_binding_def k(2))
  let ?g = "new_grant a now (uuid (n + 2 * k + 1)) (uuid (n + 2 * k)) (fst (rcs ! k))"
  have "uuid (n + 2 * k) \<notin> mg_binding_id ` set (st_grants cfg)" using fresh(2) by simp
  then have "filter ?P (st_grants cfg) = []" by (force simp: filter_empty_conv b(1))
  moreover have "filter ?P (added_grants a now uuid n rcs) = [?g]"
    unfolding added_grants_def b(1)
  proof (rule filter_map_index [OF k(1)])
    show "mg_enabled ?g \<and> mg_binding_id ?g = uuid (n + 2 * k)" by (simp add: new_grant_def)
  next
    fix j assume "j \<noteq> k"
    then have "uuid (n + 2 * j) \<noteq> uuid (n + 2 * k)" using fresh(1) by (simp add: inj_eq)
    then show "\<not> (mg_enabled (new_grant a now (uuid (n + 2 * j + 1)) (uuid (n + 2 * j)) (fst (rcs ! j))) \<and>
        mg_binding_id (new_grant a now (uuid (n + 2 * j + 1)) (uuid (n + 2 * j)) (fst (rcs ! j))) = uuid (n + 2 * k))"
      by (simp add: new_grant_def)
  qed
  ultimately have g: "List.find ?P (st_grants ?cfg) = Some ?g" by (simp add: find_hd_filter connect_eq)
  have m: "grant_matches q (Some ?g)" by (simp add: grant_matches_def new_grant_def k(2) list_all_iff)
  have "connection_connected ?cfg q (candidates_for_request cfg cache a q) [?b]"
    using m k(3) b unfolding connection_connected_def list.case g by (auto simp: list_ex_iff)
  then show ?thesis unfolding connection_status_of_def e by simp
qed

section \<open>Approved connections work\<close>

lemma chosen_offered:
  assumes a: "List.find (\<lambda>a. app_id a = aid) (pc_apps cfg) = Some a"
    and ch: "chosen (build_m2m_connection_model compare cfg cache aid) s rc"
  obtains q where "(cs_source_service_id s, q) \<in> set (app_requests cfg cache a)" "mq_id q = cs_request_id s"
    "fst rc = connection_row cfg cache a (cs_source_service_id s) q" "snd rc \<in> set (candidates_for_request cfg cache a q)"
proof -
  let ?r = "fst rc"
  have f: "List.find (selected_row s) (build_m2m_connection_model compare cfg cache aid) = Some ?r"
    "snd rc \<in> set (cv_candidates ?r)" using ch by (simp_all add: chosen_def)
  have r: "?r \<in> set (build_m2m_connection_model compare cfg cache aid)" "selected_row s ?r" using find_SomeD [OF f(1)] by simp_all
  have "?r \<noteq> orphan_row cfg b" for b using f(2) by (auto simp: orphan_row_def)
  then obtain i q where iq: "(i, q) \<in> set (app_requests cfg cache a)" "?r = connection_row cfg cache a i q"
    using model_rows [OF a r(1)] by blast
  have "i = cs_source_service_id s" "mq_id q = cs_request_id s" using r(2) by (simp_all add: iq(2) selected_row_def)
  with that [of q] iq f(2) show thesis by simp
qed

lemma chosen_row:
  assumes a: "List.find (\<lambda>a. app_id a = aid) (pc_apps cfg) = Some a"
    and ids: "[] \<notin> set (map mbd_id (st_bindings cfg))"
    and ch: "chosen (build_m2m_connection_model compare cfg cache aid) s rc"
  obtains q where "(cs_source_service_id s, q) \<in> set (app_requests cfg cache a)" "mq_id q = cs_request_id s"
    "fst rc = connection_row cfg cache a (cs_source_service_id s) q" "request_bindings cfg a (cs_source_service_id s) (mq_id q) = []"
    "snd rc \<in> set (candidates_for_request cfg cache a q)"
proof -
  obtain q where q: "(cs_source_service_id s, q) \<in> set (app_requests cfg cache a)" "mq_id q = cs_request_id s"
    "fst rc = connection_row cfg cache a (cs_source_service_id s) q" "snd rc \<in> set (candidates_for_request cfg cache a q)"
    by (rule chosen_offered [OF a ch])
  have "request_bindings cfg a (cs_source_service_id s) (mq_id q) = []"
  proof (cases "request_bindings cfg a (cs_source_service_id s) (mq_id q)")
    case (Cons b bs)
    then have "b \<in> set (request_bindings cfg a (cs_source_service_id s) (mq_id q))" by simp
    then have "mbd_id b \<noteq> []" using ids by (force simp: request_bindings_def)
    then have "truthy (cv_binding_id (fst rc))" by (simp add: q(3) connection_row_binding Cons truthy_iff)
    with ch show ?thesis by (simp add: chosen_def)
  qed
  with that q show thesis by blast
qed

text \<open>
  C27: a connection an operator approves is connected afterwards: the model of the saved
  configuration shows it as such, with a single binding to a compatible provider and a grant
  that covers every method and permission the caller's manifest asks for. It needs UUIDs that
  no binding or grant uses yet.
\<close>
theorem approved_connections_connected:
  assumes ok: "approve_m2m_connections compare cfg cache uuid n now aid ss = Inr (cfg', created, existing)"
    and fresh: "inj uuid" "\<And>k. uuid k \<notin> set (map mg_binding_id (st_grants cfg))" "[] \<notin> set (map mbd_id (st_bindings cfg))"
  shows "list_all (\<lambda>s. list_ex (\<lambda>r. selected_row s r \<and> cv_status r = Connected) (build_m2m_connection_model compare cfg' cache aid)) ss"
proof -
  obtain a where a: "List.find (\<lambda>a. app_id a = aid) (pc_apps cfg) = Some a" using ok by (auto simp: approve_m2m_connections_def split: option.splits)
  let ?rows = "build_m2m_connection_model compare cfg cache aid"
  obtain rcs ex where sel: "select_connections ?rows [] ss = Inr (rcs, ex)" and cfg': "cfg' = connect a now uuid n rcs cfg"
    using ok by (auto simp: approve_m2m_connections_def a res_bind_Inr split: if_splits)
  note facts = select_connections_facts [OF sel]
  have a': "List.find (\<lambda>a. app_id a = aid) (pc_apps cfg') = Some a" by (simp add: cfg' connect_eq a)
  have good: "list_ex (\<lambda>r. selected_row s r \<and> cv_status r = Connected) (build_m2m_connection_model compare cfg' cache aid)"
    if "(cs_source_service_id s, q) \<in> set (app_requests cfg cache a)" "mq_id q = cs_request_id s"
      "connection_status_of cfg' q (candidates_for_request cfg cache a q) (request_bindings cfg' a (cs_source_service_id s) (mq_id q)) = Connected"
    for s q
  proof -
    have "connection_row cfg' cache a (cs_source_service_id s) q \<in> set (build_m2m_connection_model compare cfg' cache aid)"
      by (rule model_has_row [OF a']) (simp add: cfg' connect_eq that(1))
    moreover have "candidates_for_request cfg' cache a q = candidates_for_request cfg cache a q" by (simp add: cfg' connect_eq)
    ultimately show ?thesis using that(2,3) unfolding list_ex_iff
      by (intro bexI [of _ "connection_row cfg' cache a (cs_source_service_id s) q"]) (simp_all add: selected_row_def)
  qed
  have key: "row_key (fst (rcs ! j)) = selection_key s"
    if "cv_source_service_id (fst (rcs ! j)) = cs_source_service_id s \<and> cv_request_id (fst (rcs ! j)) = cs_request_id s" for j s
    using that by (simp add: row_key_def selection_key_def)
  have "list_ex (\<lambda>r. selected_row s r \<and> cv_status r = Connected) (build_m2m_connection_model compare cfg' cache aid)" if s: "s \<in> set ss" for s
  proof -
    consider (old) r where "List.find (selected_row s) ?rows = Some r" "cv_status r = Connected"
      | (new) rc where "rc \<in> set rcs" "chosen ?rows s rc" using facts s by blast
    then show ?thesis
    proof cases
      case old
      have r: "r \<in> set ?rows" "selected_row s r" using find_SomeD [OF old(1)] by simp_all
      have "r \<noteq> orphan_row cfg b" for b using old(2) by (auto simp: orphan_row_def)
      then obtain i q where iq: "(i, q) \<in> set (app_requests cfg cache a)" "r = connection_row cfg cache a i q"
        using model_rows [OF a r(1)] by blast
      have s': "i = cs_source_service_id s" "mq_id q = cs_request_id s" using r(2) by (simp_all add: iq(2) selected_row_def)
      have c: "connection_connected cfg q (candidates_for_request cfg cache a q) (request_bindings cfg a i (mq_id q))"
        using old(2) by (simp add: iq(2) connection_status_of_def split: if_splits)
      have "\<not> (cv_source_service_id (fst (rcs ! k)) = i \<and> cv_request_id (fst (rcs ! k)) = mq_id q)" if k: "k < length rcs" for k
      proof
        assume e: "cv_source_service_id (fst (rcs ! k)) = i \<and> cv_request_id (fst (rcs ! k)) = mq_id q"
        obtain s2 where s2: "chosen ?rows s2 (rcs ! k)" using facts nth_mem [OF k] by blast
        have "selected_row s2 (fst (rcs ! k))" using s2 find_SomeD by (fastforce simp: chosen_def)
        then have "selected_row s2 = selected_row s" using e s' by (auto simp: selected_row_def fun_eq_iff)
        then have "fst (rcs ! k) = r" using s2 old(1) by (simp add: chosen_def)
        obtain q2 where "fst (rcs ! k) = connection_row cfg cache a (cs_source_service_id s2) q2"
          "request_bindings cfg a (cs_source_service_id s2) (mq_id q2) = []"
          using chosen_row [OF a fresh(3) s2] by blast
        then have "cv_status (fst (rcs ! k)) \<noteq> Connected" by (simp add: connection_status_of_def)
        with \<open>fst (rcs ! k) = r\<close> old(2) show False by simp
      qed
      from connected_stays [OF c this, of now uuid n] show ?thesis
        using good [of s q] iq(1) s' unfolding cfg' by simp
    next
      case new
      obtain q where q: "(cs_source_service_id s, q) \<in> set (app_requests cfg cache a)" "mq_id q = cs_request_id s"
        "fst rc = connection_row cfg cache a (cs_source_service_id s) q" "request_bindings cfg a (cs_source_service_id s) (mq_id q) = []"
        "snd rc \<in> set (candidates_for_request cfg cache a q)"
        by (rule chosen_row [OF a fresh(3) new(2)])
      obtain k where k: "k < length rcs" "rcs ! k = rc" using new(1) by (auto simp: in_set_conv_nth)
      have rk: "rcs ! k = (connection_row cfg cache a (cs_source_service_id s) q, snd rc)" using k(2) q(3) by (metis prod.collapse)
      have d: "\<not> (cv_source_service_id (fst (rcs ! j)) = cs_source_service_id s \<and> cv_request_id (fst (rcs ! j)) = mq_id q)"
        if j: "j < length rcs" "j \<noteq> k" for j
      proof
        assume e: "cv_source_service_id (fst (rcs ! j)) = cs_source_service_id s \<and> cv_request_id (fst (rcs ! j)) = mq_id q"
        have "row_key (fst (rcs ! j)) = row_key (fst (rcs ! k))" using e key [of j s] by (simp add: rk q(2) row_key_def selection_key_def)
        moreover have "distinct (map (\<lambda>rc. row_key (fst rc)) rcs)" using facts by blast
        ultimately show False using j k(1) by (simp add: distinct_conv_nth)
      qed
      from new_connected [OF k(1) rk q(5,4) d fresh(1,2), of now n] show ?thesis
        using good [OF q(1,2)] unfolding cfg' by simp
    qed
  qed
  then show ?thesis by (simp add: list_all_iff)
qed

section \<open>Approvals stay within what is offered\<close>

definition offered_connection ::
    "stored_config \<Rightarrow> (string, manifest_entry) jsmap \<Rightarrow> app \<Rightarrow> m2m_binding \<Rightarrow> m2m_grant \<Rightarrow> bool" where
  "offered_connection cfg cache a b g \<longleftrightarrow>
     mbd_tenant_id b = app_tenant_id a \<and> mbd_app_id b = Some (app_id a) \<and>
     mg_tenant_id g = app_tenant_id a \<and> mg_app_id g = Some (app_id a) \<and> mg_binding_id g = mbd_id b \<and>
     mbd_target_service_id b \<in> set (get_available_service_instance_ids_for_app cfg a) \<and>
     list_ex (\<lambda>(i, q). i = mbd_source_service_id b \<and> mq_id q = mbd_request_id b \<and>
         mg_methods g = mq_methods q \<and> mg_permissions g = mq_permissions q \<and>
         (case get_cached_manifest_for_service cfg cache (mbd_target_service_id b) of
            None \<Rightarrow> False
          | Some m \<Rightarrow> list_ex (\<lambda>c. ac_view_id c = mbd_target_view_id b \<and> compatible_contract q c) (me_api_contracts m)))
       (app_requests cfg cache a)"

lemma candidate_offered:
  assumes "c \<in> set (candidates_for_request cfg cache a q)"
  shows "cd_service_id c \<in> set (get_available_service_instance_ids_for_app cfg a)"
    "\<exists>m. get_cached_manifest_for_service cfg cache (cd_service_id c) = Some m \<and>
       list_ex (\<lambda>x. ac_view_id x = cd_view_id c \<and> compatible_contract q x) (me_api_contracts m)"
proof -
  obtain i where i: "i \<in> set (get_available_service_instance_ids_for_app cfg a)" and c: "c \<in> set (case get_cached_manifest_for_service cfg cache i of
            None \<Rightarrow> []
          | Some m \<Rightarrow> map (\<lambda>c. \<lparr>cd_service_id = i, cd_service_title = fst (service_details cfg i),
                               cd_service_type = snd (service_details cfg i), cd_view_id = ac_view_id c\<rparr>)
                     (filter (compatible_contract q) (me_api_contracts m)))"
    using set_first_by assms unfolding candidates_for_request_def by fastforce
  then obtain m x where x: "get_cached_manifest_for_service cfg cache i = Some m" "x \<in> set (me_api_contracts m)"
      "compatible_contract q x" "cd_service_id c = i" "cd_view_id c = ac_view_id x"
    by (cases "get_cached_manifest_for_service cfg cache i") auto
  with i show "cd_service_id c \<in> set (get_available_service_instance_ids_for_app cfg a)"
    "\<exists>m. get_cached_manifest_for_service cfg cache (cd_service_id c) = Some m \<and>
       list_ex (\<lambda>x. ac_view_id x = cd_view_id c \<and> compatible_contract q x) (me_api_contracts m)"
    by (auto simp: list_ex_iff)
qed

text \<open>
  C28: an approval adds to the configuration exactly one binding and one grant for each new
  connection, and each of them stays within what both manifests declare: the source asked for
  it, the target is available to the app and publishes a compatible contract on that view, and
  the grant gives the methods and permissions of the request, in that app of that tenant only.
\<close>
theorem approval_within_offer:
  assumes ok: "approve_m2m_connections compare cfg cache uuid n now aid ss = Inr (cfg', created, existing)"
  shows "\<exists>a bs gs. List.find (\<lambda>a. app_id a = aid) (pc_apps cfg) = Some a \<and>
    cfg' = cfg\<lparr>st_bindings := st_bindings cfg @ bs, st_grants := st_grants cfg @ gs\<rparr> \<and>
    list_all2 (offered_connection cfg cache a) bs gs"
proof -
  obtain a where a: "List.find (\<lambda>a. app_id a = aid) (pc_apps cfg) = Some a" using ok by (auto simp: approve_m2m_connections_def split: option.splits)
  let ?rows = "build_m2m_connection_model compare cfg cache aid"
  obtain rcs ex where sel: "select_connections ?rows [] ss = Inr (rcs, ex)" and cfg': "cfg' = connect a now uuid n rcs cfg"
    using ok by (auto simp: approve_m2m_connections_def a res_bind_Inr split: if_splits)
  have "offered_connection cfg cache a (new_binding a now (uuid (n + 2 * k)) (rcs ! k))
      (new_grant a now (uuid (n + 2 * k + 1)) (uuid (n + 2 * k)) (fst (rcs ! k)))" if k: "k < length rcs" for k
  proof -
    obtain s where s: "chosen ?rows s (rcs ! k)" using select_connections_facts [OF sel] nth_mem [OF k] by blast
    obtain q where q: "(cs_source_service_id s, q) \<in> set (app_requests cfg cache a)"
      "fst (rcs ! k) = connection_row cfg cache a (cs_source_service_id s) q" "snd (rcs ! k) \<in> set (candidates_for_request cfg cache a q)"
      using chosen_offered [OF a s] by metis
    note c = candidate_offered [OF q(3)]
    obtain m where m: "get_cached_manifest_for_service cfg cache (cd_service_id (snd (rcs ! k))) = Some m"
      "list_ex (\<lambda>x. ac_view_id x = cd_view_id (snd (rcs ! k)) \<and> compatible_contract q x) (me_api_contracts m)" using c(2) by blast
    show ?thesis unfolding offered_connection_def list_ex_iff [where xs = "app_requests cfg cache a"]
      using c(1) m by (intro conjI bexI [OF _ q(1)]) (simp_all add: new_binding_def new_grant_def q(2))
  qed
  then have "list_all2 (offered_connection cfg cache a) (added_bindings a now uuid n rcs) (added_grants a now uuid n rcs)"
    by (simp add: list_all2_conv_all_nth added_bindings_def added_grants_def)
  then show ?thesis using a by (auto simp: cfg' connect_eq)
qed

lemma revoked_connection_gone:
  assumes "revoke_m2m_connection cfg aid binding_id = Some cfg'"
  shows "binding_id \<notin> set (map mbd_id (po_bindings (m2m_policy_for cfg' i)))"
    "binding_id \<notin> set (map mg_binding_id (po_grants (m2m_policy_for cfg' i)))"
    "filter (\<lambda>b. mbd_id b \<noteq> binding_id) (st_bindings cfg) = st_bindings cfg'"
    "filter (\<lambda>g. mg_binding_id g \<noteq> binding_id) (st_grants cfg) = st_grants cfg'"
  using assms by (auto simp: revoke_m2m_connection_def m2m_policy_for_def Let_def split: option.splits if_splits)

section \<open>Two services of a sample app\<close>

definition sample_asker :: manifest_entry where
  "sample_asker = \<lparr>me_service_id = ''src'', me_manifest_version = ''1'', me_fetched_at = 0, me_title = None,
     me_auth_provider = None, me_capabilities = [],
     me_m2m_requests = [\<lparr>mq_id = ''levels'', mq_title = ''Levels'', mq_contract_id = ''stock'', mq_version = None,
       mq_required_capabilities = [], mq_methods = [GET], mq_permissions = [''read''], mq_mode = Service_to_service, mq_optional = False\<rparr>],
     me_api_contracts = [], me_shell = None, me_view_index = []\<rparr>"

definition sample_provider_manifest :: manifest_entry where
  "sample_provider_manifest = \<lparr>me_service_id = ''dst'', me_manifest_version = ''1'', me_fetched_at = 0, me_title = None,
     me_auth_provider = None, me_capabilities = [], me_m2m_requests = [],
     me_api_contracts = [\<lparr>ac_id = ''stock'', ac_title = ''Stock'', ac_version = ''1'', ac_capabilities = [],
       ac_permissions = [''read'', ''write''], ac_modes = None, ac_view_id = ''level'', ac_methods = [GET, POST]\<rparr>],
     me_shell = None, me_view_index = []\<rparr>"

definition unconnected_config :: stored_config where
  "unconnected_config = sample_stored\<lparr>pc_manifest_cache := [sample_asker, sample_provider_manifest], st_bindings := [], st_grants := []\<rparr>"

definition sample_uuid :: "nat \<Rightarrow> string" where
  "sample_uuid n = replicate (Suc n) (CHR ''u'')"

definition sample_compare :: "string \<Rightarrow> string \<Rightarrow> int" where
  "sample_compare s t = 0"

definition sample_selection :: connection_selection where
  "sample_selection = \<lparr>cs_source_service_id = ''src'', cs_request_id = ''levels'', cs_target_service_id = None, cs_target_view_id = None\<rparr>"

lemma sample_uuid_facts: "inj sample_uuid" "sample_uuid k \<notin> set (map mg_binding_id (st_grants unconnected_config))"
  "[] \<notin> set (map mbd_id (st_bindings unconnected_config))"
  by (auto simp: inj_def sample_uuid_def unconnected_config_def dest: arg_cong [of _ _ length])

lemma sample_approval:
  "is_ok (approve_m2m_connections sample_compare unconnected_config [] sample_uuid 0 ''now'' ''a'' [sample_selection])"
  by code_simp

lemma approved_connections_connected_witness:
  "\<exists>cfg' created existing. approve_m2m_connections sample_compare unconnected_config [] sample_uuid 0 ''now'' ''a'' [sample_selection]
      = Inr (cfg', created, existing) \<and>
    list_all (\<lambda>s. list_ex (\<lambda>r. selected_row s r \<and> cv_status r = Connected) (build_m2m_connection_model sample_compare cfg' [] ''a''))
      [sample_selection]"
proof -
  obtain cfg' created existing where ok: "approve_m2m_connections sample_compare unconnected_config [] sample_uuid 0 ''now'' ''a'' [sample_selection]
      = Inr (cfg', created, existing)" using sample_approval by (auto simp: is_ok_iff)
  with approved_connections_connected [OF ok sample_uuid_facts(1) sample_uuid_facts(2,3)] show ?thesis by blast
qed

lemma approval_within_offer_witness:
  "\<exists>cfg' created existing a bs gs. approve_m2m_connections sample_compare unconnected_config [] sample_uuid 0 ''now'' ''a'' [sample_selection]
      = Inr (cfg', created, existing) \<and> list_all2 (offered_connection unconnected_config [] a) bs gs"
proof -
  obtain cfg' created existing where ok: "approve_m2m_connections sample_compare unconnected_config [] sample_uuid 0 ''now'' ''a'' [sample_selection]
      = Inr (cfg', created, existing)" using sample_approval by (auto simp: is_ok_iff)
  from approval_within_offer [OF ok] show ?thesis using ok by blast
qed

end
