(* ===== verification/Spec2Isabelle.thy ===== *)
theory Spec2Isabelle
  imports Media Hosts Uuid PlatformConfig ConfigProvider MountedRoutes Json RouteRegistry ManifestBuilder
    ScanValidate Sse StreamDriver Tokens ServiceToken TokenIssuer ThemeMenu ConfigStore ServiceConfigRoutes Redirect RequestAuth ScopedConfig ServiceEndpoint PlatformStore Install ManagementAccess Pairing
    RouteMounts Dependencies RolePermissions Connections
begin

text \<open>
  A verification development for BetterPortal, a platform on which independent web services share one
  portal. A control plane (the config manager, CM below) owns the configuration: tenants, their
  apps, the services they use, roles, and which service may call which. Every other service is built
  on the framework (\<open>src/framework/nodejs/src\<close>, FW below) and on the plugin
  \<open>src/plugins/nodejs/betterportal-bsb/src/service.ts\<close> (BSB below). It is paired with the control
  plane once, receives the part of the configuration it is entitled to, and decides on every request
  for which tenant and app it is, who calls, and whether the caller may. Only the operations that
  carry such decisions are modelled; reading and writing sockets, files and databases is not.

  \<^bold>\<open>How the theories follow the code.\<close> An operation of the source is one definition of the same name (in
  snake case), records and enums are records and datatypes, an exception or an error reply is the
  left summand of a sum or an option, and what a class keeps is a record that its operations take and
  return. Where a handler awaits, the code between two awaits is one step, and an inductive relation
  interleaves the steps of any number of requests. The header of each theory names its parameters.

  \<^item> \<open>Prelude_JS\<close>, \<open>UriComponent\<close>, \<open>Json\<close>, \<open>Uuid\<close>: what the code takes from its language (strings as
    lists of code units, Maps and records in insertion order with the laws of the locale
    \<open>keyed_store\<close>, exceptions, \<open>encodeURIComponent\<close>), FW \<open>contracts/json.ts\<close> and \<open>runtime/uuid.ts\<close> on
    machine words.
  \<^item> \<open>Media\<close>, \<open>Hosts\<close>: FW \<open>runtime/media.ts\<close>, \<open>runtime/view.ts\<close>, \<open>runtime/http.ts\<close>: the representation a
    request asks for and the hosts it may be for.
  \<^item> \<open>PlatformConfig\<close>, \<open>ConfigProvider\<close>, \<open>MountedRoutes\<close>: FW \<open>contracts/platformConfig.ts\<close>, \<open>contracts/auth.ts\<close>
    and \<open>runtime/configProvider.ts\<close>: the configuration, the tenant and app of a request, the services
    of a tenant, page paths and their parameters.
  \<^item> \<open>ScanValidate\<close>, \<open>RouteRegistry\<close>, \<open>ManifestBuilder\<close>: FW \<open>codegen/validate.ts\<close> and \<open>runtime/registry.ts\<close>:
    which scanned sources are accepted, which route answers a request, what a service publishes.
  \<^item> \<open>Tokens\<close>, \<open>ServiceToken\<close>, \<open>TokenIssuer\<close>, \<open>ThemeMenu\<close>, \<open>Redirect\<close>: FW \<open>runtime/auth\<close> and
    \<open>runtime/configTicket.ts\<close>: the five token verifiers (their header checks share the locale
    \<open>jwt_gate\<close>), tokens between services, issuing and elevation, the menu of a user.
  \<^item> \<open>RequestAuth\<close>: the part of FW \<open>adapters/h3.ts\<close> before a handler runs: inputs, the app's route
    allowlist, authentication, permissions, elevation, tenant check, and the same for event streams.
  \<^item> \<open>StreamDriver\<close>, \<open>Sse\<close>: FW \<open>runtime/stream.ts\<close> and \<open>runtime/sse.ts\<close>: the frames of a stream, and the
    publish/subscribe hub as a step relation.
  \<^item> \<open>ConfigStore\<close>, \<open>ServiceConfigRoutes\<close>, \<open>ScopedConfig\<close>: FW \<open>runtime/configStore.ts\<close>,
    \<open>runtime/serviceConfig.ts\<close> and \<open>contracts/controlPlane.ts\<close>: values per tenant and app in memory
    and in an encrypted file (both interpret the locale \<open>config_store\<close>, and with the routes in front
    of them \<open>served_store\<close>), and the configuration a service is sent.
  \<^item> \<open>ServiceEndpoint\<close>, \<open>Install\<close>: BSB: what every service does around those parts, and how it is
    paired with its control plane.
  \<^item> \<open>PlatformStore\<close>, \<open>Pairing\<close>, \<open>ManagementAccess\<close>: CM \<open>storage/core.ts\<close>, \<open>storage/file.ts\<close>,
    \<open>setupTokens.ts\<close>, \<open>accessControl.ts\<close>: API keys, entitlements, setup tokens and registration on the
    control plane, and the guard of its administration.
  \<^item> \<open>RouteMounts\<close>, \<open>Dependencies\<close>, \<open>RolePermissions\<close>, \<open>Connections\<close>: CM \<open>routeMounts.ts\<close>, \<open>syncApi.ts\<close>,
    \<open>roleAuthority.ts\<close>, \<open>m2mConnections.ts\<close>: what happens to an app's routes, roles and connections
    when a service publishes a manifest.

  \<^bold>\<open>A request, end to end.\<close> \<open>serve_request\<close> of \<open>ServiceEndpoint\<close> passes the cross-origin gate, finds the context with
  \<open>ConfigProvider\<close> over the \<open>ScopedConfig\<close>, and calls \<open>admit_request\<close> of \<open>RequestAuth\<close> with hooks that verify
  with \<open>Tokens\<close> and \<open>ServiceToken\<close>. The scoped configuration is what \<open>get_scoped_config\<close> of \<open>PlatformStore\<close>
  built for the API key that \<open>Pairing\<close> granted and \<open>Install\<close> stored.

  \<^bold>\<open>What the lemmas show.\<close> Verification is sound: an accepted token implies every check
  (\<open>verify_jwt_sound\<close>, \<open>authorize_service_token_sound\<close>, \<open>untrusted_header_rejected\<close>). Admission is sound:
  caller, elevation, route and tenant of a request that is served (\<open>admitted_*\<close>, \<open>elevated_*\<close>,
  \<open>served_request_tenant_bound\<close>, \<open>tenant_lock_exclusive\<close>). Stores keep their contracts: the encrypted file
  refines the memory store and no secret rests in clear. Pairing is single use, writes to the
  configuration are not lost, and what one registration may change is bounded. The configuration
  that is sent makes calls between services succeed (\<open>federated_call_accepted\<close>) and holds nothing
  beyond the entitlement. Manifest processing ends and computes a least set of routes and exactly
  the derived grants. The hub is bounded and loses no wake-up, streams are delivered in order.
  Several facts record where the code differs from its own documents, such as
  \<open>stream_skips_elevation\<close>.

  \<^bold>\<open>Bounds.\<close> The constants are those of the source: queues of 256 events, four concurrent verifications, a
  minute for service tokens, the menu and JSON depth limits, the scrypt cost 32768. No model runs on
  fuel. The loop over dependency passes is a \<open>partial_function\<close> whose return is proved
  (\<open>dependency_routes_least\<close>), as each pass that changes something raises the number of enabled or
  present routes, which the manifests bound; the queue of a role's derivation is a total function with a measure.

  \<^bold>\<open>Parameters.\<close> The WHATWG URL parser, the JWT library, schema validation, the cipher, key hash, key
  download, clocks, UUIDs, disks and remote replies are arguments. Where a property relies on one,
  the assumption is in its statement, and a witness instantiates it.

  \<^bold>\<open>Simplifications.\<close> Strings have code units up to 255 and records no keys of \<open>Object.prototype\<close>. A schema
  that an operation declares as \<open>undefined\<close> counts as not declared. Issuing an elevated token reads
  the clock once. A write to the file store does not fail. Fields that no modelled operation reads
  are left out of the records.

  \<^bold>\<open>Not modelled.\<close> Rendering, theme shells and the browser runtime (they work on DOM and JSX objects); the
  route scanner (syntax trees of the TypeScript compiler) and code emission; the database backend;
  the editing handlers of the administration, preview environments and webhooks; crawler
  documents; the sign-in services, the registry, the documentation site and the automations.
\<close>

end
